(* ===== verification/Prelude.thy ===== *)
theory Prelude
  imports Main "HOL-Library.Char_ord"
begin

text \<open>
  Shared vocabulary of the development: the collections of facts the component theories add
  to, the JavaScript string operations the source uses (decimal digits, \<open>split\<close>,
  \<open>padStart\<close>, \<open>padEnd\<close>, template strings), and generic lemmas on lists.

  A JavaScript string is a list of characters here; code units above 255 do not occur in any
  value the modelled code inspects.
\<close>

named_theorems row_simps \<open>field equations of the mappers and of the entity operations\<close>
named_theorems comp_simps \<open>evaluation of the combinators of computations\<close>
named_theorems preserves_rules \<open>a computation keeps a predicate of the world\<close>
named_theorems step_dests \<open>what a computation that returned has done\<close>

section \<open>Decimal digits\<close>

definition is_digit :: "char \<Rightarrow> bool" where
  "is_digit c \<longleftrightarrow> 48 \<le> (of_char c :: nat) \<and> (of_char c :: nat) \<le> 57"

definition digit_char :: "nat \<Rightarrow> char" where
  "digit_char d = char_of (48 + d)"

definition digit_val :: "char \<Rightarrow> nat" where
  "digit_val c = of_char c - 48"

text \<open>\<open>BigInt(s)\<close> on a string of digits.\<close>

definition digits_val :: "string \<Rightarrow> nat" where
  "digits_val s = foldl (\<lambda>a c. 10 * a + digit_val c) 0 s"

text \<open>\<open>n.toString()\<close> for a non-negative and for any bigint.\<close>

fun nat_str :: "nat \<Rightarrow> string" where
  "nat_str n = (if n < 10 then [digit_char n] else nat_str (n div 10) @ [digit_char (n mod 10)])"

declare nat_str.simps [simp del]

definition int_str :: "int \<Rightarrow> string" where
  "int_str i = (if i < 0 then ''-'' @ nat_str (nat (- i)) else nat_str (nat i))"

lemma int_str_nonneg [simp]: "0 \<le> i \<Longrightarrow> int_str i = nat_str (nat i)"
  by (simp add: int_str_def)

text \<open>\<open>s.padStart(k, c)\<close> and \<open>s.padEnd(k, c)\<close> with a one-character filler.\<close>

definition pad_start :: "nat \<Rightarrow> char \<Rightarrow> string \<Rightarrow> string" where
  "pad_start k c s = replicate (k - length s) c @ s"

definition pad_end :: "nat \<Rightarrow> char \<Rightarrow> string \<Rightarrow> string" where
  "pad_end k c s = s @ replicate (k - length s) c"

text \<open>\<open>s.split(c)\<close> with a one-character separator.\<close>

fun split_on :: "char \<Rightarrow> string \<Rightarrow> string list" where
  "split_on c [] = [[]]"
| "split_on c (x # xs) =
     (if x = c then [] # split_on c xs
      else (case split_on c xs of [] \<Rightarrow> [[x]] | w # ws \<Rightarrow> (x # w) # ws))"

lemma of_char_digit_char [simp]: "d < 10 \<Longrightarrow> (of_char (digit_char d) :: nat) = 48 + d"
  by (simp add: digit_char_def)

lemma is_digit_digit_char [simp]: "d < 10 \<Longrightarrow> is_digit (digit_char d)"
  by (simp add: is_digit_def)

lemma digit_val_digit_char [simp]: "d < 10 \<Longrightarrow> digit_val (digit_char d) = d"
  by (simp add: digit_val_def)

lemma digit_val_less [simp]: "is_digit c \<Longrightarrow> digit_val c < 10"
  unfolding is_digit_def digit_val_def by linarith

lemma digit_not_dot [simp]: "\<not> is_digit (CHR ''.'')"
  by (simp add: is_digit_def)

lemma digits_val_Nil [simp]: "digits_val [] = 0"
  by (simp add: digits_val_def)

lemma digits_val_snoc [simp]: "digits_val (s @ [c]) = 10 * digits_val s + digit_val c"
  by (simp add: digits_val_def)

lemma digits_val_append: "digits_val (s @ t) = digits_val s * 10 ^ length t + digits_val t"
proof (induction t rule: rev_induct)
  case Nil
  then show ?case by simp
next
  case (snoc c t)
  then show ?case
    by (simp add: append_assoc [symmetric] algebra_simps del: append_assoc)
qed

lemma digits_val_zeros [simp]: "digits_val (replicate k (CHR ''0'')) = 0"
proof (induction k)
  case 0
  then show ?case by simp
next
  case (Suc k)
  have "replicate (Suc k) (CHR ''0'') = replicate k (CHR ''0'') @ [CHR ''0'']"
    by (simp add: replicate_append_same)
  with Suc show ?case by (simp add: digit_val_def del: replicate_Suc)
qed

lemma digits_val_less: "list_all is_digit s \<Longrightarrow> digits_val s < 10 ^ length s"
proof (induction s rule: rev_induct)
  case Nil
  then show ?case by simp
next
  case (snoc c s)
  then have "digits_val s < 10 ^ length s" "digit_val c < 10" by simp_all
  then show ?case by simp
qed

lemma nat_str_nonempty [simp]: "nat_str n \<noteq> []"
  by (subst nat_str.simps) simp

lemma nat_str_digits [simp]: "list_all is_digit (nat_str n)"
proof (induction n rule: nat_str.induct)
  case (1 n)
  then show ?case by (cases "n < 10") (simp_all add: nat_str.simps [of n])
qed

lemma digits_val_nat_str [simp]: "digits_val (nat_str n) = n"
proof (induction n rule: nat_str.induct)
  case (1 n)
  then show ?case
    by (cases "n < 10") (simp_all add: nat_str.simps [of n] digits_val_def)
qed

lemma length_nat_str_le: "n < 10 ^ k \<Longrightarrow> 0 < k \<Longrightarrow> length (nat_str n) \<le> k"
proof (induction n arbitrary: k rule: nat_str.induct)
  case (1 n)
  show ?case
  proof (cases "n < 10")
    case True
    with "1.prems" show ?thesis by (simp add: nat_str.simps [of n])
  next
    case False
    with "1.prems" obtain j where k: "k = Suc j" "0 < j"
      by (cases k; cases "k - 1") auto
    with "1.prems" have "n div 10 < 10 ^ j" by (simp add: less_mult_imp_div_less)
    with False "1.IH" k have "length (nat_str (n div 10)) \<le> j" by simp
    with False k show ?thesis by (simp add: nat_str.simps [of n])
  qed
qed

section \<open>Padding and splitting\<close>

lemma length_pad_start [simp]: "length (pad_start k c s) = max k (length s)"
  by (simp add: pad_start_def)

lemma length_pad_end [simp]: "length (pad_end k c s) = max k (length s)"
  by (simp add: pad_end_def)

lemma pad_end_id [simp]: "k \<le> length s \<Longrightarrow> pad_end k c s = s"
  by (simp add: pad_end_def)

lemma digits_val_pad_start [simp]: "digits_val (pad_start k (CHR ''0'') s) = digits_val s"
  by (simp add: pad_start_def digits_val_append)

lemma list_all_pad_start [simp]:
  "list_all is_digit s \<Longrightarrow> list_all is_digit (pad_start k (CHR ''0'') s)"
  by (auto simp: pad_start_def list_all_iff is_digit_def)

lemma split_on_nonempty [simp]: "split_on c s \<noteq> []"
  by (induction s) (auto split: list.splits)

lemma split_on_no_sep [simp]: "c \<notin> set s \<Longrightarrow> split_on c s = [s]"
  by (induction s) auto

lemma split_on_sep [simp]: "c \<notin> set s \<Longrightarrow> split_on c (s @ c # t) = s # split_on c t"
  by (induction s) auto

lemma digits_no_dot [simp]: "list_all is_digit s \<Longrightarrow> CHR ''.'' \<notin> set s"
  by (auto simp: list_all_iff)

lemma takeWhile_digits_append [simp]:
  "list_all is_digit s \<Longrightarrow> \<not> is_digit c \<Longrightarrow> takeWhile is_digit (s @ c # t) = s"
  by (simp add: list_all_iff takeWhile_append2)

lemma dropWhile_digits_append [simp]:
  "list_all is_digit s \<Longrightarrow> \<not> is_digit c \<Longrightarrow> dropWhile is_digit (s @ c # t) = c # t"
  by (simp add: list_all_iff dropWhile_append2)

section \<open>Sums over rows\<close>

text \<open>
  Replacing the value of one row in a table whose keys are distinct changes a sum over the
  table by the difference of the two values.
\<close>

lemma sum_list_map_if_key:
  fixes f :: "'a \<Rightarrow> int"
  assumes "distinct (map k xs)" and "x \<in> set xs"
  shows "sum_list (map (\<lambda>r. if k r = k x then v else f r) xs) = sum_list (map f xs) + v - f x"
  using assms
proof (induction xs)
  case Nil
  then show ?case by simp
next
  case (Cons y ys)
  show ?case
  proof (cases "k y = k x")
    case True
    with Cons.prems have "y = x" by (force simp: inj_on_def)
    moreover have "map (\<lambda>r. if k r = k x then v else f r) ys = map f ys"
      using Cons.prems(1) True by (intro map_cong) (auto simp: image_iff)
    ultimately show ?thesis by (simp del: map_eq_conv)
  next
    case False
    with Cons show ?thesis by auto
  qed
qed

section \<open>Sequencing synchronous calls that may throw\<close>

definition bindE :: "'e + 'a \<Rightarrow> ('a \<Rightarrow> 'e + 'b) \<Rightarrow> 'e + 'b" where
  "bindE m f = (case m of Inl e \<Rightarrow> Inl e | Inr x \<Rightarrow> f x)"

lemma bindE_simps [simp]: "bindE (Inl e) f = Inl e" "bindE (Inr x) f = f x"
  by (simp_all add: bindE_def)

lemma bindE_eq_Inr: "bindE m f = Inr y \<longleftrightarrow> (\<exists>x. m = Inr x \<and> f x = Inr y)"
  by (cases m) simp_all

lemma bindE_eq_Inl: "bindE m f = Inl e \<longleftrightarrow> m = Inl e \<or> (\<exists>x. m = Inr x \<and> f x = Inl e)"
  by (cases m) simp_all

section \<open>Dates\<close>

text \<open>
  \<open>new Date(ms).toISOString()\<close>: the proleptic Gregorian date of a number of milliseconds since
  1970, in UTC. Years outside 0 to 9999 are written with a sign and six digits.
\<close>

definition civil_from_days :: "int \<Rightarrow> int \<times> int \<times> int" where
  "civil_from_days days =
     (let z = days + 719468;
          era = z div 146097;
          doe = z mod 146097;
          yoe = (doe - doe div 1460 + doe div 36524 - doe div 146096) div 365;
          doy = doe - (365 * yoe + yoe div 4 - yoe div 100);
          mp = (5 * doy + 2) div 153;
          d = doy - (153 * mp + 2) div 5 + 1;
          m = (if mp < 10 then mp + 3 else mp - 9);
          y = yoe + era * 400 + (if m \<le> 2 then 1 else 0)
      in (y, m, d))"

definition pad_int :: "nat \<Rightarrow> int \<Rightarrow> string" where
  "pad_int k i = pad_start k (CHR ''0'') (int_str i)"

definition iso_year :: "int \<Rightarrow> string" where
  "iso_year y =
     (if 0 \<le> y \<and> y \<le> 9999 then pad_int 4 y
      else if y < 0 then ''-'' @ pad_int 6 (- y) else ''+'' @ pad_int 6 y)"

definition toISOString :: "int \<Rightarrow> string" where
  "toISOString ms =
     (let days = ms div 86400000; t = ms mod 86400000; (y, m, d) = civil_from_days days
      in iso_year y @ ''-'' @ pad_int 2 m @ ''-'' @ pad_int 2 d @ ''T'' @
         pad_int 2 (t div 3600000) @ '':'' @ pad_int 2 (t div 60000 mod 60) @ '':'' @
         pad_int 2 (t div 1000 mod 60) @ ''.'' @ pad_int 3 (t mod 1000) @ ''Z'')"

section \<open>First match in a table\<close>

lemma find_Some_set: "List.find P xs = Some x \<Longrightarrow> x \<in> set xs \<and> P x"
  by (auto simp: find_Some_iff)

text \<open>In a table with distinct keys, a row is found by its key.\<close>

lemma find_key: "distinct (map k xs) \<Longrightarrow> x \<in> set xs \<Longrightarrow> List.find (\<lambda>y. k y = k x) xs = Some x"
  by (induction xs) (auto simp: image_iff)

lemma distinct_key_eq: "distinct (map k xs) \<Longrightarrow> x \<in> set xs \<Longrightarrow> y \<in> set xs \<Longrightarrow> k x = k y \<Longrightarrow> x = y"
  by (auto simp: distinct_map inj_on_def)

lemma find_map_if:
  assumes "\<And>x. k (g x) = k x"
  shows "List.find (\<lambda>y. k y = i) (map g xs) = map_option g (List.find (\<lambda>y. k y = i) xs)"
  using assms by (induction xs) auto

lemma find_append:
  "List.find P (xs @ ys) = (case List.find P xs of None \<Rightarrow> List.find P ys | Some x \<Rightarrow> Some x)"
  by (induction xs) auto

lemma map_key_update:
  "(\<And>x. x \<in> set xs \<Longrightarrow> c x \<Longrightarrow> k (f x) = k x) \<Longrightarrow> map k (map (\<lambda>x. if c x then f x else x) xs) = map k xs"
  by (induction xs) auto

section \<open>Arrays mapped by a function that may throw\<close>

text \<open>\<open>xs.map(f)\<close>: the first throw ends it.\<close>

fun mapThrow :: "('a \<Rightarrow> 'e + 'b) \<Rightarrow> 'a list \<Rightarrow> 'e + 'b list" where
  "mapThrow f [] = Inr []"
| "mapThrow f (x # xs) = bindE (f x) (\<lambda>y. bindE (mapThrow f xs) (\<lambda>ys. Inr (y # ys)))"

lemma mapThrow_Inr:
  "(\<And>x. x \<in> set xs \<Longrightarrow> f x = Inr (g x)) \<Longrightarrow> mapThrow f xs = Inr (map g xs)"
  by (induction xs) simp_all

lemma mapThrow_Inr_elem:
  "mapThrow f xs = Inr ys \<Longrightarrow> y \<in> set ys \<Longrightarrow> \<exists>x \<in> set xs. f x = Inr y"
  by (induction xs arbitrary: ys) (auto simp: bindE_eq_Inr)

section \<open>Event loops\<close>

text \<open>What a component of the client promises whatever order events come in: an invariant of its turns.\<close>

locale event_loop =
  fixes turn :: "'s \<Rightarrow> 's \<Rightarrow> bool" and start :: 's and inv :: "'s \<Rightarrow> bool"
  assumes at_first: "inv start"
    and in_turn: "turn s s' \<Longrightarrow> inv s \<Longrightarrow> inv s'"
begin

lemma always: "turn\<^sup>*\<^sup>* start s \<Longrightarrow> inv s"
  by (induction rule: rtranclp_induct) (auto intro: at_first in_turn)

end

end
