(* ===== verification/Comp.thy ===== *)
theory Comp
  imports Prelude
begin

text \<open>
  Computations: the shape every asynchronous method of the backend is translated to. A
  computation reads and changes a world \<open>'w\<close> and ends in \<open>Inl e\<close>, a thrown exception,
  or in \<open>Inr x\<close>, a returned value; the world it leaves is kept in both cases, because an
  exception does not undo the database writes that came before it. The type of exceptions is a
  parameter so that a \<open>try\<close> block can carry the mutable locals its \<open>catch\<close> sees.

  \<open>bindM\<close> is \<open>await\<close> followed by the rest of the method, \<open>catchM\<close> is
  \<open>try \<dots> catch\<close>, \<open>guardM\<close> is \<open>if (!b) throw e\<close>, \<open>required\<close> is
  \<open>if (!x) throw e\<close> on a nullable \<open>x\<close>, \<open>liftE\<close> is a call of a synchronous method
  that may throw.
\<close>

type_synonym ('w, 'e, 'a) comp = "'w \<Rightarrow> ('e + 'a) \<times> 'w"

section \<open>Combinators\<close>

definition returnM :: "'a \<Rightarrow> ('w, 'e, 'a) comp" where
  "returnM x = (\<lambda>w. (Inr x, w))"

definition throwM :: "'e \<Rightarrow> ('w, 'e, 'a) comp" where
  "throwM e = (\<lambda>w. (Inl e, w))"

definition bindM :: "('w, 'e, 'a) comp \<Rightarrow> ('a \<Rightarrow> ('w, 'e, 'b) comp) \<Rightarrow> ('w, 'e, 'b) comp" where
  "bindM m f = (\<lambda>w. case m w of (Inl e, w') \<Rightarrow> (Inl e, w') | (Inr x, w') \<Rightarrow> f x w')"

definition catchM :: "('w, 'e, 'a) comp \<Rightarrow> ('e \<Rightarrow> ('w, 'f, 'a) comp) \<Rightarrow> ('w, 'f, 'a) comp" where
  "catchM m h = (\<lambda>w. case m w of (Inl e, w') \<Rightarrow> h e w' | (Inr x, w') \<Rightarrow> (Inr x, w'))"

definition mapE :: "('e \<Rightarrow> 'f) \<Rightarrow> ('w, 'e, 'a) comp \<Rightarrow> ('w, 'f, 'a) comp" where
  "mapE g m = (\<lambda>w. case m w of (Inl e, w') \<Rightarrow> (Inl (g e), w') | (Inr x, w') \<Rightarrow> (Inr x, w'))"

definition guardM :: "bool \<Rightarrow> 'e \<Rightarrow> ('w, 'e, unit) comp" where
  "guardM b e = (if b then returnM () else throwM e)"

definition required :: "'a option \<Rightarrow> 'e \<Rightarrow> ('w, 'e, 'a) comp" where
  "required x e = (case x of None \<Rightarrow> throwM e | Some y \<Rightarrow> returnM y)"

definition liftE :: "'e + 'a \<Rightarrow> ('w, 'e, 'a) comp" where
  "liftE r = (\<lambda>w. (r, w))"

definition getsM :: "('w \<Rightarrow> 'a) \<Rightarrow> ('w, 'e, 'a) comp" where
  "getsM f = (\<lambda>w. (Inr (f w), w))"

definition modifyM :: "('w \<Rightarrow> 'w) \<Rightarrow> ('w, 'e, unit) comp" where
  "modifyM f = (\<lambda>w. (Inr (), f w))"

text \<open>A \<open>for (const x of xs)\<close> loop whose body is awaited; it stops at the first throw.\<close>

fun forM :: "('a \<Rightarrow> ('w, 'e, 'b) comp) \<Rightarrow> 'a list \<Rightarrow> ('w, 'e, 'b list) comp" where
  "forM f [] = returnM []"
| "forM f (x # xs) = bindM (f x) (\<lambda>y. bindM (forM f xs) (\<lambda>ys. returnM (y # ys)))"

lemmas comp_defs = returnM_def throwM_def bindM_def catchM_def mapE_def guardM_def
  required_def liftE_def getsM_def modifyM_def

section \<open>Evaluation\<close>

lemma returnM_apply [comp_simps]: "returnM x w = (Inr x, w)"
  by (simp add: returnM_def)

lemma throwM_apply [comp_simps]: "throwM e w = (Inl e, w)"
  by (simp add: throwM_def)

lemma liftE_apply [comp_simps]: "liftE r w = (r, w)"
  by (simp add: liftE_def)

lemma getsM_apply [comp_simps]: "getsM f w = (Inr (f w), w)"
  by (simp add: getsM_def)

lemma modifyM_apply [comp_simps]: "modifyM f w = (Inr (), f w)"
  by (simp add: modifyM_def)

lemma guardM_apply [comp_simps]:
  "guardM b e w = (if b then (Inr (), w) else (Inl e, w))"
  by (simp add: guardM_def comp_simps)

lemma required_apply [comp_simps]:
  "required None e w = (Inl e, w)"
  "required (Some x) e w = (Inr x, w)"
  by (simp_all add: required_def comp_simps)

lemma bindM_Inr: "m w = (Inr x, w') \<Longrightarrow> bindM m f w = f x w'"
  by (simp add: bindM_def)

lemma bindM_Inl: "m w = (Inl e, w') \<Longrightarrow> bindM m f w = (Inl e, w')"
  by (simp add: bindM_def)

lemma catchM_Inr: "m w = (Inr x, w') \<Longrightarrow> catchM m h w = (Inr x, w')"
  by (simp add: catchM_def)

lemma catchM_Inl: "m w = (Inl e, w') \<Longrightarrow> catchM m h w = h e w'"
  by (simp add: catchM_def)

lemma mapE_Inr: "m w = (Inr x, w') \<Longrightarrow> mapE g m w = (Inr x, w')"
  by (simp add: mapE_def)

lemma mapE_Inl: "m w = (Inl e, w') \<Longrightarrow> mapE g m w = (Inl (g e), w')"
  by (simp add: mapE_def)

lemma bindM_eq_Inr:
  "bindM m f w = (Inr y, w'') \<longleftrightarrow> (\<exists>x w'. m w = (Inr x, w') \<and> f x w' = (Inr y, w''))"
  by (auto simp: bindM_def split: prod.splits sum.splits)

lemma bindM_eq_Inl:
  "bindM m f w = (Inl e, w'') \<longleftrightarrow>
     m w = (Inl e, w'') \<or> (\<exists>x w'. m w = (Inr x, w') \<and> f x w' = (Inl e, w''))"
  by (auto simp: bindM_def split: prod.splits sum.splits)

text \<open>Taking a computation that returned apart, step by step.\<close>

lemma bindM_InrE:
  assumes "bindM m f w = (Inr y, w'')"
  obtains x w' where "m w = (Inr x, w')" "f x w' = (Inr y, w'')"
  using assms by (auto simp: bindM_eq_Inr)

lemma step_Inr [step_dests]:
  "required x e w = (Inr y, w') \<Longrightarrow> x = Some y \<and> w' = w"
  "guardM b e w = (Inr u, w') \<Longrightarrow> b \<and> w' = w"
  "liftE r w = (Inr z, w') \<Longrightarrow> r = Inr z \<and> w' = w"
  "returnM v w = (Inr v', w') \<Longrightarrow> v' = v \<and> w' = w"
  by (auto simp: comp_defs split: option.splits if_splits)

section \<open>Triples\<close>

text \<open>
  \<open>triple P m Q R\<close>: started in a world with \<open>P\<close>, the computation ends with \<open>Q\<close> of the
  value and the world if it returns, with \<open>R\<close> of the exception and the world if it throws.
\<close>

definition triple ::
  "('w \<Rightarrow> bool) \<Rightarrow> ('w, 'e, 'a) comp \<Rightarrow> ('a \<Rightarrow> 'w \<Rightarrow> bool) \<Rightarrow> ('e \<Rightarrow> 'w \<Rightarrow> bool) \<Rightarrow> bool" where
  "triple P m Q R \<longleftrightarrow>
     (\<forall>w. P w \<longrightarrow> (case m w of (Inl e, w') \<Rightarrow> R e w' | (Inr x, w') \<Rightarrow> Q x w'))"

lemma tripleD_Inr: "triple P m Q R \<Longrightarrow> P w \<Longrightarrow> m w = (Inr x, w') \<Longrightarrow> Q x w'"
  by (auto simp: triple_def dest!: spec [of _ w])

lemma tripleD_Inl: "triple P m Q R \<Longrightarrow> P w \<Longrightarrow> m w = (Inl e, w') \<Longrightarrow> R e w'"
  by (auto simp: triple_def dest!: spec [of _ w])

lemma triple_bindM:
  "triple P m Q R \<Longrightarrow> (\<And>x. triple (Q x) (f x) S R) \<Longrightarrow> triple P (bindM m f) S R"
  unfolding triple_def bindM_def by (fastforce split: prod.splits sum.splits)

lemma triple_catchM:
  "triple P m Q R \<Longrightarrow> (\<And>e. triple (R e) (h e) Q S) \<Longrightarrow> triple P (catchM m h) Q S"
  unfolding triple_def catchM_def by (fastforce split: prod.splits sum.splits)

lemma triple_weaken:
  "triple P m Q R \<Longrightarrow> (\<And>w. P' w \<Longrightarrow> P w) \<Longrightarrow> (\<And>x w. Q x w \<Longrightarrow> Q' x w) \<Longrightarrow>
    (\<And>e w. R e w \<Longrightarrow> R' e w) \<Longrightarrow> triple P' m Q' R'"
  unfolding triple_def by (fastforce split: prod.splits sum.splits)

section \<open>Preservation\<close>

text \<open>A computation preserves a predicate of the world when both of its outcomes do.\<close>

definition preserves :: "('w \<Rightarrow> bool) \<Rightarrow> ('w, 'e, 'a) comp \<Rightarrow> bool" where
  "preserves I m \<longleftrightarrow> (\<forall>w. I w \<longrightarrow> I (snd (m w)))"

lemma preservesD: "preserves I m \<Longrightarrow> I w \<Longrightarrow> I (snd (m w))"
  by (simp add: preserves_def)

lemma preserves_step: "preserves I m \<Longrightarrow> I w \<Longrightarrow> m w = (r, w') \<Longrightarrow> I w'"
  by (metis preservesD snd_conv)

lemma preserves_returnM [preserves_rules]: "preserves I (returnM x)"
  by (simp add: preserves_def comp_simps)

lemma preserves_throwM [preserves_rules]: "preserves I (throwM e)"
  by (simp add: preserves_def comp_simps)

lemma preserves_liftE [preserves_rules]: "preserves I (liftE r)"
  by (simp add: preserves_def comp_simps)

lemma preserves_getsM [preserves_rules]: "preserves I (getsM f)"
  by (simp add: preserves_def comp_simps)

lemma preserves_guardM [preserves_rules]: "preserves I (guardM b e)"
  by (simp add: preserves_def comp_simps)

lemma preserves_required [preserves_rules]: "preserves I (required x e)"
  by (cases x) (simp_all add: preserves_def comp_simps)

lemma preserves_modifyM: "(\<And>w. I w \<Longrightarrow> I (f w)) \<Longrightarrow> preserves I (modifyM f)"
  by (simp add: preserves_def comp_simps)

lemma preserves_bindM [preserves_rules]:
  "preserves I m \<Longrightarrow> (\<And>x. preserves I (f x)) \<Longrightarrow> preserves I (bindM m f)"
  unfolding preserves_def bindM_def by (fastforce split: prod.splits sum.splits)

lemma preserves_catchM [preserves_rules]:
  "preserves I m \<Longrightarrow> (\<And>e. preserves I (h e)) \<Longrightarrow> preserves I (catchM m h)"
  unfolding preserves_def catchM_def by (fastforce split: prod.splits sum.splits)

lemma preserves_mapE [preserves_rules]: "preserves I m \<Longrightarrow> preserves I (mapE g m)"
  unfolding preserves_def mapE_def by (fastforce split: prod.splits sum.splits)

lemma preserves_if [preserves_rules]:
  "preserves I m \<Longrightarrow> preserves I n \<Longrightarrow> preserves I (if b then m else n)"
  by simp

lemma preserves_case_option [preserves_rules]:
  "preserves I m \<Longrightarrow> (\<And>x. preserves I (f x)) \<Longrightarrow>
    preserves I (case z of None \<Rightarrow> m | Some x \<Rightarrow> f x)"
  by (cases z) simp_all

lemma preserves_case_sum [preserves_rules]:
  "(\<And>x. preserves I (f x)) \<Longrightarrow> (\<And>x. preserves I (g x)) \<Longrightarrow>
    preserves I (case z of Inl x \<Rightarrow> f x | Inr x \<Rightarrow> g x)"
  by (cases z) simp_all

lemma preserves_case_prod [preserves_rules]:
  "(\<And>x y. preserves I (f x y)) \<Longrightarrow> preserves I (case z of (x, y) \<Rightarrow> f x y)"
  by (cases z) simp

lemma preserves_forM [preserves_rules]:
  "(\<And>x. preserves I (f x)) \<Longrightarrow> preserves I (forM f xs)"
  by (induction xs) (auto intro: preserves_rules)

end
