(* ===== verification/Enums.thy ===== *)
theory Enums
  imports Prelude
begin

text \<open>
  The string enums of the backend (\<^verbatim>\<open>shared/enums\<close>, \<^verbatim>\<open>shared/ledger\<close>,
  \<^verbatim>\<open>modules/*/domain/enums\<close>) and \<open>IdempotencyKeyStatus\<close> of the Prisma schema, as
  datatypes, with the string each member stands for. Members of different enums that share a name
  carry a prefix: \<open>AS_\<close> account status, \<open>TS_\<close> transaction status, \<open>AT_\<close> account
  type, \<open>TT_\<close> transfer type, \<open>VT_\<close> verification type, \<open>AE_\<close> and \<open>AO_\<close> audit
  event type and outcome, \<open>LT_\<close> ledger entry type, \<open>UR_\<close> and \<open>US_\<close> user role and
  status, \<open>IK_\<close> idempotency key status.
\<close>

datatype currency = NGN | USD | GBP | EUR

datatype accountStatus = AS_ACTIVE | AS_DORMANT | AS_FROZEN | AS_CLOSED | AS_PENDING_VERIFICATION

datatype transactionStatus = TS_PENDING | TS_PROCESSING | TS_SUCCESSFUL | TS_FAILED | TS_REVERSED | TS_CANCELLED

datatype accountType = AT_WALLET | AT_SAVINGS | AT_CURRENT

datatype transferType = TT_INTERNAL | TT_EXTERNAL

datatype kycTier = TIER_1 | TIER_2 | TIER_3

datatype verificationType = VT_BVN | VT_NIN

datatype kycAuditEventType = AE_VERIFICATION_ATTEMPT | AE_TIER_CHANGE | AE_SANCTIONS_SCREENING

datatype kycAuditOutcome = AO_PASSED | AO_FAILED

datatype ledgerEntryDirection = DEBIT | CREDIT

datatype ledgerEntryType = LT_TRANSFER | LT_DEPOSIT | LT_BILL_PAYMENT | LT_ADJUSTMENT

datatype userRole = UR_CUSTOMER | UR_SUPPORT_AGENT | UR_COMPLIANCE_OFFICER | UR_ADMIN | UR_SUPER_ADMIN

datatype userStatus = US_PENDING_VERIFICATION | US_ACTIVE | US_SUSPENDED | US_LOCKED | US_DEACTIVATED

datatype idempotencyKeyStatus = IK_IN_PROGRESS | IK_COMPLETED

fun currency_str :: "currency \<Rightarrow> string" where
  "currency_str NGN = ''NGN''"
| "currency_str USD = ''USD''"
| "currency_str GBP = ''GBP''"
| "currency_str EUR = ''EUR''"

fun accountStatus_str :: "accountStatus \<Rightarrow> string" where
  "accountStatus_str AS_ACTIVE = ''ACTIVE''"
| "accountStatus_str AS_DORMANT = ''DORMANT''"
| "accountStatus_str AS_FROZEN = ''FROZEN''"
| "accountStatus_str AS_CLOSED = ''CLOSED''"
| "accountStatus_str AS_PENDING_VERIFICATION = ''PENDING_VERIFICATION''"

fun transactionStatus_str :: "transactionStatus \<Rightarrow> string" where
  "transactionStatus_str TS_PENDING = ''PENDING''"
| "transactionStatus_str TS_PROCESSING = ''PROCESSING''"
| "transactionStatus_str TS_SUCCESSFUL = ''SUCCESSFUL''"
| "transactionStatus_str TS_FAILED = ''FAILED''"
| "transactionStatus_str TS_REVERSED = ''REVERSED''"
| "transactionStatus_str TS_CANCELLED = ''CANCELLED''"

fun accountType_str :: "accountType \<Rightarrow> string" where
  "accountType_str AT_WALLET = ''WALLET''"
| "accountType_str AT_SAVINGS = ''SAVINGS''"
| "accountType_str AT_CURRENT = ''CURRENT''"

fun transferType_str :: "transferType \<Rightarrow> string" where
  "transferType_str TT_INTERNAL = ''INTERNAL''"
| "transferType_str TT_EXTERNAL = ''EXTERNAL''"

fun kycTier_str :: "kycTier \<Rightarrow> string" where
  "kycTier_str TIER_1 = ''TIER_1''"
| "kycTier_str TIER_2 = ''TIER_2''"
| "kycTier_str TIER_3 = ''TIER_3''"

fun verificationType_str :: "verificationType \<Rightarrow> string" where
  "verificationType_str VT_BVN = ''BVN''"
| "verificationType_str VT_NIN = ''NIN''"

fun kycAuditEventType_str :: "kycAuditEventType \<Rightarrow> string" where
  "kycAuditEventType_str AE_VERIFICATION_ATTEMPT = ''VERIFICATION_ATTEMPT''"
| "kycAuditEventType_str AE_TIER_CHANGE = ''TIER_CHANGE''"
| "kycAuditEventType_str AE_SANCTIONS_SCREENING = ''SANCTIONS_SCREENING''"

fun kycAuditOutcome_str :: "kycAuditOutcome \<Rightarrow> string" where
  "kycAuditOutcome_str AO_PASSED = ''PASSED''"
| "kycAuditOutcome_str AO_FAILED = ''FAILED''"

fun ledgerEntryDirection_str :: "ledgerEntryDirection \<Rightarrow> string" where
  "ledgerEntryDirection_str DEBIT = ''DEBIT''"
| "ledgerEntryDirection_str CREDIT = ''CREDIT''"

fun ledgerEntryType_str :: "ledgerEntryType \<Rightarrow> string" where
  "ledgerEntryType_str LT_TRANSFER = ''TRANSFER''"
| "ledgerEntryType_str LT_DEPOSIT = ''DEPOSIT''"
| "ledgerEntryType_str LT_BILL_PAYMENT = ''BILL_PAYMENT''"
| "ledgerEntryType_str LT_ADJUSTMENT = ''ADJUSTMENT''"

fun userRole_str :: "userRole \<Rightarrow> string" where
  "userRole_str UR_CUSTOMER = ''CUSTOMER''"
| "userRole_str UR_SUPPORT_AGENT = ''SUPPORT_AGENT''"
| "userRole_str UR_COMPLIANCE_OFFICER = ''COMPLIANCE_OFFICER''"
| "userRole_str UR_ADMIN = ''ADMIN''"
| "userRole_str UR_SUPER_ADMIN = ''SUPER_ADMIN''"

fun userStatus_str :: "userStatus \<Rightarrow> string" where
  "userStatus_str US_PENDING_VERIFICATION = ''PENDING_VERIFICATION''"
| "userStatus_str US_ACTIVE = ''ACTIVE''"
| "userStatus_str US_SUSPENDED = ''SUSPENDED''"
| "userStatus_str US_LOCKED = ''LOCKED''"
| "userStatus_str US_DEACTIVATED = ''DEACTIVATED''"

text \<open>Distinct members have distinct strings, so comparing strings is comparing members.\<close>

lemma currency_str_inj [simp]: "currency_str a = currency_str b \<longleftrightarrow> a = b"
  by (cases a; cases b) simp_all

lemma transactionStatus_str_inj [simp]: "transactionStatus_str a = transactionStatus_str b \<longleftrightarrow> a = b"
  by (cases a; cases b) simp_all

lemma kycTier_str_inj [simp]: "kycTier_str a = kycTier_str b \<longleftrightarrow> a = b"
  by (cases a; cases b) simp_all

lemma userRole_str_inj [simp]: "userRole_str a = userRole_str b \<longleftrightarrow> a = b"
  by (cases a; cases b) simp_all

section \<open>The order of the tiers\<close>

text \<open>TIER_1, TIER_2, TIER_3 in the order of the verification they require.\<close>

primrec kycTier_rank :: "kycTier \<Rightarrow> nat" where
  "kycTier_rank TIER_1 = 1"
| "kycTier_rank TIER_2 = 2"
| "kycTier_rank TIER_3 = 3"

lemma kycTier_rank_inj: "kycTier_rank a = kycTier_rank b \<Longrightarrow> a = b"
  by (cases a; cases b) simp_all

instantiation kycTier :: linorder
begin

definition less_eq_kycTier :: "kycTier \<Rightarrow> kycTier \<Rightarrow> bool" where
  "less_eq_kycTier a b \<longleftrightarrow> kycTier_rank a \<le> kycTier_rank b"

definition less_kycTier :: "kycTier \<Rightarrow> kycTier \<Rightarrow> bool" where
  "less_kycTier a b \<longleftrightarrow> kycTier_rank a < kycTier_rank b"

instance
  by standard (auto simp: less_eq_kycTier_def less_kycTier_def dest: kycTier_rank_inj)

end

lemma kycTier_order [simp]:
  "TIER_1 \<le> t" "TIER_2 \<le> t \<longleftrightarrow> t \<noteq> TIER_1" "TIER_3 \<le> t \<longleftrightarrow> t = TIER_3"
  by (cases t; simp add: less_eq_kycTier_def)+

end
