(* ===== verification/Exceptions.thy ===== *)
theory Exceptions
  imports Enums
begin

text \<open>
  The exceptions of the backend. Every class of \<^verbatim>\<open>shared/exceptions\<close>,
  \<^verbatim>\<open>shared/idempotency\<close>, \<^verbatim>\<open>shared/ledger\<close> and
  \<^verbatim>\<open>modules/*/domain/exceptions\<close> extends \<open>DomainException\<close> and fixes its name, its
  code, its message and its HTTP status; each is a definition here that builds the corresponding
  value. Exceptions the code meets but does not declare are the framework's
  \<open>HttpException\<close>s, the \<open>PrismaClientKnownRequestError\<close>s (with their code) and any other
  \<open>Error\<close>.
\<close>

datatype exn =
    DomainExn (exn_name: string) (exn_code: string) (exn_msg: string) (exn_httpStatus: nat)
  | HttpExn nat string
  | PrismaExn string string
  | OtherError string

text \<open>The \<open>message\<close> property every \<open>Error\<close> has.\<close>

fun exn_message :: "exn \<Rightarrow> string" where
  "exn_message (DomainExn n c m s) = m"
| "exn_message (HttpExn s m) = m"
| "exn_message (PrismaExn c m) = m"
| "exn_message (OtherError m) = m"

section \<open>The base class\<close>

definition DomainException :: "string \<Rightarrow> string \<Rightarrow> exn" where
  "DomainException message code = DomainExn ''DomainException'' code message 400"

definition InsufficientFundsException :: "string \<Rightarrow> exn" where
  "InsufficientFundsException accountId =
     DomainExn ''InsufficientFundsException'' ''INSUFFICIENT_FUNDS''
       (''Account '' @ accountId @ '' has insufficient funds'') 422"

definition DuplicateRequestInProgressException :: exn where
  "DuplicateRequestInProgressException =
     DomainExn ''DuplicateRequestInProgressException'' ''DUPLICATE_REQUEST_IN_PROGRESS''
       ''A request with this idempotency key is already being processed'' 409"

text \<open>The dash of this message is the three bytes of U+2014 in UTF-8.\<close>

definition UnbalancedLedgerPostingException :: "string \<Rightarrow> exn" where
  "UnbalancedLedgerPostingException reference =
     DomainExn ''UnbalancedLedgerPostingException'' ''UNBALANCED_LEDGER_POSTING''
       (''Ledger posting for reference \"'' @ reference @ ''\" does not balance '' @
        [CHR 0xE2, CHR 0x80, CHR 0x94] @ '' debits must equal credits per currency'') 400"

section \<open>Accounts\<close>

definition AccountClosureNotAllowedException :: "string \<Rightarrow> string \<Rightarrow> exn" where
  "AccountClosureNotAllowedException accountId reason =
     DomainExn ''AccountClosureNotAllowedException'' ''ACCOUNT_CLOSURE_NOT_ALLOWED''
       (''Account '' @ accountId @ '' cannot be closed: '' @ reason) 422"

definition AccountNotActiveException :: "string \<Rightarrow> string \<Rightarrow> exn" where
  "AccountNotActiveException accountId status =
     DomainExn ''AccountNotActiveException'' ''ACCOUNT_NOT_ACTIVE''
       (''Account '' @ accountId @ '' is not active (current status: '' @ status @ '')'') 403"

definition AccountNotFoundException :: "string \<Rightarrow> exn" where
  "AccountNotFoundException identifier =
     DomainExn ''AccountNotFoundException'' ''ACCOUNT_NOT_FOUND''
       (''Account not found: '' @ identifier) 404"

definition CurrencyMismatchException :: "string \<Rightarrow> string \<Rightarrow> exn" where
  "CurrencyMismatchException accountCurrency amountCurrency =
     DomainExn ''CurrencyMismatchException'' ''CURRENCY_MISMATCH''
       (''Currency mismatch: account is '' @ accountCurrency @ '', amount is '' @ amountCurrency) 400"

definition MaxBalanceExceededException :: "kycTier \<Rightarrow> exn" where
  "MaxBalanceExceededException tier =
     DomainExn ''MaxBalanceExceededException'' ''MAX_BALANCE_EXCEEDED''
       (''This credit would exceed the maximum balance allowed for your current verification level ('' @
        kycTier_str tier @ ''). Upgrade your verification to hold more.'') 422"

section \<open>Transfers\<close>

definition InvalidTransferStateException :: "string \<Rightarrow> string \<Rightarrow> string \<Rightarrow> exn" where
  "InvalidTransferStateException transferId currentStatus attemptedAction =
     DomainExn ''InvalidTransferStateException'' ''INVALID_TRANSFER_STATE''
       (''Cannot '' @ attemptedAction @ '' transfer '' @ transferId @ '': it is already '' @ currentStatus) 409"

definition PayoutProviderException :: "string \<Rightarrow> exn" where
  "PayoutProviderException providerMessage =
     DomainExn ''PayoutProviderException'' ''PAYOUT_PROVIDER_ERROR''
       (''Payout provider rejected the transfer: '' @ providerMessage) 502"

definition SelfTransferNotAllowedException :: exn where
  "SelfTransferNotAllowedException =
     DomainExn ''SelfTransferNotAllowedException'' ''SELF_TRANSFER_NOT_ALLOWED''
       ''Source and destination accounts cannot be the same'' 400"

definition TransferLimitExceededException :: "string \<Rightarrow> kycTier \<Rightarrow> exn" where
  "TransferLimitExceededException limitType tier =
     DomainExn ''TransferLimitExceededException'' ''TRANSFER_LIMIT_EXCEEDED''
       (''This transfer exceeds your '' @ limitType @ '' limit for your current verification level ('' @
        kycTier_str tier @ ''). Upgrade your verification to send more.'') 422"

definition TransferNotFoundException :: "string \<Rightarrow> exn" where
  "TransferNotFoundException identifier =
     DomainExn ''TransferNotFoundException'' ''TRANSFER_NOT_FOUND''
       (''Transfer not found: '' @ identifier) 404"

definition UnauthorizedTransferException :: exn where
  "UnauthorizedTransferException =
     DomainExn ''UnauthorizedTransferException'' ''UNAUTHORIZED_TRANSFER''
       ''You may only initiate transfers from accounts you own'' 403"

section \<open>Compliance\<close>

definition IdentityMismatchException :: exn where
  "IdentityMismatchException =
     DomainExn ''IdentityMismatchException'' ''IDENTITY_MISMATCH''
       ''The identity details returned by the verification provider do not match your registered name'' 422"

definition KycProfileNotFoundException :: "string \<Rightarrow> exn" where
  "KycProfileNotFoundException userId =
     DomainExn ''KycProfileNotFoundException'' ''KYC_PROFILE_NOT_FOUND''
       (''KYC profile not found for user: '' @ userId) 404"

definition SanctionsFlagNotOpenException :: "string \<Rightarrow> exn" where
  "SanctionsFlagNotOpenException userId =
     DomainExn ''SanctionsFlagNotOpenException'' ''SANCTIONS_FLAG_NOT_OPEN''
       (''User '' @ userId @ '' has no open sanctions flag to clear'') 409"

definition VerificationAlreadyPassedException :: "verificationType \<Rightarrow> exn" where
  "VerificationAlreadyPassedException type =
     DomainExn ''VerificationAlreadyPassedException'' ''VERIFICATION_ALREADY_PASSED''
       (verificationType_str type @ '' verification has already been completed for this user'') 409"

definition VerificationProviderException :: "string \<Rightarrow> exn" where
  "VerificationProviderException providerMessage =
     DomainExn ''VerificationProviderException'' ''VERIFICATION_PROVIDER_ERROR''
       (''Verification provider error: '' @ providerMessage) 502"

section \<open>Identity\<close>

definition AccountLockedException :: "string \<Rightarrow> exn" where
  "AccountLockedException unlocksAtIso =
     DomainExn ''AccountLockedException'' ''ACCOUNT_LOCKED''
       (''Account is locked due to repeated failed login attempts until '' @ unlocksAtIso) 423"

definition InvalidCredentialsException :: exn where
  "InvalidCredentialsException =
     DomainExn ''InvalidCredentialsException'' ''INVALID_CREDENTIALS'' ''Invalid email or password'' 401"

definition InvalidRefreshTokenException :: exn where
  "InvalidRefreshTokenException =
     DomainExn ''InvalidRefreshTokenException'' ''INVALID_REFRESH_TOKEN''
       ''Refresh token is invalid, expired, or has already been used'' 401"

definition UserAlreadyExistsException :: "string \<Rightarrow> exn" where
  "UserAlreadyExistsException email =
     DomainExn ''UserAlreadyExistsException'' ''USER_ALREADY_EXISTS''
       (''A user with email '' @ email @ '' already exists'') 409"

definition UserNotActiveException :: "string \<Rightarrow> exn" where
  "UserNotActiveException status =
     DomainExn ''UserNotActiveException'' ''USER_NOT_ACTIVE''
       (''User account is not active (current status: '' @ status @ '')'') 403"

text \<open>Nest's \<open>ForbiddenException\<close>, \<open>NotFoundException\<close> and \<open>InternalServerErrorException\<close>.\<close>

definition ForbiddenException :: "string \<Rightarrow> exn" where
  "ForbiddenException m = HttpExn 403 m"

definition NotFoundException :: "string \<Rightarrow> exn" where
  "NotFoundException m = HttpExn 404 m"

definition InternalServerErrorException :: "string \<Rightarrow> exn" where
  "InternalServerErrorException m = HttpExn 500 m"

definition ServiceUnavailableException :: "string \<Rightarrow> exn" where
  "ServiceUnavailableException m = HttpExn 503 m"

definition BadRequestException :: "string \<Rightarrow> exn" where
  "BadRequestException m = HttpExn 400 m"

lemmas exn_defs = DomainException_def InsufficientFundsException_def
  DuplicateRequestInProgressException_def UnbalancedLedgerPostingException_def
  AccountClosureNotAllowedException_def AccountNotActiveException_def AccountNotFoundException_def
  CurrencyMismatchException_def MaxBalanceExceededException_def InvalidTransferStateException_def
  PayoutProviderException_def SelfTransferNotAllowedException_def
  TransferLimitExceededException_def TransferNotFoundException_def
  UnauthorizedTransferException_def IdentityMismatchException_def KycProfileNotFoundException_def
  SanctionsFlagNotOpenException_def VerificationAlreadyPassedException_def
  VerificationProviderException_def AccountLockedException_def InvalidCredentialsException_def
  InvalidRefreshTokenException_def UserAlreadyExistsException_def UserNotActiveException_def
  ForbiddenException_def NotFoundException_def InternalServerErrorException_def
  ServiceUnavailableException_def BadRequestException_def

end
