(* ===== verification/Money.thy ===== *)
theory Money
  imports Exceptions
begin

text \<open>
  The \<open>Money\<close> value object (\<^verbatim>\<open>shared/value-objects/money.vo.ts\<close>): an amount of minor
  units and a currency. A bigint is unbounded, so the amount is an \<open>int\<close>; that it is never
  negative is the invariant \<open>money_ok\<close>, which every constructor and operation establishes.
\<close>

record money =
  minorUnits :: int
  moneyCurrency :: currency

section \<open>Construction\<close>

text \<open>Every caller passes a bigint, so the conversion from number and string does not arise.\<close>

definition fromMinorUnits :: "int \<Rightarrow> currency \<Rightarrow> exn + money" where
  "fromMinorUnits value currency =
     (if value < 0 then Inl (DomainException ''Money amount cannot be negative'' ''INVALID_MONEY_AMOUNT'')
      else Inr \<lparr>minorUnits = value, moneyCurrency = currency\<rparr>)"

definition zeroMoney :: "currency \<Rightarrow> money" where
  "zeroMoney currency = \<lparr>minorUnits = 0, moneyCurrency = currency\<rparr>"

text \<open>The test \<^verbatim>\<open>/^\d+(\.\d{1,2})?$/\<close>.\<close>

definition is_decimal_amount :: "string \<Rightarrow> bool" where
  "is_decimal_amount s \<longleftrightarrow>
     takeWhile is_digit s \<noteq> [] \<and>
     (case dropWhile is_digit s of
        [] \<Rightarrow> True
      | c # frac \<Rightarrow> c = CHR ''.'' \<and> list_all is_digit frac \<and> (length frac = 1 \<or> length frac = 2))"

text \<open>
  \<^verbatim>\<open>const [wholePart, fractionalPart = ''] = decimal.split('.')\<close>
\<close>

definition split_decimal :: "string \<Rightarrow> string \<times> string" where
  "split_decimal decimal =
     (case split_on (CHR ''.'') decimal of
        [] \<Rightarrow> ('''', '''')
      | [w] \<Rightarrow> (w, '''')
      | w # f # _ \<Rightarrow> (w, f))"

definition fromDecimalString :: "string \<Rightarrow> currency \<Rightarrow> exn + money" where
  "fromDecimalString decimal currency =
     (if \<not> is_decimal_amount decimal
      then Inl (DomainException (''Invalid decimal amount: '' @ decimal) ''INVALID_MONEY_AMOUNT'')
      else
        (let (wholePart, fractionalPart) = split_decimal decimal;
             paddedFraction = pad_end 2 (CHR ''0'') fractionalPart;
             minorUnits = int (digits_val wholePart) * 100 + int (digits_val paddedFraction)
         in Inr \<lparr>minorUnits = minorUnits, moneyCurrency = currency\<rparr>))"

section \<open>Operations\<close>

definition assertSameCurrency :: "money \<Rightarrow> money \<Rightarrow> exn + unit" where
  "assertSameCurrency this other =
     (if moneyCurrency this \<noteq> moneyCurrency other
      then Inl (DomainException
             (''Currency mismatch: '' @ currency_str (moneyCurrency this) @ '' vs '' @
              currency_str (moneyCurrency other)) ''CURRENCY_MISMATCH'')
      else Inr ())"

definition addMoney :: "money \<Rightarrow> money \<Rightarrow> exn + money" where
  "addMoney this other =
     (case assertSameCurrency this other of
        Inl e \<Rightarrow> Inl e
      | Inr _ \<Rightarrow> Inr \<lparr>minorUnits = minorUnits this + minorUnits other,
                       moneyCurrency = moneyCurrency this\<rparr>)"

definition subtractMoney :: "money \<Rightarrow> money \<Rightarrow> exn + money" where
  "subtractMoney this other =
     (case assertSameCurrency this other of
        Inl e \<Rightarrow> Inl e
      | Inr _ \<Rightarrow>
          if minorUnits this < minorUnits other
          then Inl (DomainException ''Cannot subtract an amount greater than the available balance''
                 ''NEGATIVE_MONEY_RESULT'')
          else Inr \<lparr>minorUnits = minorUnits this - minorUnits other,
                     moneyCurrency = moneyCurrency this\<rparr>)"

definition isGreaterThanOrEqualTo :: "money \<Rightarrow> money \<Rightarrow> exn + bool" where
  "isGreaterThanOrEqualTo this other =
     (case assertSameCurrency this other of
        Inl e \<Rightarrow> Inl e
      | Inr _ \<Rightarrow> Inr (minorUnits this \<ge> minorUnits other))"

definition isZeroMoney :: "money \<Rightarrow> bool" where
  "isZeroMoney this \<longleftrightarrow> minorUnits this = 0"

definition equalsMoney :: "money \<Rightarrow> money \<Rightarrow> bool" where
  "equalsMoney this other \<longleftrightarrow>
     moneyCurrency this = moneyCurrency other \<and> minorUnits this = minorUnits other"

definition toMajorUnitsString :: "money \<Rightarrow> string" where
  "toMajorUnitsString this =
     (let negative = minorUnits this < 0;
          abs = (if negative then - minorUnits this else minorUnits this);
          major = abs div 100;
          minor = pad_start 2 (CHR ''0'') (int_str (abs mod 100))
      in (if negative then ''-'' else '''') @ int_str major @ ''.'' @ minor)"

section \<open>The invariant\<close>

definition money_ok :: "money \<Rightarrow> bool" where
  "money_ok m \<longleftrightarrow> 0 \<le> minorUnits m"

lemma assertSameCurrency_Inr [simp]:
  "assertSameCurrency a b = Inr u \<longleftrightarrow> moneyCurrency a = moneyCurrency b"
  by (cases u) (simp add: assertSameCurrency_def)

lemma addMoney_same [simp]:
  "moneyCurrency a = moneyCurrency b \<Longrightarrow>
    addMoney a b = Inr \<lparr>minorUnits = minorUnits a + minorUnits b, moneyCurrency = moneyCurrency b\<rparr>"
  by (simp add: addMoney_def assertSameCurrency_def)

lemma addMoney_Inr:
  "addMoney a b = Inr c \<longleftrightarrow>
    moneyCurrency a = moneyCurrency b \<and> moneyCurrency c = moneyCurrency a \<and>
    minorUnits c = minorUnits a + minorUnits b"
  by (cases c) (auto simp: addMoney_def assertSameCurrency_def)

lemma subtractMoney_Inr:
  "subtractMoney a b = Inr c \<longleftrightarrow>
    moneyCurrency a = moneyCurrency b \<and> moneyCurrency c = moneyCurrency a \<and>
    minorUnits b \<le> minorUnits a \<and> minorUnits c = minorUnits a - minorUnits b"
  by (cases c) (auto simp: subtractMoney_def assertSameCurrency_def)

lemma isGreaterThanOrEqualTo_Inr:
  "isGreaterThanOrEqualTo a b = Inr r \<longleftrightarrow>
    moneyCurrency a = moneyCurrency b \<and> r = (minorUnits b \<le> minorUnits a)"
  by (auto simp: isGreaterThanOrEqualTo_def assertSameCurrency_def)

lemma isGreaterThanOrEqualTo_same [simp]:
  "moneyCurrency a = moneyCurrency b \<Longrightarrow>
    isGreaterThanOrEqualTo a b = Inr (minorUnits b \<le> minorUnits a)"
  by (simp add: isGreaterThanOrEqualTo_Inr)

lemma zeroMoney_simps [simp]:
  "minorUnits (zeroMoney c) = 0" "moneyCurrency (zeroMoney c) = c" "money_ok (zeroMoney c)"
  "isZeroMoney (zeroMoney c)"
  by (simp_all add: zeroMoney_def money_ok_def isZeroMoney_def)

lemma fromMinorUnits_Inr:
  "fromMinorUnits v c = Inr m \<longleftrightarrow> 0 \<le> v \<and> minorUnits m = v \<and> moneyCurrency m = c"
  by (cases m) (auto simp: fromMinorUnits_def)

lemma fromDecimalString_ok:
  "fromDecimalString s c = Inr m \<Longrightarrow> money_ok m \<and> moneyCurrency m = c"
  by (auto simp: fromDecimalString_def money_ok_def Let_def split: if_splits prod.splits)

section \<open>Decimal strings\<close>

lemma split_decimal_whole:
  "list_all is_digit w \<Longrightarrow> split_decimal w = (w, '''')"
  by (simp add: split_decimal_def)

lemma split_decimal_frac:
  "list_all is_digit w \<Longrightarrow> list_all is_digit f \<Longrightarrow> split_decimal (w @ CHR ''.'' # f) = (w, f)"
  by (simp add: split_decimal_def)

lemma is_decimal_amount_whole:
  "list_all is_digit w \<Longrightarrow> w \<noteq> [] \<Longrightarrow> is_decimal_amount w"
  by (simp add: is_decimal_amount_def list_all_iff takeWhile_eq_all_conv [THEN iffD2]
      dropWhile_eq_Nil_conv [THEN iffD2])

lemma is_decimal_amount_frac:
  "list_all is_digit w \<Longrightarrow> w \<noteq> [] \<Longrightarrow>
    is_decimal_amount (w @ CHR ''.'' # f) \<longleftrightarrow> list_all is_digit f \<and> (length f = 1 \<or> length f = 2)"
  by (simp add: is_decimal_amount_def)

text \<open>Every accepted string is digits, optionally followed by a dot and one or two digits.\<close>

lemma is_decimal_amount_cases:
  assumes "is_decimal_amount s"
  obtains "list_all is_digit s" "s \<noteq> []"
  | w f where "s = w @ CHR ''.'' # f" "list_all is_digit w" "w \<noteq> []" "list_all is_digit f"
      "length f = 1 \<or> length f = 2"
proof -
  let ?w = "takeWhile is_digit s" and ?r = "dropWhile is_digit s"
  have digits: "list_all is_digit ?w" by (auto simp: list_all_iff dest: set_takeWhileD)
  have s: "s = ?w @ ?r" by simp
  show ?thesis
  proof (cases ?r)
    case Nil
    with s have "?w = s" by simp
    with assms digits that(1) show ?thesis by (simp add: is_decimal_amount_def)
  next
    case (Cons c f)
    with assms have "c = CHR ''.''" "list_all is_digit f" "length f = 1 \<or> length f = 2" "?w \<noteq> []"
      by (auto simp: is_decimal_amount_def)
    with s Cons digits that(2) [of ?w f] show ?thesis by simp
  qed
qed

lemma digits_val_pad_end_2:
  "length f = 1 \<Longrightarrow> digits_val (pad_end 2 (CHR ''0'') f) = 10 * digits_val f"
  by (simp add: pad_end_def digits_val_append digits_val_def [of "[_]"] digit_val_def)

lemma digits_val_pad_end_Nil: "digits_val (pad_end 2 (CHR ''0'') []) = 0"
  by (simp add: pad_end_def)

lemma minor_field:
  assumes "0 \<le> v"
  shows "list_all is_digit (pad_start 2 (CHR ''0'') (int_str (v mod 100)))"
    and "length (pad_start 2 (CHR ''0'') (int_str (v mod 100))) = 2"
    and "int (digits_val (pad_start 2 (CHR ''0'') (int_str (v mod 100)))) = v mod 100"
proof -
  have "nat (v mod 100) < 10 ^ 2" by simp
  then have "length (nat_str (nat (v mod 100))) \<le> 2" by (rule length_nat_str_le) simp
  then show "length (pad_start 2 (CHR ''0'') (int_str (v mod 100))) = 2"
    by simp
qed simp_all

text \<open>
  C37. Display and parsing are exact inverses: the decimal string an amount is rendered to
  (\<open>toMajorUnitsString\<close>, what every response carries) is accepted by
  \<open>fromDecimalString\<close> (what every request goes through) and gives back the same amount, so no
  kobo is gained or lost between a response and a later request, at any size.
\<close>

theorem money_decimal_roundtrip:
  assumes "money_ok m"
  shows "fromDecimalString (toMajorUnitsString m) (moneyCurrency m) = Inr m"
proof -
  let ?v = "minorUnits m"
  let ?w = "nat_str (nat (?v div 100))"
  let ?f = "pad_start 2 (CHR ''0'') (int_str (?v mod 100))"
  from assms have nn: "0 \<le> ?v" by (simp add: money_ok_def)
  note f = minor_field [OF nn]
  from nn have str: "toMajorUnitsString m = ?w @ CHR ''.'' # ?f"
    by (simp add: toMajorUnitsString_def Let_def pos_imp_zdiv_nonneg_iff)
  have "is_decimal_amount (?w @ CHR ''.'' # ?f)"
    using f by (simp add: is_decimal_amount_frac)
  moreover have "int (digits_val ?w) * 100 + int (digits_val ?f) = ?v"
    using nn f(3) by (simp add: pos_imp_zdiv_nonneg_iff)
  ultimately show ?thesis
    using f by (simp add: fromDecimalString_def str split_decimal_frac Let_def)
qed

theorem money_decimal_roundtrip_witness:
  "fromDecimalString (toMajorUnitsString \<lparr>minorUnits = 199905, moneyCurrency = NGN\<rparr>) NGN
     = Inr \<lparr>minorUnits = 199905, moneyCurrency = NGN\<rparr>"
  using money_decimal_roundtrip [of "\<lparr>minorUnits = 199905, moneyCurrency = NGN\<rparr>"]
  by (simp add: money_ok_def)

text \<open>
  C38. What \<open>fromDecimalString\<close> computes on every string: a string of digits is that many
  major units, one or two digits after the dot are tenths or hundredths, and anything else
  (no digit, a sign, more than two decimals, a second dot) is rejected with
  \<open>INVALID_MONEY_AMOUNT\<close>. An amount of zero is accepted.
\<close>

theorem fromDecimalString_spec:
  "fromDecimalString s c =
     (if list_all is_digit s \<and> s \<noteq> [] then
        Inr \<lparr>minorUnits = 100 * int (digits_val s), moneyCurrency = c\<rparr>
      else if \<exists>w f. s = w @ CHR ''.'' # f \<and> list_all is_digit w \<and> w \<noteq> [] \<and>
                    list_all is_digit f \<and> (length f = 1 \<or> length f = 2) then
        Inr \<lparr>minorUnits = 100 * int (digits_val (takeWhile is_digit s)) +
                (let f = tl (dropWhile is_digit s) in
                 if length f = 1 then 10 * int (digits_val f) else int (digits_val f)),
              moneyCurrency = c\<rparr>
      else Inl (DomainException (''Invalid decimal amount: '' @ s) ''INVALID_MONEY_AMOUNT''))"
proof (cases "is_decimal_amount s")
  case True
  then show ?thesis
  proof (cases rule: is_decimal_amount_cases)
    case 1
    with True show ?thesis
      by (simp add: fromDecimalString_def split_decimal_whole digits_val_pad_end_Nil)
  next
    case (2 w f)
    then have "\<not> list_all is_digit s" by simp
    with 2 True show ?thesis
      by (auto simp: fromDecimalString_def split_decimal_frac digits_val_pad_end_2 Let_def)
  qed
next
  case False
  then have "\<not> (list_all is_digit s \<and> s \<noteq> [])"
    and "\<not> (\<exists>w f. s = w @ CHR ''.'' # f \<and> list_all is_digit w \<and> w \<noteq> [] \<and>
             list_all is_digit f \<and> (length f = 1 \<or> length f = 2))"
    using is_decimal_amount_whole is_decimal_amount_frac by blast+
  with False show ?thesis by (simp only: fromDecimalString_def if_False not_False_eq_True if_True)
qed

end
