(* ===== verification/World.thy ===== *)
theory World
  imports Comp Money "HOL-Library.Product_Lexorder"
begin

text \<open>
  The state the backend's methods act on and the surroundings they depend on.

  The state is the database of \<^verbatim>\<open>infrastructure/prisma/schema.prisma\<close>, one list of rows
  per model in insertion order, and the events handed to the in-process event bus. Enum columns
  hold the enum's member; \<open>DateTime\<close> columns hold milliseconds.

  The surroundings are parameters, collected in \<open>env\<close>: for every use, numbered by
  \<open>ticks\<close>, what the clock shows, what \<open>randomUUID\<close>, \<open>randomInt\<close> and
  \<open>randomBytes\<close> return, and whether the database connection fails. Nothing is assumed of them
  here, so a theorem without a hypothesis on the environment holds for every clock, every random
  source and every pattern of database failures.
\<close>

section \<open>Rows\<close>

record account_row =
  ar_id :: string
  ar_userId :: string
  ar_accountNumber :: string
  ar_accountType :: accountType
  ar_currency :: currency
  ar_balance :: int
  ar_status :: accountStatus
  ar_version :: int
  ar_createdAt :: int
  ar_updatedAt :: int

record transfer_row =
  tr_id :: string
  tr_reference :: string
  tr_type :: transferType
  tr_initiatorUserId :: string
  tr_sourceAccountId :: string
  tr_destinationAccountId :: "string option"
  tr_recipientBankCode :: "string option"
  tr_recipientAccountNumber :: "string option"
  tr_recipientAccountName :: "string option"
  tr_amountMinorUnits :: int
  tr_feeMinorUnits :: int
  tr_currency :: currency
  tr_narration :: string
  tr_status :: transactionStatus
  tr_failureReason :: "string option"
  tr_providerReference :: "string option"
  tr_version :: int
  tr_createdAt :: int
  tr_updatedAt :: int

record ledger_row =
  lr_journalId :: string
  lr_accountId :: string
  lr_userId :: string
  lr_direction :: ledgerEntryDirection
  lr_amountMinorUnits :: int
  lr_balanceAfterMinorUnits :: int
  lr_currency :: currency
  lr_entryType :: ledgerEntryType
  lr_reference :: string
  lr_sourceEventId :: string
  lr_occurredAt :: int
  lr_createdAt :: int

record idempotency_row =
  ir_id :: string
  ir_userId :: string
  ir_scope :: string
  ir_key :: string
  ir_status :: idempotencyKeyStatus
  ir_resourceId :: "string option"
  ir_createdAt :: int
  ir_updatedAt :: int

record kyc_profile_row =
  kr_id :: string
  kr_userId :: string
  kr_tier :: kycTier
  kr_bvnVerifiedAt :: "int option"
  kr_bvnHash :: "string option"
  kr_bvnMasked :: "string option"
  kr_ninVerifiedAt :: "int option"
  kr_ninHash :: "string option"
  kr_ninMasked :: "string option"
  kr_sanctionsFlaggedAt :: "int option"
  kr_sanctionsClearedAt :: "int option"
  kr_version :: int
  kr_createdAt :: int
  kr_updatedAt :: int

record kyc_tier_limit_row =
  klr_tier :: kycTier
  klr_currency :: currency
  klr_perTransactionLimit :: "int option"
  klr_dailyTransferLimit :: "int option"
  klr_maxBalance :: "int option"

record kyc_audit_row =
  kar_id :: string
  kar_userId :: string
  kar_kycProfileId :: string
  kar_eventType :: kycAuditEventType
  kar_verificationType :: "verificationType option"
  kar_outcome :: "kycAuditOutcome option"
  kar_failureReason :: "string option"
  kar_previousTier :: "kycTier option"
  kar_newTier :: "kycTier option"
  kar_performedByUserId :: "string option"
  kar_notes :: "string option"
  kar_createdAt :: int

record sanctions_row =
  sr_id :: string
  sr_source :: string
  sr_externalId :: string
  sr_fullName :: string
  sr_program :: "string option"
  sr_remarks :: "string option"

record user_row =
  ur_id :: string
  ur_email :: string
  ur_phoneNumber :: string
  ur_passwordHash :: string
  ur_firstName :: string
  ur_lastName :: string
  ur_role :: userRole
  ur_status :: userStatus
  ur_failedLoginAttempts :: int
  ur_lockedUntil :: "int option"
  ur_lastLoginAt :: "int option"
  ur_createdAt :: int
  ur_updatedAt :: int

record refresh_token_row =
  rr_id :: string
  rr_userId :: string
  rr_tokenHash :: string
  rr_family :: string
  rr_expiresAt :: int
  rr_revokedAt :: "int option"
  rr_replacedByTokenId :: "string option"
  rr_ipAddress :: "string option"
  rr_userAgent :: "string option"
  rr_createdAt :: int

section \<open>Domain events\<close>

text \<open>
  The event classes of \<^verbatim>\<open>modules/*/domain/events\<close>, each with the constructor
  arguments of its class in their order. An event carries the time it was created
  (\<open>occurredAt\<close> of \<open>DomainEvent\<close>); its random \<open>eventId\<close> is read by nothing in the
  repository and is left out.
\<close>

datatype event =
    AccountOpenedEvent string string string string string
  | AccountActivatedEvent string
  | AccountCreditedEvent string string string string string
  | AccountDebitedEvent string string string string string
  | AccountFrozenEvent string string
  | AccountUnfrozenEvent string
  | AccountClosedEvent string
  | TransferInitiatedEvent string string string string string string
  | TransferCompletedEvent string string
  | TransferFailedEvent string string string
  | TransferReversedEvent string string
  | KycProfileCreatedEvent string string
  | VerificationPassedEvent string string verificationType
  | VerificationFailedEvent string string verificationType string
  | KycTierUpgradedEvent string string kycTier
  | KycProfileFlaggedForSanctionsReviewEvent string string string
  | KycProfileSanctionsFlagClearedEvent string string string string
  | UserRegisteredEvent string string string
  | UserLoggedInEvent string "string option" "string option"
  | UserLoginFailedEvent string int "string option"
  | UserAccountLockedEvent string int
  | PasswordChangedEvent string

record domain_event =
  occurredAt :: int
  body :: event

definition domainEvent :: "int \<Rightarrow> event \<Rightarrow> domain_event" where
  "domainEvent t e = \<lparr>occurredAt = t, body = e\<rparr>"

section \<open>The world\<close>

record world =
  accounts :: "account_row list"
  transfers :: "transfer_row list"
  ledgerEntries :: "ledger_row list"
  idempotencyKeys :: "idempotency_row list"
  kycProfiles :: "kyc_profile_row list"
  kycTierLimits :: "kyc_tier_limit_row list"
  kycAuditLog :: "kyc_audit_row list"
  sanctionsList :: "sanctions_row list"
  users :: "user_row list"
  refreshTokens :: "refresh_token_row list"
  published :: "domain_event list"
  ticks :: nat

definition emptyWorld :: world where
  "emptyWorld = \<lparr>accounts = [], transfers = [], ledgerEntries = [], idempotencyKeys = [],
     kycProfiles = [], kycTierLimits = [], kycAuditLog = [], sanctionsList = [], users = [],
     refreshTokens = [], published = [], ticks = 0\<rparr>"

text \<open>
  A database call may fail before the statement takes effect or after it (the connection is lost
  while the answer travels back).
\<close>

datatype fault = NoFault | FaultBefore | FaultAfter

record env =
  dbFault :: "nat \<Rightarrow> fault"
  nowMs :: "nat \<Rightarrow> int"
  newUuid :: "nat \<Rightarrow> string"
  randomSerial :: "nat \<Rightarrow> nat"
  randomHex :: "nat \<Rightarrow> string"

type_synonym 'a action = "(world, exn, 'a) comp"

definition draw :: "(nat \<Rightarrow> 'a) \<Rightarrow> (world, 'e, 'a) comp" where
  "draw f = (\<lambda>w. (Inr (f (ticks w)), w\<lparr>ticks := Suc (ticks w)\<rparr>))"

text \<open>\<open>new Date()\<close> and \<open>Date.now()\<close>, \<open>randomUUID()\<close>.\<close>

definition now :: "env \<Rightarrow> (world, 'e, int) comp" where
  "now E = draw (nowMs E)"

definition uuid :: "env \<Rightarrow> (world, 'e, string) comp" where
  "uuid E = draw (newUuid E)"

definition connectionLost :: exn where
  "connectionLost = PrismaExn ''P1017'' ''Server has closed the connection.''"

definition db :: "env \<Rightarrow> 'a action \<Rightarrow> 'a action" where
  "db E m = (\<lambda>w.
     let n = ticks w; w1 = w\<lparr>ticks := Suc n\<rparr>
     in (case dbFault E n of
           NoFault \<Rightarrow> m w1
         | FaultBefore \<Rightarrow> (Inl connectionLost, w1)
         | FaultAfter \<Rightarrow> (Inl connectionLost, snd (m w1))))"

text \<open>\<open>events.forEach((event) => this.eventBus.publish(event))\<close>: not awaited, cannot throw.\<close>

definition publishAll :: "domain_event list \<Rightarrow> (world, 'e, unit) comp" where
  "publishAll evs = modifyM (\<lambda>w. w\<lparr>published := published w @ evs\<rparr>)"

section \<open>Statements on a table\<close>

text \<open>
  What the repositories ask of a table: the row with a unique key, a new row (refused with P2002
  when a unique column clashes, with P2033 when a bigint does not fit its 64-bit column), an update
  of all rows that satisfy a condition with the number of them, a deletion.
\<close>

definition fits_int8 :: "int \<Rightarrow> bool" where
  "fits_int8 i \<longleftrightarrow> - (2 ^ 63) \<le> i \<and> i < 2 ^ 63"

definition uniqueViolation :: exn where
  "uniqueViolation = PrismaExn ''P2002'' ''Unique constraint failed''"

definition int8Overflow :: exn where
  "int8Overflow = PrismaExn ''P2033'' ''A number used in the query does not fit into a 64 bit signed integer.''"

definition create_row :: "('r \<Rightarrow> bool) \<Rightarrow> ('r \<Rightarrow> 'r \<Rightarrow> bool) \<Rightarrow> 'r \<Rightarrow> 'r list \<Rightarrow> exn + 'r list" where
  "create_row valid clash r t =
     (if \<not> valid r then Inl int8Overflow
      else if list_ex (clash r) t then Inl uniqueViolation
      else Inr (t @ [r]))"

definition update_rows :: "('r \<Rightarrow> bool) \<Rightarrow> ('r \<Rightarrow> 'r) \<Rightarrow> 'r list \<Rightarrow> nat \<times> 'r list" where
  "update_rows cond upd t =
     (length (filter cond t), map (\<lambda>r. if cond r then upd r else r) t)"

definition delete_rows :: "('r \<Rightarrow> bool) \<Rightarrow> 'r list \<Rightarrow> 'r list" where
  "delete_rows cond t = filter (\<lambda>r. \<not> cond r) t"

text \<open>The same as computations on a column of the world, given its selector and its update.\<close>

definition query :: "env \<Rightarrow> (world \<Rightarrow> 'a) \<Rightarrow> 'a action" where
  "query E sel = db E (getsM sel)"

definition insert_into ::
  "env \<Rightarrow> (world \<Rightarrow> 'r list) \<Rightarrow> ('r list \<Rightarrow> world \<Rightarrow> world) \<Rightarrow> ('r list \<Rightarrow> exn + 'r list) \<Rightarrow> unit action" where
  "insert_into E sel put f =
     db E (\<lambda>w. case f (sel w) of Inl e \<Rightarrow> (Inl e, w) | Inr t \<Rightarrow> (Inr (), put t w))"

definition update_in ::
  "env \<Rightarrow> (world \<Rightarrow> 'r list) \<Rightarrow> ('r list \<Rightarrow> world \<Rightarrow> world) \<Rightarrow> ('r list \<Rightarrow> nat \<times> 'r list) \<Rightarrow> nat action" where
  "update_in E sel put f =
     db E (\<lambda>w. let (n, t) = f (sel w) in (Inr n, put t w))"

section \<open>Facts about statements\<close>

text \<open>Environments in which no database call fails.\<close>

definition faultless :: "env \<Rightarrow> bool" where
  "faultless E \<longleftrightarrow> (\<forall>n. dbFault E n = NoFault)"

lemma db_faultless [comp_simps]: "faultless E \<Longrightarrow> db E m w = m (w\<lparr>ticks := Suc (ticks w)\<rparr>)"
  by (simp add: db_def faultless_def Let_def)

lemma db_eq_Inr:
  "db E m w = (Inr x, w') \<Longrightarrow> m (w\<lparr>ticks := Suc (ticks w)\<rparr>) = (Inr x, w')"
  by (simp add: db_def Let_def split: fault.splits)

lemma db_state:
  "snd (db E m w) = w\<lparr>ticks := Suc (ticks w)\<rparr> \<or>
   snd (db E m w) = snd (m (w\<lparr>ticks := Suc (ticks w)\<rparr>))"
  by (simp add: db_def Let_def split: fault.splits)

lemma now_apply [comp_simps]: "now E w = (Inr (nowMs E (ticks w)), w\<lparr>ticks := Suc (ticks w)\<rparr>)"
  by (simp add: now_def draw_def)

lemma uuid_apply [comp_simps]: "uuid E w = (Inr (newUuid E (ticks w)), w\<lparr>ticks := Suc (ticks w)\<rparr>)"
  by (simp add: uuid_def draw_def)

lemma publishAll_apply [comp_simps]:
  "publishAll evs w = (Inr (), w\<lparr>published := published w @ evs\<rparr>)"
  by (simp add: publishAll_def comp_simps)

lemma query_apply [comp_simps]:
  "faultless E \<Longrightarrow> query E sel w = (Inr (sel (w\<lparr>ticks := Suc (ticks w)\<rparr>)), w\<lparr>ticks := Suc (ticks w)\<rparr>)"
  by (simp add: query_def comp_simps)

lemma query_eq_Inr:
  "query E sel w = (Inr x, w') \<Longrightarrow> w' = w\<lparr>ticks := Suc (ticks w)\<rparr> \<and> x = sel w'"
  by (auto simp: query_def comp_simps dest!: db_eq_Inr)

lemma now_Inr [step_dests]: "now E w = (Inr t, w') \<Longrightarrow> t = nowMs E (ticks w) \<and> w' = w\<lparr>ticks := Suc (ticks w)\<rparr>"
  by (simp add: now_apply)

lemma uuid_Inr [step_dests]:
  "uuid E w = (Inr i, w') \<Longrightarrow> i = newUuid E (ticks w) \<and> w' = w\<lparr>ticks := Suc (ticks w)\<rparr>"
  by (simp add: uuid_apply)

lemma publishAll_Inr [step_dests]:
  "publishAll evs w = (Inr u, w') \<Longrightarrow> w' = w\<lparr>published := published w @ evs\<rparr>"
  by (simp add: publishAll_apply)

lemma insert_into_Inr:
  assumes "insert_into E sel put f w = (Inr u, w')" and "\<And>w n. sel (w\<lparr>ticks := n\<rparr>) = sel w"
  obtains t where "f (sel w) = Inr t" "w' = put t (w\<lparr>ticks := Suc (ticks w)\<rparr>)"
proof -
  from assms have "\<exists>t. f (sel w) = Inr t \<and> w' = put t (w\<lparr>ticks := Suc (ticks w)\<rparr>)"
    by (auto simp: insert_into_def split: sum.splits dest!: db_eq_Inr)
  with that show thesis by blast
qed

lemma create_row_Inr:
  "create_row valid clash r t = Inr t' \<longleftrightarrow> valid r \<and> \<not> list_ex (clash r) t \<and> t' = t @ [r]"
  by (auto simp: create_row_def)

text \<open>Predicates that do not look at the counter of uses are kept by reading the surroundings.\<close>

definition tick_free :: "(world \<Rightarrow> bool) \<Rightarrow> bool" where
  "tick_free I \<longleftrightarrow> (\<forall>w n. I w \<longrightarrow> I (w\<lparr>ticks := n\<rparr>))"

lemma preserves_draw: "tick_free I \<Longrightarrow> preserves I (draw f)"
  by (simp add: preserves_def draw_def tick_free_def)

lemma preserves_now [preserves_rules]: "tick_free I \<Longrightarrow> preserves I (now E)"
  by (simp add: now_def preserves_draw)

lemma preserves_uuid [preserves_rules]: "tick_free I \<Longrightarrow> preserves I (uuid E)"
  by (simp add: uuid_def preserves_draw)

lemma preserves_db: "tick_free I \<Longrightarrow> preserves I m \<Longrightarrow> preserves I (db E m)"
  unfolding preserves_def tick_free_def by (metis db_state)

lemma preserves_query [preserves_rules]: "tick_free I \<Longrightarrow> preserves I (query E sel)"
  by (simp add: query_def preserves_db preserves_getsM)

lemma preserves_insert_into:
  assumes "tick_free I"
    and "\<And>w t. I w \<Longrightarrow> f (sel w) = Inr t \<Longrightarrow> I (put t w)"
  shows "preserves I (insert_into E sel put f)"
  unfolding insert_into_def using assms
  by (intro preserves_db) (auto simp: preserves_def split: sum.splits)

lemma preserves_update_in:
  assumes "tick_free I"
    and "\<And>w n t. I w \<Longrightarrow> f (sel w) = (n, t) \<Longrightarrow> I (put t w)"
  shows "preserves I (update_in E sel put f)"
  unfolding update_in_def using assms
  by (intro preserves_db) (auto simp: preserves_def split: prod.splits)


section \<open>A concrete environment\<close>

text \<open>
  For evaluating the model at concrete inputs: nothing fails, the clock shows the number of uses of
  the surroundings, identifiers and serials are numbered.
\<close>

definition exampleEnv :: env where
  "exampleEnv = \<lparr>dbFault = (\<lambda>n. NoFault), nowMs = (\<lambda>n. int n), newUuid = (\<lambda>n. ''id'' @ nat_str n),
     randomSerial = (\<lambda>n. n), randomHex = (\<lambda>n. ''0A1B2C3D4E5F6789'')\<rparr>"

lemma exampleEnv_faultless [simp]: "faultless exampleEnv"
  by (simp add: faultless_def exampleEnv_def)


section \<open>Computations that only read\<close>

named_theorems reads_rules \<open>computations that change nothing but the use of the surroundings\<close>

definition reads :: "(world, 'e, 'a) comp \<Rightarrow> bool" where
  "reads m \<longleftrightarrow> (\<forall>w. \<exists>n. snd (m w) = w\<lparr>ticks := n\<rparr>)"

lemma readsD: "reads m \<Longrightarrow> m w = (r, w') \<Longrightarrow> \<exists>n. w' = w\<lparr>ticks := n\<rparr>"
  unfolding reads_def by (metis snd_conv)

lemma world_same_ticks: "\<exists>n. w = w\<lparr>ticks := n\<rparr>" for w :: world
  by (rule exI [of _ "ticks w"]) simp

lemma reads_pure [reads_rules]:
  "reads (returnM x)" "reads (throwM e)" "reads (liftE z)" "reads (guardM b e)" "reads (getsM f)"
  by (simp_all add: reads_def comp_simps world_same_ticks)

lemma reads_required [reads_rules]: "reads (required x e)"
  by (cases x) (simp_all add: reads_def comp_simps world_same_ticks)

lemma reads_draw [reads_rules]: "reads (draw f)" "reads (now E)" "reads (uuid E)"
  by (auto simp: reads_def draw_def now_def uuid_def)

lemma reads_bindM [reads_rules]:
  assumes "reads m" and "\<And>x. reads (f x)"
  shows "reads (bindM m f)"
  unfolding reads_def
proof
  fix w
  obtain r w1 where m: "m w = (r, w1)" by fastforce
  with assms(1) obtain n where w1: "w1 = w\<lparr>ticks := n\<rparr>" by (metis readsD)
  show "\<exists>n. snd (bindM m f w) = w\<lparr>ticks := n\<rparr>"
  proof (cases r)
    case (Inl e)
    with m w1 show ?thesis by (auto simp: bindM_def)
  next
    case (Inr x)
    obtain n' where "snd (f x w1) = w1\<lparr>ticks := n'\<rparr>" using assms(2) unfolding reads_def by blast
    with Inr m w1 show ?thesis by (auto simp: bindM_def)
  qed
qed

lemma reads_catchM [reads_rules]:
  assumes "reads m" and "\<And>e. reads (h e)"
  shows "reads (catchM m h)"
  unfolding reads_def
proof
  fix w
  obtain r w1 where m: "m w = (r, w1)" by fastforce
  with assms(1) obtain n where w1: "w1 = w\<lparr>ticks := n\<rparr>" by (metis readsD)
  show "\<exists>n. snd (catchM m h w) = w\<lparr>ticks := n\<rparr>"
  proof (cases r)
    case (Inr x)
    with m w1 show ?thesis by (auto simp: catchM_def)
  next
    case (Inl e)
    obtain n' where "snd (h e w1) = w1\<lparr>ticks := n'\<rparr>" using assms(2) unfolding reads_def by blast
    with Inl m w1 show ?thesis by (auto simp: catchM_def)
  qed
qed

lemma reads_query [reads_rules]: "reads (query E sel)"
  unfolding reads_def query_def db_def by (auto simp: Let_def comp_simps split: fault.split)

lemma reads_if [reads_rules]: "reads m \<Longrightarrow> reads n \<Longrightarrow> reads (if b then m else n)"
  by simp

lemma reads_case_option [reads_rules]:
  "reads m \<Longrightarrow> (\<And>x. reads (f x)) \<Longrightarrow> reads (case z of None \<Rightarrow> m | Some x \<Rightarrow> f x)"
  by (cases z) simp_all

lemma reads_case_prod [reads_rules]:
  "(\<And>x y. reads (f x y)) \<Longrightarrow> reads (case z of (x, y) \<Rightarrow> f x y)"
  by (cases z) simp

lemma reads_case_sum [reads_rules]:
  "(\<And>x. reads (f x)) \<Longrightarrow> (\<And>x. reads (g x)) \<Longrightarrow> reads (case z of Inl x \<Rightarrow> f x | Inr x \<Rightarrow> g x)"
  by (cases z) simp_all

lemma reads_preserves: "reads m \<Longrightarrow> tick_free I \<Longrightarrow> preserves I m"
  unfolding reads_def preserves_def tick_free_def by metis


text \<open>Updates of the counter are kept outermost.\<close>

lemma ticks_outermost [comp_simps]:
  "w\<lparr>ticks := n, accounts := x1\<rparr> = w\<lparr>accounts := x1, ticks := n\<rparr>"
  "w\<lparr>ticks := n, transfers := x2\<rparr> = w\<lparr>transfers := x2, ticks := n\<rparr>"
  "w\<lparr>ticks := n, ledgerEntries := x3\<rparr> = w\<lparr>ledgerEntries := x3, ticks := n\<rparr>"
  "w\<lparr>ticks := n, idempotencyKeys := x4\<rparr> = w\<lparr>idempotencyKeys := x4, ticks := n\<rparr>"
  "w\<lparr>ticks := n, kycProfiles := x5\<rparr> = w\<lparr>kycProfiles := x5, ticks := n\<rparr>"
  "w\<lparr>ticks := n, published := x6\<rparr> = w\<lparr>published := x6, ticks := n\<rparr>"
  by simp_all

end
