(* ===== verification/Store.thy ===== *)
theory Store
  imports World
begin

text \<open>
  Optimistic locking. The account and KYC profile repositories save an aggregate the same way: its
  row is created while its version is 0, and otherwise replaces the row that has the aggregate's
  identifier and the version before its own; when there is no such row the save throws. The
  statement is \<open>saveVersioned\<close>; the contract it gives a repository is the locale
  \<open>versioned_store\<close>, with the consequences for a sequence of saves proved once.
\<close>

section \<open>The statement\<close>

text \<open>\<open>conflict\<close> is the exception of the repository, \<open>valid\<close> the range of its columns.\<close>

definition saveVersioned ::
  "env \<Rightarrow> (world \<Rightarrow> 'r list) \<Rightarrow> ('r list \<Rightarrow> world \<Rightarrow> world) \<Rightarrow> ('r \<Rightarrow> bool) \<Rightarrow> ('r \<Rightarrow> 'r \<Rightarrow> bool) \<Rightarrow>
   ('r \<Rightarrow> string) \<Rightarrow> ('r \<Rightarrow> int) \<Rightarrow> exn \<Rightarrow> 'r \<Rightarrow> unit action" where
  "saveVersioned E sel put valid clash key ver conflict data =
     (let previousVersion = ver data - 1
      in if previousVersion < 0 then insert_into E sel put (create_row valid clash data)
         else if \<not> valid data then db E (throwM int8Overflow)
         else bindM (update_in E sel put
                       (update_rows (\<lambda>r. key r = key data \<and> ver r = previousVersion) (\<lambda>r. data)))
                (\<lambda>count. guardM (count \<noteq> 0) conflict))"

lemma saveVersioned_Inr:
  assumes "saveVersioned E sel put valid clash key ver conflict data w = (Inr u, w')"
    and "\<And>w n. sel (w\<lparr>ticks := n\<rparr>) = sel w"
  shows "valid data \<and>
    (if ver data \<le> 0
     then \<not> list_ex (clash data) (sel w) \<and>
          w' = put (sel w @ [data]) (w\<lparr>ticks := Suc (ticks w)\<rparr>)
     else (\<exists>r \<in> set (sel w). key r = key data \<and> ver r = ver data - 1) \<and>
          w' = put (map (\<lambda>r. if key r = key data \<and> ver r = ver data - 1 then data else r) (sel w))
                 (w\<lparr>ticks := Suc (ticks w)\<rparr>))"
  using assms
  by (auto simp: saveVersioned_def Let_def insert_into_def update_in_def update_rows_def
      create_row_def bindM_eq_Inr comp_simps filter_empty_conv
      split: if_splits sum.splits dest!: db_eq_Inr)

text \<open>Whatever happens, the table ends as it was or as the successful save leaves it.\<close>

lemma saveVersioned_state:
  assumes "\<And>w n. sel (w\<lparr>ticks := n\<rparr>) = sel w" and "\<And>t w. sel (put t w) = t"
    and "saveVersioned E sel put valid clash key ver conflict data w = (r, w')"
  shows "sel w' = sel w \<or>
    (valid data \<and>
     (if ver data \<le> 0
      then \<not> list_ex (clash data) (sel w) \<and> sel w' = sel w @ [data]
      else (\<exists>r \<in> set (sel w). key r = key data \<and> ver r = ver data - 1) \<and>
           sel w' = map (\<lambda>r. if key r = key data \<and> ver r = ver data - 1 then data else r) (sel w)))"
proof -
  let ?n = "ticks w"
  let ?u = "map (\<lambda>r. if key r = key data \<and> ver r = ver data - 1 then data else r) (sel w)"
  have id: "?u = sel w" if "\<not> (\<exists>r \<in> set (sel w). key r = key data \<and> ver r = ver data - 1)"
    using that by (intro map_idI) auto
  consider (create) "ver data \<le> 0" | (invalid) "0 < ver data" "\<not> valid data"
    | (update) "0 < ver data" "valid data" by linarith
  then show ?thesis
  proof cases
    case create
    with assms show ?thesis
      by (cases "dbFault E ?n")
        (auto simp: saveVersioned_def Let_def insert_into_def create_row_def db_def comp_simps
          split: if_splits)
  next
    case invalid
    with assms show ?thesis
      by (cases "dbFault E ?n") (auto simp: saveVersioned_def Let_def db_def comp_simps)
  next
    case update
    then have *: "sel w' = sel w \<or> sel w' = ?u"
      using assms
      by (cases "dbFault E ?n")
        (auto simp: saveVersioned_def Let_def update_in_def update_rows_def bindM_def guardM_def
          db_def comp_simps split: if_splits)
    show ?thesis
    proof (cases "\<exists>r \<in> set (sel w). key r = key data \<and> ver r = ver data - 1")
      case True
      with * update show ?thesis by simp
    next
      case False
      then have "?u = sel w" by (rule id)
      with * have "sel w' = sel w" by (elim disjE) simp_all
      then show ?thesis ..
    qed
  qed
qed

section \<open>The contract\<close>

text \<open>A sequence of saves, each by its own caller, of which some may throw.\<close>

inductive saves :: "(env \<Rightarrow> 'a \<Rightarrow> unit action) \<Rightarrow> world \<Rightarrow> world \<Rightarrow> bool"
  for save :: "env \<Rightarrow> 'a \<Rightarrow> unit action" where
  none: "saves save w w"
| one: "save E a w = (r, w1) \<Longrightarrow> saves save w1 w2 \<Longrightarrow> saves save w w2"

text \<open>
  What a repository with optimistic locking promises: \<open>lookup w i\<close> is the aggregate stored under
  \<open>i\<close>, \<open>stored a\<close> what is left of \<open>a\<close> once it is stored (its pending events are not), and
  \<open>usable\<close> the well-formedness of the table the promises rest on.
\<close>

locale versioned_store =
  fixes lookup :: "world \<Rightarrow> string \<Rightarrow> 'a option"
    and save :: "env \<Rightarrow> 'a \<Rightarrow> unit action"
    and ident :: "'a \<Rightarrow> string"
    and version :: "'a \<Rightarrow> int"
    and stored :: "'a \<Rightarrow> 'a"
    and usable :: "world \<Rightarrow> bool"
  assumes version_stored: "version (stored a) = version a"
    and save_previous:
      "usable w \<Longrightarrow> save E a w = (Inr (), w') \<Longrightarrow>
       (if version a \<le> 0 then lookup w (ident a) = None
        else \<exists>b. lookup w (ident a) = Some b \<and> version b = version a - 1)"
    and save_lookup:
      "usable w \<Longrightarrow> save E a w = (Inr (), w') \<Longrightarrow>
       lookup w' i = (if i = ident a then Some (stored a) else lookup w i)"
    and save_failed:
      "usable w \<Longrightarrow> save E a w = (Inl e, w') \<Longrightarrow>
       (\<forall>i. lookup w' i = lookup w i) \<or>
       ((if version a \<le> 0 then lookup w (ident a) = None
         else \<exists>b. lookup w (ident a) = Some b \<and> version b = version a - 1) \<and>
        (\<forall>i. lookup w' i = (if i = ident a then Some (stored a) else lookup w i)))"
    and save_usable: "usable w \<Longrightarrow> save E a w = (r, w') \<Longrightarrow> usable w'"
begin

lemma save_step:
  assumes "usable w" and "save E a w = (r, w')" and "lookup w i = Some b"
  obtains "lookup w' i = Some b"
  | c where "lookup w' i = Some c" "version c = version b + 1" "c = stored a" "ident a = i"
proof (cases r)
  case (Inr u)
  with assms have s: "save E a w = (Inr (), w')" by (cases u) simp
  show ?thesis
    using save_lookup [OF assms(1) s, of i] save_previous [OF assms(1) s] assms(3) that
    by (auto split: if_splits simp: version_stored)
next
  case (Inl e)
  with assms have s: "save E a w = (Inl e, w')" by simp
  show ?thesis
  proof (cases "lookup w' i = Some b")
    case True
    with that show ?thesis by blast
  next
    case False
    with save_failed [OF assms(1) s] assms(3)
    have prev: "if version a \<le> 0 then lookup w (ident a) = None
         else \<exists>b. lookup w (ident a) = Some b \<and> version b = version a - 1"
      and all: "\<forall>j. lookup w' j = (if j = ident a then Some (stored a) else lookup w j)"
      by auto
    from False assms(3) all have "ident a = i" by metis
    with that(2) prev all assms(3) show ?thesis by (auto simp: version_stored split: if_splits)
  qed
qed

lemma saves_version:
  "saves save w w' \<Longrightarrow> usable w \<Longrightarrow> lookup w i = Some b \<Longrightarrow>
    usable w' \<and> (\<exists>c. lookup w' i = Some c \<and> version b \<le> version c \<and> (version c = version b \<longrightarrow> c = b))"
proof (induction arbitrary: b rule: saves.induct)
  case (none w)
  then show ?case by simp
next
  case (one E a w r w1 w2)
  note usable1 = save_usable [OF one.prems(1) one.hyps(1)]
  show ?case
  proof (rule save_step [OF one.prems(1) one.hyps(1) one.prems(2)])
    assume "lookup w1 i = Some b"
    with one.IH usable1 show ?thesis by blast
  next
    fix c assume "lookup w1 i = Some c" "version c = version b + 1"
    with one.IH [OF usable1, of c] show ?thesis by fastforce
  qed
qed

text \<open>
  An aggregate whose version is not above the stored one cannot be saved: whoever read it before
  the last save of somebody else gets an exception.
\<close>

lemma stale_save_refused:
  assumes "usable w" and "lookup w (ident a) = Some b" and "version a \<le> version b"
  shows "save E a w \<noteq> (Inr (), w')"
proof
  assume "save E a w = (Inr (), w')"
  from save_previous [OF assms(1) this] assms(2,3) show False by (simp split: if_splits)
qed

text \<open>
  No lost update: of two aggregates that were changed from the same stored version, once one is
  saved the other is refused, however many saves happen in between.
\<close>

lemma no_lost_update:
  assumes "usable w" and "save E a w = (Inr (), w1)" and "saves save w1 w2"
    and "ident b = ident a" and "version b \<le> version a"
  shows "save F b w2 \<noteq> (Inr (), w3)"
proof -
  have u1: "usable w1" by (rule save_usable [OF assms(1,2)])
  have "lookup w1 (ident a) = Some (stored a)"
    using save_lookup [OF assms(1,2)] by simp
  from saves_version [OF assms(3) u1 this] obtain c
    where "usable w2" "lookup w2 (ident a) = Some c" "version a \<le> version c"
    by (auto simp: version_stored)
  with assms(4,5) show ?thesis by (intro stale_save_refused [where b = c]) auto
qed

text \<open>If the version read is still the stored one, nothing was written in between.\<close>

lemma unchanged_version:
  "saves save w w' \<Longrightarrow> usable w \<Longrightarrow> lookup w i = Some b \<Longrightarrow> lookup w' i = Some c \<Longrightarrow>
    version c = version b \<Longrightarrow> c = b"
  using saves_version by fastforce

end

section \<open>Tables that keep the contract\<close>

text \<open>
  A repository whose \<open>save\<close> is \<open>saveVersioned\<close> on a table with distinct keys keeps the
  contract; \<open>rd\<close> and \<open>pers\<close> are its mapper.
\<close>

lemma find_update_key:
  assumes "distinct (map key xs)" and "x \<in> set xs" and "key x = key d" and "c x"
  shows "List.find (\<lambda>r. key r = i) (map (\<lambda>r. if key r = key d \<and> c r then d else r) xs) =
         (if i = key d then Some d else List.find (\<lambda>r. key r = i) xs)"
  using assms
proof (induction xs)
  case Nil
  then show ?case by simp
next
  case (Cons y ys)
  show ?case
  proof (cases "key y = key d")
    case True
    with Cons.prems have "y = x" by (auto simp: image_iff)
    moreover have "map (\<lambda>r. if key r = key d \<and> c r then d else r) ys = ys"
      using Cons.prems(1) True by (intro map_idI) (auto simp: image_iff)
    ultimately show ?thesis using Cons.prems(4) True by simp
  next
    case False
    with Cons show ?thesis by auto
  qed
qed

lemma find_key_ex:
  "distinct (map key xs) \<Longrightarrow> (\<exists>r \<in> set xs. key r = i \<and> P r) \<Longrightarrow>
    \<exists>r. List.find (\<lambda>r. key r = i) xs = Some r \<and> P r"
  by (induction xs) (auto simp: image_iff)

text \<open>The table a successful save leaves, as \<open>saveVersioned_Inr\<close> gives it.\<close>

definition saved_row :: "('r \<Rightarrow> string) \<Rightarrow> ('r \<Rightarrow> int) \<Rightarrow> 'r \<Rightarrow> 'r list \<Rightarrow> 'r list" where
  "saved_row key ver d t =
     (if ver d \<le> 0 then t @ [d]
      else map (\<lambda>r. if key r = key d \<and> ver r = ver d - 1 then d else r) t)"

definition can_save :: "('r \<Rightarrow> 'r \<Rightarrow> bool) \<Rightarrow> ('r \<Rightarrow> string) \<Rightarrow> ('r \<Rightarrow> int) \<Rightarrow> 'r \<Rightarrow> 'r list \<Rightarrow> bool" where
  "can_save clash key ver d t \<longleftrightarrow>
     (if ver d \<le> 0 then \<not> list_ex (clash d) t
      else \<exists>r \<in> set t. key r = key d \<and> ver r = ver d - 1)"

lemma saveVersioned_Inr':
  assumes "saveVersioned E sel put valid clash key ver conflict data w = (Inr u, w')"
    and "\<And>w n. sel (w\<lparr>ticks := n\<rparr>) = sel w"
  shows "valid data \<and> can_save clash key ver data (sel w) \<and>
    w' = put (saved_row key ver data (sel w)) (w\<lparr>ticks := Suc (ticks w)\<rparr>)"
  using saveVersioned_Inr [OF assms] by (simp add: can_save_def saved_row_def split: if_splits)

lemma saveVersioned_state':
  assumes "\<And>w n. sel (w\<lparr>ticks := n\<rparr>) = sel w" and "\<And>t w. sel (put t w) = t"
    and "saveVersioned E sel put valid clash key ver conflict data w = (r, w')"
  shows "sel w' = sel w \<or>
    (valid data \<and> can_save clash key ver data (sel w) \<and> sel w' = saved_row key ver data (sel w))"
  using saveVersioned_state [OF assms] by (simp add: can_save_def saved_row_def split: if_splits)

lemma saved_row_effect:
  assumes distinct: "distinct (map key t)" and can: "can_save clash key ver d t"
    and clash: "\<And>a b. key a = key b \<Longrightarrow> clash a b"
  shows saved_row_previous: "if ver d \<le> 0 then List.find (\<lambda>r. key r = key d) t = None
          else \<exists>b. List.find (\<lambda>r. key r = key d) t = Some b \<and> ver b = ver d - 1"
    and saved_row_find: "List.find (\<lambda>r. key r = i) (saved_row key ver d t) =
         (if i = key d then Some d else List.find (\<lambda>r. key r = i) t)"
    and saved_row_distinct: "distinct (map key (saved_row key ver d t))"
proof -
  have "(if ver d \<le> 0 then List.find (\<lambda>r. key r = key d) t = None
          else \<exists>b. List.find (\<lambda>r. key r = key d) t = Some b \<and> ver b = ver d - 1) \<and>
        List.find (\<lambda>r. key r = i) (saved_row key ver d t) =
         (if i = key d then Some d else List.find (\<lambda>r. key r = i) t) \<and>
        distinct (map key (saved_row key ver d t))"
  proof (cases "ver d \<le> 0")
    case True
    with can have new: "\<forall>r \<in> set t. key r \<noteq> key d"
      by (auto simp: can_save_def list_ex_iff dest: clash [OF sym])
    then have "List.find (\<lambda>r. key r = key d) t = None" by (simp add: find_None_iff)
    with True distinct new show ?thesis
      by (auto simp: saved_row_def find_append split: option.split)
  next
    case False
    with can obtain r where r: "r \<in> set t" "key r = key d" "ver r = ver d - 1"
      by (auto simp: can_save_def)
    have "map key (saved_row key ver d t) = map key t"
      unfolding saved_row_def using False by (simp only: if_False) (rule map_key_update, simp)
    with distinct have "distinct (map key (saved_row key ver d t))" by (simp only:)
    moreover note find_key_ex [of key t "key d" "\<lambda>b. ver b = ver d - 1"]
      find_update_key [of key t r d "\<lambda>r. ver r = ver d - 1" i]
    ultimately show ?thesis using distinct r False by (auto simp: saved_row_def)
  qed
  then show "if ver d \<le> 0 then List.find (\<lambda>r. key r = key d) t = None
          else \<exists>b. List.find (\<lambda>r. key r = key d) t = Some b \<and> ver b = ver d - 1"
    and "List.find (\<lambda>r. key r = i) (saved_row key ver d t) =
         (if i = key d then Some d else List.find (\<lambda>r. key r = i) t)"
    and "distinct (map key (saved_row key ver d t))" by blast+
qed

lemma versioned_store_of_table:
  assumes sel: "\<And>w n. sel (w\<lparr>ticks := n\<rparr>) = sel w" and put: "\<And>t w. sel (put t w) = t"
    and clash: "\<And>a b. key a = key b \<Longrightarrow> clash a b"
    and save: "\<And>E a. save E a = saveVersioned E sel put valid clash key ver (conflict a) (pers a)"
    and ident: "\<And>a. ident a = key (pers a)" and version: "\<And>a. version a = ver (pers a)"
    and rd: "\<And>r. version (rd r) = ver r"
  shows "versioned_store (\<lambda>w i. map_option rd (List.find (\<lambda>r. key r = i) (sel w))) save ident version
           (\<lambda>a. rd (pers a)) (\<lambda>w. distinct (map key (sel w)))"
proof
  show "version (rd (pers a)) = version a" for a by (simp only: rd) (simp only: version)
next
  fix w E a w' i
  assume ok: "distinct (map key (sel w))" and s: "save E a w = (Inr (), w')"
  from saveVersioned_Inr' [OF s [unfolded save] sel]
  have can: "can_save clash key ver (pers a) (sel w)"
    and new: "sel w' = saved_row key ver (pers a) (sel w)" by (simp_all add: put)
  show "if version a \<le> 0 then map_option rd (List.find (\<lambda>r. key r = ident a) (sel w)) = None
        else \<exists>b. map_option rd (List.find (\<lambda>r. key r = ident a) (sel w)) = Some b \<and>
                 version b = version a - 1"
    using saved_row_previous [OF ok can clash]
    by (auto simp: ident version rd [unfolded version] split: if_splits)
  show "map_option rd (List.find (\<lambda>r. key r = i) (sel w')) =
        (if i = ident a then Some (rd (pers a)) else map_option rd (List.find (\<lambda>r. key r = i) (sel w)))"
    using saved_row_find [OF ok can clash] by (simp add: new ident)
next
  fix w E a e w'
  assume ok: "distinct (map key (sel w))" and s: "save E a w = (Inl e, w')"
  from saveVersioned_state' [OF sel put s [unfolded save]]
  consider "sel w' = sel w" | "can_save clash key ver (pers a) (sel w)"
      "sel w' = saved_row key ver (pers a) (sel w)" by blast
  then show "(\<forall>i. map_option rd (List.find (\<lambda>r. key r = i) (sel w')) =
               map_option rd (List.find (\<lambda>r. key r = i) (sel w))) \<or>
          (if version a \<le> 0 then map_option rd (List.find (\<lambda>r. key r = ident a) (sel w)) = None
           else \<exists>b. map_option rd (List.find (\<lambda>r. key r = ident a) (sel w)) = Some b \<and>
                    version b = version a - 1) \<and>
          (\<forall>i. map_option rd (List.find (\<lambda>r. key r = i) (sel w')) =
               (if i = ident a then Some (rd (pers a))
                else map_option rd (List.find (\<lambda>r. key r = i) (sel w))))"
  proof cases
    case 2
    with saved_row_previous [OF ok 2(1) clash] saved_row_find [OF ok 2(1) clash] show ?thesis
      by (auto simp: ident version rd [unfolded version] split: if_splits)
  qed simp
next
  fix w E a r w'
  assume ok: "distinct (map key (sel w))" and s: "save E a w = (r, w')"
  from saveVersioned_state' [OF sel put s [unfolded save]]
  consider "sel w' = sel w" | "can_save clash key ver (pers a) (sel w)"
      "sel w' = saved_row key ver (pers a) (sel w)" by blast
  then show "distinct (map key (sel w'))"
  proof cases
    case 1
    with ok show ?thesis by (simp only:)
  next
    case 2
    from saved_row_distinct [OF ok 2(1) clash] 2(2) show ?thesis by (simp only:)
  qed
qed

lemma preserves_saveVersioned:
  assumes "tick_free I" and "\<And>w t. I w \<Longrightarrow> I (put t w)"
  shows "preserves I (saveVersioned E sel put valid clash ident ver conflict r)"
  unfolding saveVersioned_def Let_def
  by (intro preserves_rules preserves_db preserves_insert_into preserves_update_in assms) (simp_all add: assms)

end
