(* ===== verification/Kyc.thy ===== *)
theory Kyc
  imports Store
begin

text \<open>
  The compliance domain (\<^verbatim>\<open>modules/compliance\<close>): identity numbers, the \<open>KycProfile\<close>
  aggregate with its tier progression and sanctions flag, the tier limits, and the repositories and
  the tier resolver other modules read them through.
\<close>

section \<open>Identity numbers\<close>

definition matches_digits :: "nat \<Rightarrow> string \<Rightarrow> bool" where
  "matches_digits n s \<longleftrightarrow> length s = n \<and> list_all is_digit s"

datatype bvn = Bvn (bvn_value: string)

datatype nin = Nin (nin_value: string)

definition Bvn_create :: "string \<Rightarrow> exn + bvn" where
  "Bvn_create rawBvn =
     (if rawBvn = [] \<or> \<not> matches_digits 11 rawBvn
      then Inl (DomainException ''BVN must be exactly 11 digits'' ''INVALID_BVN'')
      else Inr (Bvn rawBvn))"

definition Nin_create :: "string \<Rightarrow> exn + nin" where
  "Nin_create rawNin =
     (if rawNin = [] \<or> \<not> matches_digits 11 rawNin
      then Inl (DomainException ''NIN must be exactly 11 digits'' ''INVALID_NIN'')
      else Inr (Nin rawNin))"

text \<open>\<open>s.slice(-k)\<close>\<close>

definition slice_last :: "nat \<Rightarrow> string \<Rightarrow> string" where
  "slice_last k s = drop (length s - k) s"

definition Bvn_toMasked :: "bvn \<Rightarrow> string" where
  "Bvn_toMasked b = ''*******'' @ slice_last 4 (bvn_value b)"

definition Nin_toMasked :: "nin \<Rightarrow> string" where
  "Nin_toMasked n = ''*******'' @ slice_last 4 (nin_value n)"

section \<open>Tier limits\<close>

record kycTierLimits_t =
  perTransactionLimit :: "money option"
  dailyTransferLimit :: "money option"
  maxBalance :: "money option"

text \<open>\<open>DEFAULT_LIMITS_MAJOR_UNITS_NGN\<close>: per transaction, per day, balance.\<close>

fun defaultLimitsMajorUnits :: "kycTier \<Rightarrow> string option \<times> string option \<times> string option" where
  "defaultLimitsMajorUnits TIER_1 = (Some ''50000'', Some ''50000'', Some ''300000'')"
| "defaultLimitsMajorUnits TIER_2 = (Some ''200000'', Some ''200000'', Some ''500000'')"
| "defaultLimitsMajorUnits TIER_3 = (Some ''5000000'', Some ''5000000'', None)"

fun toMoneyOrNull :: "string option \<Rightarrow> currency \<Rightarrow> exn + money option" where
  "toMoneyOrNull None currency = Inr None"
| "toMoneyOrNull (Some majorUnits) currency =
     bindE (fromDecimalString majorUnits currency) (\<lambda>m. Inr (Some m))"

definition getDefaultKycTierLimits :: "kycTier \<Rightarrow> currency \<Rightarrow> exn + kycTierLimits_t" where
  "getDefaultKycTierLimits tier currency =
     (let (perTransaction, daily, maxBal) = defaultLimitsMajorUnits tier
      in bindE (toMoneyOrNull perTransaction currency) (\<lambda>p.
         bindE (toMoneyOrNull daily currency) (\<lambda>d.
         bindE (toMoneyOrNull maxBal currency) (\<lambda>b.
         Inr \<lparr>perTransactionLimit = p, dailyTransferLimit = d, maxBalance = b\<rparr>))))"

definition nullableMinorUnits :: "int option \<Rightarrow> currency \<Rightarrow> exn + money option" where
  "nullableMinorUnits v currency =
     (case v of None \<Rightarrow> Inr None
      | Some i \<Rightarrow> bindE (fromMinorUnits i currency) (\<lambda>m. Inr (Some m)))"

definition KycTierLimitMapper_toDomain :: "kyc_tier_limit_row \<Rightarrow> exn + kycTierLimits_t" where
  "KycTierLimitMapper_toDomain r =
     bindE (nullableMinorUnits (klr_perTransactionLimit r) (klr_currency r)) (\<lambda>p.
     bindE (nullableMinorUnits (klr_dailyTransferLimit r) (klr_currency r)) (\<lambda>d.
     bindE (nullableMinorUnits (klr_maxBalance r) (klr_currency r)) (\<lambda>b.
     Inr \<lparr>perTransactionLimit = p, dailyTransferLimit = d, maxBalance = b\<rparr>)))"

definition kycTierLimit_findByTier :: "env \<Rightarrow> kycTier \<Rightarrow> currency \<Rightarrow> kycTierLimits_t action" where
  "kycTierLimit_findByTier E tier currency =
     bindM (query E (\<lambda>w. List.find (\<lambda>r. klr_tier r = tier) (kycTierLimits w))) (\<lambda>record.
     liftE (case record of
        Some r \<Rightarrow> KycTierLimitMapper_toDomain r
      | None \<Rightarrow> getDefaultKycTierLimits tier currency))"

section \<open>The profile aggregate\<close>

record kycProfile =
  kp_id :: string
  kp_userId :: string
  kp_tier :: kycTier
  kp_bvnVerifiedAt :: "int option"
  kp_bvnHash :: "string option"
  kp_bvnMasked :: "string option"
  kp_ninVerifiedAt :: "int option"
  kp_ninHash :: "string option"
  kp_ninMasked :: "string option"
  kp_sanctionsFlaggedAt :: "int option"
  kp_sanctionsClearedAt :: "int option"
  kp_version :: int
  kp_createdAt :: int
  kp_updatedAt :: int
  kp_events :: "domain_event list"

text \<open>
  The methods of an aggregate take, besides their own arguments, the time the clock shows during
  the call and, where one is created, the random identifier.
\<close>

definition kyc_addDomainEvent :: "int \<Rightarrow> event \<Rightarrow> kycProfile \<Rightarrow> kycProfile" where
  "kyc_addDomainEvent t e p = p\<lparr>kp_events := kp_events p @ [domainEvent t e]\<rparr>"

definition kyc_touch :: "int \<Rightarrow> kycProfile \<Rightarrow> kycProfile" where
  "kyc_touch t p = p\<lparr>kp_version := kp_version p + 1, kp_updatedAt := t\<rparr>"

definition kyc_createDefault :: "int \<Rightarrow> string \<Rightarrow> string \<Rightarrow> kycProfile" where
  "kyc_createDefault t newId userId =
     kyc_addDomainEvent t (KycProfileCreatedEvent newId userId)
       \<lparr>kp_id = newId, kp_userId = userId, kp_tier = TIER_1,
        kp_bvnVerifiedAt = None, kp_bvnHash = None, kp_bvnMasked = None,
        kp_ninVerifiedAt = None, kp_ninHash = None, kp_ninMasked = None,
        kp_sanctionsFlaggedAt = None, kp_sanctionsClearedAt = None,
        kp_version = 0, kp_createdAt = t, kp_updatedAt = t, kp_events = []\<rparr>"

definition recordBvnVerified :: "int \<Rightarrow> string \<Rightarrow> string \<Rightarrow> kycProfile \<Rightarrow> exn + kycProfile" where
  "recordBvnVerified t bvnHash bvnMasked p =
     (if kp_bvnVerifiedAt p \<noteq> None then Inl (VerificationAlreadyPassedException VT_BVN)
      else
        (let p1 = kyc_touch t (p\<lparr>kp_bvnVerifiedAt := Some t, kp_bvnHash := Some bvnHash,
                                  kp_bvnMasked := Some bvnMasked\<rparr>);
             p2 = kyc_addDomainEvent t (VerificationPassedEvent (kp_id p) (kp_userId p) VT_BVN) p1
         in Inr (if kp_tier p2 = TIER_1
                 then kyc_addDomainEvent t (KycTierUpgradedEvent (kp_id p) (kp_userId p) TIER_2)
                        (p2\<lparr>kp_tier := TIER_2\<rparr>)
                 else p2)))"

definition recordNinVerified :: "int \<Rightarrow> string \<Rightarrow> string \<Rightarrow> kycProfile \<Rightarrow> exn + kycProfile" where
  "recordNinVerified t ninHash ninMasked p =
     (if kp_ninVerifiedAt p \<noteq> None then Inl (VerificationAlreadyPassedException VT_NIN)
      else
        (let p1 = kyc_touch t (p\<lparr>kp_ninVerifiedAt := Some t, kp_ninHash := Some ninHash,
                                  kp_ninMasked := Some ninMasked\<rparr>);
             p2 = kyc_addDomainEvent t (VerificationPassedEvent (kp_id p) (kp_userId p) VT_NIN) p1
         in Inr (if kp_tier p2 = TIER_2 \<and> kp_bvnVerifiedAt p2 \<noteq> None
                 then kyc_addDomainEvent t (KycTierUpgradedEvent (kp_id p) (kp_userId p) TIER_3)
                        (p2\<lparr>kp_tier := TIER_3\<rparr>)
                 else p2)))"

definition recordVerificationFailed :: "int \<Rightarrow> verificationType \<Rightarrow> string \<Rightarrow> kycProfile \<Rightarrow> kycProfile" where
  "recordVerificationFailed t type reason p =
     kyc_addDomainEvent t (VerificationFailedEvent (kp_id p) (kp_userId p) type reason) (kyc_touch t p)"

definition isSanctionsFlagOpen :: "kycProfile \<Rightarrow> bool" where
  "isSanctionsFlagOpen p \<longleftrightarrow> kp_sanctionsFlaggedAt p \<noteq> None \<and> kp_sanctionsClearedAt p = None"

definition flagForSanctionsReview :: "int \<Rightarrow> string \<Rightarrow> kycProfile \<Rightarrow> kycProfile" where
  "flagForSanctionsReview t matchSummary p =
     (if isSanctionsFlagOpen p then p
      else kyc_addDomainEvent t
             (KycProfileFlaggedForSanctionsReviewEvent (kp_id p) (kp_userId p) matchSummary)
             (kyc_touch t (p\<lparr>kp_sanctionsFlaggedAt := Some t, kp_sanctionsClearedAt := None\<rparr>)))"

definition clearSanctionsFlag :: "int \<Rightarrow> string \<Rightarrow> string \<Rightarrow> kycProfile \<Rightarrow> exn + kycProfile" where
  "clearSanctionsFlag t clearedByStaffUserId reason p =
     (if \<not> isSanctionsFlagOpen p then Inl (SanctionsFlagNotOpenException (kp_userId p))
      else Inr (kyc_addDomainEvent t
             (KycProfileSanctionsFlagClearedEvent (kp_id p) (kp_userId p) clearedByStaffUserId reason)
             (kyc_touch t (p\<lparr>kp_sanctionsClearedAt := Some t\<rparr>))))"

definition kyc_pullDomainEvents :: "kycProfile \<Rightarrow> domain_event list \<times> kycProfile" where
  "kyc_pullDomainEvents p = (kp_events p, p\<lparr>kp_events := []\<rparr>)"

section \<open>Persistence\<close>

definition KycProfileMapper_toDomain :: "kyc_profile_row \<Rightarrow> kycProfile" where
  "KycProfileMapper_toDomain r =
     \<lparr>kp_id = kr_id r, kp_userId = kr_userId r, kp_tier = kr_tier r,
      kp_bvnVerifiedAt = kr_bvnVerifiedAt r, kp_bvnHash = kr_bvnHash r, kp_bvnMasked = kr_bvnMasked r,
      kp_ninVerifiedAt = kr_ninVerifiedAt r, kp_ninHash = kr_ninHash r, kp_ninMasked = kr_ninMasked r,
      kp_sanctionsFlaggedAt = kr_sanctionsFlaggedAt r,
      kp_sanctionsClearedAt = kr_sanctionsClearedAt r,
      kp_version = kr_version r, kp_createdAt = kr_createdAt r, kp_updatedAt = kr_updatedAt r,
      kp_events = []\<rparr>"

definition KycProfileMapper_toPersistence :: "kycProfile \<Rightarrow> kyc_profile_row" where
  "KycProfileMapper_toPersistence p =
     \<lparr>kr_id = kp_id p, kr_userId = kp_userId p, kr_tier = kp_tier p,
      kr_bvnVerifiedAt = kp_bvnVerifiedAt p, kr_bvnHash = kp_bvnHash p, kr_bvnMasked = kp_bvnMasked p,
      kr_ninVerifiedAt = kp_ninVerifiedAt p, kr_ninHash = kp_ninHash p, kr_ninMasked = kp_ninMasked p,
      kr_sanctionsFlaggedAt = kp_sanctionsFlaggedAt p,
      kr_sanctionsClearedAt = kp_sanctionsClearedAt p,
      kr_version = kp_version p, kr_createdAt = kp_createdAt p, kr_updatedAt = kp_updatedAt p\<rparr>"

definition kycProfile_findById :: "env \<Rightarrow> string \<Rightarrow> kycProfile option action" where
  "kycProfile_findById E i =
     bindM (query E (\<lambda>w. List.find (\<lambda>r. kr_id r = i) (kycProfiles w)))
       (\<lambda>record. returnM (map_option KycProfileMapper_toDomain record))"

definition kycProfile_findByUserId :: "env \<Rightarrow> string \<Rightarrow> kycProfile option action" where
  "kycProfile_findByUserId E userId =
     bindM (query E (\<lambda>w. List.find (\<lambda>r. kr_userId r = userId) (kycProfiles w)))
       (\<lambda>record. returnM (map_option KycProfileMapper_toDomain record))"

definition findAllCurrentlyFlaggedForSanctions :: "env \<Rightarrow> kycProfile list action" where
  "findAllCurrentlyFlaggedForSanctions E =
     bindM (query E (\<lambda>w. sort_key (\<lambda>r. case kr_sanctionsFlaggedAt r of Some t \<Rightarrow> t | None \<Rightarrow> 0)
              (filter (\<lambda>r. kr_sanctionsFlaggedAt r \<noteq> None \<and> kr_sanctionsClearedAt r = None)
                 (kycProfiles w))))
       (\<lambda>records. returnM (map KycProfileMapper_toDomain records))"

definition kyc_clash :: "kyc_profile_row \<Rightarrow> kyc_profile_row \<Rightarrow> bool" where
  "kyc_clash a b \<longleftrightarrow> kr_id a = kr_id b \<or> kr_userId a = kr_userId b"

definition kycProfile_save :: "env \<Rightarrow> kycProfile \<Rightarrow> unit action" where
  "kycProfile_save E profile =
     saveVersioned E kycProfiles (\<lambda>t w. w\<lparr>kycProfiles := t\<rparr>) (\<lambda>r. True) kyc_clash kr_id kr_version
       (DomainException (''KYC profile '' @ kp_id profile @ '' was modified concurrently; please retry'')
          ''CONCURRENT_MODIFICATION'')
       (KycProfileMapper_toPersistence profile)"

definition resolveTier :: "env \<Rightarrow> string \<Rightarrow> kycTier action" where
  "resolveTier E userId =
     bindM (kycProfile_findByUserId E userId) (\<lambda>profile.
     returnM (case profile of None \<Rightarrow> TIER_1 | Some p \<Rightarrow> kp_tier p))"

section \<open>The repository keeps the contract\<close>

text \<open>What is stored is read back unchanged, the pending events aside.\<close>

lemma kyc_mapper_roundtrip [row_simps]:
  "KycProfileMapper_toDomain (KycProfileMapper_toPersistence p) = p\<lparr>kp_events := []\<rparr>"
  by (simp add: KycProfileMapper_toDomain_def KycProfileMapper_toPersistence_def)

lemma kyc_mapper_fields [simp]:
  "kp_id (KycProfileMapper_toDomain r) = kr_id r"
  "kp_userId (KycProfileMapper_toDomain r) = kr_userId r"
  "kp_version (KycProfileMapper_toDomain r) = kr_version r"
  "kp_tier (KycProfileMapper_toDomain r) = kr_tier r"
  "kr_id (KycProfileMapper_toPersistence p) = kp_id p"
  "kr_userId (KycProfileMapper_toPersistence p) = kp_userId p"
  "kr_version (KycProfileMapper_toPersistence p) = kp_version p"
  by (simp_all add: KycProfileMapper_toDomain_def KycProfileMapper_toPersistence_def)

definition kyc_stored :: "world \<Rightarrow> string \<Rightarrow> kycProfile option" where
  "kyc_stored w i = map_option KycProfileMapper_toDomain (List.find (\<lambda>r. kr_id r = i) (kycProfiles w))"

definition kyc_table_ok :: "world \<Rightarrow> bool" where
  "kyc_table_ok w \<longleftrightarrow> distinct (map kr_id (kycProfiles w))"

interpretation kycs: versioned_store kyc_stored kycProfile_save kp_id kp_version
  "\<lambda>p. p\<lparr>kp_events := []\<rparr>" kyc_table_ok
proof -
  have "versioned_store (\<lambda>w i. map_option KycProfileMapper_toDomain
           (List.find (\<lambda>r. kr_id r = i) (kycProfiles w))) kycProfile_save kp_id kp_version
         (\<lambda>p. KycProfileMapper_toDomain (KycProfileMapper_toPersistence p))
         (\<lambda>w. distinct (map kr_id (kycProfiles w)))"
    by (rule versioned_store_of_table [OF _ _ _ kycProfile_save_def]) (simp_all add: kyc_clash_def)
  then show "versioned_store kyc_stored kycProfile_save kp_id kp_version
      (\<lambda>p. p\<lparr>kp_events := []\<rparr>) kyc_table_ok"
    by (simp add: kyc_stored_def [abs_def] kyc_table_ok_def [abs_def] row_simps)
qed

section \<open>The life of a profile\<close>

text \<open>One call of a method of the aggregate that does not throw, at any time, with any arguments.\<close>

inductive kyc_step :: "kycProfile \<Rightarrow> kycProfile \<Rightarrow> bool" where
  bvn: "recordBvnVerified t h m p = Inr q \<Longrightarrow> kyc_step p q"
| nin: "recordNinVerified t h m p = Inr q \<Longrightarrow> kyc_step p q"
| failed: "kyc_step p (recordVerificationFailed t type reason p)"
| flag: "kyc_step p (flagForSanctionsReview t summary p)"
| unflag: "clearSanctionsFlag t staff reason p = Inr q \<Longrightarrow> kyc_step p q"
| pull: "kyc_step p (snd (kyc_pullDomainEvents p))"
| stored: "kyc_step p (KycProfileMapper_toDomain (KycProfileMapper_toPersistence p))"

inductive kyc_steps :: "kycProfile \<Rightarrow> kycProfile \<Rightarrow> bool" where
  refl: "kyc_steps p p"
| step: "kyc_steps p q \<Longrightarrow> kyc_step q r \<Longrightarrow> kyc_steps p r"

lemmas kyc_ops = recordBvnVerified_def recordNinVerified_def recordVerificationFailed_def
  flagForSanctionsReview_def clearSanctionsFlag_def kyc_pullDomainEvents_def kyc_touch_def
  kyc_addDomainEvent_def isSanctionsFlagOpen_def Let_def

text \<open>The fields an operation leaves, whatever its arguments.\<close>

lemma recordBvnVerified_fields:
  "recordBvnVerified t h m p = Inr q \<Longrightarrow>
    kp_bvnVerifiedAt p = None \<and> kp_id q = kp_id p \<and> kp_userId q = kp_userId p \<and>
    kp_bvnVerifiedAt q = Some t \<and> kp_bvnHash q = Some h \<and> kp_bvnMasked q = Some m \<and>
    kp_ninVerifiedAt q = kp_ninVerifiedAt p \<and> kp_ninHash q = kp_ninHash p \<and>
    kp_ninMasked q = kp_ninMasked p \<and> kp_sanctionsFlaggedAt q = kp_sanctionsFlaggedAt p \<and>
    kp_sanctionsClearedAt q = kp_sanctionsClearedAt p \<and> kp_version q = kp_version p + 1 \<and>
    kp_tier q = (if kp_tier p = TIER_1 then TIER_2 else kp_tier p)"
  by (cases "kp_bvnVerifiedAt p"; cases "kp_tier p = TIER_1") (force simp: kyc_ops)+

lemma recordNinVerified_fields:
  "recordNinVerified t h m p = Inr q \<Longrightarrow>
    kp_ninVerifiedAt p = None \<and> kp_id q = kp_id p \<and> kp_userId q = kp_userId p \<and>
    kp_ninVerifiedAt q = Some t \<and> kp_ninHash q = Some h \<and> kp_ninMasked q = Some m \<and>
    kp_bvnVerifiedAt q = kp_bvnVerifiedAt p \<and> kp_bvnHash q = kp_bvnHash p \<and>
    kp_bvnMasked q = kp_bvnMasked p \<and> kp_sanctionsFlaggedAt q = kp_sanctionsFlaggedAt p \<and>
    kp_sanctionsClearedAt q = kp_sanctionsClearedAt p \<and> kp_version q = kp_version p + 1 \<and>
    kp_tier q = (if kp_tier p = TIER_2 \<and> kp_bvnVerifiedAt p \<noteq> None then TIER_3 else kp_tier p)"
  by (cases "kp_ninVerifiedAt p"; cases "kp_tier p = TIER_2 \<and> kp_bvnVerifiedAt p \<noteq> None")
    (force simp: kyc_ops)+

text \<open>What the other operations leave alone.\<close>

definition same_verification :: "kycProfile \<Rightarrow> kycProfile \<Rightarrow> bool" where
  "same_verification p q \<longleftrightarrow>
     kp_id q = kp_id p \<and> kp_userId q = kp_userId p \<and> kp_tier q = kp_tier p \<and>
     kp_bvnVerifiedAt q = kp_bvnVerifiedAt p \<and> kp_bvnHash q = kp_bvnHash p \<and>
     kp_bvnMasked q = kp_bvnMasked p \<and> kp_ninVerifiedAt q = kp_ninVerifiedAt p \<and>
     kp_ninHash q = kp_ninHash p \<and> kp_ninMasked q = kp_ninMasked p \<and>
     kp_version p \<le> kp_version q \<and>
     (kp_sanctionsFlaggedAt q = None \<longrightarrow>
        kp_sanctionsFlaggedAt p = None \<and> kp_sanctionsClearedAt q = kp_sanctionsClearedAt p)"

lemma recordVerificationFailed_same: "same_verification p (recordVerificationFailed t type r p)"
  by (simp add: same_verification_def recordVerificationFailed_def kyc_addDomainEvent_def kyc_touch_def)

lemma flagForSanctionsReview_same: "same_verification p (flagForSanctionsReview t s p)"
  by (simp add: same_verification_def flagForSanctionsReview_def kyc_addDomainEvent_def kyc_touch_def)

lemma clearSanctionsFlag_same: "clearSanctionsFlag t c r p = Inr q \<Longrightarrow> same_verification p q"
  by (cases "isSanctionsFlagOpen p") (force simp: same_verification_def clearSanctionsFlag_def
    kyc_addDomainEvent_def kyc_touch_def isSanctionsFlagOpen_def)+

lemma pull_same: "same_verification p (snd (kyc_pullDomainEvents p))"
  by (simp add: same_verification_def kyc_pullDomainEvents_def)

lemma stored_same:
  "same_verification p (KycProfileMapper_toDomain (KycProfileMapper_toPersistence p))"
  by (simp add: same_verification_def row_simps)

lemma kyc_step_cases_fields:
  assumes "kyc_step p q"
  obtains "same_verification p q"
  | t h m where "recordBvnVerified t h m p = Inr q"
  | t h m where "recordNinVerified t h m p = Inr q"
  using assms
  by (cases rule: kyc_step.cases)
    (blast intro: recordVerificationFailed_same flagForSanctionsReview_same clearSanctionsFlag_same
      pull_same stored_same)+

text \<open>What the fields of a profile say about each other.\<close>

definition kyc_inv :: "kycProfile \<Rightarrow> bool" where
  "kyc_inv p \<longleftrightarrow>
     (kp_tier p = TIER_1 \<longleftrightarrow> kp_bvnVerifiedAt p = None) \<and>
     (kp_tier p = TIER_3 \<longrightarrow> kp_ninVerifiedAt p \<noteq> None) \<and>
     (kp_bvnHash p = None \<longleftrightarrow> kp_bvnVerifiedAt p = None) \<and>
     (kp_bvnMasked p = None \<longleftrightarrow> kp_bvnVerifiedAt p = None) \<and>
     (kp_ninHash p = None \<longleftrightarrow> kp_ninVerifiedAt p = None) \<and>
     (kp_ninMasked p = None \<longleftrightarrow> kp_ninVerifiedAt p = None) \<and>
     (kp_sanctionsFlaggedAt p = None \<longrightarrow> kp_sanctionsClearedAt p = None) \<and>
     0 \<le> kp_version p"

lemma kyc_step_inv: "kyc_step p q \<Longrightarrow> kyc_inv p \<Longrightarrow> kyc_inv q"
  by (erule kyc_step_cases_fields)
    (auto simp: kyc_inv_def same_verification_def split: if_splits
      dest!: recordBvnVerified_fields recordNinVerified_fields)

text \<open>A step keeps the identity of the profile and never lowers the tier or the version.\<close>

lemma kyc_step_mono:
  "kyc_step p q \<Longrightarrow> kp_id q = kp_id p \<and> kp_userId q = kp_userId p \<and>
    kp_tier p \<le> kp_tier q \<and> kp_version p \<le> kp_version q"
  by (erule kyc_step_cases_fields)
    (auto simp: same_verification_def dest!: recordBvnVerified_fields recordNinVerified_fields)

lemma kyc_steps_inv: "kyc_steps p q \<Longrightarrow> kyc_inv p \<Longrightarrow> kyc_inv q"
  by (induction rule: kyc_steps.induct) (auto dest: kyc_step_inv)

lemma kyc_steps_mono:
  "kyc_steps p q \<Longrightarrow> kp_id q = kp_id p \<and> kp_userId q = kp_userId p \<and>
    kp_tier p \<le> kp_tier q \<and> kp_version p \<le> kp_version q"
  by (induction rule: kyc_steps.induct) (auto dest!: kyc_step_mono)

lemma kyc_createDefault_inv: "kyc_inv (kyc_createDefault t i u)"
  by (simp add: kyc_inv_def kyc_createDefault_def kyc_addDomainEvent_def)

text \<open>Once both numbers are verified and the tier is still 2, no step raises it.\<close>

lemma kyc_step_stuck:
  "kyc_step p q \<Longrightarrow> kp_tier p = TIER_2 \<Longrightarrow> kp_ninVerifiedAt p \<noteq> None \<Longrightarrow>
    kp_bvnVerifiedAt p \<noteq> None \<Longrightarrow>
    kp_tier q = TIER_2 \<and> kp_ninVerifiedAt q \<noteq> None \<and> kp_bvnVerifiedAt q \<noteq> None"
  by (erule kyc_step_cases_fields)
    (auto simp: same_verification_def dest!: recordBvnVerified_fields recordNinVerified_fields)

lemma kyc_steps_stuck:
  "kyc_steps p q \<Longrightarrow> kp_tier p = TIER_2 \<Longrightarrow> kp_ninVerifiedAt p \<noteq> None \<Longrightarrow>
    kp_bvnVerifiedAt p \<noteq> None \<Longrightarrow>
    kp_tier q = TIER_2 \<and> kp_ninVerifiedAt q \<noteq> None \<and> kp_bvnVerifiedAt q \<noteq> None"
  by (induction rule: kyc_steps.induct) (auto dest!: kyc_step_stuck)

text \<open>
  The life of the sanctions flag at a profile: a flagging opens it and announces that it did unless it
  was open already, a clearing closes an open flag, keeps when it was raised and says by whom and why
  it was closed, a clearing of a flag that is not open is refused, and no other step changes it.
\<close>

definition sanctions_rules :: "kycProfile \<Rightarrow> bool" where
  "sanctions_rules p \<longleftrightarrow>
     (\<forall>t summary q. q = flagForSanctionsReview t summary p \<longrightarrow>
        isSanctionsFlagOpen q \<and>
        (isSanctionsFlagOpen p \<longrightarrow> q = p) \<and>
        (\<not> isSanctionsFlagOpen p \<longrightarrow> kp_sanctionsFlaggedAt q = Some t \<and> kp_events q = kp_events p @
           [domainEvent t (KycProfileFlaggedForSanctionsReviewEvent (kp_id p) (kp_userId p) summary)])) \<and>
     (\<forall>t staff reason.
        case clearSanctionsFlag t staff reason p of
          Inl e \<Rightarrow> \<not> isSanctionsFlagOpen p \<and> e = SanctionsFlagNotOpenException (kp_userId p)
        | Inr q \<Rightarrow> isSanctionsFlagOpen p \<and> \<not> isSanctionsFlagOpen q \<and> kp_sanctionsClearedAt q = Some t \<and>
            kp_sanctionsFlaggedAt q = kp_sanctionsFlaggedAt p \<and> kp_events q = kp_events p @
              [domainEvent t (KycProfileSanctionsFlagClearedEvent (kp_id p) (kp_userId p) staff reason)]) \<and>
     (\<forall>q. kyc_step p q \<and> isSanctionsFlagOpen q \<noteq> isSanctionsFlagOpen p \<longrightarrow>
        (if isSanctionsFlagOpen q then \<exists>t summary. q = flagForSanctionsReview t summary p
         else \<exists>t staff reason. clearSanctionsFlag t staff reason p = Inr q))"

lemma sanctions_rules_always: "sanctions_rules p"
proof -
  have only: "if isSanctionsFlagOpen q then \<exists>t summary. q = flagForSanctionsReview t summary p
      else \<exists>t staff reason. clearSanctionsFlag t staff reason p = Inr q"
    if "kyc_step p q" "isSanctionsFlagOpen q \<noteq> isSanctionsFlagOpen p" for q
    using that
  proof (cases rule: kyc_step.cases)
    case (bvn t h m)
    with that(2) recordBvnVerified_fields show ?thesis by (force simp: isSanctionsFlagOpen_def)
  next
    case (nin t h m)
    with that(2) recordNinVerified_fields show ?thesis by (force simp: isSanctionsFlagOpen_def)
  next
    case (flag t summary)
    with that(2) show ?thesis by (auto simp: flagForSanctionsReview_def split: if_splits)
  next
    case (unflag t staff reason)
    with that(2) show ?thesis by (auto simp: clearSanctionsFlag_def split: if_splits)
  qed (use that(2) in \<open>simp_all add: kyc_ops row_simps\<close>)
  show ?thesis
    unfolding sanctions_rules_def
  proof (intro conjI allI impI)
    fix q assume "kyc_step p q \<and> isSanctionsFlagOpen q \<noteq> isSanctionsFlagOpen p"
    with only show "if isSanctionsFlagOpen q then \<exists>t summary. q = flagForSanctionsReview t summary p
        else \<exists>t staff reason. clearSanctionsFlag t staff reason p = Inr q" by blast
  qed (auto simp: flagForSanctionsReview_def clearSanctionsFlag_def kyc_addDomainEvent_def kyc_touch_def
      isSanctionsFlagOpen_def)
qed

text \<open>
  C22. The tier a profile claims is backed by its verifications: in every profile reached from a
  fresh one, the tier is above TIER_1 exactly when the BVN is verified, TIER_3 needs a verified NIN
  as well, a hash and a masked number are stored exactly for what is verified, and the tier has
  never gone down. The sanctions flag of every such profile is opened by a flagging and closed by a
  clearing, each with its event, and by nothing else; a clearing of a flag that is not open is refused.
\<close>

theorem kyc_tier_backed:
  assumes "kyc_steps (kyc_createDefault t i u) p"
  shows "kyc_inv p \<and> kp_userId p = u \<and> sanctions_rules p \<and>
    (\<forall>q. kyc_steps p q \<longrightarrow> kp_tier p \<le> kp_tier q \<and> kp_version p \<le> kp_version q)"
  using kyc_steps_inv [OF assms kyc_createDefault_inv] kyc_steps_mono [OF assms] kyc_steps_mono sanctions_rules_always
  by (auto simp: kyc_createDefault_def kyc_addDomainEvent_def)

lemma kyc_bvn_run:
  "recordBvnVerified 5 ''h'' ''m'' (kyc_createDefault 3 ''p'' ''u'') =
     Inr (kyc_addDomainEvent 5 (KycTierUpgradedEvent ''p'' ''u'' TIER_2)
       (kyc_addDomainEvent 5 (VerificationPassedEvent ''p'' ''u'' VT_BVN)
         (kyc_touch 5 ((kyc_createDefault 3 ''p'' ''u'')\<lparr>kp_bvnVerifiedAt := Some 5,
           kp_bvnHash := Some ''h'', kp_bvnMasked := Some ''m'', kp_tier := TIER_2\<rparr>))))"
  by (simp add: kyc_ops kyc_createDefault_def)

theorem kyc_tier_backed_witness:
  "\<exists>p. recordBvnVerified 5 ''h'' ''m'' (kyc_createDefault 3 ''p'' ''u'') = Inr p \<and>
     kp_tier p = TIER_2 \<and> kyc_inv p"
proof -
  obtain p where p: "recordBvnVerified 5 ''h'' ''m'' (kyc_createDefault 3 ''p'' ''u'') = Inr p"
    "kp_tier p = TIER_2"
    by (simp add: kyc_bvn_run kyc_addDomainEvent_def kyc_touch_def)
  then have "kyc_steps (kyc_createDefault 3 ''p'' ''u'') p"
    by (blast intro: kyc_steps.intros kyc_step.bvn)
  from kyc_tier_backed [OF this] p show ?thesis by blast
qed

text \<open>
  The order of the two verifications matters, for good: a user who verifies the NIN first and
  the BVN second ends with both verified at TIER_2, and no later operation on the profile raises it
  to TIER_3, the tier that requires exactly these two verifications. (A second submission of either
  number is refused.) In the other order the same two verifications reach TIER_3.
\<close>

theorem kyc_nin_first_never_tier3:
  assumes "recordNinVerified t1 nh nm (kyc_createDefault t0 i u) = Inr p1"
    and "recordBvnVerified t2 bh bm p1 = Inr p2"
    and "recordBvnVerified t1 bh bm (kyc_createDefault t0 i u) = Inr q1"
    and "recordNinVerified t2 nh nm q1 = Inr q2"
  shows "kp_tier q2 = TIER_3 \<and> kp_bvnVerifiedAt p2 \<noteq> None \<and> kp_ninVerifiedAt p2 \<noteq> None \<and>
    (\<forall>p. kyc_steps p2 p \<longrightarrow> kp_tier p = TIER_2)"
proof -
  have fresh: "kp_tier (kyc_createDefault t0 i u) = TIER_1"
    "kp_bvnVerifiedAt (kyc_createDefault t0 i u) = None"
    by (simp_all add: kyc_createDefault_def kyc_addDomainEvent_def)
  have "kp_tier q2 = TIER_3"
    using recordBvnVerified_fields [OF assms(3)] recordNinVerified_fields [OF assms(4)] fresh by simp
  moreover have p2: "kp_tier p2 = TIER_2" "kp_bvnVerifiedAt p2 \<noteq> None" "kp_ninVerifiedAt p2 \<noteq> None"
    using recordNinVerified_fields [OF assms(1)] recordBvnVerified_fields [OF assms(2)] fresh by simp_all
  ultimately show ?thesis using kyc_steps_stuck by blast
qed

theorem kyc_nin_first_never_tier3_witness:
  "\<exists>p1 p2. recordNinVerified 1 ''n'' ''nm'' (kyc_createDefault 0 ''p'' ''u'') = Inr p1 \<and>
     recordBvnVerified 2 ''b'' ''bm'' p1 = Inr p2 \<and> kp_bvnVerifiedAt p2 \<noteq> None \<and>
     (\<forall>p. kyc_steps p2 p \<longrightarrow> kp_tier p = TIER_2)"
proof -
  let ?c = "kyc_createDefault 0 ''p'' ''u''"
  obtain p1 p2 q1 q2 where
    "recordNinVerified 1 ''n'' ''nm'' ?c = Inr p1" "recordBvnVerified 2 ''b'' ''bm'' p1 = Inr p2"
    "recordBvnVerified 1 ''b'' ''bm'' ?c = Inr q1" "recordNinVerified 2 ''n'' ''nm'' q1 = Inr q2"
    by (simp add: recordBvnVerified_def recordNinVerified_def kyc_createDefault_def
        kyc_addDomainEvent_def kyc_touch_def Let_def)
  with kyc_nin_first_never_tier3 [OF this] show ?thesis by blast
qed

section \<open>What readers of tiers and limits see\<close>

definition tierOf :: "world \<Rightarrow> string \<Rightarrow> kycTier" where
  "tierOf w userId =
     (case List.find (\<lambda>r. kr_userId r = userId) (kycProfiles w) of None \<Rightarrow> TIER_1 | Some r \<Rightarrow> kr_tier r)"

definition limitsOf :: "world \<Rightarrow> kycTier \<Rightarrow> currency \<Rightarrow> exn + kycTierLimits_t" where
  "limitsOf w tier currency =
     (case List.find (\<lambda>r. klr_tier r = tier) (kycTierLimits w) of
        Some r \<Rightarrow> KycTierLimitMapper_toDomain r
      | None \<Rightarrow> getDefaultKycTierLimits tier currency)"

lemma reads_resolveTier [reads_rules]: "reads (resolveTier E u)"
  unfolding resolveTier_def kycProfile_findByUserId_def by (intro reads_rules)

lemma reads_findByTier [reads_rules]: "reads (kycTierLimit_findByTier E tier c)"
  unfolding kycTierLimit_findByTier_def by (intro reads_rules)

lemma resolveTier_Inr:
  "resolveTier E u w = (Inr tier, w') \<Longrightarrow> w' = w\<lparr>ticks := Suc (ticks w)\<rparr> \<and> tier = tierOf w u"
  by (auto simp: resolveTier_def kycProfile_findByUserId_def bindM_eq_Inr comp_simps tierOf_def
      dest!: query_eq_Inr split: option.split)

lemma findByTier_Inr:
  "kycTierLimit_findByTier E tier c w = (Inr l, w') \<Longrightarrow>
    w' = w\<lparr>ticks := Suc (ticks w)\<rparr> \<and> limitsOf w tier c = Inr l"
  by (auto simp: kycTierLimit_findByTier_def bindM_eq_Inr comp_simps limitsOf_def dest!: query_eq_Inr)

lemma tierOf_ticks [simp]: "tierOf (w\<lparr>ticks := n\<rparr>) u = tierOf w u"
  by (simp add: tierOf_def)

lemma limitsOf_ticks [simp]: "limitsOf (w\<lparr>ticks := n\<rparr>) tier c = limitsOf w tier c"
  by (simp add: limitsOf_def)

end
