(* ===== verification/Accounts.thy ===== *)
theory Accounts
  imports Kyc
begin

text \<open>
  The account aggregate (\<^verbatim>\<open>modules/accounts/domain\<close>), its mapper and its repository, with the
  invariant every operation keeps, the history of an account, and the contract of the repository.
\<close>

section \<open>Account numbers\<close>

datatype accountNumber = AccountNumber (an_value: string)

definition AccountNumber_create :: "string \<Rightarrow> exn + accountNumber" where
  "AccountNumber_create rawNumber =
     (if rawNumber = [] \<or> \<not> matches_digits 10 rawNumber
      then Inl (DomainException
             (''Invalid account number, expected 10 digits (NUBAN): '' @ rawNumber)
             ''INVALID_ACCOUNT_NUMBER'')
      else Inr (AccountNumber rawNumber))"

definition AccountNumber_equals :: "accountNumber \<Rightarrow> accountNumber \<Rightarrow> bool" where
  "AccountNumber_equals this other \<longleftrightarrow> an_value this = an_value other"

section \<open>The aggregate\<close>

record account =
  acc_id :: string
  acc_userId :: string
  acc_accountNumber :: accountNumber
  acc_accountType :: accountType
  acc_currency :: currency
  acc_balance :: money
  acc_status :: accountStatus
  acc_version :: int
  acc_createdAt :: int
  acc_updatedAt :: int
  acc_events :: "domain_event list"

definition acc_addDomainEvent :: "int \<Rightarrow> event \<Rightarrow> account \<Rightarrow> account" where
  "acc_addDomainEvent t e a = a\<lparr>acc_events := acc_events a @ [domainEvent t e]\<rparr>"

definition acc_touch :: "int \<Rightarrow> account \<Rightarrow> account" where
  "acc_touch t a = a\<lparr>acc_version := acc_version a + 1, acc_updatedAt := t\<rparr>"

definition acc_open ::
  "int \<Rightarrow> string \<Rightarrow> string \<Rightarrow> accountNumber \<Rightarrow> accountType \<Rightarrow> currency \<Rightarrow> account" where
  "acc_open t newId userId accountNumber accountType currency =
     acc_addDomainEvent t
       (AccountOpenedEvent newId userId (an_value accountNumber) (currency_str currency)
          (accountType_str accountType))
       \<lparr>acc_id = newId, acc_userId = userId, acc_accountNumber = accountNumber,
        acc_accountType = accountType, acc_currency = currency, acc_balance = zeroMoney currency,
        acc_status = AS_PENDING_VERIFICATION, acc_version = 0, acc_createdAt = t,
        acc_updatedAt = t, acc_events = []\<rparr>"

definition activate :: "int \<Rightarrow> account \<Rightarrow> account" where
  "activate t a =
     acc_addDomainEvent t (AccountActivatedEvent (acc_id a)) (acc_touch t (a\<lparr>acc_status := AS_ACTIVE\<rparr>))"

definition assertOperable :: "account \<Rightarrow> exn + unit" where
  "assertOperable a =
     (if acc_status a \<noteq> AS_ACTIVE
      then Inl (AccountNotActiveException (acc_id a) (accountStatus_str (acc_status a)))
      else Inr ())"

definition assertCurrencyMatches :: "money \<Rightarrow> account \<Rightarrow> exn + unit" where
  "assertCurrencyMatches amount a =
     (if moneyCurrency amount \<noteq> acc_currency a
      then Inl (CurrencyMismatchException (currency_str (acc_currency a))
                  (currency_str (moneyCurrency amount)))
      else Inr ())"

definition credit :: "int \<Rightarrow> money \<Rightarrow> string \<Rightarrow> account \<Rightarrow> exn + account" where
  "credit t amount reference a =
     bindE (assertOperable a) (\<lambda>_.
     bindE (assertCurrencyMatches amount a) (\<lambda>_.
     bindE (addMoney (acc_balance a) amount) (\<lambda>balance.
     Inr (acc_addDomainEvent t
            (AccountCreditedEvent (acc_id a) (int_str (minorUnits amount))
               (currency_str (moneyCurrency amount)) reference (int_str (minorUnits balance)))
            (acc_touch t (a\<lparr>acc_balance := balance\<rparr>))))))"

definition debit :: "int \<Rightarrow> money \<Rightarrow> string \<Rightarrow> account \<Rightarrow> exn + account" where
  "debit t amount reference a =
     bindE (assertOperable a) (\<lambda>_.
     bindE (assertCurrencyMatches amount a) (\<lambda>_.
     bindE (isGreaterThanOrEqualTo (acc_balance a) amount) (\<lambda>enough.
     if \<not> enough then Inl (InsufficientFundsException (acc_id a))
     else bindE (subtractMoney (acc_balance a) amount) (\<lambda>balance.
     Inr (acc_addDomainEvent t
            (AccountDebitedEvent (acc_id a) (int_str (minorUnits amount))
               (currency_str (moneyCurrency amount)) reference (int_str (minorUnits balance)))
            (acc_touch t (a\<lparr>acc_balance := balance\<rparr>)))))))"

definition freeze :: "int \<Rightarrow> string \<Rightarrow> account \<Rightarrow> account" where
  "freeze t reason a =
     acc_addDomainEvent t (AccountFrozenEvent (acc_id a) reason)
       (acc_touch t (a\<lparr>acc_status := AS_FROZEN\<rparr>))"

definition unfreeze :: "int \<Rightarrow> account \<Rightarrow> account" where
  "unfreeze t a =
     acc_addDomainEvent t (AccountUnfrozenEvent (acc_id a)) (acc_touch t (a\<lparr>acc_status := AS_ACTIVE\<rparr>))"

definition close_account :: "int \<Rightarrow> account \<Rightarrow> exn + account" where
  "close_account t a =
     (if \<not> isZeroMoney (acc_balance a)
      then Inl (AccountClosureNotAllowedException (acc_id a) ''balance must be zero to close'')
      else Inr (acc_addDomainEvent t (AccountClosedEvent (acc_id a))
                  (acc_touch t (a\<lparr>acc_status := AS_CLOSED\<rparr>))))"

definition acc_pullDomainEvents :: "account \<Rightarrow> domain_event list \<times> account" where
  "acc_pullDomainEvents a = (acc_events a, a\<lparr>acc_events := []\<rparr>)"

section \<open>Mapper and repository\<close>

definition AccountMapper_toDomain :: "account_row \<Rightarrow> exn + account" where
  "AccountMapper_toDomain r =
     bindE (AccountNumber_create (ar_accountNumber r)) (\<lambda>number.
     bindE (fromMinorUnits (ar_balance r) (ar_currency r)) (\<lambda>balance.
     Inr \<lparr>acc_id = ar_id r, acc_userId = ar_userId r, acc_accountNumber = number,
          acc_accountType = ar_accountType r, acc_currency = ar_currency r, acc_balance = balance,
          acc_status = ar_status r, acc_version = ar_version r, acc_createdAt = ar_createdAt r,
          acc_updatedAt = ar_updatedAt r, acc_events = []\<rparr>))"

definition AccountMapper_toPersistence :: "account \<Rightarrow> account_row" where
  "AccountMapper_toPersistence a =
     \<lparr>ar_id = acc_id a, ar_userId = acc_userId a, ar_accountNumber = an_value (acc_accountNumber a),
      ar_accountType = acc_accountType a, ar_currency = acc_currency a,
      ar_balance = minorUnits (acc_balance a), ar_status = acc_status a,
      ar_version = acc_version a, ar_createdAt = acc_createdAt a, ar_updatedAt = acc_updatedAt a\<rparr>"

text \<open>\<open>record ? AccountMapper.toDomain(record) : null\<close>, and the same over an array.\<close>

fun account_toDomainOrNull :: "account_row option \<Rightarrow> exn + account option" where
  "account_toDomainOrNull None = Inr None"
| "account_toDomainOrNull (Some r) = bindE (AccountMapper_toDomain r) (\<lambda>a. Inr (Some a))"

definition account_findById :: "env \<Rightarrow> string \<Rightarrow> account option action" where
  "account_findById E i =
     bindM (query E (\<lambda>w. List.find (\<lambda>r. ar_id r = i) (accounts w)))
       (\<lambda>record. liftE (account_toDomainOrNull record))"

definition account_findByAccountNumber :: "env \<Rightarrow> accountNumber \<Rightarrow> account option action" where
  "account_findByAccountNumber E accountNumber =
     bindM (query E (\<lambda>w. List.find (\<lambda>r. ar_accountNumber r = an_value accountNumber) (accounts w)))
       (\<lambda>record. liftE (account_toDomainOrNull record))"

definition account_findAllByUserId :: "env \<Rightarrow> string \<Rightarrow> account list action" where
  "account_findAllByUserId E userId =
     bindM (query E (\<lambda>w. sort_key ar_createdAt (filter (\<lambda>r. ar_userId r = userId) (accounts w))))
       (\<lambda>records. liftE (mapThrow AccountMapper_toDomain records))"

definition existsByAccountNumber :: "env \<Rightarrow> accountNumber \<Rightarrow> bool action" where
  "existsByAccountNumber E accountNumber =
     bindM (query E (\<lambda>w. length (filter (\<lambda>r. ar_accountNumber r = an_value accountNumber) (accounts w))))
       (\<lambda>count. returnM (count > 0))"

definition account_clash :: "account_row \<Rightarrow> account_row \<Rightarrow> bool" where
  "account_clash a b \<longleftrightarrow> ar_id a = ar_id b \<or> ar_accountNumber a = ar_accountNumber b"

definition account_save :: "env \<Rightarrow> account \<Rightarrow> unit action" where
  "account_save E account =
     saveVersioned E accounts (\<lambda>t w. w\<lparr>accounts := t\<rparr>) (\<lambda>r. fits_int8 (ar_balance r)) account_clash
       ar_id ar_version
       (DomainException (''Account '' @ acc_id account @ '' was modified concurrently; please retry'')
          ''CONCURRENT_MODIFICATION'')
       (AccountMapper_toPersistence account)"

lemmas acc_ops = acc_open_def activate_def credit_def debit_def freeze_def unfreeze_def
  close_account_def acc_pullDomainEvents_def acc_touch_def acc_addDomainEvent_def

section \<open>The operations, branch by branch\<close>

lemma credit_Inr:
  "credit t amount reference a = Inr b \<longleftrightarrow>
     acc_status a = AS_ACTIVE \<and> moneyCurrency amount = acc_currency a \<and>
     moneyCurrency (acc_balance a) = acc_currency a \<and>
     b = acc_addDomainEvent t
           (AccountCreditedEvent (acc_id a) (int_str (minorUnits amount)) (currency_str (acc_currency a))
              reference (int_str (minorUnits (acc_balance a) + minorUnits amount)))
           (acc_touch t (a\<lparr>acc_balance := \<lparr>minorUnits = minorUnits (acc_balance a) + minorUnits amount,
                                           moneyCurrency = acc_currency a\<rparr>\<rparr>))"
  by (auto simp: credit_def bindE_eq_Inr assertOperable_def assertCurrencyMatches_def addMoney_def
      assertSameCurrency_def split: if_splits sum.splits)

lemma debit_Inr:
  "debit t amount reference a = Inr b \<longleftrightarrow>
     acc_status a = AS_ACTIVE \<and> moneyCurrency amount = acc_currency a \<and>
     moneyCurrency (acc_balance a) = acc_currency a \<and>
     minorUnits amount \<le> minorUnits (acc_balance a) \<and>
     b = acc_addDomainEvent t
           (AccountDebitedEvent (acc_id a) (int_str (minorUnits amount)) (currency_str (acc_currency a))
              reference (int_str (minorUnits (acc_balance a) - minorUnits amount)))
           (acc_touch t (a\<lparr>acc_balance := \<lparr>minorUnits = minorUnits (acc_balance a) - minorUnits amount,
                                           moneyCurrency = acc_currency a\<rparr>\<rparr>))"
  by (auto simp: debit_def bindE_eq_Inr assertOperable_def assertCurrencyMatches_def
      isGreaterThanOrEqualTo_Inr subtractMoney_def assertSameCurrency_def split: if_splits sum.splits)

lemma close_account_Inr:
  "close_account t a = Inr b \<longleftrightarrow>
     minorUnits (acc_balance a) = 0 \<and>
     b = acc_addDomainEvent t (AccountClosedEvent (acc_id a)) (acc_touch t (a\<lparr>acc_status := AS_CLOSED\<rparr>))"
  by (auto simp: close_account_def isZeroMoney_def)

lemma acc_effect_fields [simp]:
  "acc_id (acc_addDomainEvent t e a) = acc_id a" "acc_id (acc_touch t a) = acc_id a"
  "acc_userId (acc_addDomainEvent t e a) = acc_userId a" "acc_userId (acc_touch t a) = acc_userId a"
  "acc_accountNumber (acc_addDomainEvent t e a) = acc_accountNumber a"
  "acc_accountNumber (acc_touch t a) = acc_accountNumber a"
  "acc_accountType (acc_addDomainEvent t e a) = acc_accountType a"
  "acc_accountType (acc_touch t a) = acc_accountType a"
  "acc_currency (acc_addDomainEvent t e a) = acc_currency a" "acc_currency (acc_touch t a) = acc_currency a"
  "acc_balance (acc_addDomainEvent t e a) = acc_balance a" "acc_balance (acc_touch t a) = acc_balance a"
  "acc_status (acc_addDomainEvent t e a) = acc_status a" "acc_status (acc_touch t a) = acc_status a"
  "acc_version (acc_addDomainEvent t e a) = acc_version a" "acc_version (acc_touch t a) = acc_version a + 1"
  "acc_createdAt (acc_addDomainEvent t e a) = acc_createdAt a"
  "acc_createdAt (acc_touch t a) = acc_createdAt a"
  "acc_events (acc_addDomainEvent t e a) = acc_events a @ [domainEvent t e]"
  "acc_events (acc_touch t a) = acc_events a"
  by (simp_all add: acc_addDomainEvent_def acc_touch_def)

section \<open>The invariant of an account\<close>

definition account_ok :: "account \<Rightarrow> bool" where
  "account_ok a \<longleftrightarrow>
     money_ok (acc_balance a) \<and> moneyCurrency (acc_balance a) = acc_currency a \<and>
     matches_digits 10 (an_value (acc_accountNumber a)) \<and> 0 \<le> acc_version a \<and>
     (acc_status a = AS_CLOSED \<longrightarrow> minorUnits (acc_balance a) = 0)"

text \<open>One call of an operation of an open account.\<close>

datatype account_op =
    OpActivate
  | OpCredit money string
  | OpDebit money string
  | OpFreeze string
  | OpUnfreeze
  | OpClose

fun apply_op :: "int \<Rightarrow> account_op \<Rightarrow> account \<Rightarrow> exn + account" where
  "apply_op t OpActivate a = Inr (activate t a)"
| "apply_op t (OpCredit amount reference) a = credit t amount reference a"
| "apply_op t (OpDebit amount reference) a = debit t amount reference a"
| "apply_op t (OpFreeze reason) a = Inr (freeze t reason a)"
| "apply_op t OpUnfreeze a = Inr (unfreeze t a)"
| "apply_op t OpClose a = close_account t a"

text \<open>The amounts callers pass are \<open>Money\<close> values.\<close>

fun op_ok :: "account_op \<Rightarrow> bool" where
  "op_ok (OpCredit amount reference) = money_ok amount"
| "op_ok (OpDebit amount reference) = money_ok amount"
| "op_ok _ = True"

text \<open>A sequence of calls, each at its time; a call that throws leaves the account as it was.\<close>

fun account_run :: "(int \<times> account_op) list \<Rightarrow> account \<Rightarrow> account" where
  "account_run [] a = a"
| "account_run ((t, x) # ops) a =
     (case apply_op t x a of Inl e \<Rightarrow> account_run ops a | Inr b \<Rightarrow> account_run ops b)"

text \<open>
  The specification of the history: events alone determine a balance. Each credit and debit adds or
  takes its amount and has recorded the balance it leaves; a debit never takes more than there is;
  an account is closed at zero.
\<close>

definition replay_event :: "int \<Rightarrow> event \<Rightarrow> int option" where
  "replay_event b e =
     (case e of
        AccountCreditedEvent i amount c r balanceAfter \<Rightarrow>
          (if balanceAfter = int_str (b + int (digits_val amount))
           then Some (b + int (digits_val amount)) else None)
      | AccountDebitedEvent i amount c r balanceAfter \<Rightarrow>
          (if int (digits_val amount) \<le> b \<and> balanceAfter = int_str (b - int (digits_val amount))
           then Some (b - int (digits_val amount)) else None)
      | AccountClosedEvent i \<Rightarrow> (if b = 0 then Some b else None)
      | _ \<Rightarrow> Some b)"

primrec replay :: "event list \<Rightarrow> int \<Rightarrow> int option" where
  "replay [] b = Some b"
| "replay (e # es) b = Option.bind (replay_event b e) (replay es)"

lemma replay_snoc: "replay (es @ [e]) b = Option.bind (replay es b) (\<lambda>b'. replay_event b' e)"
proof (induction es arbitrary: b)
  case Nil
  then show ?case by (cases "replay_event b e") simp_all
next
  case (Cons x es)
  then show ?case by (cases "replay_event b x") simp_all
qed

text \<open>What one successful call does, seen from its event.\<close>

lemma apply_op_event:
  assumes "apply_op t x a = Inr b" and "account_ok a" and "op_ok x"
  shows "account_ok b \<and> acc_version b = acc_version a + 1 \<and> acc_id b = acc_id a \<and>
    acc_userId b = acc_userId a \<and> acc_accountNumber b = acc_accountNumber a \<and>
    acc_currency b = acc_currency a \<and>
    (\<exists>e. acc_events b = acc_events a @ [domainEvent t e] \<and>
         replay_event (minorUnits (acc_balance a)) e = Some (minorUnits (acc_balance b)))"
  using assms
  by (cases x)
    (auto simp: credit_Inr debit_Inr close_account_Inr activate_def freeze_def unfreeze_def
      account_ok_def money_ok_def replay_event_def)

text \<open>What a history keeps: the account is well formed and its events replay to its balance.\<close>

definition history_ok :: "account \<Rightarrow> bool" where
  "history_ok a \<longleftrightarrow>
     account_ok a \<and> acc_version a + 1 = int (length (acc_events a)) \<and>
     replay (map body (acc_events a)) 0 = Some (minorUnits (acc_balance a))"

lemma history_ok_step:
  "apply_op t x a = Inr b \<Longrightarrow> history_ok a \<Longrightarrow> op_ok x \<Longrightarrow> history_ok b"
  by (drule apply_op_event) (auto simp: history_ok_def replay_snoc domainEvent_def)

lemma history_ok_run:
  "history_ok a \<Longrightarrow> \<forall>(t, x) \<in> set ops. op_ok x \<Longrightarrow> history_ok (account_run ops a)"
  by (induction ops a rule: account_run.induct) (auto split: sum.split dest: history_ok_step)

lemma acc_open_ok:
  "matches_digits 10 (an_value n) \<Longrightarrow> history_ok (acc_open t i u n ty c)"
  by (simp add: history_ok_def account_ok_def acc_open_def replay_event_def domainEvent_def)

text \<open>
  C21. The ledger view and the state view of an account agree: whatever operations are called on a
  freshly opened account, at whatever times, failing or not, its balance is never negative and in
  its currency, a closed account is empty, its version is the number of calls that succeeded, and
  replaying its events (amount by amount, each recorded \<open>balanceAfter\<close> checked, no debit beyond
  the balance) from zero gives exactly its balance.
\<close>

theorem account_history_replays:
  assumes "matches_digits 10 (an_value n)" and "\<forall>(t, x) \<in> set ops. op_ok x"
  shows "account_ok (account_run ops (acc_open t i u n ty c)) \<and>
    acc_version (account_run ops (acc_open t i u n ty c)) + 1 =
      int (length (acc_events (account_run ops (acc_open t i u n ty c)))) \<and>
    replay (map body (acc_events (account_run ops (acc_open t i u n ty c)))) 0 =
      Some (minorUnits (acc_balance (account_run ops (acc_open t i u n ty c))))"
  using history_ok_run [OF acc_open_ok [OF assms(1)] assms(2)] by (simp add: history_ok_def)

text \<open>
  A closed account can be brought back: no operation looks at whether the account is closed, so
  \<open>unfreeze\<close> turns any closed account into an active one that takes money again, and it does the
  same to an account that is still waiting for verification.
\<close>

theorem closed_account_reopens:
  assumes "account_ok a" and "acc_status a = AS_CLOSED \<or> acc_status a = AS_PENDING_VERIFICATION"
    and "money_ok m" and "moneyCurrency m = acc_currency a"
  shows "\<exists>b. credit t' m r (unfreeze t a) = Inr b \<and> acc_status b = AS_ACTIVE \<and>
    minorUnits (acc_balance b) = minorUnits (acc_balance a) + minorUnits m"
  using assms by (simp add: credit_Inr unfreeze_def account_ok_def)

theorem account_history_replays_witness:
  "replay (map body (acc_events (account_run
      [(1, OpActivate), (2, OpCredit \<lparr>minorUnits = 500, moneyCurrency = NGN\<rparr> ''r1''),
       (3, OpDebit \<lparr>minorUnits = 700, moneyCurrency = NGN\<rparr> ''r2''),
       (4, OpDebit \<lparr>minorUnits = 200, moneyCurrency = NGN\<rparr> ''r3'')]
      (acc_open 0 ''a'' ''u'' (AccountNumber ''0123456789'') AT_WALLET NGN)))) 0 = Some 300"
proof -
  let ?ops = "[(1, OpActivate), (2, OpCredit \<lparr>minorUnits = 500, moneyCurrency = NGN\<rparr> ''r1''),
       (3, OpDebit \<lparr>minorUnits = 700, moneyCurrency = NGN\<rparr> ''r2''),
       (4, OpDebit \<lparr>minorUnits = 200, moneyCurrency = NGN\<rparr> ''r3'')]"
  let ?n = "AccountNumber ''0123456789''"
  have "matches_digits 10 (an_value ?n)" by (simp add: matches_digits_def is_digit_def)
  moreover have "\<forall>(t, x) \<in> set ?ops. op_ok x" by (simp add: money_ok_def)
  moreover have "minorUnits (acc_balance (account_run ?ops (acc_open 0 ''a'' ''u'' ?n AT_WALLET NGN))) = 300"
    by (simp add: acc_open_def activate_def credit_def debit_def assertOperable_def
        assertCurrencyMatches_def subtractMoney_def assertSameCurrency_def)
  ultimately show ?thesis
    using account_history_replays [of ?n ?ops 0 "''a''" "''u''" AT_WALLET NGN] by simp
qed

theorem closed_account_reopens_witness:
  "\<exists>b. credit 9 \<lparr>minorUnits = 100, moneyCurrency = NGN\<rparr> ''r'' (unfreeze 8
      ((acc_open 0 ''a'' ''u'' (AccountNumber ''0123456789'') AT_WALLET NGN)\<lparr>acc_status := AS_CLOSED\<rparr>))
     = Inr b \<and> acc_status b = AS_ACTIVE"
  using closed_account_reopens [of
      "(acc_open 0 ''a'' ''u'' (AccountNumber ''0123456789'') AT_WALLET NGN)\<lparr>acc_status := AS_CLOSED\<rparr>"
      "\<lparr>minorUnits = 100, moneyCurrency = NGN\<rparr>" 9 "''r''" 8]
  by (auto simp: account_ok_def money_ok_def acc_open_def matches_digits_def is_digit_def)

section \<open>The repository keeps the contract\<close>

text \<open>The account of a row, when the row passes the checks of the value objects.\<close>

definition account_of_row :: "account_row \<Rightarrow> account" where
  "account_of_row r =
     \<lparr>acc_id = ar_id r, acc_userId = ar_userId r, acc_accountNumber = AccountNumber (ar_accountNumber r),
      acc_accountType = ar_accountType r, acc_currency = ar_currency r,
      acc_balance = \<lparr>minorUnits = ar_balance r, moneyCurrency = ar_currency r\<rparr>,
      acc_status = ar_status r, acc_version = ar_version r, acc_createdAt = ar_createdAt r,
      acc_updatedAt = ar_updatedAt r, acc_events = []\<rparr>"

definition account_row_ok :: "account_row \<Rightarrow> bool" where
  "account_row_ok r \<longleftrightarrow> account_ok (account_of_row r)"

lemma AccountMapper_toDomain_Inr:
  "AccountMapper_toDomain r = Inr a \<longleftrightarrow>
     matches_digits 10 (ar_accountNumber r) \<and> 0 \<le> ar_balance r \<and> a = account_of_row r"
  by (auto simp: AccountMapper_toDomain_def AccountNumber_create_def fromMinorUnits_def
      account_of_row_def bindE_eq_Inr matches_digits_def)

lemma AccountMapper_toDomain_ok [row_simps]:
  "account_row_ok r \<Longrightarrow> AccountMapper_toDomain r = Inr (account_of_row r)"
  by (auto simp: AccountMapper_toDomain_Inr account_row_ok_def account_ok_def money_ok_def account_of_row_def)

lemma account_of_row_fields [simp]:
  "acc_id (account_of_row r) = ar_id r" "acc_userId (account_of_row r) = ar_userId r"
  "acc_accountNumber (account_of_row r) = AccountNumber (ar_accountNumber r)"
  "acc_currency (account_of_row r) = ar_currency r"
  "minorUnits (acc_balance (account_of_row r)) = ar_balance r"
  "moneyCurrency (acc_balance (account_of_row r)) = ar_currency r"
  "acc_status (account_of_row r) = ar_status r" "acc_version (account_of_row r) = ar_version r"
  "acc_events (account_of_row r) = []"
  by (simp_all add: account_of_row_def)

lemma account_row_fields [simp]:
  "ar_id (AccountMapper_toPersistence a) = acc_id a"
  "ar_userId (AccountMapper_toPersistence a) = acc_userId a"
  "ar_accountNumber (AccountMapper_toPersistence a) = an_value (acc_accountNumber a)"
  "ar_currency (AccountMapper_toPersistence a) = acc_currency a"
  "ar_balance (AccountMapper_toPersistence a) = minorUnits (acc_balance a)"
  "ar_status (AccountMapper_toPersistence a) = acc_status a"
  "ar_version (AccountMapper_toPersistence a) = acc_version a"
  by (simp_all add: AccountMapper_toPersistence_def)

text \<open>Storing and loading a well-formed account loses only its pending events.\<close>

lemma account_mapper_roundtrip [row_simps]:
  "moneyCurrency (acc_balance a) = acc_currency a \<Longrightarrow>
    account_of_row (AccountMapper_toPersistence a) = a\<lparr>acc_events := []\<rparr>"
  by (simp add: account_of_row_def AccountMapper_toPersistence_def)

lemma account_ok_row [row_simps]: "account_ok a \<Longrightarrow> account_row_ok (AccountMapper_toPersistence a)"
  by (simp add: account_row_ok_def account_ok_def money_ok_def)

definition account_stored :: "world \<Rightarrow> string \<Rightarrow> account option" where
  "account_stored w i = map_option account_of_row (List.find (\<lambda>r. ar_id r = i) (accounts w))"

definition account_ids_distinct :: "world \<Rightarrow> bool" where
  "account_ids_distinct w \<longleftrightarrow> distinct (map ar_id (accounts w))"

interpretation accs: versioned_store account_stored account_save acc_id acc_version
  "\<lambda>a. account_of_row (AccountMapper_toPersistence a)" account_ids_distinct
proof -
  have "versioned_store (\<lambda>w i. map_option account_of_row
           (List.find (\<lambda>r. ar_id r = i) (accounts w))) account_save acc_id acc_version
         (\<lambda>a. account_of_row (AccountMapper_toPersistence a)) (\<lambda>w. distinct (map ar_id (accounts w)))"
    by (rule versioned_store_of_table [OF _ _ _ account_save_def]) (simp_all add: account_clash_def)
  then show "versioned_store account_stored account_save acc_id acc_version
      (\<lambda>a. account_of_row (AccountMapper_toPersistence a)) account_ids_distinct"
    by (simp add: account_stored_def [abs_def] account_ids_distinct_def [abs_def])
qed

text \<open>
  C19. No lost update on accounts, under any failures of the database: of two callers that changed
  an account they both read at the same version, as soon as one \<open>save\<close> has returned, the
  \<open>save\<close> of the other throws, whatever was saved in between (by anybody, successfully or not);
  and a \<open>save\<close> that returns stored exactly its account, over the version before its own, leaving
  every other account as it was.
\<close>

theorem account_no_lost_update:
  assumes "account_ids_distinct w" and "account_save E a w = (Inr (), w1)"
    and "saves account_save w1 w2" and "acc_id b = acc_id a" and "acc_version b \<le> acc_version a"
  shows "account_save F b w2 \<noteq> (Inr (), w3) \<and>
    account_stored w1 = (account_stored w)(acc_id a \<mapsto> account_of_row (AccountMapper_toPersistence a)) \<and>
    (if acc_version a \<le> 0 then account_stored w (acc_id a) = None
     else \<exists>c. account_stored w (acc_id a) = Some c \<and> acc_version c = acc_version a - 1)"
  using accs.no_lost_update [OF assms] accs.save_lookup [OF assms(1,2)] accs.save_previous [OF assms(1,2)]
  by (auto simp: fun_eq_iff)

definition exampleAccount :: account where
  "exampleAccount = \<lparr>acc_id = ''a1'', acc_userId = ''u1'', acc_accountNumber = AccountNumber ''0000000000'',
     acc_accountType = AT_WALLET, acc_currency = NGN,
     acc_balance = \<lparr>minorUnits = 500, moneyCurrency = NGN\<rparr>, acc_status = AS_ACTIVE, acc_version = 1,
     acc_createdAt = 0, acc_updatedAt = 0, acc_events = []\<rparr>"

theorem account_no_lost_update_witness:
  "\<forall>w. account_save exampleEnv (exampleAccount\<lparr>acc_version := 2, acc_status := AS_FROZEN\<rparr>)
     (snd (account_save exampleEnv (exampleAccount\<lparr>acc_version := 2\<rparr>)
       (emptyWorld\<lparr>accounts := [AccountMapper_toPersistence exampleAccount]\<rparr>))) \<noteq> (Inr (), w)"
proof -
  let ?w = "emptyWorld\<lparr>accounts := [AccountMapper_toPersistence exampleAccount]\<rparr>"
  let ?a = "exampleAccount\<lparr>acc_version := 2\<rparr>"
  have "fst (account_save exampleEnv ?a ?w) = Inr ()" by code_simp
  then have "account_save exampleEnv ?a ?w = (Inr (), snd (account_save exampleEnv ?a ?w))"
    by (metis prod.collapse)
  moreover have "account_ids_distinct ?w" by (simp add: account_ids_distinct_def emptyWorld_def)
  ultimately show ?thesis
    using account_no_lost_update [of ?w exampleEnv ?a _ _ "exampleAccount\<lparr>acc_version := 2, acc_status := AS_FROZEN\<rparr>"]
      saves.none [of account_save] by (auto simp: exampleAccount_def)
qed

end
