(* ===== verification/Transfers.thy ===== *)
theory Transfers
  imports Accounts
begin

text \<open>
  The transfer aggregate (\<^verbatim>\<open>modules/transfers/domain\<close>) with its state machine, its mapper and its
  repository.
\<close>

section \<open>References and recipients\<close>

datatype transferReference = TransferReference (ref_value: string)

definition is_upper_alnum :: "char \<Rightarrow> bool" where
  "is_upper_alnum c \<longleftrightarrow> is_digit c \<or> (65 \<le> (of_char c :: nat) \<and> (of_char c :: nat) \<le> 90)"

text \<open>\<open>toUpperCase()\<close> on the ASCII letters a hexadecimal string has.\<close>

definition upper_char :: "char \<Rightarrow> char" where
  "upper_char c = (if 97 \<le> (of_char c :: nat) \<and> (of_char c :: nat) \<le> 122
                   then char_of ((of_char c :: nat) - 32) else c)"

definition TransferReference_generate :: "env \<Rightarrow> (world, 'e, transferReference) comp" where
  "TransferReference_generate E =
     bindM (draw (randomHex E)) (\<lambda>hex.
     returnM (TransferReference (''KUDI-'' @ map upper_char hex)))"

definition TransferReference_create :: "string \<Rightarrow> exn + transferReference" where
  "TransferReference_create rawReference =
     (if rawReference = [] \<or>
         \<not> (take 5 rawReference = ''KUDI-'' \<and> length rawReference = 21 \<and>
            list_all is_upper_alnum (drop 5 rawReference))
      then Inl (DomainException (''Invalid transfer reference: '' @ rawReference)
                  ''INVALID_TRANSFER_REFERENCE'')
      else Inr (TransferReference rawReference))"

record externalRecipient =
  er_bankCode :: string
  er_accountNumber :: string
  er_accountName :: "string option"

definition ExternalRecipient_create ::
  "string \<Rightarrow> string \<Rightarrow> string option \<Rightarrow> exn + externalRecipient" where
  "ExternalRecipient_create bankCode accountNumber accountName =
     (if bankCode = [] \<or> \<not> matches_digits 3 bankCode
      then Inl (DomainException (''Invalid bank code, expected 3 digits: '' @ bankCode) ''INVALID_BANK_CODE'')
      else if accountNumber = [] \<or> \<not> matches_digits 10 accountNumber
      then Inl (DomainException
             (''Invalid recipient account number, expected 10 digits: '' @ accountNumber)
             ''INVALID_RECIPIENT_ACCOUNT_NUMBER'')
      else Inr \<lparr>er_bankCode = bankCode, er_accountNumber = accountNumber, er_accountName = accountName\<rparr>)"

section \<open>The aggregate\<close>

record transfer =
  tf_id :: string
  tf_reference :: transferReference
  tf_type :: transferType
  tf_initiatorUserId :: string
  tf_sourceAccountId :: string
  tf_destinationAccountId :: "string option"
  tf_externalRecipient :: "externalRecipient option"
  tf_amount :: money
  tf_fee :: money
  tf_narration :: string
  tf_status :: transactionStatus
  tf_failureReason :: "string option"
  tf_providerReference :: "string option"
  tf_version :: int
  tf_createdAt :: int
  tf_updatedAt :: int
  tf_events :: "domain_event list"

definition TERMINAL_STATUSES :: "transactionStatus list" where
  "TERMINAL_STATUSES = [TS_SUCCESSFUL, TS_FAILED, TS_REVERSED, TS_CANCELLED]"

definition tf_addDomainEvent :: "int \<Rightarrow> event \<Rightarrow> transfer \<Rightarrow> transfer" where
  "tf_addDomainEvent t e x = x\<lparr>tf_events := tf_events x @ [domainEvent t e]\<rparr>"

definition tf_touch :: "int \<Rightarrow> transfer \<Rightarrow> transfer" where
  "tf_touch t x = x\<lparr>tf_version := tf_version x + 1, tf_updatedAt := t\<rparr>"

text \<open>The static constructors; time, reference and identifier come from the surroundings.\<close>

definition initiateInternal ::
  "env \<Rightarrow> string \<Rightarrow> string \<Rightarrow> string \<Rightarrow> money \<Rightarrow> money \<Rightarrow> string \<Rightarrow> (world, 'e, transfer) comp" where
  "initiateInternal E initiatorUserId sourceAccountId destinationAccountId amount fee narration =
     bindM (now E) (\<lambda>t.
     bindM (TransferReference_generate E) (\<lambda>reference.
     bindM (uuid E) (\<lambda>newId.
     returnM (tf_addDomainEvent t
       (TransferInitiatedEvent newId (ref_value reference) (transferType_str TT_INTERNAL) sourceAccountId
          (int_str (minorUnits amount)) (currency_str (moneyCurrency amount)))
       \<lparr>tf_id = newId, tf_reference = reference, tf_type = TT_INTERNAL,
        tf_initiatorUserId = initiatorUserId, tf_sourceAccountId = sourceAccountId,
        tf_destinationAccountId = Some destinationAccountId, tf_externalRecipient = None,
        tf_amount = amount, tf_fee = fee, tf_narration = narration, tf_status = TS_PENDING,
        tf_failureReason = None, tf_providerReference = None, tf_version = 0,
        tf_createdAt = t, tf_updatedAt = t, tf_events = []\<rparr>))))"

definition initiateExternal ::
  "env \<Rightarrow> string \<Rightarrow> string \<Rightarrow> externalRecipient \<Rightarrow> money \<Rightarrow> money \<Rightarrow> string \<Rightarrow> (world, 'e, transfer) comp" where
  "initiateExternal E initiatorUserId sourceAccountId recipient amount fee narration =
     bindM (now E) (\<lambda>t.
     bindM (TransferReference_generate E) (\<lambda>reference.
     bindM (uuid E) (\<lambda>newId.
     returnM (tf_addDomainEvent t
       (TransferInitiatedEvent newId (ref_value reference) (transferType_str TT_EXTERNAL) sourceAccountId
          (int_str (minorUnits amount)) (currency_str (moneyCurrency amount)))
       \<lparr>tf_id = newId, tf_reference = reference, tf_type = TT_EXTERNAL,
        tf_initiatorUserId = initiatorUserId, tf_sourceAccountId = sourceAccountId,
        tf_destinationAccountId = None, tf_externalRecipient = Some recipient,
        tf_amount = amount, tf_fee = fee, tf_narration = narration, tf_status = TS_PENDING,
        tf_failureReason = None, tf_providerReference = None, tf_version = 0,
        tf_createdAt = t, tf_updatedAt = t, tf_events = []\<rparr>))))"

definition assertNotTerminal :: "string \<Rightarrow> transfer \<Rightarrow> exn + unit" where
  "assertNotTerminal attemptedAction x =
     (if tf_status x \<in> set TERMINAL_STATUSES
      then Inl (InvalidTransferStateException (tf_id x) (transactionStatus_str (tf_status x)) attemptedAction)
      else Inr ())"

definition markProcessing :: "int \<Rightarrow> string option \<Rightarrow> transfer \<Rightarrow> exn + transfer" where
  "markProcessing t providerReference x =
     bindE (assertNotTerminal ''mark as processing'' x) (\<lambda>_.
     let x1 = x\<lparr>tf_status := TS_PROCESSING\<rparr>;
         x2 = (if providerReference \<noteq> None \<and> providerReference \<noteq> Some []
               then x1\<lparr>tf_providerReference := providerReference\<rparr> else x1)
     in Inr (tf_touch t x2))"

definition markSuccessful :: "int \<Rightarrow> transfer \<Rightarrow> exn + transfer" where
  "markSuccessful t x =
     bindE (assertNotTerminal ''mark as successful'' x) (\<lambda>_.
     Inr (tf_addDomainEvent t (TransferCompletedEvent (tf_id x) (ref_value (tf_reference x)))
            (tf_touch t (x\<lparr>tf_status := TS_SUCCESSFUL\<rparr>))))"

definition markFailed :: "int \<Rightarrow> string \<Rightarrow> transfer \<Rightarrow> exn + transfer" where
  "markFailed t reason x =
     bindE (assertNotTerminal ''mark as failed'' x) (\<lambda>_.
     Inr (tf_addDomainEvent t (TransferFailedEvent (tf_id x) (ref_value (tf_reference x)) reason)
            (tf_touch t (x\<lparr>tf_status := TS_FAILED, tf_failureReason := Some reason\<rparr>))))"

definition markReversed :: "int \<Rightarrow> string \<Rightarrow> transfer \<Rightarrow> exn + transfer" where
  "markReversed t reason x =
     bindE (assertNotTerminal ''mark as reversed'' x) (\<lambda>_.
     Inr (tf_addDomainEvent t (TransferReversedEvent (tf_id x) (ref_value (tf_reference x)))
            (tf_touch t (x\<lparr>tf_status := TS_REVERSED, tf_failureReason := Some reason\<rparr>))))"

definition tf_pullDomainEvents :: "transfer \<Rightarrow> domain_event list \<times> transfer" where
  "tf_pullDomainEvents x = (tf_events x, x\<lparr>tf_events := []\<rparr>)"

section \<open>Mapper\<close>

definition TransferMapper_toDomain :: "transfer_row \<Rightarrow> exn + transfer" where
  "TransferMapper_toDomain r =
     (let currency = tr_currency r
      in bindE (case (tr_recipientBankCode r, tr_recipientAccountNumber r) of
                  (Some b, Some n) \<Rightarrow>
                    (if b \<noteq> [] \<and> n \<noteq> []
                     then bindE (ExternalRecipient_create b n (tr_recipientAccountName r)) (\<lambda>x. Inr (Some x))
                     else Inr None)
                | _ \<Rightarrow> Inr None) (\<lambda>recipient.
         bindE (TransferReference_create (tr_reference r)) (\<lambda>reference.
         bindE (fromMinorUnits (tr_amountMinorUnits r) currency) (\<lambda>amount.
         bindE (fromMinorUnits (tr_feeMinorUnits r) currency) (\<lambda>fee.
         Inr \<lparr>tf_id = tr_id r, tf_reference = reference, tf_type = tr_type r,
              tf_initiatorUserId = tr_initiatorUserId r, tf_sourceAccountId = tr_sourceAccountId r,
              tf_destinationAccountId = tr_destinationAccountId r, tf_externalRecipient = recipient,
              tf_amount = amount, tf_fee = fee, tf_narration = tr_narration r,
              tf_status = tr_status r, tf_failureReason = tr_failureReason r,
              tf_providerReference = tr_providerReference r, tf_version = tr_version r,
              tf_createdAt = tr_createdAt r, tf_updatedAt = tr_updatedAt r, tf_events = []\<rparr>)))))"

definition TransferMapper_toPersistence :: "transfer \<Rightarrow> transfer_row" where
  "TransferMapper_toPersistence x =
     \<lparr>tr_id = tf_id x, tr_reference = ref_value (tf_reference x), tr_type = tf_type x,
      tr_initiatorUserId = tf_initiatorUserId x, tr_sourceAccountId = tf_sourceAccountId x,
      tr_destinationAccountId = tf_destinationAccountId x,
      tr_recipientBankCode = map_option er_bankCode (tf_externalRecipient x),
      tr_recipientAccountNumber = map_option er_accountNumber (tf_externalRecipient x),
      tr_recipientAccountName = Option.bind (tf_externalRecipient x) er_accountName,
      tr_amountMinorUnits = minorUnits (tf_amount x), tr_feeMinorUnits = minorUnits (tf_fee x),
      tr_currency = moneyCurrency (tf_amount x), tr_narration = tf_narration x,
      tr_status = tf_status x, tr_failureReason = tf_failureReason x,
      tr_providerReference = tf_providerReference x, tr_version = tf_version x,
      tr_createdAt = tf_createdAt x, tr_updatedAt = tf_updatedAt x\<rparr>"

fun transfer_toDomainOrNull :: "transfer_row option \<Rightarrow> exn + transfer option" where
  "transfer_toDomainOrNull None = Inr None"
| "transfer_toDomainOrNull (Some r) = bindE (TransferMapper_toDomain r) (\<lambda>x. Inr (Some x))"

section \<open>Repository\<close>

definition transfer_findById :: "env \<Rightarrow> string \<Rightarrow> transfer option action" where
  "transfer_findById E i =
     bindM (query E (\<lambda>w. List.find (\<lambda>r. tr_id r = i) (transfers w)))
       (\<lambda>record. liftE (transfer_toDomainOrNull record))"

definition transfer_findByReference :: "env \<Rightarrow> transferReference \<Rightarrow> transfer option action" where
  "transfer_findByReference E reference =
     bindM (query E (\<lambda>w. List.find (\<lambda>r. tr_reference r = ref_value reference) (transfers w)))
       (\<lambda>record. liftE (transfer_toDomainOrNull record))"

definition findByProviderReference :: "env \<Rightarrow> string \<Rightarrow> transfer option action" where
  "findByProviderReference E providerReference =
     bindM (query E (\<lambda>w. List.find (\<lambda>r. tr_providerReference r = Some providerReference) (transfers w)))
       (\<lambda>record. liftE (transfer_toDomainOrNull record))"

definition transfer_findAllByUserId :: "env \<Rightarrow> string \<Rightarrow> transfer list action" where
  "transfer_findAllByUserId E userId =
     bindM (query E (\<lambda>w. sort_key (\<lambda>r. - tr_createdAt r)
                            (filter (\<lambda>r. tr_initiatorUserId r = userId) (transfers w))))
       (\<lambda>records. liftE (mapThrow TransferMapper_toDomain records))"

definition transfer_clash :: "transfer_row \<Rightarrow> transfer_row \<Rightarrow> bool" where
  "transfer_clash a b \<longleftrightarrow> tr_id a = tr_id b \<or> tr_reference a = tr_reference b"

definition transfer_row_valid :: "transfer_row \<Rightarrow> bool" where
  "transfer_row_valid r \<longleftrightarrow> fits_int8 (tr_amountMinorUnits r) \<and> fits_int8 (tr_feeMinorUnits r)"

definition transfer_create :: "env \<Rightarrow> transfer_row \<Rightarrow> unit action" where
  "transfer_create E data =
     insert_into E transfers (\<lambda>t w. w\<lparr>transfers := t\<rparr>) (create_row transfer_row_valid transfer_clash data)"

definition transfer_updateMany :: "env \<Rightarrow> transfer_row \<Rightarrow> int \<Rightarrow> nat action" where
  "transfer_updateMany E data previousVersion =
     (if \<not> transfer_row_valid data then db E (throwM int8Overflow)
      else update_in E transfers (\<lambda>t w. w\<lparr>transfers := t\<rparr>)
             (update_rows (\<lambda>r. tr_id r = tr_id data \<and> tr_version r = previousVersion) (\<lambda>r. data)))"

definition transfer_save :: "env \<Rightarrow> transfer \<Rightarrow> unit action" where
  "transfer_save E transfer =
     (let data = TransferMapper_toPersistence transfer; previousVersion = tr_version data - 1
      in if previousVersion < 0 then transfer_create E data
         else
           bindM (transfer_updateMany E data previousVersion) (\<lambda>count.
           if count = 0 then
             bindM (query E (\<lambda>w. List.find (\<lambda>r. tr_id r = tr_id data) (transfers w))) (\<lambda>exists.
             if exists = None then transfer_create E data
             else throwM (DomainException
                    (''Transfer '' @ tr_id data @ '' was modified concurrently; please retry'')
                    ''CONCURRENT_MODIFICATION''))
           else returnM ()))"

definition sumSourceAmountSince :: "env \<Rightarrow> string \<Rightarrow> int \<Rightarrow> currency \<Rightarrow> money action" where
  "sumSourceAmountSince E sourceAccountId since currency =
     bindM (query E (\<lambda>w. sum_list (map tr_amountMinorUnits
        (filter (\<lambda>r. tr_sourceAccountId r = sourceAccountId \<and>
                     (tr_status r = TS_SUCCESSFUL \<or> tr_status r = TS_PROCESSING) \<and>
                     since \<le> tr_createdAt r) (transfers w)))))
       (\<lambda>total. liftE (fromMinorUnits total currency))"

section \<open>The state machine\<close>

datatype transfer_op =
    MarkProcessing "string option"
  | MarkSuccessful
  | MarkFailed string
  | MarkReversed string

fun apply_transfer_op :: "int \<Rightarrow> transfer_op \<Rightarrow> transfer \<Rightarrow> exn + transfer" where
  "apply_transfer_op t (MarkProcessing p) x = markProcessing t p x"
| "apply_transfer_op t MarkSuccessful x = markSuccessful t x"
| "apply_transfer_op t (MarkFailed reason) x = markFailed t reason x"
| "apply_transfer_op t (MarkReversed reason) x = markReversed t reason x"

text \<open>Calls on a transfer, each at its time; one that throws leaves it as it was.\<close>

fun transfer_run :: "(int \<times> transfer_op) list \<Rightarrow> transfer \<Rightarrow> transfer" where
  "transfer_run [] x = x"
| "transfer_run ((t, p) # ops) x =
     (case apply_transfer_op t p x of Inl e \<Rightarrow> transfer_run ops x | Inr y \<Rightarrow> transfer_run ops y)"

definition terminal :: "transfer \<Rightarrow> bool" where
  "terminal x \<longleftrightarrow> tf_status x \<in> set TERMINAL_STATUSES"

text \<open>The events that announce an outcome, and the status each announces.\<close>

definition outcome_of :: "event \<Rightarrow> transactionStatus option" where
  "outcome_of e =
     (case e of
        TransferCompletedEvent i r \<Rightarrow> Some TS_SUCCESSFUL
      | TransferFailedEvent i r reason \<Rightarrow> Some TS_FAILED
      | TransferReversedEvent i r \<Rightarrow> Some TS_REVERSED
      | _ \<Rightarrow> None)"

definition outcomes :: "transfer \<Rightarrow> transactionStatus list" where
  "outcomes x = List.map_filter outcome_of (map body (tf_events x))"

lemmas transfer_op_defs = markProcessing_def markSuccessful_def markFailed_def markReversed_def
  tf_touch_def tf_addDomainEvent_def assertNotTerminal_def Let_def

text \<open>What identifies a transfer and its money never changes.\<close>

definition same_instruction :: "transfer \<Rightarrow> transfer \<Rightarrow> bool" where
  "same_instruction x y \<longleftrightarrow>
     tf_id y = tf_id x \<and> tf_reference y = tf_reference x \<and> tf_type y = tf_type x \<and>
     tf_initiatorUserId y = tf_initiatorUserId x \<and> tf_sourceAccountId y = tf_sourceAccountId x \<and>
     tf_destinationAccountId y = tf_destinationAccountId x \<and>
     tf_externalRecipient y = tf_externalRecipient x \<and> tf_amount y = tf_amount x \<and> tf_fee y = tf_fee x"

lemma terminal_refuses: "terminal x \<Longrightarrow> \<exists>e. apply_transfer_op t p x = Inl e"
  by (cases p) (simp_all add: transfer_op_defs terminal_def)

lemma open_accepts:
  assumes "\<not> terminal x"
  obtains y where "apply_transfer_op t p x = Inr y" "same_instruction x y" "tf_version y = tf_version x + 1"
    "terminal y \<longleftrightarrow> tf_status y \<noteq> TS_PROCESSING"
    "outcomes y = outcomes x @ (if terminal y then [tf_status y] else [])"
  using assms
  by (cases p)
    (auto simp: transfer_op_defs terminal_def same_instruction_def outcomes_def outcome_of_def
      domainEvent_def map_filter_def TERMINAL_STATUSES_def)

definition lifecycle_ok :: "transfer \<Rightarrow> transfer \<Rightarrow> bool" where
  "lifecycle_ok x y \<longleftrightarrow>
     same_instruction x y \<and> tf_version x \<le> tf_version y \<and>
     (tf_status y = TS_PENDING \<or> tf_status y = TS_PROCESSING \<or> terminal y) \<and>
     outcomes y = (if terminal y then [tf_status y] else [])"

lemma lifecycle_step:
  "lifecycle_ok x y \<Longrightarrow> apply_transfer_op t p y = Inr z \<Longrightarrow> lifecycle_ok x z"
proof -
  assume ok: "lifecycle_ok x y" and step: "apply_transfer_op t p y = Inr z"
  then have "\<not> terminal y" using terminal_refuses [of y t p] by auto
  from open_accepts [OF this, of t p] step
  have z: "same_instruction y z" "tf_version z = tf_version y + 1"
    "terminal z \<longleftrightarrow> tf_status z \<noteq> TS_PROCESSING"
    "outcomes z = outcomes y @ (if terminal z then [tf_status z] else [])"
    by (metis sum.inject(2))+
  with ok \<open>\<not> terminal y\<close> show "lifecycle_ok x z"
    by (simp add: lifecycle_ok_def same_instruction_def)
qed

lemma lifecycle_run: "lifecycle_ok x y \<Longrightarrow> lifecycle_ok x (transfer_run ops y)"
  by (induction ops y rule: transfer_run.induct) (auto split: sum.split dest: lifecycle_step)

lemma terminal_run: "terminal x \<Longrightarrow> transfer_run ops x = x"
proof (induction ops)
  case (Cons op ops)
  then show ?case using terminal_refuses [of x "fst op" "snd op"] by (cases op) auto
qed simp

text \<open>
  C20. A transfer has one outcome. Whatever operations are called on a pending transfer, in whatever
  order, its instruction (reference, parties, amount, fee) never changes; it is terminal exactly when
  one outcome has been announced by an event, and that event names its status, so no transfer is
  ever both completed and reversed; and once it is terminal no operation changes it any more.
\<close>

theorem transfer_single_outcome:
  assumes "tf_status x = TS_PENDING" and "outcomes x = []"
  shows "same_instruction x (transfer_run ops x) \<and>
    outcomes (transfer_run ops x) =
      (if terminal (transfer_run ops x) then [tf_status (transfer_run ops x)] else []) \<and>
    (terminal (transfer_run ops x) \<longrightarrow> transfer_run (ops @ later) x = transfer_run ops x)"
proof -
  have "lifecycle_ok x x"
    using assms by (simp add: lifecycle_ok_def same_instruction_def terminal_def TERMINAL_STATUSES_def)
  then have "lifecycle_ok x (transfer_run ops x)" by (rule lifecycle_run)
  moreover have "transfer_run (ops @ later) x = transfer_run later (transfer_run ops x)"
    by (induction ops x rule: transfer_run.induct) (auto split: sum.split)
  ultimately show ?thesis by (simp add: lifecycle_ok_def terminal_run)
qed

section \<open>Storing transfers\<close>

definition transfer_ok :: "transfer \<Rightarrow> bool" where
  "transfer_ok x \<longleftrightarrow>
     TransferReference_create (ref_value (tf_reference x)) = Inr (tf_reference x) \<and>
     money_ok (tf_amount x) \<and> money_ok (tf_fee x) \<and> moneyCurrency (tf_fee x) = moneyCurrency (tf_amount x) \<and>
     (case tf_externalRecipient x of None \<Rightarrow> True
      | Some r \<Rightarrow> ExternalRecipient_create (er_bankCode r) (er_accountNumber r) (er_accountName r) = Inr r)"

lemma ExternalRecipient_create_Inr:
  "ExternalRecipient_create b n m = Inr r \<longleftrightarrow>
     b \<noteq> [] \<and> n \<noteq> [] \<and> matches_digits 3 b \<and> matches_digits 10 n \<and>
     r = \<lparr>er_bankCode = b, er_accountNumber = n, er_accountName = m\<rparr>"
  by (auto simp: ExternalRecipient_create_def)

text \<open>
  Storing and loading a transfer loses nothing but its pending events: for every well-formed
  transfer, the row the repository writes is read back as the same transfer.
\<close>

theorem transfer_mapper_roundtrip:
  assumes "transfer_ok x"
  shows "TransferMapper_toDomain (TransferMapper_toPersistence x) = Inr (x\<lparr>tf_events := []\<rparr>)"
proof -
  obtain r where "tf_externalRecipient x = None \<or>
      (tf_externalRecipient x = Some r \<and> er_bankCode r \<noteq> [] \<and> er_accountNumber r \<noteq> [] \<and>
       ExternalRecipient_create (er_bankCode r) (er_accountNumber r) (er_accountName r) = Inr r)"
    using assms by (cases "tf_externalRecipient x") (auto simp: transfer_ok_def ExternalRecipient_create_Inr)
  with assms show ?thesis
    by (auto simp: transfer_ok_def TransferMapper_toDomain_def TransferMapper_toPersistence_def
        fromMinorUnits_def money_ok_def Let_def)
qed

definition exampleTransfer :: transfer where
  "exampleTransfer = \<lparr>tf_id = ''t1'', tf_reference = TransferReference ''KUDI-0A1B2C3D4E5F6789'',
     tf_type = TT_EXTERNAL, tf_initiatorUserId = ''u1'', tf_sourceAccountId = ''a1'',
     tf_destinationAccountId = None,
     tf_externalRecipient = Some \<lparr>er_bankCode = ''044'', er_accountNumber = ''0123456789'', er_accountName = None\<rparr>,
     tf_amount = \<lparr>minorUnits = 100, moneyCurrency = NGN\<rparr>, tf_fee = \<lparr>minorUnits = 10, moneyCurrency = NGN\<rparr>,
     tf_narration = ''rent'', tf_status = TS_PENDING, tf_failureReason = None, tf_providerReference = None,
     tf_version = 0, tf_createdAt = 0, tf_updatedAt = 0, tf_events = []\<rparr>"

theorem transfer_mapper_roundtrip_witness:
  "TransferMapper_toDomain (TransferMapper_toPersistence exampleTransfer) = Inr exampleTransfer"
proof -
  have "transfer_ok exampleTransfer" by code_simp
  from transfer_mapper_roundtrip [OF this] show ?thesis by (simp add: exampleTransfer_def)
qed

theorem transfer_single_outcome_witness:
  "outcomes (transfer_run [(1, MarkProcessing (Some ''77'')), (2, MarkReversed ''declined''), (3, MarkSuccessful)]
     exampleTransfer) = [TS_REVERSED]"
proof -
  let ?ops = "[(1, MarkProcessing (Some ''77'')), (2, MarkReversed ''declined''), (3, MarkSuccessful)]"
  have "tf_status exampleTransfer = TS_PENDING" "outcomes exampleTransfer = []"
    by (simp_all add: exampleTransfer_def outcomes_def map_filter_def)
  moreover have "tf_status (transfer_run ?ops exampleTransfer) = TS_REVERSED"
    by (simp add: transfer_op_defs exampleTransfer_def TERMINAL_STATUSES_def)
  ultimately show ?thesis
    using transfer_single_outcome [of exampleTransfer ?ops "[]"] by (simp add: terminal_def TERMINAL_STATUSES_def)
qed

end
