(* ===== verification/AccountOps.thy ===== *)
theory AccountOps
  imports Accounts
begin

text \<open>
  The account services and use cases (\<^verbatim>\<open>modules/accounts/infrastructure/services\<close>,
  \<^verbatim>\<open>modules/accounts/application\<close>): generation of account numbers, the balance ceiling of a
  verification tier, the command and query handlers, the reaction to a tier upgrade, and the
  endpoints that combine them.
\<close>

section \<open>Account numbers\<close>

definition NUBAN_WEIGHTS :: "int list" where
  "NUBAN_WEIGHTS = [3, 7, 3, 3, 7, 3, 3, 7, 3]"

definition MAX_GENERATION_ATTEMPTS :: nat where
  "MAX_GENERATION_ATTEMPTS = 10"

text \<open>\<open>Number(c)\<close> of a one-character string; \<open>None\<close> is \<open>NaN\<close>, white space is 0.\<close>

definition js_Number_char :: "char \<Rightarrow> int option" where
  "js_Number_char c =
     (if is_digit c then Some (int (digit_val c))
      else if (of_char c :: nat) \<in> {9, 10, 11, 12, 13, 32, 160} then Some 0
      else None)"

text \<open>
  The \<open>reduce\<close>: a digit that is \<open>NaN\<close>, or one past the end of the weights
  (\<open>NUBAN_WEIGHTS[index]\<close> is \<open>undefined\<close> there), makes the sum \<open>NaN\<close>.
\<close>

fun weighted_sum :: "int option list \<Rightarrow> int list \<Rightarrow> int option" where
  "weighted_sum [] ws = Some 0"
| "weighted_sum (d # ds) [] = None"
| "weighted_sum (d # ds) (v # ws) =
     (case d of None \<Rightarrow> None
      | Some x \<Rightarrow> (case weighted_sum ds ws of None \<Rightarrow> None | Some s \<Rightarrow> Some (x * v + s)))"

definition buildWithChecksum :: "string \<Rightarrow> string \<Rightarrow> string" where
  "buildWithChecksum bankCode serial =
     (let digits = map js_Number_char (bankCode @ serial)
      in case weighted_sum digits NUBAN_WEIGHTS of
           None \<Rightarrow> bankCode @ serial @ ''NaN''
         | Some s \<Rightarrow>
             (let remainder = s mod 10;
                  checkDigit = (if remainder = 0 then 0 else 10 - remainder)
              in bankCode @ serial @ int_str checkDigit))"

text \<open>\<open>randomInt(0, 1_000_000).toString().padStart(6, '0')\<close>\<close>

definition serial_of :: "nat \<Rightarrow> string" where
  "serial_of r = pad_start 6 (CHR ''0'') (nat_str (r mod 1000000))"

fun generateAttempts :: "env \<Rightarrow> string \<Rightarrow> nat \<Rightarrow> accountNumber action" where
  "generateAttempts E bankCode 0 =
     throwM (InternalServerErrorException
       ''Unable to generate a unique account number after multiple attempts'')"
| "generateAttempts E bankCode (Suc left) =
     bindM (draw (randomSerial E)) (\<lambda>r.
     bindM (liftE (AccountNumber_create (buildWithChecksum bankCode (serial_of r)))) (\<lambda>accountNumber.
     bindM (existsByAccountNumber E accountNumber) (\<lambda>exists.
     if \<not> exists then returnM accountNumber else generateAttempts E bankCode left)))"

definition nuban_generate :: "env \<Rightarrow> string \<Rightarrow> accountNumber action" where
  "nuban_generate E bankCode = generateAttempts E bankCode MAX_GENERATION_ATTEMPTS"

section \<open>The balance ceiling\<close>

definition assertWithinLimit :: "env \<Rightarrow> account \<Rightarrow> money \<Rightarrow> unit action" where
  "assertWithinLimit E account amount =
     bindM (resolveTier E (acc_userId account)) (\<lambda>tier.
     bindM (kycTierLimit_findByTier E tier (acc_currency account)) (\<lambda>limits.
     case maxBalance limits of
       None \<Rightarrow> returnM ()
     | Some ceiling \<Rightarrow>
         bindM (liftE (addMoney (acc_balance account) amount)) (\<lambda>total.
         bindM (liftE (isGreaterThanOrEqualTo ceiling total)) (\<lambda>within.
         guardM within (MaxBalanceExceededException tier)))))"

section \<open>Responses\<close>

record accountResponse =
  res_id :: string
  res_userId :: string
  res_accountNumber :: string
  res_accountType :: string
  res_currency :: string
  res_balance :: string
  res_status :: string
  res_createdAt :: string
  res_updatedAt :: string

definition AccountResponseDto_fromDomain :: "account \<Rightarrow> accountResponse" where
  "AccountResponseDto_fromDomain a =
     \<lparr>res_id = acc_id a, res_userId = acc_userId a,
      res_accountNumber = an_value (acc_accountNumber a),
      res_accountType = accountType_str (acc_accountType a),
      res_currency = currency_str (acc_currency a),
      res_balance = toMajorUnitsString (acc_balance a),
      res_status = accountStatus_str (acc_status a),
      res_createdAt = toISOString (acc_createdAt a), res_updatedAt = toISOString (acc_updatedAt a)\<rparr>"

section \<open>Command handlers\<close>

text \<open>The first and the last steps most handlers share.\<close>

definition loadAccount :: "env \<Rightarrow> string \<Rightarrow> account action" where
  "loadAccount E accountId =
     bindM (account_findById E accountId) (\<lambda>account.
     required account (AccountNotFoundException accountId))"

definition saveAndRespond :: "env \<Rightarrow> account \<Rightarrow> accountResponse action" where
  "saveAndRespond E account =
     bindM (account_save E account) (\<lambda>_.
     let (events, account') = acc_pullDomainEvents account
     in bindM (publishAll events) (\<lambda>_.
        returnM (AccountResponseDto_fromDomain account')))"

definition OpenAccount_execute ::
  "env \<Rightarrow> string \<Rightarrow> string \<Rightarrow> accountType \<Rightarrow> currency \<Rightarrow> accountResponse action" where
  "OpenAccount_execute E bankCode userId accountType currency =
     bindM (nuban_generate E bankCode) (\<lambda>accountNumber.
     bindM (now E) (\<lambda>t.
     bindM (uuid E) (\<lambda>newId.
     saveAndRespond E (acc_open t newId userId accountNumber accountType currency))))"

definition ActivateAccount_execute :: "env \<Rightarrow> string \<Rightarrow> accountResponse action" where
  "ActivateAccount_execute E accountId =
     bindM (loadAccount E accountId) (\<lambda>account.
     bindM (now E) (\<lambda>t.
     saveAndRespond E (activate t account)))"

definition CreditAccount_execute ::
  "env \<Rightarrow> string \<Rightarrow> string \<Rightarrow> currency \<Rightarrow> string \<Rightarrow> accountResponse action" where
  "CreditAccount_execute E accountId amount currency reference =
     bindM (loadAccount E accountId) (\<lambda>account.
     bindM (liftE (fromDecimalString amount currency)) (\<lambda>money.
     bindM (assertWithinLimit E account money) (\<lambda>_.
     bindM (now E) (\<lambda>t.
     bindM (liftE (credit t money reference account)) (\<lambda>account'.
     saveAndRespond E account')))))"

definition DebitAccount_execute ::
  "env \<Rightarrow> string \<Rightarrow> string \<Rightarrow> currency \<Rightarrow> string \<Rightarrow> accountResponse action" where
  "DebitAccount_execute E accountId amount currency reference =
     bindM (loadAccount E accountId) (\<lambda>account.
     bindM (liftE (fromDecimalString amount currency)) (\<lambda>money.
     bindM (now E) (\<lambda>t.
     bindM (liftE (debit t money reference account)) (\<lambda>account'.
     saveAndRespond E account'))))"

definition FreezeAccount_execute :: "env \<Rightarrow> string \<Rightarrow> string \<Rightarrow> accountResponse action" where
  "FreezeAccount_execute E accountId reason =
     bindM (loadAccount E accountId) (\<lambda>account.
     bindM (now E) (\<lambda>t.
     saveAndRespond E (freeze t reason account)))"

definition UnfreezeAccount_execute :: "env \<Rightarrow> string \<Rightarrow> accountResponse action" where
  "UnfreezeAccount_execute E accountId =
     bindM (loadAccount E accountId) (\<lambda>account.
     bindM (now E) (\<lambda>t.
     saveAndRespond E (unfreeze t account)))"

definition CloseAccount_execute :: "env \<Rightarrow> string \<Rightarrow> accountResponse action" where
  "CloseAccount_execute E accountId =
     bindM (loadAccount E accountId) (\<lambda>account.
     bindM (now E) (\<lambda>t.
     bindM (liftE (close_account t account)) (\<lambda>account'.
     saveAndRespond E account')))"

section \<open>Query handlers\<close>

definition GetAccountById_execute ::
  "env \<Rightarrow> string \<Rightarrow> string \<Rightarrow> bool \<Rightarrow> accountResponse action" where
  "GetAccountById_execute E accountId requestingUserId isAdmin =
     bindM (loadAccount E accountId) (\<lambda>account.
     bindM (guardM (\<not> (acc_userId account \<noteq> requestingUserId \<and> \<not> isAdmin))
              (ForbiddenException ''You may only access your own accounts'')) (\<lambda>_.
     returnM (AccountResponseDto_fromDomain account)))"

definition ListMyAccounts_execute :: "env \<Rightarrow> string \<Rightarrow> accountResponse list action" where
  "ListMyAccounts_execute E userId =
     bindM (account_findAllByUserId E userId) (\<lambda>accounts.
     returnM (map AccountResponseDto_fromDomain accounts))"

section \<open>Reaction to a tier upgrade\<close>

text \<open>The handler of \<open>KycTierUpgradedEvent\<close>; the log entry of a failed activation is left out.\<close>

definition KycTierUpgraded_handle :: "env \<Rightarrow> string \<Rightarrow> kycTier \<Rightarrow> unit action" where
  "KycTierUpgraded_handle E userId newTier =
     (if newTier \<noteq> TIER_2 \<and> newTier \<noteq> TIER_3 then returnM ()
      else
        bindM (account_findAllByUserId E userId) (\<lambda>accounts.
        let pendingAccounts = filter (\<lambda>a. acc_status a = AS_PENDING_VERIFICATION) accounts
        in bindM (forM (\<lambda>a. catchM (bindM (ActivateAccount_execute E (acc_id a)) (\<lambda>_. returnM ()))
                              (\<lambda>error. returnM ())) pendingAccounts)
             (\<lambda>_. returnM ())))"

section \<open>Endpoints\<close>

record accessTokenPayload =
  sub :: string
  payloadEmail :: string
  payloadRole :: userRole

definition ADMIN_ROLES :: "userRole list" where
  "ADMIN_ROLES = [UR_ADMIN, UR_SUPER_ADMIN]"

definition AccountsController_open ::
  "env \<Rightarrow> string \<Rightarrow> accessTokenPayload \<Rightarrow> accountType \<Rightarrow> currency option \<Rightarrow> accountResponse action" where
  "AccountsController_open E bankCode user accountType currency =
     OpenAccount_execute E bankCode (sub user) accountType (case currency of None \<Rightarrow> NGN | Some c \<Rightarrow> c)"

definition AccountsController_getById ::
  "env \<Rightarrow> accessTokenPayload \<Rightarrow> string \<Rightarrow> accountResponse action" where
  "AccountsController_getById E user accountId =
     GetAccountById_execute E accountId (sub user) (payloadRole user \<in> set ADMIN_ROLES)"

definition AccountsController_close ::
  "env \<Rightarrow> accessTokenPayload \<Rightarrow> string \<Rightarrow> accountResponse action" where
  "AccountsController_close E user accountId =
     bindM (GetAccountById_execute E accountId (sub user) (payloadRole user \<in> set ADMIN_ROLES)) (\<lambda>_.
     CloseAccount_execute E accountId)"

section \<open>Check digits\<close>

text \<open>
  The published definition of a NUBAN: ten digits whose sum, weighted 3 7 3 3 7 3 3 7 3 and the
  check digit once, is a multiple of ten.
\<close>

definition nuban_sum :: "string \<Rightarrow> int" where
  "nuban_sum s = (\<Sum>i<10. (NUBAN_WEIGHTS @ [1]) ! i * int (digit_val (s ! i)))"

definition nuban_valid :: "string \<Rightarrow> bool" where
  "nuban_valid s \<longleftrightarrow> matches_digits 10 s \<and> nuban_sum s mod 10 = 0"

lemma weighted_sum_digits:
  "list_all is_digit s \<Longrightarrow> length s \<le> length ws \<Longrightarrow>
    weighted_sum (map js_Number_char s) ws = Some (\<Sum>i<length s. ws ! i * int (digit_val (s ! i)))"
proof (induction s arbitrary: ws)
  case Nil
  then show ?case by simp
next
  case (Cons c s)
  then obtain v vs where ws: "ws = v # vs" by (cases ws) auto
  have "(\<Sum>i<length (c # s). ws ! i * int (digit_val ((c # s) ! i))) =
        v * int (digit_val c) + (\<Sum>i<length s. vs ! i * int (digit_val (s ! i)))"
    by (simp add: ws sum.lessThan_Suc_shift del: sum.lessThan_Suc)
  with Cons ws show ?case by (simp add: js_Number_char_def mult.commute)
qed

lemma nuban_weights [simp]:
  "length NUBAN_WEIGHTS = 9" "i < 9 \<Longrightarrow> (NUBAN_WEIGHTS @ [1]) ! i = NUBAN_WEIGHTS ! i"
  "(NUBAN_WEIGHTS @ [1]) ! 9 = 1"
  by (simp_all add: nth_append) (simp_all add: NUBAN_WEIGHTS_def)

lemma nuban_sum_snoc:
  assumes "length s = 9"
  shows "nuban_sum (s @ [c]) =
    (\<Sum>i<9. NUBAN_WEIGHTS ! i * int (digit_val (s ! i))) + int (digit_val c)"
proof -
  have split_last: "(\<Sum>i<10. g i) = (\<Sum>i<9. g i) + g 9" for g :: "nat \<Rightarrow> int"
    using sum.lessThan_Suc [of g 9] by simp
  have "nuban_sum (s @ [c]) =
      (\<Sum>i<9. (NUBAN_WEIGHTS @ [1]) ! i * int (digit_val ((s @ [c]) ! i))) +
      (NUBAN_WEIGHTS @ [1]) ! 9 * int (digit_val ((s @ [c]) ! 9))"
    unfolding nuban_sum_def by (rule split_last)
  also have "(s @ [c]) ! 9 = c" using assms by (metis nth_append_length)
  also have "(\<Sum>i<9. (NUBAN_WEIGHTS @ [1]) ! i * int (digit_val ((s @ [c]) ! i))) =
      (\<Sum>i<9. NUBAN_WEIGHTS ! i * int (digit_val (s ! i)))"
    using assms by (intro sum.cong) (simp_all add: nth_append)
  finally show ?thesis by simp
qed

lemma int_str_digit: "0 \<le> d \<Longrightarrow> d < 10 \<Longrightarrow> int_str d = [digit_char (nat d)]"
  by (simp add: nat_str.simps [of "nat d"])

lemma buildWithChecksum_digits:
  assumes "matches_digits 3 bankCode" and "matches_digits 6 serial"
  shows "\<exists>d < 10. buildWithChecksum bankCode serial = bankCode @ serial @ [digit_char d] \<and>
           nuban_valid (bankCode @ serial @ [digit_char d])"
proof -
  let ?s = "bankCode @ serial"
  let ?S = "\<Sum>i<9. NUBAN_WEIGHTS ! i * int (digit_val (?s ! i))"
  define d where "d = (if ?S mod 10 = 0 then 0 else 10 - ?S mod 10)"
  have s: "length ?s = 9" "list_all is_digit ?s" using assms by (auto simp: matches_digits_def)
  have d: "0 \<le> d" "d < 10" using pos_mod_bound [of 10 ?S] pos_mod_sign [of 10 ?S]
    by (auto simp: d_def)
  have "weighted_sum (map js_Number_char ?s) NUBAN_WEIGHTS = Some ?S"
    using weighted_sum_digits [of ?s NUBAN_WEIGHTS] s by (simp add: NUBAN_WEIGHTS_def)
  then have build: "buildWithChecksum bankCode serial = ?s @ [digit_char (nat d)]"
    using d by (simp add: buildWithChecksum_def Let_def d_def [symmetric] int_str_digit
        del: int_str_nonneg map_append)
  have "nuban_sum (?s @ [digit_char (nat d)]) = ?S + d"
    using nuban_sum_snoc [OF s(1)] d by simp
  moreover have "(?S + d) mod 10 = 0" unfolding d_def by presburger
  ultimately have "nuban_valid (?s @ [digit_char (nat d)])"
    using s d by (simp add: nuban_valid_def matches_digits_def)
  with build d show ?thesis by (intro exI [of _ "nat d"]) auto
qed

lemma digit_val_inj: "is_digit c \<Longrightarrow> is_digit c' \<Longrightarrow> digit_val c = digit_val c' \<Longrightarrow> c = c'"
  unfolding is_digit_def digit_val_def
  by (metis le_add_diff_inverse le_trans of_char_eq_iff nle_le numeral_le_iff)

lemma nuban_weight_coprime: "i < 10 \<Longrightarrow> (NUBAN_WEIGHTS @ [1]) ! i \<in> {1, 3, 7}"
  by (auto simp: NUBAN_WEIGHTS_def nth_Cons' split: if_splits)

text \<open>Changing one digit of a valid number makes it invalid: every weight is prime to ten.\<close>

lemma nuban_single_error:
  assumes valid: "nuban_valid s" and i: "i < 10" and c: "is_digit c" "c \<noteq> s ! i"
  shows "\<not> nuban_valid (s[i := c])"
proof
  assume valid': "nuban_valid (s[i := c])"
  let ?w = "\<lambda>j. (NUBAN_WEIGHTS @ [1]) ! j"
  from valid have len: "length s = 10" and digits: "list_all is_digit s"
    by (auto simp: nuban_valid_def matches_digits_def)
  with i have si: "is_digit (s ! i)" by (simp add: list_all_length)
  have "nuban_sum (s[i := c]) - nuban_sum s =
      (\<Sum>j<10. if j = i then ?w i * (int (digit_val c) - int (digit_val (s ! i))) else 0)"
    unfolding nuban_sum_def sum_subtractf [symmetric] using i len
    by (intro sum.cong) (auto simp: nth_list_update algebra_simps)
  also have "\<dots> = ?w i * (int (digit_val c) - int (digit_val (s ! i)))" using i by simp
  finally have diff: "nuban_sum (s[i := c]) - nuban_sum s =
      ?w i * (int (digit_val c) - int (digit_val (s ! i)))" .
  from valid valid' have "10 dvd nuban_sum (s[i := c]) - nuban_sum s"
    by (auto simp: nuban_valid_def mod_eq_0_iff_dvd intro: dvd_diff)
  with diff have "10 dvd ?w i * (int (digit_val c) - int (digit_val (s ! i)))" by simp
  with nuban_weight_coprime [OF i] have "10 dvd int (digit_val c) - int (digit_val (s ! i))"
    by (elim insertE) (presburger | simp)+
  moreover have "digit_val c < 10" "digit_val (s ! i) < 10" using c si by simp_all
  ultimately have "digit_val c = digit_val (s ! i)" by presburger
  with c si digit_val_inj show False by blast
qed

lemma serial_of_digits: "matches_digits 6 (serial_of r)"
proof -
  have "length (nat_str (r mod 1000000)) \<le> 6" by (rule length_nat_str_le) simp_all
  then show ?thesis by (simp add: matches_digits_def serial_of_def)
qed

definition taken :: "world \<Rightarrow> string set" where
  "taken w = ar_accountNumber ` set (accounts w)"

text \<open>The candidate the surroundings give at a use.\<close>

definition candidate :: "env \<Rightarrow> string \<Rightarrow> nat \<Rightarrow> string" where
  "candidate E bankCode n = buildWithChecksum bankCode (serial_of (randomSerial E n))"

lemma candidate_valid:
  assumes "matches_digits 3 bankCode"
  shows "nuban_valid (candidate E bankCode n) \<and> take 3 (candidate E bankCode n) = bankCode \<and>
    AccountNumber_create (candidate E bankCode n) = Inr (AccountNumber (candidate E bankCode n))"
  using buildWithChecksum_digits [OF assms serial_of_digits [of "randomSerial E n"]] assms
  by (auto simp: candidate_def nuban_valid_def matches_digits_def AccountNumber_create_def)

lemma count_pos: "filter (\<lambda>r. f r = x) xs = [] \<longleftrightarrow> x \<notin> f ` set xs"
  by (induction xs) auto

lemma exists_outcome:
  "existsByAccountNumber E n w = (Inr b, w') \<Longrightarrow>
    w' = w\<lparr>ticks := Suc (ticks w)\<rparr> \<and> (b \<longleftrightarrow> an_value n \<in> taken w)"
  by (simp add: existsByAccountNumber_def bindM_eq_Inr comp_simps taken_def count_pos,
      elim conjE exE, drule query_eq_Inr) (simp add: count_pos)

lemma exists_fault:
  "existsByAccountNumber E n w = (Inl e, w') \<Longrightarrow> w' = w\<lparr>ticks := Suc (ticks w)\<rparr> \<and> \<not> faultless E"
  by (auto simp: existsByAccountNumber_def bindM_eq_Inl comp_simps query_def db_def Let_def
      faultless_def intro: exI [of _ "ticks w"] split: fault.splits)

lemma generateAttempts_outcome:
  assumes "matches_digits 3 bankCode"
  shows "generateAttempts E bankCode n w = (res, w') \<Longrightarrow>
    (\<exists>k \<le> 2 * n. w' = w\<lparr>ticks := ticks w + k\<rparr>) \<and>
    (\<forall>m. res = Inr m \<longrightarrow> an_value m \<notin> taken w \<and> (\<exists>k. an_value m = candidate E bankCode k)) \<and>
    (\<forall>e. faultless E \<longrightarrow> res = Inl e \<longrightarrow>
       e = InternalServerErrorException
             ''Unable to generate a unique account number after multiple attempts'' \<and>
       (\<forall>k<n. candidate E bankCode (ticks w + 2 * k) \<in> taken w))"
proof (induction n arbitrary: w)
  case 0
  then show ?case by (auto simp: comp_simps)
next
  case (Suc n)
  let ?c = "candidate E bankCode (ticks w)"
  let ?w1 = "w\<lparr>ticks := Suc (ticks w)\<rparr>"
  let ?w2 = "w\<lparr>ticks := Suc (Suc (ticks w))\<rparr>"
  have run: "generateAttempts E bankCode (Suc n) w =
      bindM (existsByAccountNumber E (AccountNumber ?c))
        (\<lambda>b. if \<not> b then returnM (AccountNumber ?c) else generateAttempts E bankCode n) ?w1"
    using candidate_valid [OF assms, of E "ticks w"]
    by (simp add: bindM_def draw_def liftE_def flip: candidate_def)
  note prems = Suc.prems [unfolded run]
  show ?case
  proof (cases "fst (existsByAccountNumber E (AccountNumber ?c) ?w1)")
    case (Inl e)
    then have "existsByAccountNumber E (AccountNumber ?c) ?w1 =
        (Inl e, snd (existsByAccountNumber E (AccountNumber ?c) ?w1))" by (metis prod.collapse)
    from exists_fault [OF this] prems this show ?thesis
      by (auto simp: bindM_def intro!: exI [of _ 2])
  next
    case (Inr b)
    then have ex: "existsByAccountNumber E (AccountNumber ?c) ?w1 =
        (Inr b, snd (existsByAccountNumber E (AccountNumber ?c) ?w1))" by (metis prod.collapse)
    note out = exists_outcome [OF this]
    have w2: "snd (existsByAccountNumber E (AccountNumber ?c) ?w1) = ?w2" using out by simp
    show ?thesis
    proof (cases b)
      case False
      with prems ex w2 have "w' = ?w2" "res = Inr (AccountNumber ?c)"
        by (simp_all add: bindM_def comp_simps)
      moreover have "?c \<notin> taken w" using False out by (simp add: taken_def)
      moreover have "\<exists>k \<le> 2 * Suc n. ?w2 = w\<lparr>ticks := ticks w + k\<rparr>"
        by (intro exI [of _ 2]) simp
      ultimately show ?thesis by auto
    next
      case True
      with prems ex w2 have rest: "generateAttempts E bankCode n ?w2 = (res, w')"
        by (simp add: bindM_def)
      note IH = Suc.IH [OF rest]
      from IH obtain k where k: "k \<le> 2 * n" "w' = ?w2\<lparr>ticks := ticks ?w2 + k\<rparr>" by blast
      have taken2: "taken ?w2 = taken w" by (simp add: taken_def)
      have all: "\<forall>k<Suc n. candidate E bankCode (ticks w + 2 * k) \<in> taken w"
        if "\<forall>k<n. candidate E bankCode (ticks ?w2 + 2 * k) \<in> taken ?w2"
        using that True out by (simp add: All_less_Suc2 taken_def)
      from k have "\<exists>k \<le> 2 * Suc n. w' = w\<lparr>ticks := ticks w + k\<rparr>"
        by (intro exI [of _ "k + 2"]) simp
      with IH all show ?thesis unfolding taken2 by blast
    qed
  qed
qed

text \<open>
  Account numbers. With a bank code of three digits, generation only reads the database, makes
  at most ten attempts, and any number it returns is a valid NUBAN of that bank which no account
  has; without database failures it gives up, with a 500, only if all ten candidates it drew were
  taken. Every number it returns detects any single mistyped digit: the altered number has no valid
  check digit.
\<close>

theorem nuban_generate_spec:
  assumes "matches_digits 3 bankCode" and "nuban_generate E bankCode w = (res, w')"
  shows "(\<exists>k \<le> 20. w' = w\<lparr>ticks := ticks w + k\<rparr>) \<and>
    (case res of
       Inr m \<Rightarrow> nuban_valid (an_value m) \<and> take 3 (an_value m) = bankCode \<and>
                 an_value m \<notin> ar_accountNumber ` set (accounts w) \<and>
                 (\<forall>i c. i < 10 \<and> is_digit c \<and> c \<noteq> an_value m ! i \<longrightarrow> \<not> nuban_valid ((an_value m)[i := c]))
     | Inl e \<Rightarrow> faultless E \<longrightarrow>
                 e = InternalServerErrorException
                       ''Unable to generate a unique account number after multiple attempts'' \<and>
                 (\<forall>k < 10. buildWithChecksum bankCode (serial_of (randomSerial E (ticks w + 2 * k)))
                            \<in> ar_accountNumber ` set (accounts w)))"
proof -
  note out = generateAttempts_outcome [OF assms(1) assms(2) [unfolded nuban_generate_def]]
  show ?thesis
  proof (cases res)
    case (Inr m)
    with out obtain k where "an_value m = candidate E bankCode k" "an_value m \<notin> taken w" by blast
    with candidate_valid [OF assms(1), of E k]
    have m: "nuban_valid (an_value m)" "take 3 (an_value m) = bankCode" "an_value m \<notin> taken w" by simp_all
    then have "\<forall>i c. i < 10 \<and> is_digit c \<and> c \<noteq> an_value m ! i \<longrightarrow> \<not> nuban_valid ((an_value m)[i := c])"
      using nuban_single_error by blast
    moreover have "\<exists>k \<le> 20. w' = w\<lparr>ticks := ticks w + k\<rparr>"
      using out by (simp add: MAX_GENERATION_ATTEMPTS_def)
    ultimately show ?thesis using m unfolding Inr sum.case taken_def by (intro conjI)
  next
    case (Inl e)
    with out show ?thesis
      by (simp add: MAX_GENERATION_ATTEMPTS_def taken_def flip: candidate_def)
  qed
qed

theorem nuban_generate_spec_witness:
  "\<exists>m. nuban_generate exampleEnv ''999'' emptyWorld = (Inr m, emptyWorld\<lparr>ticks := 2\<rparr>) \<and>
     nuban_valid (an_value m)"
proof -
  have "nuban_generate exampleEnv ''999'' emptyWorld = generateAttempts exampleEnv ''999'' (Suc 9) emptyWorld"
    by (simp add: nuban_generate_def MAX_GENERATION_ATTEMPTS_def)
  also have "\<dots> = (Inr (AccountNumber ''9990000003''), emptyWorld\<lparr>ticks := 2\<rparr>)"
  proof -
    have "nat_str 0 = ''0''" by code_simp
    then have "serial_of 0 = pad_start 6 (CHR ''0'') ''0''" by (simp add: serial_of_def)
    also have "\<dots> = ''000000''" by code_simp
    finally have "serial_of 0 = ''000000''" .
    moreover have "buildWithChecksum ''999'' ''000000'' = ''9990000003''" by code_simp
    moreover have "AccountNumber_create ''9990000003'' = Inr (AccountNumber ''9990000003'')" by code_simp
    ultimately show ?thesis unfolding generateAttempts.simps(2)
      by (simp add: bindM_def draw_def liftE_def exampleEnv_def emptyWorld_def
          existsByAccountNumber_def query_def db_def getsM_def returnM_def Let_def numeral_2_eq_2)
  qed
  finally have run: "nuban_generate exampleEnv ''999'' emptyWorld =
      (Inr (AccountNumber ''9990000003''), emptyWorld\<lparr>ticks := 2\<rparr>)" .
  have "matches_digits 3 ''999''" by (simp add: matches_digits_def is_digit_def)
  from nuban_generate_spec [OF this run] run show ?thesis by simp
qed

section \<open>The table of accounts\<close>

definition accounts_ok :: "world \<Rightarrow> bool" where
  "accounts_ok w \<longleftrightarrow>
     distinct (map ar_id (accounts w)) \<and> distinct (map ar_accountNumber (accounts w)) \<and>
     (\<forall>r \<in> set (accounts w). account_row_ok r \<and> fits_int8 (ar_balance r))"

lemma accounts_ok_tick_free [simp]: "tick_free accounts_ok"
  by (simp add: tick_free_def accounts_ok_def)

text \<open>Replacing the row of one account by one with the same identifier and number.\<close>

definition put_account :: "account \<Rightarrow> account_row list \<Rightarrow> account_row list" where
  "put_account b t = map (\<lambda>r. if ar_id r = acc_id b then AccountMapper_toPersistence b else r) t"

lemma put_account_ok:
  assumes "accounts_ok w" and "account_ok b" and "fits_int8 (minorUnits (acc_balance b))"
    and "\<And>r. r \<in> set (accounts w) \<Longrightarrow> ar_id r = acc_id b \<Longrightarrow> ar_accountNumber r = an_value (acc_accountNumber b)"
  shows "accounts_ok (w\<lparr>accounts := put_account b (accounts w)\<rparr>)"
proof -
  have "map ar_id (put_account b (accounts w)) = map ar_id (accounts w)"
    unfolding put_account_def by (rule map_key_update) simp
  moreover have "map ar_accountNumber (put_account b (accounts w)) = map ar_accountNumber (accounts w)"
    unfolding put_account_def using assms(4) by (intro map_key_update) simp
  moreover have "\<forall>r \<in> set (put_account b (accounts w)). account_row_ok r \<and> fits_int8 (ar_balance r)"
    using assms account_ok_row [OF assms(2)] by (auto simp: put_account_def accounts_ok_def)
  ultimately show ?thesis using assms(1) by (simp add: accounts_ok_def)
qed

lemma add_account_ok:
  assumes "accounts_ok w" and "account_ok b" and "fits_int8 (minorUnits (acc_balance b))"
    and "\<not> list_ex (account_clash (AccountMapper_toPersistence b)) (accounts w)"
  shows "accounts_ok (w\<lparr>accounts := accounts w @ [AccountMapper_toPersistence b]\<rparr>)"
  using assms account_ok_row [OF assms(2)]
  by (auto simp: accounts_ok_def account_clash_def list_ex_iff)

section \<open>What a save of a loaded account does\<close>

lemma account_save_outcome:
  assumes "account_save E b w = (res, w')" and "accounts_ok w"
    and "r \<in> set (accounts w)" and "acc_id b = ar_id r" and "acc_version b = ar_version r + 1"
    and "0 \<le> ar_version r"
  shows "(\<exists>e n. res = Inl e \<and> w' = w\<lparr>ticks := n\<rparr>) \<or>
    (\<exists>n. fits_int8 (minorUnits (acc_balance b)) \<and>
       w' = w\<lparr>accounts := put_account b (accounts w), ticks := n\<rparr> \<and>
       (res = Inr () \<or> res = Inl connectionLost))"
proof -
  have only: "x = r" if "x \<in> set (accounts w)" "ar_id x = ar_id r" for x
    using that assms(2,3) distinct_key_eq [of ar_id "accounts w"] by (auto simp: accounts_ok_def)
  then have put: "map (\<lambda>x. if ar_id x = acc_id b \<and> ar_version x = acc_version b - 1
      then AccountMapper_toPersistence b else x) (accounts w) = put_account b (accounts w)"
    using assms(4,5) by (auto simp: put_account_def)
  have found: "filter (\<lambda>x. ar_id x = acc_id b \<and> ar_version x = acc_version b - 1) (accounts w) \<noteq> []"
    using assms(3-5) by (auto simp: filter_empty_conv)
  show ?thesis
    using assms(1,5,6) put found
    by (cases "dbFault E (ticks w)"; cases "fits_int8 (minorUnits (acc_balance b))")
      (auto simp: account_save_def saveVersioned_def Let_def update_in_def update_rows_def bindM_def
        guardM_def db_def comp_simps)
qed

section \<open>Handlers that change one account\<close>

text \<open>
  The shape the handlers of an existing account share: load it, compute the arguments of the
  operation from it, read the clock, apply the operation, save, publish.
\<close>

definition mutateAccount ::
  "env \<Rightarrow> string \<Rightarrow> (account \<Rightarrow> 'y action) \<Rightarrow> ('y \<Rightarrow> account_op) \<Rightarrow> accountResponse action" where
  "mutateAccount E i pre op =
     bindM (loadAccount E i) (\<lambda>a.
     bindM (pre a) (\<lambda>y.
     bindM (now E) (\<lambda>t.
     bindM (liftE (apply_op t (op y) a)) (\<lambda>b.
     saveAndRespond E b))))"

lemma bindM_assoc: "bindM (bindM m f) g = bindM m (\<lambda>x. bindM (f x) g)"
  by (auto simp: bindM_def fun_eq_iff split: prod.split sum.split)

lemma bindM_returnM [simp]: "bindM (returnM x) f = f x"
  by (simp add: bindM_def returnM_def)

lemma bindM_liftE [simp]: "bindM (liftE (Inr x)) f = f x"
  by (simp add: bindM_def liftE_def)

lemma handlers_mutate:
  "ActivateAccount_execute E i = mutateAccount E i (\<lambda>_. returnM ()) (\<lambda>_. OpActivate)"
  "CreditAccount_execute E i s c ref =
     mutateAccount E i
       (\<lambda>a. bindM (liftE (fromDecimalString s c)) (\<lambda>m. bindM (assertWithinLimit E a m) (\<lambda>_. returnM m)))
       (\<lambda>m. OpCredit m ref)"
  "DebitAccount_execute E i s c ref =
     mutateAccount E i (\<lambda>_. liftE (fromDecimalString s c)) (\<lambda>m. OpDebit m ref)"
  "FreezeAccount_execute E i reason = mutateAccount E i (\<lambda>_. returnM ()) (\<lambda>_. OpFreeze reason)"
  "UnfreezeAccount_execute E i = mutateAccount E i (\<lambda>_. returnM ()) (\<lambda>_. OpUnfreeze)"
  "CloseAccount_execute E i = mutateAccount E i (\<lambda>_. returnM ()) (\<lambda>_. OpClose)"
  by (simp_all add: mutateAccount_def ActivateAccount_execute_def CreditAccount_execute_def
      DebitAccount_execute_def FreezeAccount_execute_def UnfreezeAccount_execute_def
      CloseAccount_execute_def bindM_assoc)

lemma reads_loadAccount [reads_rules]: "reads (loadAccount E i)"
  unfolding loadAccount_def account_findById_def by (intro reads_rules)

lemma reads_assertWithinLimit [reads_rules]: "reads (assertWithinLimit E a m)"
  unfolding assertWithinLimit_def resolveTier_def kycProfile_findByUserId_def kycTierLimit_findByTier_def
  by (intro reads_rules)

lemma account_toDomainOrNull_Some:
  "account_toDomainOrNull x = Inr (Some a) \<longleftrightarrow> (\<exists>r. x = Some r \<and> AccountMapper_toDomain r = Inr a)"
  by (cases x) (auto simp: bindE_eq_Inr)

lemma loadAccount_Inr:
  assumes "loadAccount E i w = (Inr a, w')" and "accounts_ok w"
  shows "w' = w\<lparr>ticks := Suc (ticks w)\<rparr> \<and>
    (\<exists>r. List.find (\<lambda>r. ar_id r = i) (accounts w) = Some r \<and> r \<in> set (accounts w) \<and> ar_id r = i \<and>
         a = account_of_row r \<and> account_ok a)"
proof -
  from assms(1) obtain x where w': "w' = w\<lparr>ticks := Suc (ticks w)\<rparr>"
    and x: "List.find (\<lambda>r. ar_id r = i) (accounts w) = x" "account_toDomainOrNull x = Inr (Some a)"
    by (auto simp: loadAccount_def account_findById_def bindM_eq_Inr comp_simps required_def
        throwM_def returnM_def dest!: query_eq_Inr split: option.splits)
  then obtain r where r: "List.find (\<lambda>r. ar_id r = i) (accounts w) = Some r" "AccountMapper_toDomain r = Inr a"
    by (auto simp: account_toDomainOrNull_Some)
  from find_Some_set [OF r(1)] assms(2) r(2) w' r(1) show ?thesis
    by (auto simp: accounts_ok_def account_row_ok_def AccountMapper_toDomain_Inr)
qed

text \<open>What such a handler can do to the world, under any failure of the database.\<close>

lemma mutateAccount_outcome:
  assumes run: "mutateAccount E i pre op w = (res, w')" and ok: "accounts_ok w"
    and pre: "\<And>a. reads (pre a)" and op: "\<And>a y w1 w2. pre a w1 = (Inr y, w2) \<Longrightarrow> op_ok (op y)"
  obtains (failed) e n where "res = Inl e" "w' = w\<lparr>ticks := n\<rparr>"
  | (changed) r y t b n w1 w2 where
      "List.find (\<lambda>r. ar_id r = i) (accounts w) = Some r" "r \<in> set (accounts w)" "ar_id r = i"
      "pre (account_of_row r) w1 = (Inr y, w2)" "w1 = w\<lparr>ticks := Suc (ticks w)\<rparr>"
      "apply_op t (op y) (account_of_row r) = Inr b" "account_ok b"
      "fits_int8 (minorUnits (acc_balance b))"
      "accounts w' = put_account b (accounts w)"
      "w' = w\<lparr>accounts := put_account b (accounts w),
              published := published w @ (case res of Inr _ \<Rightarrow> acc_events b | Inl _ \<Rightarrow> []), ticks := n\<rparr>"
      "(case res of Inr z \<Rightarrow> z = AccountResponseDto_fromDomain (b\<lparr>acc_events := []\<rparr>)
        | Inl e \<Rightarrow> e = connectionLost)"
proof -
  obtain z w1 where load: "loadAccount E i w = (z, w1)" by fastforce
  show ?thesis
  proof (cases z)
    case (Inl e)
    with run load readsD [OF reads_loadAccount load] failed show ?thesis
      by (auto simp: mutateAccount_def bindM_def)
  next
    case (Inr a)
    from loadAccount_Inr [OF load [unfolded Inr] ok] obtain r where
      r: "List.find (\<lambda>r. ar_id r = i) (accounts w) = Some r" "r \<in> set (accounts w)" "ar_id r = i"
        "a = account_of_row r" "account_ok a" and w1: "w1 = w\<lparr>ticks := Suc (ticks w)\<rparr>" by blast
    obtain z2 w2 where pre_run: "pre a w1 = (z2, w2)" by fastforce
    obtain n2 where w2: "w2 = w\<lparr>ticks := n2\<rparr>" using readsD [OF pre pre_run] w1 by auto
    let ?t = "nowMs E n2" and ?w3 = "w\<lparr>ticks := Suc n2\<rparr>"
    show ?thesis
    proof (cases z2)
      case (Inl e)
      with run load \<open>z = Inr a\<close> pre_run w2 failed show ?thesis
        by (auto simp: mutateAccount_def bindM_def)
    next
      case (Inr y)
      have rest: "bindM (liftE (apply_op ?t (op y) a)) (saveAndRespond E) ?w3 = (res, w')"
        using run load \<open>z = Inr a\<close> pre_run Inr w2 by (simp add: mutateAccount_def bindM_def now_apply)
      show ?thesis
      proof (cases "apply_op ?t (op y) a")
        case (Inl e)
        with rest failed show ?thesis by (auto simp: bindM_def liftE_def)
      next
        case (Inr b)
        note eff = apply_op_event [OF Inr r(5) op [OF pre_run [unfolded \<open>z2 = Inr y\<close>]]]
        have ver: "acc_version b = ar_version r + 1" "acc_id b = ar_id r" "0 \<le> ar_version r"
          using eff r(4,5) by (auto simp: account_ok_def)
        obtain s w4 where save: "account_save E b ?w3 = (s, w4)" by fastforce
        have ok3: "accounts_ok ?w3" using ok by (simp add: accounts_ok_def)
        from account_save_outcome [OF save ok3 _ ver(2,1,3)] r(2)
        consider e n where "s = Inl e" "w4 = w\<lparr>ticks := n\<rparr>"
          | n where "fits_int8 (minorUnits (acc_balance b))"
              "w4 = w\<lparr>accounts := put_account b (accounts w), ticks := n\<rparr>" "s = Inr () \<or> s = Inl connectionLost"
          by (auto simp: comp_simps)
        then show ?thesis
        proof cases
          case 1
          with rest Inr save failed show ?thesis by (auto simp: bindM_def liftE_def saveAndRespond_def)
        next
          case 2
          show ?thesis
          proof (rule changed [OF r(1-3) _ w1 _ _ 2(1)])
            show "pre (account_of_row r) w1 = (Inr y, w2)" using pre_run \<open>z2 = Inr y\<close> r(4) by simp
            show "apply_op ?t (op y) (account_of_row r) = Inr b" using Inr r(4) by simp
            show "account_ok b" using eff by blast
          qed (use rest Inr save 2(2,3) in \<open>auto simp: bindM_def liftE_def saveAndRespond_def
                 acc_pullDomainEvents_def Let_def publishAll_apply returnM_def comp_simps\<close>)
        qed
      qed
    qed
  qed
qed

section \<open>The commands of the module\<close>

datatype account_command =
    CmdOpen string accountType currency
  | CmdActivate string
  | CmdCredit string string currency string
  | CmdDebit string string currency string
  | CmdFreeze string string
  | CmdUnfreeze string
  | CmdClose string

fun run_command :: "env \<Rightarrow> string \<Rightarrow> account_command \<Rightarrow> accountResponse action" where
  "run_command E bankCode (CmdOpen u ty c) = OpenAccount_execute E bankCode u ty c"
| "run_command E bankCode (CmdActivate i) = ActivateAccount_execute E i"
| "run_command E bankCode (CmdCredit i s c ref) = CreditAccount_execute E i s c ref"
| "run_command E bankCode (CmdDebit i s c ref) = DebitAccount_execute E i s c ref"
| "run_command E bankCode (CmdFreeze i reason) = FreezeAccount_execute E i reason"
| "run_command E bankCode (CmdUnfreeze i) = UnfreezeAccount_execute E i"
| "run_command E bankCode (CmdClose i) = CloseAccount_execute E i"

text \<open>The account a command names and the operation it asks for.\<close>

fun command_target :: "account_command \<Rightarrow> string option" where
  "command_target (CmdOpen u ty c) = None"
| "command_target (CmdActivate i) = Some i"
| "command_target (CmdCredit i s c ref) = Some i"
| "command_target (CmdDebit i s c ref) = Some i"
| "command_target (CmdFreeze i reason) = Some i"
| "command_target (CmdUnfreeze i) = Some i"
| "command_target (CmdClose i) = Some i"

fun command_op :: "account_command \<Rightarrow> account_op option" where
  "command_op (CmdOpen u ty c) = None"
| "command_op (CmdActivate i) = Some OpActivate"
| "command_op (CmdCredit i s c ref) =
     (case fromDecimalString s c of Inr m \<Rightarrow> Some (OpCredit m ref) | Inl e \<Rightarrow> None)"
| "command_op (CmdDebit i s c ref) =
     (case fromDecimalString s c of Inr m \<Rightarrow> Some (OpDebit m ref) | Inl e \<Rightarrow> None)"
| "command_op (CmdFreeze i reason) = Some (OpFreeze reason)"
| "command_op (CmdUnfreeze i) = Some OpUnfreeze"
| "command_op (CmdClose i) = Some OpClose"

definition command_pre :: "env \<Rightarrow> account_command \<Rightarrow> account \<Rightarrow> account_op action" where
  "command_pre E cmd a =
     (case cmd of
        CmdCredit i s c ref \<Rightarrow>
          bindM (liftE (fromDecimalString s c)) (\<lambda>m.
          bindM (assertWithinLimit E a m) (\<lambda>_. returnM (OpCredit m ref)))
      | CmdDebit i s c ref \<Rightarrow> bindM (liftE (fromDecimalString s c)) (\<lambda>m. returnM (OpDebit m ref))
      | _ \<Rightarrow> returnM (the (command_op cmd)))"

lemma run_command_mutate:
  "command_target cmd = Some i \<Longrightarrow> run_command E bankCode cmd = mutateAccount E i (command_pre E cmd) (\<lambda>x. x)"
  by (cases cmd) (simp_all add: command_pre_def mutateAccount_def ActivateAccount_execute_def
      CreditAccount_execute_def DebitAccount_execute_def FreezeAccount_execute_def
      UnfreezeAccount_execute_def CloseAccount_execute_def bindM_assoc)

lemma reads_command_pre [reads_rules]: "reads (command_pre E cmd a)"
  by (cases cmd) (auto simp: command_pre_def intro!: reads_rules)

lemma command_pre_Inr:
  "command_target cmd \<noteq> None \<Longrightarrow> command_pre E cmd a w = (Inr x, w') \<Longrightarrow>
    command_op cmd = Some x \<and> op_ok x"
  by (cases cmd) (auto simp: command_pre_def bindM_eq_Inr comp_simps dest: fromDecimalString_ok)

lemma run_command_outcome:
  assumes "accounts_ok w" and "run_command E bankCode cmd w = (res, w')" and "command_target cmd = Some i"
  shows "(\<exists>e n. res = Inl e \<and> w' = w\<lparr>ticks := n\<rparr>) \<or>
    (\<exists>r x t b n.
       List.find (\<lambda>r. ar_id r = i) (accounts w) = Some r \<and> command_op cmd = Some x \<and>
       apply_op t x (account_of_row r) = Inr b \<and> acc_version b = ar_version r + 1 \<and>
       w' = w\<lparr>accounts := map (\<lambda>r. if ar_id r = i then AccountMapper_toPersistence b else r) (accounts w),
              published := published w @ (case res of Inr _ \<Rightarrow> acc_events b | Inl _ \<Rightarrow> []), ticks := n\<rparr> \<and>
       (case res of Inr z \<Rightarrow> z = AccountResponseDto_fromDomain (b\<lparr>acc_events := []\<rparr>)
        | Inl e \<Rightarrow> e = connectionLost))"
proof (rule mutateAccount_outcome [OF assms(2) [unfolded run_command_mutate [OF assms(3)]] assms(1)])
  show "reads (command_pre E cmd a)" for a by (rule reads_command_pre)
  show "op_ok y" if "command_pre E cmd a w1 = (Inr y, w2)" for a y w1 w2
    using command_pre_Inr [OF _ that] assms(3) by simp
next
  fix e n assume "res = Inl e" "w' = w\<lparr>ticks := n\<rparr>"
  then show ?thesis by blast
next
  fix r y t b n w1 w2
  assume *: "List.find (\<lambda>r. ar_id r = i) (accounts w) = Some r" "ar_id r = i" "r \<in> set (accounts w)"
    and pre: "command_pre E cmd (account_of_row r) w1 = (Inr y, w2)"
    and op: "apply_op t y (account_of_row r) = Inr b"
    and w': "w' = w\<lparr>accounts := put_account b (accounts w),
              published := published w @ (case res of Inr _ \<Rightarrow> acc_events b | Inl _ \<Rightarrow> []), ticks := n\<rparr>"
    and res: "case res of Inr z \<Rightarrow> z = AccountResponseDto_fromDomain (b\<lparr>acc_events := []\<rparr>)
        | Inl e \<Rightarrow> e = connectionLost"
  have y: "command_op cmd = Some y" "op_ok y" using command_pre_Inr [OF _ pre] assms(3) by simp_all
  have "account_ok (account_of_row r)" using * assms(1) by (auto simp: accounts_ok_def account_row_ok_def)
  from apply_op_event [OF op this y(2)] * have "acc_version b = ar_version r + 1" "acc_id b = i" by simp_all
  with w' have "w' = w\<lparr>accounts := map (\<lambda>r. if ar_id r = i then AccountMapper_toPersistence b else r) (accounts w),
      published := published w @ (case res of Inr _ \<Rightarrow> acc_events b | Inl _ \<Rightarrow> []), ticks := n\<rparr>"
    by (simp only: put_account_def)
  with *(1) y(1) op res \<open>acc_version b = ar_version r + 1\<close> show ?thesis
    by (intro disjI2 exI [of _ r] exI [of _ y] exI [of _ t] exI [of _ b] exI [of _ n] conjI)
qed

text \<open>
  C11. Every command on an existing account is all or nothing, however the database fails: either it
  throws and nothing but the use of the surroundings changed, or exactly the row of its account was
  replaced by the one the account operation gives (same identifier and number, version one higher)
  and every other table and row is as it was. If it returns, the events of the operation are
  published and the answer describes the new account; if it still throws after the write, the only
  error is the lost connection, and nothing was published.
\<close>

theorem account_command_effect:
  assumes "accounts_ok w" and "run_command E bankCode cmd w = (res, w')" and "command_target cmd = Some i"
  shows "(\<exists>e n. res = Inl e \<and> w' = w\<lparr>ticks := n\<rparr>) \<or>
    (\<exists>r x t b n.
       List.find (\<lambda>r. ar_id r = i) (accounts w) = Some r \<and> command_op cmd = Some x \<and>
       apply_op t x (account_of_row r) = Inr b \<and> acc_version b = ar_version r + 1 \<and>
       w' = w\<lparr>accounts := map (\<lambda>r. if ar_id r = i then AccountMapper_toPersistence b else r) (accounts w),
              published := published w @ (case res of Inr _ \<Rightarrow> acc_events b | Inl _ \<Rightarrow> []), ticks := n\<rparr> \<and>
       (case res of Inr z \<Rightarrow> z = AccountResponseDto_fromDomain (b\<lparr>acc_events := []\<rparr>)
        | Inl e \<Rightarrow> e = connectionLost))"
  using assms by (rule run_command_outcome)

section \<open>The table stays well formed\<close>

lemma generateAttempts_number:
  "generateAttempts E bankCode n w = (Inr m, w') \<Longrightarrow> matches_digits 10 (an_value m)"
  by (induction n arbitrary: w)
    (auto simp: comp_simps bindM_eq_Inr AccountNumber_create_def draw_def split: if_splits)

lemma reads_nuban [reads_rules]: "reads (nuban_generate E bankCode)"
proof -
  have "reads (generateAttempts E bankCode n)" for n
    by (induction n) (simp, intro reads_rules, simp add: existsByAccountNumber_def, intro reads_rules)
  then show ?thesis by (simp add: nuban_generate_def)
qed

lemma account_create_ok:
  assumes "accounts_ok w" and "account_save E b w = (res, w')" and "account_ok b" and "acc_version b = 0"
  shows "accounts_ok w'"
proof -
  from saveVersioned_state' [OF _ _ assms(2) [unfolded account_save_def]]
  consider "accounts w' = accounts w"
    | "fits_int8 (minorUnits (acc_balance b))"
      "\<not> list_ex (account_clash (AccountMapper_toPersistence b)) (accounts w)"
      "accounts w' = accounts w @ [AccountMapper_toPersistence b]"
    using assms(4) by (auto simp: can_save_def saved_row_def)
  then show ?thesis
  proof cases
    case 1
    with assms(1) show ?thesis by (simp add: accounts_ok_def)
  next
    case 2
    from add_account_ok [OF assms(1,3) 2(1,2)] 2(3) show ?thesis by (simp add: accounts_ok_def)
  qed
qed

lemma accounts_ok_cong: "accounts w = accounts v \<Longrightarrow> accounts_ok w \<longleftrightarrow> accounts_ok v"
  by (simp add: accounts_ok_def)

lemma saveAndRespond_accounts:
  "accounts (snd (saveAndRespond E b w)) = accounts (snd (account_save E b w))"
  by (auto simp: saveAndRespond_def bindM_def acc_pullDomainEvents_def Let_def publishAll_apply
      returnM_def split: prod.split sum.split)

lemma mutateAccount_ok:
  assumes "\<And>a. reads (pre a)" and "\<And>a y w1 w2. pre a w1 = (Inr y, w2) \<Longrightarrow> op_ok (op y)"
  shows "preserves accounts_ok (mutateAccount E i pre op)"
  unfolding preserves_def
proof (intro allI impI)
  fix w assume ok: "accounts_ok w"
  obtain res w' where run: "mutateAccount E i pre op w = (res, w')" by fastforce
  show "accounts_ok (snd (mutateAccount E i pre op w))"
  proof (rule mutateAccount_outcome [OF run ok assms(1)])
    show "op_ok (op y)" if "pre a w1 = (Inr y, w2)" for a y w1 w2 by (rule assms(2) [OF that])
  next
    fix n assume "w' = w\<lparr>ticks := n\<rparr>"
    with ok run show ?thesis by (simp add: accounts_ok_def)
  next
    fix r y t b w1 w2
    assume r: "r \<in> set (accounts w)" "ar_id r = i" and pre: "pre (account_of_row r) w1 = (Inr y, w2)"
      and op: "apply_op t (op y) (account_of_row r) = Inr b"
      and b: "account_ok b" "fits_int8 (minorUnits (acc_balance b))"
      and w': "accounts w' = put_account b (accounts w)"
    have a: "account_ok (account_of_row r)" using r ok by (auto simp: accounts_ok_def account_row_ok_def)
    note eff = apply_op_event [OF op a assms(2) [OF pre]]
    have "ar_accountNumber x = an_value (acc_accountNumber b)"
      if "x \<in> set (accounts w)" "ar_id x = acc_id b" for x
      using that r eff ok distinct_key_eq [of ar_id "accounts w" x r] by (auto simp: accounts_ok_def)
    from put_account_ok [OF ok b this] w' run show ?thesis by (simp add: accounts_ok_def)
  qed
qed

lemma run_command_ok [preserves_rules]: "preserves accounts_ok (run_command E bankCode cmd)"
proof (cases "command_target cmd")
  case (Some i)
  then show ?thesis unfolding run_command_mutate [OF Some]
    by (intro mutateAccount_ok reads_rules) (use command_pre_Inr [of cmd] Some in blast)
next
  case None
  then obtain u ty c where cmd: "cmd = CmdOpen u ty c" by (cases cmd) auto
  show ?thesis unfolding preserves_def
  proof (intro allI impI)
    fix w assume ok: "accounts_ok w"
    obtain z w1 where gen: "nuban_generate E bankCode w = (z, w1)" by fastforce
    obtain n where w1: "w1 = w\<lparr>ticks := n\<rparr>" using readsD [OF reads_nuban gen] by blast
    show "accounts_ok (snd (run_command E bankCode cmd w))"
    proof (cases z)
      case (Inl e)
      with gen w1 ok cmd show ?thesis by (simp add: OpenAccount_execute_def bindM_def accounts_ok_def)
    next
      case (Inr m)
      let ?b = "acc_open (nowMs E n) (newUuid E (Suc n)) u m ty c" and ?w2 = "w\<lparr>ticks := Suc (Suc n)\<rparr>"
      have "run_command E bankCode cmd w = saveAndRespond E ?b ?w2"
        using gen Inr w1 cmd by (simp add: OpenAccount_execute_def bindM_def now_apply uuid_apply)
      moreover have "account_ok ?b"
        using generateAttempts_number gen Inr
        by (simp add: nuban_generate_def account_ok_def acc_open_def money_ok_def)
      moreover have "acc_version ?b = 0" by (simp add: acc_open_def)
      moreover have "accounts_ok ?w2" using ok by (simp add: accounts_ok_def)
      ultimately show ?thesis
        using account_create_ok [of ?w2 E ?b] saveAndRespond_accounts [of E ?b ?w2] accounts_ok_cong
        by (metis prod.collapse)
    qed
  qed
qed

text \<open>Commands one after the other, each in surroundings of its own.\<close>

fun run_commands :: "(env \<times> string \<times> account_command) list \<Rightarrow> world \<Rightarrow> world" where
  "run_commands [] w = w"
| "run_commands ((E, bankCode, cmd) # cs) w = run_commands cs (snd (run_command E bankCode cmd w))"

text \<open>
  The table of accounts stays well formed: after any sequence of commands, started from a
  database without accounts and with any failures, no two rows share an identifier or an account
  number, every number is ten digits, no balance is negative or beyond its column, and no closed
  account holds money. Every row can therefore be loaded again.
\<close>

theorem account_table_invariant:
  "accounts_ok (run_commands cs emptyWorld) \<and>
   list_all (\<lambda>r. AccountMapper_toDomain r = Inr (account_of_row r)) (accounts (run_commands cs emptyWorld))"
proof -
  have keep: "accounts_ok w \<Longrightarrow> accounts_ok (run_commands cs w)" for w
  proof (induction cs arbitrary: w)
    case (Cons c cs)
    then show ?case by (cases c) (simp only: run_commands.simps preservesD [OF run_command_ok])
  qed simp
  have "accounts_ok emptyWorld" by (simp add: accounts_ok_def emptyWorld_def)
  from keep [OF this] show ?thesis by (simp add: accounts_ok_def list_all_iff AccountMapper_toDomain_ok)
qed

section \<open>The ceiling of a tier\<close>

lemma assertWithinLimit_Inr:
  "assertWithinLimit E a m w = (Inr u, w') \<Longrightarrow>
    \<exists>limits. limitsOf w (tierOf w (acc_userId a)) (acc_currency a) = Inr limits \<and>
      (case maxBalance limits of
         None \<Rightarrow> True
       | Some ceiling \<Rightarrow> moneyCurrency (acc_balance a) = moneyCurrency m \<and>
           moneyCurrency ceiling = moneyCurrency (acc_balance a) \<and>
           minorUnits (acc_balance a) + minorUnits m \<le> minorUnits ceiling)"
  by (fastforce simp: assertWithinLimit_def bindM_eq_Inr comp_simps isGreaterThanOrEqualTo_Inr addMoney_Inr
      dest!: resolveTier_Inr findByTier_Inr split: option.splits if_splits)

text \<open>
  The balance ceiling: a credit that returns has been checked against the limits stored for the
  tier the holder has in the same database (TIER_1 without a profile, the policy's defaults without
  a stored limit), and the balance it leaves is within them. The account was active and the amount
  in its currency.
\<close>

theorem credit_within_ceiling:
  assumes "accounts_ok w" and "CreditAccount_execute E i s c ref w = (Inr z, w')"
  shows "\<exists>r m limits.
    List.find (\<lambda>r. ar_id r = i) (accounts w) = Some r \<and> fromDecimalString s c = Inr m \<and>
    ar_status r = AS_ACTIVE \<and> c = ar_currency r \<and>
    limitsOf w (tierOf w (ar_userId r)) c = Inr limits \<and>
    (case maxBalance limits of
       None \<Rightarrow> True
     | Some ceiling \<Rightarrow> ar_balance r + minorUnits m \<le> minorUnits ceiling \<and> moneyCurrency ceiling = c) \<and>
    map ar_balance (accounts w') =
      map (\<lambda>x. if ar_id x = i then ar_balance r + minorUnits m else ar_balance x) (accounts w)"
proof (rule mutateAccount_outcome [OF assms(2) [unfolded handlers_mutate] assms(1)])
  show "reads (bindM (liftE (fromDecimalString s c)) (\<lambda>m. bindM (assertWithinLimit E a m) (\<lambda>_. returnM m)))"
    for a by (intro reads_rules)
  show "op_ok (OpCredit y ref)"
    if "bindM (liftE (fromDecimalString s c)) (\<lambda>m. bindM (assertWithinLimit E a m) (\<lambda>_. returnM m)) w1 = (Inr y, w2)"
    for a y w1 w2 using that by (auto simp: bindM_eq_Inr comp_simps dest: fromDecimalString_ok)
next
  fix r m t b n w1 w2
  let ?a = "account_of_row r"
  assume r: "List.find (\<lambda>r. ar_id r = i) (accounts w) = Some r" "ar_id r = i"
    and pre: "bindM (liftE (fromDecimalString s c))
        (\<lambda>m. bindM (assertWithinLimit E ?a m) (\<lambda>_. returnM m)) w1 = (Inr m, w2)"
    and w1: "w1 = w\<lparr>ticks := Suc (ticks w)\<rparr>"
    and op: "apply_op t (OpCredit m ref) ?a = Inr b"
    and w': "accounts w' = put_account b (accounts w)"
  from pre obtain u w3 where m: "fromDecimalString s c = Inr m" "moneyCurrency m = c"
    and check: "assertWithinLimit E ?a m w1 = (Inr u, w3)"
    by (auto simp: bindM_eq_Inr comp_simps dest: fromDecimalString_ok)
  from assertWithinLimit_Inr [OF check] obtain limits where
    l0: "limitsOf w1 (tierOf w1 (acc_userId ?a)) (acc_currency ?a) = Inr limits"
      "case maxBalance limits of None \<Rightarrow> True
       | Some ceiling \<Rightarrow> moneyCurrency (acc_balance ?a) = moneyCurrency m \<and>
           moneyCurrency ceiling = moneyCurrency (acc_balance ?a) \<and>
           minorUnits (acc_balance ?a) + minorUnits m \<le> minorUnits ceiling" by blast
  from l0(1) have l1: "limitsOf w (tierOf w (ar_userId r)) (ar_currency r) = Inr limits" by (simp add: w1)
  from l0(2) have l2: "case maxBalance limits of None \<Rightarrow> True
       | Some ceiling \<Rightarrow> moneyCurrency ceiling = ar_currency r \<and> ar_balance r + minorUnits m \<le> minorUnits ceiling"
    by (cases "maxBalance limits") simp_all
  note l = l1 l2
  from op have cr: "ar_status r = AS_ACTIVE" "moneyCurrency m = ar_currency r"
    "acc_id b = ar_id r" "minorUnits (acc_balance b) = ar_balance r + minorUnits m"
    by (auto simp: credit_Inr)
  have "map ar_balance (accounts w') =
      map (\<lambda>x. if ar_id x = i then ar_balance r + minorUnits m else ar_balance x) (accounts w)"
    unfolding w' put_account_def using cr r(2) by simp
  moreover have "case maxBalance limits of None \<Rightarrow> True
       | Some ceiling \<Rightarrow> ar_balance r + minorUnits m \<le> minorUnits ceiling \<and> moneyCurrency ceiling = c"
    using l(2) m(2) cr(2) by (cases "maxBalance limits") simp_all
  moreover have c: "c = ar_currency r" using m(2) cr(2) by simp
  moreover have "limitsOf w (tierOf w (ar_userId r)) c = Inr limits" using l(1) c by (simp only:)
  ultimately show ?thesis using r(1) m(1) cr(1)
    by (intro exI [of _ r] exI [of _ m] exI [of _ limits] conjI)
qed simp

section \<open>Activation after a tier upgrade\<close>

text \<open>A row and the same account activated.\<close>

definition activated :: "account_row \<Rightarrow> account_row \<Rightarrow> bool" where
  "activated r r' \<longleftrightarrow>
     (\<exists>t. r' = r\<lparr>ar_status := AS_ACTIVE, ar_version := ar_version r + 1, ar_updatedAt := t\<rparr>)"

lemma activate_row:
  "AccountMapper_toPersistence (activate t (account_of_row r)) =
     r\<lparr>ar_status := AS_ACTIVE, ar_version := ar_version r + 1, ar_updatedAt := t\<rparr>"
  by (simp add: AccountMapper_toPersistence_def activate_def acc_touch_def acc_addDomainEvent_def account_of_row_def)

lemma loadAccount_faultless:
  assumes "faultless E" and "accounts_ok w" and "r \<in> set (accounts w)"
  shows "loadAccount E (ar_id r) w = (Inr (account_of_row r), w\<lparr>ticks := Suc (ticks w)\<rparr>)"
proof -
  have "List.find (\<lambda>x. ar_id x = ar_id r) (accounts w) = Some r"
    using assms(2,3) by (intro find_key) (simp_all add: accounts_ok_def)
  moreover have "AccountMapper_toDomain r = Inr (account_of_row r)"
    using assms(2,3) by (intro AccountMapper_toDomain_ok) (simp add: accounts_ok_def)
  ultimately show ?thesis
    using assms(1) by (simp add: loadAccount_def account_findById_def bindM_def comp_simps)
qed

lemma account_save_faultless:
  assumes "faultless E" and "accounts_ok w" and "r \<in> set (accounts w)" and "acc_id b = ar_id r"
    and "acc_version b = ar_version r + 1" and "0 \<le> ar_version r" and "fits_int8 (minorUnits (acc_balance b))"
  shows "fst (account_save E b w) = Inr ()"
proof -
  have "filter (\<lambda>x. ar_id x = acc_id b \<and> ar_version x = acc_version b - 1) (accounts w) \<noteq> []"
    using assms(3-5) by (auto simp: filter_empty_conv)
  with assms show ?thesis
    by (simp add: account_save_def saveVersioned_def Let_def update_in_def update_rows_def bindM_def comp_simps)
qed

text \<open>One activation inside the loop: it never throws, and changes at most its own row.\<close>

definition activation :: "env \<Rightarrow> string \<Rightarrow> unit action" where
  "activation E i =
     catchM (bindM (ActivateAccount_execute E i) (\<lambda>_. returnM ())) (\<lambda>error. returnM ())"

lemma activation_outcome:
  assumes ok: "accounts_ok w" and r: "r \<in> set (accounts w)"
  shows "\<exists>w'. activation E (ar_id r) w = (Inr (), w') \<and> accounts_ok w' \<and>
    (accounts w' = accounts w \<and> \<not> faultless E \<or>
     (\<exists>r'. activated r r' \<and> accounts w' = map (\<lambda>x. if ar_id x = ar_id r then r' else x) (accounts w)))"
proof -
  obtain res w' where run: "ActivateAccount_execute E (ar_id r) w = (res, w')" by fastforce
  have act: "activation E (ar_id r) w = (Inr (), w')"
    using run by (cases res) (simp_all add: activation_def catchM_def bindM_def returnM_def)
  have keep: "accounts_ok w'"
    using preservesD [OF run_command_ok [of E "[]" "CmdActivate (ar_id r)"] ok] run by simp
  have fits: "fits_int8 (ar_balance r)" "0 \<le> ar_version r" "account_ok (account_of_row r)"
    using ok r by (auto simp: accounts_ok_def account_row_ok_def account_ok_def)
  have "accounts w' = accounts w \<and> \<not> faultless E \<or>
     (\<exists>r'. activated r r' \<and> accounts w' = map (\<lambda>x. if ar_id x = ar_id r then r' else x) (accounts w))"
  proof (rule mutateAccount_outcome [OF run [unfolded handlers_mutate] ok])
    fix e n assume failed: "res = Inl e" "w' = w\<lparr>ticks := n\<rparr>"
    have False if f: "faultless E"
    proof -
      let ?b = "activate (nowMs E (Suc (ticks w))) (account_of_row r)" and ?w2 = "w\<lparr>ticks := Suc (Suc (ticks w))\<rparr>"
      have "accounts_ok ?w2" using ok by (simp add: accounts_ok_def)
      from account_save_faultless [OF f this, of r ?b] r fits
      obtain w3 where "account_save E ?b ?w2 = (Inr (), w3)"
        by (cases "account_save E ?b ?w2") (auto simp: activate_def)
      with loadAccount_faultless [OF f ok r] run failed show False
        by (simp add: ActivateAccount_execute_def saveAndRespond_def bindM_def now_apply
            acc_pullDomainEvents_def Let_def publishAll_apply returnM_def)
    qed
    with failed show ?thesis by auto
  next
    fix x y t b
    assume x: "x \<in> set (accounts w)" "ar_id x = ar_id r" and op: "apply_op t OpActivate (account_of_row x) = Inr b"
      and w': "accounts w' = put_account b (accounts w)"
    from x r ok have "x = r" using distinct_key_eq [of ar_id "accounts w"] by (auto simp: accounts_ok_def)
    with op have b: "b = activate t (account_of_row r)" "acc_id b = ar_id r"
      by (auto simp: activate_def)
    have "activated r (AccountMapper_toPersistence b)" unfolding b(1) activate_row activated_def by blast
    with w' b(2) show ?thesis unfolding put_account_def by auto
  qed (simp_all add: reads_rules)
  with act keep show ?thesis by blast
qed

text \<open>Before and after of every row, for a set of identifiers that were to be activated.\<close>

definition activated_on :: "bool \<Rightarrow> string set \<Rightarrow> account_row list \<Rightarrow> account_row list \<Rightarrow> bool" where
  "activated_on sure ids t t' \<longleftrightarrow>
     list_all2 (\<lambda>r r'. if ar_id r \<in> ids then activated r r' \<or> (r' = r \<and> \<not> sure) else r' = r) t t'"

lemma activated_id: "activated r r' \<Longrightarrow> ar_id r' = ar_id r"
  by (auto simp: activated_def)

lemma activation_loop:
  assumes "accounts_ok w" and "distinct ids" and "set ids \<subseteq> ar_id ` set (accounts w)"
  shows "\<exists>ys w'. forM (activation E) ids w = (Inr ys, w') \<and> accounts_ok w' \<and>
    activated_on (faultless E) (set ids) (accounts w) (accounts w')"
  using assms
proof (induction ids arbitrary: w)
  case Nil
  then show ?case by (simp add: activated_on_def list_all2_same returnM_def)
next
  case (Cons i ids)
  then obtain r where r: "r \<in> set (accounts w)" "ar_id r = i" by auto
  from activation_outcome [OF Cons.prems(1) r(1), of E] r(2) obtain w1 where
    act: "activation E i w = (Inr (), w1)" and ok1: "accounts_ok w1"
    and one: "accounts w1 = accounts w \<and> \<not> faultless E \<or>
      (\<exists>r'. activated r r' \<and> accounts w1 = map (\<lambda>x. if ar_id x = i then r' else x) (accounts w))" by blast
  have step: "list_all2 (\<lambda>x x1. if ar_id x = i then activated x x1 \<or> (x1 = x \<and> \<not> faultless E) else x1 = x)
      (accounts w) (accounts w1)"
  proof (cases "accounts w1 = accounts w \<and> \<not> faultless E")
    case True
    then show ?thesis by (simp add: list_all2_same)
  next
    case False
    with one obtain r' where r': "activated r r'"
      "accounts w1 = map (\<lambda>x. if ar_id x = i then r' else x) (accounts w)" by blast
    have "x = r" if "x \<in> set (accounts w)" "ar_id x = i" for x
      using that r Cons.prems(1) distinct_key_eq [of ar_id "accounts w"] by (auto simp: accounts_ok_def)
    with r' show ?thesis by (auto simp: list_all2_map2 list_all2_same)
  qed
  have "map ar_id (accounts w1) = map ar_id (accounts w)"
    using step by (induction rule: list_all2_induct) (auto dest: activated_id split: if_splits)
  then have "set ids \<subseteq> ar_id ` set (accounts w1)"
    using Cons.prems(3) by (simp flip: set_map)
  from Cons.IH [OF ok1 _ this] Cons.prems(2) obtain ys w' where
    rest: "forM (activation E) ids w1 = (Inr ys, w')" "accounts_ok w'"
      "activated_on (faultless E) (set ids) (accounts w1) (accounts w')" by auto
  have "activated_on (faultless E) (set (i # ids)) (accounts w) (accounts w')"
    unfolding activated_on_def
  proof (rule list_all2_trans [OF _ step rest(3) [unfolded activated_on_def]])
    fix x x1 x2
    assume "if ar_id x = i then activated x x1 \<or> (x1 = x \<and> \<not> faultless E) else x1 = x"
      and "if ar_id x1 \<in> set ids then activated x1 x2 \<or> (x2 = x1 \<and> \<not> faultless E) else x2 = x1"
    then show "if ar_id x \<in> set (i # ids) then activated x x2 \<or> (x2 = x \<and> \<not> faultless E) else x2 = x"
      using Cons.prems(2) by (auto dest: activated_id split: if_splits)
  qed
  with act rest show ?case by (auto simp: bindM_def returnM_def)
qed

lemma mapThrow_accounts:
  "\<forall>r \<in> set rs. account_row_ok r \<Longrightarrow> mapThrow AccountMapper_toDomain rs = Inr (map account_of_row rs)"
  by (intro mapThrow_Inr) (simp add: AccountMapper_toDomain_ok)

definition pending_ids :: "string \<Rightarrow> world \<Rightarrow> string list" where
  "pending_ids u w =
     map acc_id (filter (\<lambda>a. acc_status a = AS_PENDING_VERIFICATION)
       (map account_of_row (sort_key ar_createdAt (filter (\<lambda>r. ar_userId r = u) (accounts w)))))"

lemma pending_ids:
  assumes "accounts_ok w"
  shows "distinct (pending_ids u w)" and "set (pending_ids u w) \<subseteq> ar_id ` set (accounts w)"
    and "r \<in> set (accounts w) \<Longrightarrow>
      ar_id r \<in> set (pending_ids u w) \<longleftrightarrow> ar_userId r = u \<and> ar_status r = AS_PENDING_VERIFICATION"
proof -
  let ?p = "\<lambda>r. ar_userId r = u \<and> ar_status r = AS_PENDING_VERIFICATION"
  have eq: "pending_ids u w = map ar_id (sort_key ar_createdAt (filter ?p (accounts w)))"
    by (simp add: pending_ids_def filter_map filter_sort comp_def conj_commute)
  show "distinct (pending_ids u w)" "set (pending_ids u w) \<subseteq> ar_id ` set (accounts w)"
    using assms unfolding eq by (auto simp: accounts_ok_def distinct_map inj_on_def)
  show "r \<in> set (accounts w) \<Longrightarrow> ar_id r \<in> set (pending_ids u w) \<longleftrightarrow> ?p r"
    using assms distinct_key_eq [of ar_id "accounts w"] unfolding eq by (auto simp: accounts_ok_def)
qed

lemma activation_forM:
  "forM (\<lambda>a. catchM (bindM (ActivateAccount_execute E (acc_id a)) (\<lambda>_. returnM ())) (\<lambda>error. returnM ())) as =
   forM (activation E) (map acc_id as)"
  unfolding activation_def by (induction as) simp_all

lemma KycTierUpgraded_activation:
  "newTier \<noteq> TIER_1 \<Longrightarrow> KycTierUpgraded_handle E u newTier =
     bindM (account_findAllByUserId E u) (\<lambda>as.
     bindM (forM (activation E) (map acc_id (filter (\<lambda>a. acc_status a = AS_PENDING_VERIFICATION) as)))
       (\<lambda>_. returnM ()))"
  by (cases newTier) (simp_all add: KycTierUpgraded_handle_def Let_def activation_forM)

text \<open>
  The reaction to a tier upgrade. When the holder reaches TIER_2 or TIER_3, every account of the
  holder that waits for verification becomes active and every other row stays as it is; without
  database failures the handler returns and misses none, and with failures it still never touches
  any other account, and an account it misses is left exactly as it was.
\<close>

theorem tier_upgrade_activates:
  assumes "accounts_ok w" and "newTier \<noteq> TIER_1" and "KycTierUpgraded_handle E u newTier w = (res, w')"
  shows "(faultless E \<longrightarrow> res = Inr ()) \<and>
    list_all2 (\<lambda>r r'. if ar_userId r = u \<and> ar_status r = AS_PENDING_VERIFICATION
                     then activated r r' \<or> (r' = r \<and> \<not> faultless E) else r' = r)
      (accounts w) (accounts w')"
proof -
  let ?rs = "sort_key ar_createdAt (filter (\<lambda>r. ar_userId r = u) (accounts w))"
  note handle = assms(3) [unfolded KycTierUpgraded_activation [OF assms(2)]]
  obtain z w1 where q: "query E (\<lambda>w. sort_key ar_createdAt (filter (\<lambda>r. ar_userId r = u) (accounts w))) w = (z, w1)"
    by fastforce
  from readsD [OF reads_query q] obtain n where w1: "w1 = w\<lparr>ticks := n\<rparr>" by blast
  show ?thesis
  proof (cases z)
    case (Inl e)
    then have "\<not> faultless E" using q query_apply by (metis Inl_Inr_False prod.inject)
    moreover from Inl q w1 handle have "accounts w' = accounts w"
      by (auto simp: account_findAllByUserId_def bindM_def)
    ultimately show ?thesis by (simp add: list_all2_same)
  next
    case (Inr rs)
    with query_eq_Inr [OF q [unfolded Inr]] have rs: "rs = ?rs" by simp
    have ok1: "accounts_ok w1" using assms(1) w1 by (simp add: accounts_ok_def)
    have dom: "mapThrow AccountMapper_toDomain rs = Inr (map account_of_row rs)"
      using assms(1) rs by (intro mapThrow_accounts) (simp add: accounts_ok_def)
    from activation_loop [OF ok1 pending_ids(1) [OF assms(1)], of u E] pending_ids(2) [OF assms(1)] w1
    obtain ys w2 where
      loop: "forM (activation E) (pending_ids u w) w1 = (Inr ys, w2)"
        "activated_on (faultless E) (set (pending_ids u w)) (accounts w) (accounts w2)" by auto
    from handle q Inr dom rs loop(1) have "res = Inr ()" "w' = w2"
      by (auto simp: account_findAllByUserId_def bindM_def liftE_def returnM_def pending_ids_def)
    with loop(2) pending_ids(3) [OF assms(1)] show ?thesis
      by (auto simp: activated_on_def list_all2_conv_all_nth)
  qed
qed

text \<open>
  Closing over HTTP: the endpoint changes nothing unless the caller owns the account or has an
  admin role and its balance is zero; then exactly this account is closed.
\<close>

theorem close_endpoint_authorized:
  assumes "accounts_ok w" and "AccountsController_close E user i w = (res, w')"
  shows "accounts w' = accounts w \<or>
    (\<exists>r r'. List.find (\<lambda>r. ar_id r = i) (accounts w) = Some r \<and>
       (ar_userId r = sub user \<or> payloadRole user = UR_ADMIN \<or> payloadRole user = UR_SUPER_ADMIN) \<and>
       ar_balance r = 0 \<and> ar_status r' = AS_CLOSED \<and> ar_balance r' = 0 \<and>
       accounts w' = map (\<lambda>x. if ar_id x = i then r' else x) (accounts w))"
proof -
  let ?get = "GetAccountById_execute E i (sub user) (payloadRole user \<in> set ADMIN_ROLES)"
  have reads_get: "reads ?get" unfolding GetAccountById_execute_def by (intro reads_rules)
  obtain z w1 where get: "?get w = (z, w1)" by fastforce
  from readsD [OF reads_get get] obtain n where w1: "w1 = w\<lparr>ticks := n\<rparr>" by blast
  show ?thesis
  proof (cases z)
    case (Inl e)
    with get w1 assms(2) show ?thesis by (auto simp: AccountsController_close_def bindM_def)
  next
    case (Inr x)
    from get Inr obtain a w2 where load: "loadAccount E i w = (Inr a, w2)"
      and owner: "acc_userId a = sub user \<or> payloadRole user \<in> set ADMIN_ROLES"
      by (auto simp: GetAccountById_execute_def bindM_eq_Inr comp_simps split: if_splits)
    from loadAccount_Inr [OF load assms(1)] obtain r where
      r: "List.find (\<lambda>r. ar_id r = i) (accounts w) = Some r" "a = account_of_row r" by blast
    have close: "run_command E [] (CmdClose i) w1 = (res, w')"
      using assms(2) get Inr by (simp add: AccountsController_close_def bindM_def)
    have ok1: "accounts_ok w1" using assms(1) w1 by (simp add: accounts_ok_def)
    from run_command_outcome [OF ok1 close, of i] r(1) w1
    consider "accounts w' = accounts w"
      | t b where "close_account t (account_of_row r) = Inr b"
          "accounts w' = map (\<lambda>r. if ar_id r = i then AccountMapper_toPersistence b else r) (accounts w)"
      by (auto simp: comp_simps)
    then show ?thesis
    proof cases
      case 1
      then show ?thesis by blast
    next
      case (2 t b)
      from 2(1) have "ar_balance r = 0" "acc_status b = AS_CLOSED" "minorUnits (acc_balance b) = 0"
        by (auto simp: close_account_Inr)
      with 2(2) r owner show ?thesis
        by (intro disjI2 exI [of _ r] exI [of _ "AccountMapper_toPersistence b"])
          (simp add: ADMIN_ROLES_def)
    qed
  qed
qed

section \<open>Examples\<close>

text \<open>
  A database with an active account of 5.00 NGN and one that waits for verification, both of the
  same user without a KYC profile, and a ceiling of 10.00 NGN for TIER_1.
\<close>

definition exampleWorld :: world where
  "exampleWorld = emptyWorld\<lparr>
     accounts := [AccountMapper_toPersistence exampleAccount,
       AccountMapper_toPersistence (exampleAccount\<lparr>acc_id := ''a2'',
         acc_accountNumber := AccountNumber ''0000000001'', acc_status := AS_PENDING_VERIFICATION,
         acc_balance := zeroMoney NGN, acc_version := 0\<rparr>)],
     kycTierLimits := [\<lparr>klr_tier = TIER_1, klr_currency = NGN, klr_perTransactionLimit = Some 300,
       klr_dailyTransferLimit = Some 400, klr_maxBalance = Some 1000\<rparr>]\<rparr>"

lemma exampleWorld_ok: "accounts_ok exampleWorld"
  by (simp add: accounts_ok_def exampleWorld_def exampleAccount_def AccountMapper_toPersistence_def
      account_row_ok_def account_ok_def money_ok_def matches_digits_def is_digit_def fits_int8_def zeroMoney_def)

lemma ran: "\<not> isl (fst (m w)) \<Longrightarrow> \<exists>z w'. m w = (Inr z, w')"
  by (cases "m w"; cases "fst (m w)") auto

theorem account_command_effect_witness:
  "\<exists>w' b. run_command exampleEnv ''999'' (CmdDebit ''a1'' ''0.25'' NGN ''r'') exampleWorld =
       (Inr (AccountResponseDto_fromDomain b), w') \<and>
     map ar_balance (accounts w') = [475, 0]"
proof -
  let ?c = "CmdDebit ''a1'' ''0.25'' NGN ''r''"
  have "\<not> isl (fst (run_command exampleEnv ''999'' ?c exampleWorld))" by code_simp
  from ran [of "run_command exampleEnv ''999'' ?c", OF this] obtain z w' where
    run: "run_command exampleEnv ''999'' ?c exampleWorld = (Inr z, w')" by blast
  have "map ar_balance (accounts (snd (run_command exampleEnv ''999'' ?c exampleWorld))) = [475, 0]" by code_simp
  with run account_command_effect [OF exampleWorld_ok run, of "''a1''"] show ?thesis by auto
qed

theorem credit_within_ceiling_witness:
  "\<exists>z w'. CreditAccount_execute exampleEnv ''a1'' ''0.25'' NGN ''r'' exampleWorld = (Inr z, w') \<and>
     map ar_balance (accounts w') = [525, 0]"
proof -
  let ?run = "CreditAccount_execute exampleEnv ''a1'' ''0.25'' NGN ''r''"
  have "\<not> isl (fst (?run exampleWorld))" by code_simp
  from ran [of ?run, OF this] obtain z w' where run: "?run exampleWorld = (Inr z, w')" by blast
  have "fromDecimalString ''0.25'' NGN = Inr \<lparr>minorUnits = 25, moneyCurrency = NGN\<rparr>" by code_simp
  with run credit_within_ceiling [OF exampleWorld_ok run] show ?thesis
    by (auto simp: exampleWorld_def exampleAccount_def AccountMapper_toPersistence_def zeroMoney_def)
qed

theorem tier_upgrade_activates_witness:
  "\<exists>w'. KycTierUpgraded_handle exampleEnv ''u1'' TIER_2 exampleWorld = (Inr (), w') \<and>
     map ar_status (accounts w') = [AS_ACTIVE, AS_ACTIVE]"
proof -
  obtain res w' where run: "KycTierUpgraded_handle exampleEnv ''u1'' TIER_2 exampleWorld = (res, w')"
    by fastforce
  from tier_upgrade_activates [OF exampleWorld_ok _ run] run show ?thesis
    by (auto simp: exampleWorld_def exampleAccount_def AccountMapper_toPersistence_def activated_def
        list_all2_Cons1)
qed

theorem close_endpoint_authorized_witness:
  "accounts (snd (AccountsController_close exampleEnv \<lparr>sub = ''u2'', payloadEmail = ''musa@kudi.ng'', payloadRole = UR_CUSTOMER\<rparr> ''a2'' exampleWorld))
     = accounts exampleWorld"
proof -
  let ?user = "\<lparr>sub = ''u2'', payloadEmail = ''musa@kudi.ng'', payloadRole = UR_CUSTOMER\<rparr>"
  obtain res w' where run: "AccountsController_close exampleEnv ?user ''a2'' exampleWorld = (res, w')"
    by fastforce
  from close_endpoint_authorized [OF exampleWorld_ok run] run show ?thesis
    by (auto simp: exampleWorld_def exampleAccount_def AccountMapper_toPersistence_def)
qed

end
