(* ===== verification/Ledger.thy ===== *)
theory Ledger
  imports World
begin

text \<open>
  The double-entry ledger (\<^verbatim>\<open>shared/ledger\<close>): the identifiers of the system accounts, the check
  that a posting balances, the running balance of a system account, and the recorder that writes a
  posting; with the trial balance of the whole ledger as its invariant.
\<close>

section \<open>Postings\<close>

definition feeRevenue :: "currency \<Rightarrow> string" where
  "feeRevenue currency = ''system:fee-revenue:'' @ currency_str currency"

definition externalPayoutClearing :: "currency \<Rightarrow> string" where
  "externalPayoutClearing currency = ''system:external-payout-clearing:'' @ currency_str currency"

definition externalPayoutSettled :: "currency \<Rightarrow> string" where
  "externalPayoutSettled currency = ''system:external-payout-settled:'' @ currency_str currency"

record ledgerPostingLeg =
  leg_accountId :: string
  leg_direction :: ledgerEntryDirection
  leg_amount :: money
  leg_balanceAfter :: "money option"

record ledgerPosting =
  po_reference :: string
  po_narration :: string
  po_userId :: string
  po_entryType :: ledgerEntryType
  po_legs :: "ledgerPostingLeg list"

section \<open>The balance check\<close>

text \<open>\<open>netByCurrency\<close>, built leg by leg.\<close>

definition debit_signed :: "ledgerPostingLeg \<Rightarrow> int" where
  "debit_signed leg =
     (if leg_direction leg = DEBIT then minorUnits (leg_amount leg) else - minorUnits (leg_amount leg))"

definition netByCurrency :: "ledgerPostingLeg list \<Rightarrow> currency \<rightharpoonup> int" where
  "netByCurrency legs =
     foldl (\<lambda>m leg. let c = moneyCurrency (leg_amount leg)
                     in m(c \<mapsto> (case m c of None \<Rightarrow> 0 | Some x \<Rightarrow> x) + debit_signed leg))
       Map.empty legs"

text \<open>The loop over \<open>netByCurrency.values()\<close> only looks for one that is not 0.\<close>

definition assertBalanced :: "ledgerPosting \<Rightarrow> exn + unit" where
  "assertBalanced posting =
     (if list_ex (\<lambda>c. case netByCurrency (po_legs posting) c of None \<Rightarrow> False | Some net \<Rightarrow> net \<noteq> 0)
           [NGN, USD, GBP, EUR]
      then Inl (UnbalancedLedgerPostingException (po_reference posting))
      else Inr ())"

section \<open>The recorder\<close>

text \<open>
  \<open>findFirst\<close> with \<open>orderBy: createdAt desc\<close>: a row with the greatest creation time; of several
  written in the same millisecond, the last one.
\<close>

fun latest :: "ledger_row list \<Rightarrow> ledger_row option" where
  "latest [] = None"
| "latest (r # rs) =
     (case latest rs of None \<Rightarrow> Some r
      | Some r' \<Rightarrow> Some (if lr_createdAt r \<le> lr_createdAt r' then r' else r))"

definition computeRunningBalance :: "env \<Rightarrow> ledgerPostingLeg \<Rightarrow> int action" where
  "computeRunningBalance E leg =
     bindM (query E (\<lambda>w. latest (filter (\<lambda>r. lr_accountId r = leg_accountId leg) (ledgerEntries w)))) (\<lambda>previous.
     let previousBalance = (case previous of None \<Rightarrow> 0 | Some r \<Rightarrow> lr_balanceAfterMinorUnits r);
         delta = (if leg_direction leg = CREDIT then minorUnits (leg_amount leg)
                  else - minorUnits (leg_amount leg))
     in returnM (previousBalance + delta))"

definition ledger_row_valid :: "ledger_row \<Rightarrow> bool" where
  "ledger_row_valid r \<longleftrightarrow> fits_int8 (lr_amountMinorUnits r) \<and> fits_int8 (lr_balanceAfterMinorUnits r)"

text \<open>\<open>createMany\<close>: all rows or none; \<open>sourceEventId\<close> is unique.\<close>

definition create_ledger_rows :: "ledger_row list \<Rightarrow> ledger_row list \<Rightarrow> exn + ledger_row list" where
  "create_ledger_rows rows t =
     (if \<not> list_all ledger_row_valid rows then Inl int8Overflow
      else if \<not> distinct (map lr_sourceEventId rows) \<or>
              list_ex (\<lambda>r. lr_sourceEventId r \<in> lr_sourceEventId ` set t) rows then Inl uniqueViolation
      else Inr (t @ rows))"

text \<open>The body of the loop over the legs; \<open>createdAt\<close> is filled in by the database.\<close>

definition ledger_leg_row ::
  "env \<Rightarrow> string \<Rightarrow> int \<Rightarrow> ledgerPosting \<Rightarrow> ledgerPostingLeg \<Rightarrow> ledger_row action" where
  "ledger_leg_row E journalId t posting leg =
     bindM (case leg_balanceAfter leg of
              Some m \<Rightarrow> returnM (minorUnits m)
            | None \<Rightarrow> computeRunningBalance E leg) (\<lambda>balanceAfter.
     bindM (uuid E) (\<lambda>sourceEventId.
     returnM \<lparr>lr_journalId = journalId, lr_accountId = leg_accountId leg, lr_userId = po_userId posting,
       lr_direction = leg_direction leg, lr_amountMinorUnits = minorUnits (leg_amount leg),
       lr_balanceAfterMinorUnits = balanceAfter, lr_currency = moneyCurrency (leg_amount leg),
       lr_entryType = po_entryType posting, lr_reference = po_reference posting,
       lr_sourceEventId = sourceEventId, lr_occurredAt = t, lr_createdAt = 0\<rparr>))"

definition ledger_post :: "env \<Rightarrow> ledgerPosting \<Rightarrow> unit action" where
  "ledger_post E posting =
     bindM (liftE (assertBalanced posting)) (\<lambda>_.
     bindM (uuid E) (\<lambda>journalId.
     bindM (now E) (\<lambda>t.
     bindM (forM (ledger_leg_row E journalId t posting) (po_legs posting)) (\<lambda>rows.
     bindM (now E) (\<lambda>created.
     insert_into E ledgerEntries (\<lambda>t w. w\<lparr>ledgerEntries := t\<rparr>)
       (create_ledger_rows (map (\<lambda>r. r\<lparr>lr_createdAt := created\<rparr>) rows)))))))"

section \<open>The balance check decides double entry\<close>

definition legs_net :: "currency \<Rightarrow> ledgerPostingLeg list \<Rightarrow> int" where
  "legs_net c legs = sum_list (map debit_signed (filter (\<lambda>l. moneyCurrency (leg_amount l) = c) legs))"

lemma netByCurrency_snoc:
  "netByCurrency (legs @ [l]) =
     (netByCurrency legs)(moneyCurrency (leg_amount l) \<mapsto>
        (case netByCurrency legs (moneyCurrency (leg_amount l)) of None \<Rightarrow> 0 | Some x \<Rightarrow> x) + debit_signed l)"
  by (simp add: netByCurrency_def Let_def)

lemma netByCurrency_net:
  "(case netByCurrency legs c of None \<Rightarrow> 0 | Some x \<Rightarrow> x) = legs_net c legs"
proof (induction legs rule: rev_induct)
  case Nil
  then show ?case by (simp add: netByCurrency_def legs_net_def)
next
  case (snoc l legs)
  then show ?case
    by (cases "c = moneyCurrency (leg_amount l)") (simp_all add: netByCurrency_snoc legs_net_def)
qed

lemma all_currencies: "(\<forall>c. P c) \<longleftrightarrow> P NGN \<and> P USD \<and> P GBP \<and> P EUR"
  by (metis currency.exhaust)

lemma assertBalanced_Inr:
  "assertBalanced posting = Inr u \<longleftrightarrow> (\<forall>c. legs_net c (po_legs posting) = 0)"
proof -
  have "(case netByCurrency (po_legs posting) c of None \<Rightarrow> False | Some net \<Rightarrow> net \<noteq> 0) \<longleftrightarrow>
      legs_net c (po_legs posting) \<noteq> 0" for c
    using netByCurrency_net [of "po_legs posting" c] by (auto split: option.splits)
  then show ?thesis by (simp add: assertBalanced_def all_currencies)
qed

section \<open>The rows of a posting\<close>

text \<open>What a row says that its leg and posting said.\<close>

definition row_of_leg :: "ledgerPosting \<Rightarrow> ledgerPostingLeg \<Rightarrow> ledger_row \<Rightarrow> bool" where
  "row_of_leg posting leg r \<longleftrightarrow>
     lr_accountId r = leg_accountId leg \<and> lr_userId r = po_userId posting \<and>
     lr_direction r = leg_direction leg \<and> lr_amountMinorUnits r = minorUnits (leg_amount leg) \<and>
     lr_currency r = moneyCurrency (leg_amount leg) \<and> lr_reference r = po_reference posting \<and>
     lr_entryType r = po_entryType posting"

definition row_signed :: "ledger_row \<Rightarrow> int" where
  "row_signed r = (if lr_direction r = DEBIT then lr_amountMinorUnits r else - lr_amountMinorUnits r)"

definition rows_net :: "currency \<Rightarrow> ledger_row list \<Rightarrow> int" where
  "rows_net c rows = sum_list (map row_signed (filter (\<lambda>r. lr_currency r = c) rows))"

text \<open>The trial balance: over the whole ledger, debits equal credits in every currency.\<close>

definition trial_balance :: "world \<Rightarrow> bool" where
  "trial_balance w \<longleftrightarrow> (\<forall>c. rows_net c (ledgerEntries w) = 0)"

lemma rows_net_append [simp]: "rows_net c (xs @ ys) = rows_net c xs + rows_net c ys"
  by (simp add: rows_net_def)

lemma rows_of_legs_net:
  "list_all2 (row_of_leg posting) legs rows \<Longrightarrow> rows_net c rows = legs_net c legs"
  by (induction rule: list_all2_induct)
    (auto simp: rows_net_def legs_net_def row_of_leg_def row_signed_def debit_signed_def)

lemma reads_ledger_leg_row [reads_rules]: "reads (ledger_leg_row E j t posting leg)"
  unfolding ledger_leg_row_def computeRunningBalance_def Let_def by (intro reads_rules)

lemma reads_forM [reads_rules]: "(\<And>x. reads (f x)) \<Longrightarrow> reads (forM f xs)"
  by (induction xs) (simp_all add: reads_rules)

text \<open>
  The balance of a system account before a posting, and what the row written for a leg says: a leg
  without a balance of its own continues it.
\<close>

definition previousBalance :: "ledger_row list \<Rightarrow> string \<Rightarrow> int" where
  "previousBalance led i =
     (case latest (filter (\<lambda>r. lr_accountId r = i) led) of None \<Rightarrow> 0
      | Some r \<Rightarrow> lr_balanceAfterMinorUnits r)"

definition leg_written ::
  "ledger_row list \<Rightarrow> ledgerPosting \<Rightarrow> string \<Rightarrow> int \<Rightarrow> ledgerPostingLeg \<Rightarrow> ledger_row \<Rightarrow> bool" where
  "leg_written led posting j t leg r \<longleftrightarrow>
     row_of_leg posting leg r \<and> lr_journalId r = j \<and> lr_occurredAt r = t \<and>
     lr_balanceAfterMinorUnits r =
       (case leg_balanceAfter leg of
          Some m \<Rightarrow> minorUnits m
        | None \<Rightarrow> previousBalance led (leg_accountId leg) - debit_signed leg)"

lemma leg_written_created [simp]:
  "leg_written led posting j t leg (r\<lparr>lr_createdAt := n\<rparr>) \<longleftrightarrow> leg_written led posting j t leg r"
  by (simp add: leg_written_def row_of_leg_def split: option.split)

lemma computeRunningBalance_Inr:
  "computeRunningBalance E leg w = (Inr b, w') \<Longrightarrow>
    b = previousBalance (ledgerEntries w) (leg_accountId leg) - debit_signed leg"
  by (cases "leg_direction leg")
    (auto simp: computeRunningBalance_def bindM_eq_Inr comp_simps previousBalance_def debit_signed_def
      Let_def dest!: query_eq_Inr split: option.splits)

lemma ledger_leg_row_Inr:
  "ledger_leg_row E j t posting leg w = (Inr r, w') \<Longrightarrow> leg_written (ledgerEntries w) posting j t leg r"
  by (auto simp: ledger_leg_row_def bindM_eq_Inr comp_simps row_of_leg_def leg_written_def
      dest: computeRunningBalance_Inr split: option.splits)

lemma forM_rows:
  "forM (ledger_leg_row E j t posting) legs w = (Inr rows, w') \<Longrightarrow>
    list_all2 (leg_written (ledgerEntries w) posting j t) legs rows"
proof (induction legs arbitrary: w rows w')
  case Nil
  then show ?case by (simp add: comp_simps)
next
  case (Cons leg legs)
  then obtain r rs w1 w2 where leg: "ledger_leg_row E j t posting leg w = (Inr r, w1)"
    and rest: "forM (ledger_leg_row E j t posting) legs w1 = (Inr rs, w2)" and "rows = r # rs"
    by (auto simp: bindM_eq_Inr comp_simps)
  moreover have "ledgerEntries w1 = ledgerEntries w" using readsD [OF reads_ledger_leg_row leg] by auto
  ultimately show ?case using Cons.IH [OF rest] ledger_leg_row_Inr [OF leg] by simp
qed

text \<open>
  Everything a call of the recorder can do, under any failure of the database: nothing (and then it
  threw), or a complete balanced journal is appended.
\<close>

lemma ledger_post_outcome:
  assumes "ledger_post E posting w = (res, w')"
  obtains (failed) e n where "res = Inl e" "w' = w\<lparr>ticks := n\<rparr>"
  | (posted) rows j t n k where
      "list_all2 (leg_written (ledgerEntries w) posting j t) (po_legs posting) rows"
      "list_all (\<lambda>r. lr_createdAt r = nowMs E k) rows"
      "w' = w\<lparr>ledgerEntries := ledgerEntries w @ rows, ticks := n\<rparr>"
      "\<forall>c. legs_net c (po_legs posting) = 0"
      "res = Inr () \<or> res = Inl connectionLost"
proof (cases "assertBalanced posting")
  case (Inl e)
  with assms failed [of e "ticks w"] show ?thesis by (simp add: ledger_post_def bindM_def liftE_def)
next
  case (Inr u)
  then have bal: "\<forall>c. legs_net c (po_legs posting) = 0" by (simp add: assertBalanced_Inr)
  let ?j = "newUuid E (ticks w)" and ?t = "nowMs E (Suc (ticks w))" and ?w2 = "w\<lparr>ticks := Suc (Suc (ticks w))\<rparr>"
  obtain z w3 where rows: "forM (ledger_leg_row E ?j ?t posting) (po_legs posting) ?w2 = (z, w3)" by fastforce
  have "reads (forM (ledger_leg_row E ?j ?t posting) (po_legs posting))" by (intro reads_rules)
  from readsD [OF this rows] obtain n where w3: "w3 = w\<lparr>ticks := n\<rparr>" by auto
  have run: "ledger_post E posting w = (case z of Inl e \<Rightarrow> (Inl e, w3) | Inr rs \<Rightarrow>
      insert_into E ledgerEntries (\<lambda>t w. w\<lparr>ledgerEntries := t\<rparr>)
        (create_ledger_rows (map (\<lambda>r. r\<lparr>lr_createdAt := nowMs E n\<rparr>) rs)) (w\<lparr>ticks := Suc n\<rparr>))"
    using Inr rows w3 by (simp add: ledger_post_def bindM_def liftE_def uuid_apply now_apply split: sum.split)
  show ?thesis
  proof (cases z)
    case (Inl e)
    with run assms w3 failed [of e n] show ?thesis by simp
  next
    case (Inr rs)
    let ?rs = "map (\<lambda>r. r\<lparr>lr_createdAt := nowMs E n\<rparr>) rs"
    from forM_rows [OF rows [unfolded Inr]]
    have all2: "list_all2 (leg_written (ledgerEntries w) posting ?j ?t)
      (po_legs posting) ?rs"
      by (simp add: list_all2_map2)
    from run Inr assms have ins: "insert_into E ledgerEntries (\<lambda>t w. w\<lparr>ledgerEntries := t\<rparr>)
        (create_ledger_rows ?rs) (w\<lparr>ticks := Suc n\<rparr>) = (res, w')" by simp
    consider e m where "res = Inl e" "w' = w\<lparr>ticks := m\<rparr>"
      | m where "w' = w\<lparr>ledgerEntries := ledgerEntries w @ ?rs, ticks := m\<rparr>"
          "res = Inr () \<or> res = Inl connectionLost"
      using ins
      by (cases "dbFault E (Suc n)"; cases "create_ledger_rows ?rs (ledgerEntries w)")
        (auto simp: insert_into_def db_def comp_simps create_ledger_rows_def split: if_splits)
    then show ?thesis
    proof cases
      case 1
      with failed show ?thesis .
    next
      case 2
      have "list_all (\<lambda>r. lr_createdAt r = nowMs E n) ?rs" by (simp add: list_all_iff)
      from posted [OF all2 this 2(1) bal 2(2)] show ?thesis .
    qed
  qed
qed

text \<open>
  C10. The ledger is double-entry at all times: whatever postings are recorded, in whatever order and
  with any database failures, the trial balance of the whole ledger holds in every currency. Each
  call appends a complete journal (one row per leg, one journal id and time, the amounts and
  directions of the legs) or nothing; a posting whose debits and credits differ in some currency is
  refused before anything is written.
\<close>

theorem ledger_posting_balanced:
  assumes "trial_balance w" and "ledger_post E posting w = (res, w')"
  shows "trial_balance w' \<and>
    (\<exists>rows n. w' = w\<lparr>ledgerEntries := ledgerEntries w @ rows, ticks := n\<rparr> \<and>
       (rows = [] \<and> (\<exists>e. res = Inl e) \<or>
        list_all2 (row_of_leg posting) (po_legs posting) rows \<and>
        (\<exists>j t. list_all (\<lambda>r. lr_journalId r = j \<and> lr_occurredAt r = t) rows) \<and>
        (res = Inr () \<or> res = Inl connectionLost))) \<and>
    ((\<exists>c. legs_net c (po_legs posting) \<noteq> 0) \<longrightarrow>
       res = Inl (UnbalancedLedgerPostingException (po_reference posting)) \<and> w' = w)"
proof -
  have unbalanced: "res = Inl (UnbalancedLedgerPostingException (po_reference posting)) \<and> w' = w"
    if "\<exists>c. legs_net c (po_legs posting) \<noteq> 0"
  proof -
    from that have "assertBalanced posting = Inl (UnbalancedLedgerPostingException (po_reference posting))"
      using assertBalanced_Inr [of posting "()"] by (auto simp: assertBalanced_def split: if_splits)
    with assms(2) show ?thesis by (simp add: ledger_post_def bindM_def liftE_def)
  qed
  show ?thesis
  proof (rule ledger_post_outcome [OF assms(2)])
    fix e n assume "res = Inl e" "w' = w\<lparr>ticks := n\<rparr>"
    with assms(1) unbalanced show ?thesis
      by (intro conjI exI [of _ "[]"] exI [of _ n]) (auto simp: trial_balance_def)
  next
    fix rows j t n
    assume rows: "list_all2 (leg_written (ledgerEntries w) posting j t) (po_legs posting) rows"
      and w': "w' = w\<lparr>ledgerEntries := ledgerEntries w @ rows, ticks := n\<rparr>"
      and bal: "\<forall>c. legs_net c (po_legs posting) = 0"
      and res: "res = Inr () \<or> res = Inl connectionLost"
    from rows have all2: "list_all2 (row_of_leg posting) (po_legs posting) rows"
      by (rule list_all2_mono) (simp add: leg_written_def)
    have "list_all (\<lambda>r. lr_journalId r = j \<and> lr_occurredAt r = t) rows"
      using rows by (induction rule: list_all2_induct) (simp_all add: leg_written_def)
    moreover have "trial_balance w'"
      using assms(1) rows_of_legs_net [OF all2] bal by (simp add: w' trial_balance_def)
    ultimately show ?thesis using all2 bal res w' by blast
  qed
qed

theorem ledger_posting_balanced_witness:
  "trial_balance (snd (ledger_post exampleEnv
     \<lparr>po_reference = ''ref'', po_narration = '''', po_userId = ''u'', po_entryType = LT_TRANSFER,
      po_legs = [\<lparr>leg_accountId = ''a'', leg_direction = DEBIT, leg_amount = \<lparr>minorUnits = 70, moneyCurrency = NGN\<rparr>,
                   leg_balanceAfter = Some (zeroMoney NGN)\<rparr>,
                 \<lparr>leg_accountId = feeRevenue NGN, leg_direction = CREDIT,
                   leg_amount = \<lparr>minorUnits = 70, moneyCurrency = NGN\<rparr>, leg_balanceAfter = None\<rparr>]\<rparr>
     emptyWorld))"
proof -
  have "trial_balance emptyWorld" by (simp add: trial_balance_def emptyWorld_def rows_net_def)
  from ledger_posting_balanced [OF this prod.collapse [symmetric]] show ?thesis by blast
qed

section \<open>System accounts\<close>

text \<open>What the entries of an account add up to, credits counted positive, and the running balance.\<close>

definition account_position :: "world \<Rightarrow> string \<Rightarrow> int" where
  "account_position w i = - sum_list (map row_signed (filter (\<lambda>r. lr_accountId r = i) (ledgerEntries w)))"

definition running_ok :: "world \<Rightarrow> string \<Rightarrow> bool" where
  "running_ok w i \<longleftrightarrow> previousBalance (ledgerEntries w) i = account_position w i"

lemma latest_in: "latest rs = Some r \<Longrightarrow> r \<in> set rs"
  by (induction rs arbitrary: r) (auto split: option.splits if_splits)

lemma latest_append_last:
  "\<forall>x \<in> set rs. lr_createdAt x \<le> lr_createdAt r \<Longrightarrow> latest (rs @ [r]) = Some r"
  by (induction rs) auto

lemma filter_written:
  assumes "list_all2 (leg_written led posting j t) legs rows"
  shows "list_all2 (leg_written led posting j t)
    (filter (\<lambda>l. leg_accountId l = i) legs) (filter (\<lambda>r. lr_accountId r = i) rows)"
  using assms by (induction rule: list_all2_induct) (auto simp: leg_written_def row_of_leg_def)

text \<open>
  The running balance of a system account (fee revenue, payout clearing, payout settled): as long
  as a posting has at most one leg on it and the clock has not gone back behind the entries already
  there, the balance its latest entry carries is exactly the sum of all its credits minus all its
  debits, before and after every call of the recorder.
\<close>

theorem system_account_running_balance:
  assumes "running_ok w i" and "ledger_post E posting w = (res, w')"
    and "length (filter (\<lambda>l. leg_accountId l = i) (po_legs posting)) \<le> 1"
    and "\<forall>l \<in> set (po_legs posting). leg_accountId l = i \<longrightarrow> leg_balanceAfter l = None"
    and "\<forall>r \<in> set (ledgerEntries w). \<forall>n. lr_createdAt r \<le> nowMs E n"
  shows "running_ok w' i"
proof (rule ledger_post_outcome [OF assms(2)])
  fix n assume "w' = w\<lparr>ticks := n\<rparr>"
  with assms(1) show ?thesis by (simp add: running_ok_def account_position_def)
next
  fix rows j t n k
  assume written: "list_all2 (leg_written (ledgerEntries w) posting j t) (po_legs posting) rows"
    and created: "list_all (\<lambda>r. lr_createdAt r = nowMs E k) rows"
    and w': "w' = w\<lparr>ledgerEntries := ledgerEntries w @ rows, ticks := n\<rparr>"
  let ?old = "filter (\<lambda>r. lr_accountId r = i) (ledgerEntries w)"
  note mine = filter_written [OF written, of i]
  show ?thesis
  proof (cases "filter (\<lambda>l. leg_accountId l = i) (po_legs posting)")
    case Nil
    with mine have "filter (\<lambda>r. lr_accountId r = i) rows = []" by simp
    with assms(1) show ?thesis by (simp add: running_ok_def account_position_def previousBalance_def w')
  next
    case (Cons l ls)
    with assms(3) have legs: "filter (\<lambda>l. leg_accountId l = i) (po_legs posting) = [l]" by simp
    with mine obtain r where r: "filter (\<lambda>r. lr_accountId r = i) rows = [r]"
      "leg_written (ledgerEntries w) posting j t l r" by (auto simp: list_all2_Cons1)
    have l: "l \<in> set (po_legs posting)" "leg_accountId l = i"
      using arg_cong [OF legs, of set] by auto
    have "r \<in> set rows" using arg_cong [OF r(1), of set] by auto
    with created have "lr_createdAt r = nowMs E k" by (simp add: list_all_iff)
    then have "latest (?old @ [r]) = Some r"
      using assms(5) by (intro latest_append_last) auto
    moreover have "lr_balanceAfterMinorUnits r = account_position w i - debit_signed l"
      using r(2) l assms(1,4) by (simp add: leg_written_def running_ok_def)
    moreover have "row_signed r = debit_signed l"
      using r(2) by (simp add: leg_written_def row_of_leg_def row_signed_def debit_signed_def)
    ultimately show ?thesis
      by (simp add: running_ok_def account_position_def previousBalance_def w' r(1))
  qed
qed

theorem system_account_running_balance_witness:
  "running_ok (snd (ledger_post exampleEnv
     \<lparr>po_reference = ''ref'', po_narration = '''', po_userId = ''u'', po_entryType = LT_TRANSFER,
      po_legs = [\<lparr>leg_accountId = ''a'', leg_direction = DEBIT, leg_amount = \<lparr>minorUnits = 70, moneyCurrency = NGN\<rparr>,
                   leg_balanceAfter = Some (zeroMoney NGN)\<rparr>,
                 \<lparr>leg_accountId = ''fees'', leg_direction = CREDIT,
                   leg_amount = \<lparr>minorUnits = 70, moneyCurrency = NGN\<rparr>, leg_balanceAfter = None\<rparr>]\<rparr>
     emptyWorld)) ''fees''"
proof -
  have "running_ok emptyWorld ''fees''"
    by (simp add: running_ok_def account_position_def previousBalance_def emptyWorld_def)
  from system_account_running_balance [OF this prod.collapse [symmetric]] show ?thesis
    by (simp add: emptyWorld_def)
qed

end
