(* ===== verification/Idempotency.thy ===== *)
theory Idempotency
  imports World
begin

text \<open>
  Retry safety (\<^verbatim>\<open>shared/idempotency\<close>): the repository of claimed keys and the guard that runs an
  operation at most once per key. The guard depends on the repository's interface only, so its
  lemmas are proved once against the contract \<open>idempotency_store\<close>, which the repository keeps.
\<close>

section \<open>The repository\<close>

datatype acquireResult = ACQUIRED | COMPLETED "string option" | IN_PROGRESS

definition STALE_CLAIM_MS :: int where
  "STALE_CLAIM_MS = 2 * 60 * 1000"

definition same_key :: "string \<Rightarrow> string \<Rightarrow> string \<Rightarrow> idempotency_row \<Rightarrow> bool" where
  "same_key u s k r \<longleftrightarrow> ir_userId r = u \<and> ir_scope r = s \<and> ir_key r = k"

text \<open>
  The unique constraint on the three columns; the \<open>id\<close> the database client generates for a new row
  is taken to be new.
\<close>

definition key_clash :: "idempotency_row \<Rightarrow> idempotency_row \<Rightarrow> bool" where
  "key_clash a b \<longleftrightarrow> same_key (ir_userId a) (ir_scope a) (ir_key a) b"

fun isUniqueViolation :: "exn \<Rightarrow> bool" where
  "isUniqueViolation (PrismaExn code m) \<longleftrightarrow> code = ''P2002''"
| "isUniqueViolation _ \<longleftrightarrow> False"

definition putKeys :: "idempotency_row list \<Rightarrow> world \<Rightarrow> world" where
  "putKeys t w = w\<lparr>idempotencyKeys := t\<rparr>"

definition createKey :: "env \<Rightarrow> string \<Rightarrow> string \<Rightarrow> string \<Rightarrow> bool action" where
  "createKey E userId scope key =
     bindM (now E) (\<lambda>t.
     bindM (uuid E) (\<lambda>newId.
     catchM
       (bindM (insert_into E idempotencyKeys putKeys
                 (create_row (\<lambda>r. True) key_clash
                    \<lparr>ir_id = newId, ir_userId = userId, ir_scope = scope, ir_key = key,
                     ir_status = IK_IN_PROGRESS, ir_resourceId = None,
                     ir_createdAt = t, ir_updatedAt = t\<rparr>))
          (\<lambda>_. returnM True))
       (\<lambda>error. if \<not> isUniqueViolation error then throwM error else returnM False)))"

text \<open>
  \<open>tryAcquire\<close> calls itself when the row it lost against is gone again; the first argument bounds
  the number of calls. Here nothing happens between its statements, so it never does; theory \<open>ClaimRace\<close>
  has the attempt statement by statement, with everything that can happen in between.
\<close>

fun tryAcquireN :: "nat \<Rightarrow> env \<Rightarrow> string \<Rightarrow> string \<Rightarrow> string \<Rightarrow> acquireResult action" where
  "tryAcquireN 0 E userId scope key = throwM (OtherError ''out of fuel'')"
| "tryAcquireN (Suc n) E userId scope key =
     bindM (createKey E userId scope key) (\<lambda>created.
     if created then returnM ACQUIRED
     else
       bindM (query E (\<lambda>w. List.find (same_key userId scope key) (idempotencyKeys w))) (\<lambda>existing.
       case existing of
         None \<Rightarrow> tryAcquireN n E userId scope key
       | Some r \<Rightarrow>
           if ir_status r = IK_COMPLETED then returnM (COMPLETED (ir_resourceId r))
           else
             bindM (now E) (\<lambda>t.
             if t - ir_createdAt r < STALE_CLAIM_MS then returnM IN_PROGRESS
             else
               bindM (now E) (\<lambda>t'.
               bindM (update_in E idempotencyKeys putKeys
                        (update_rows (\<lambda>x. ir_id x = ir_id r \<and> ir_status x = IK_IN_PROGRESS)
                           (\<lambda>x. x\<lparr>ir_updatedAt := t'\<rparr>))) (\<lambda>count.
               if count = 0 then tryAcquireN n E userId scope key else returnM ACQUIRED)))))"

definition ACQUIRE_FUEL :: nat where
  "ACQUIRE_FUEL = 3"

definition tryAcquire :: "env \<Rightarrow> string \<Rightarrow> string \<Rightarrow> string \<Rightarrow> acquireResult action" where
  "tryAcquire E userId scope key = tryAcquireN ACQUIRE_FUEL E userId scope key"

definition recordNotFound :: exn where
  "recordNotFound = PrismaExn ''P2025'' ''Record to update not found.''"

definition markCompleted :: "env \<Rightarrow> string \<Rightarrow> string \<Rightarrow> string \<Rightarrow> string \<Rightarrow> unit action" where
  "markCompleted E userId scope key resourceId =
     bindM (now E) (\<lambda>t.
     bindM (update_in E idempotencyKeys putKeys
              (update_rows (same_key userId scope key)
                 (\<lambda>x. x\<lparr>ir_status := IK_COMPLETED, ir_resourceId := Some resourceId, ir_updatedAt := t\<rparr>)))
       (\<lambda>count. guardM (count \<noteq> 0) recordNotFound))"

definition release :: "env \<Rightarrow> string \<Rightarrow> string \<Rightarrow> string \<Rightarrow> unit action" where
  "release E userId scope key =
     bindM (update_in E idempotencyKeys putKeys
              (\<lambda>t. (length (filter (same_key userId scope key) t), delete_rows (same_key userId scope key) t)))
       (\<lambda>count. returnM ())"

section \<open>The guard\<close>

text \<open>
  \<open>run\<close>, over the three operations of the injected repository. \<open>None\<close> is a missing header; an
  empty key counts as missing.
\<close>

definition guard_run ::
  "(string \<Rightarrow> string \<Rightarrow> string \<Rightarrow> acquireResult action) \<Rightarrow>
   (string \<Rightarrow> string \<Rightarrow> string \<Rightarrow> string \<Rightarrow> unit action) \<Rightarrow> (string \<Rightarrow> string \<Rightarrow> string \<Rightarrow> unit action) \<Rightarrow>
   string \<Rightarrow> string \<Rightarrow> string option \<Rightarrow> (string \<times> 'a) action \<Rightarrow> (string option \<Rightarrow> 'a action) \<Rightarrow> 'a action" where
  "guard_run acquire complete rel userId scope key execute rehydrate =
     (if key = None \<or> key = Some [] then bindM execute (\<lambda>r. returnM (snd r))
      else
        bindM (acquire userId scope (the key)) (\<lambda>acquisition.
        case acquisition of
          COMPLETED resourceId \<Rightarrow> rehydrate resourceId
        | IN_PROGRESS \<Rightarrow> throwM DuplicateRequestInProgressException
        | ACQUIRED \<Rightarrow>
            catchM
              (bindM execute (\<lambda>(resourceId, response).
               bindM (complete userId scope (the key) resourceId) (\<lambda>_.
               returnM response)))
              (\<lambda>error. bindM (rel userId scope (the key)) (\<lambda>_. throwM error))))"

definition idempotent_run ::
  "env \<Rightarrow> string \<Rightarrow> string \<Rightarrow> string option \<Rightarrow> (string \<times> 'a) action \<Rightarrow> (string option \<Rightarrow> 'a action) \<Rightarrow> 'a action" where
  "idempotent_run E = guard_run (tryAcquire E) (markCompleted E) (release E)"

section \<open>The contract of a repository of keys\<close>

datatype claimState = Held | Done "string option"

text \<open>
  \<open>claim w u s k\<close> is the state of a key, \<open>core w\<close> everything the repository does not touch. The
  promises are those of calls that reach their database, \<open>up E\<close>.
\<close>

locale idempotency_store =
  fixes acquire :: "env \<Rightarrow> string \<Rightarrow> string \<Rightarrow> string \<Rightarrow> acquireResult action"
    and complete :: "env \<Rightarrow> string \<Rightarrow> string \<Rightarrow> string \<Rightarrow> string \<Rightarrow> unit action"
    and rel :: "env \<Rightarrow> string \<Rightarrow> string \<Rightarrow> string \<Rightarrow> unit action"
    and claim :: "world \<Rightarrow> string \<Rightarrow> string \<Rightarrow> string \<Rightarrow> claimState option"
    and core :: "world \<Rightarrow> 'c"
    and up :: "env \<Rightarrow> bool"
  assumes acquire_free:
      "up E \<Longrightarrow> claim w u s k = None \<Longrightarrow>
       \<exists>w'. acquire E u s k w = (Inr ACQUIRED, w') \<and> core w' = core w \<and> claim w' u s k = Some Held"
    and acquire_done:
      "up E \<Longrightarrow> claim w u s k = Some (Done r) \<Longrightarrow>
       \<exists>w'. acquire E u s k w = (Inr (COMPLETED r), w') \<and> core w' = core w \<and> claim w' u s k = Some (Done r)"
    and acquire_held:
      "up E \<Longrightarrow> claim w u s k = Some Held \<Longrightarrow>
       \<exists>z w'. acquire E u s k w = (Inr z, w') \<and> (z = IN_PROGRESS \<or> z = ACQUIRED) \<and>
              core w' = core w \<and> claim w' u s k = Some Held"
    and complete_held:
      "up E \<Longrightarrow> claim w u s k = Some Held \<Longrightarrow>
       \<exists>w'. complete E u s k i w = (Inr (), w') \<and> core w' = core w \<and> claim w' u s k = Some (Done (Some i))"
    and release_any:
      "up E \<Longrightarrow> \<exists>w'. rel E u s k w = (Inr (), w') \<and> core w' = core w \<and> claim w' u s k = None"
begin

definition run where
  "run E = guard_run (acquire E) (complete E) (rel E)"

text \<open>A completed key is replayed: the operation is not executed.\<close>

lemma replay_completed:
  assumes "up E" and "k \<noteq> []" and "claim w u s k = Some (Done r)"
  shows "\<exists>w'. run E u s (Some k) execute rehydrate w = rehydrate r w' \<and> core w' = core w \<and>
    claim w' u s k = Some (Done r)"
  using acquire_done [OF assms(1,3)] assms(2) by (auto simp: run_def guard_run_def bindM_def)

text \<open>A free key: the operation is executed once, on the same data.\<close>

lemma run_free:
  assumes "up E" and "k \<noteq> []" and "claim w u s k = None"
    and keeps: "\<And>v r v'. execute v = (r, v') \<Longrightarrow> claim v' u s k = claim v u s k"
  shows "\<exists>w1. core w1 = core w \<and>
    (case execute w1 of
       (Inr (i, response), w2) \<Rightarrow>
         (\<exists>w3. run E u s (Some k) execute rehydrate w = (Inr response, w3) \<and> core w3 = core w2 \<and>
               claim w3 u s k = Some (Done (Some i)))
     | (Inl e, w2) \<Rightarrow>
         (\<exists>w3. run E u s (Some k) execute rehydrate w = (Inl e, w3) \<and> core w3 = core w2 \<and>
               claim w3 u s k = None))"
proof -
  from acquire_free [OF assms(1,3)] obtain w1 where
    acq: "acquire E u s k w = (Inr ACQUIRED, w1)" "core w1 = core w" "claim w1 u s k = Some Held" by blast
  obtain z w2 where ex: "execute w1 = (z, w2)" by fastforce
  with keeps acq have held: "claim w2 u s k = Some Held" by metis
  show ?thesis
  proof (cases z)
    case (Inl e)
    from release_any [OF assms(1), of u s k w2] acq ex Inl assms(2) show ?thesis
      by (intro exI [of _ w1]) (auto simp: run_def guard_run_def bindM_def catchM_def comp_simps)
  next
    case (Inr p)
    from complete_held [OF assms(1) held, of "fst p"] acq ex Inr assms(2) show ?thesis
      by (cases p) (auto intro!: exI [of _ w1] simp: run_def guard_run_def bindM_def catchM_def comp_simps)
  qed
qed

end

text \<open>
  What the repository still promises when its database may fail at any call: an attempt on a free or a
  completed key ends in the right answer or in \<open>lost\<close>, and a completion that is reported happened.
\<close>

locale lossy_store = idempotency_store acquire complete rel claim core up
  for acquire :: "env \<Rightarrow> string \<Rightarrow> string \<Rightarrow> string \<Rightarrow> acquireResult action"
    and complete :: "env \<Rightarrow> string \<Rightarrow> string \<Rightarrow> string \<Rightarrow> string \<Rightarrow> unit action"
    and rel :: "env \<Rightarrow> string \<Rightarrow> string \<Rightarrow> string \<Rightarrow> unit action"
    and claim :: "world \<Rightarrow> string \<Rightarrow> string \<Rightarrow> string \<Rightarrow> claimState option"
    and core :: "world \<Rightarrow> 'c"
    and up :: "env \<Rightarrow> bool" +
  fixes lost :: exn
  assumes lossy_free:
      "claim w u s k = None \<Longrightarrow> acquire E u s k w = (z, w') \<Longrightarrow> core w' = core w \<and> (z = Inr ACQUIRED \<or> z = Inl lost)"
    and lossy_done:
      "claim w u s k = Some (Done r) \<Longrightarrow> acquire E u s k w = (z, w') \<Longrightarrow>
       core w' = core w \<and> claim w' u s k = Some (Done r) \<and> (z = Inr (COMPLETED r) \<or> z = Inl lost)"
    and lossy_held:
      "claim w u s k = Some Held \<Longrightarrow> acquire E u s k w = (z, w') \<Longrightarrow> z \<noteq> Inr (COMPLETED r)"
    and lossy_complete:
      "complete E u s k i w = (Inr x, w') \<Longrightarrow> core w' = core w \<and> claim w' u s k = Some (Done (Some i))"
begin

text \<open>A completed key is never executed again, whatever fails.\<close>

lemma replay_lossy:
  assumes "k \<noteq> []" and "claim w u s k = Some (Done r)"
  obtains w' where "core w' = core w" "claim w' u s k = Some (Done r)"
    "run E u s (Some k) execute rehydrate w = rehydrate r w' \<or>
     \<not> up E \<and> run E u s (Some k) execute rehydrate w = (Inl lost, w')"
proof (cases "up E")
  case True
  from replay_completed [OF True assms, where execute = execute and rehydrate = rehydrate] that show thesis by blast
next
  case False
  obtain z w' where acq: "acquire E u s k w = (z, w')" by fastforce
  from lossy_done [OF assms(2) acq] assms(1) acq False show thesis
    by (intro that [of w']) (auto simp: run_def guard_run_def bindM_def)
qed

text \<open>An answer that was not replayed is that of the operation, and the key is completed with its resource.\<close>

lemma run_answered:
  assumes "k \<noteq> []" and "run E u s (Some k) execute rehydrate w = (Inr x, w')"
  obtains (replayed) r w1 where "acquire E u s k w = (Inr (COMPLETED r), w1)" "rehydrate r w1 = (Inr x, w')"
  | (executed) i w1 w2 where "acquire E u s k w = (Inr ACQUIRED, w1)" "execute w1 = (Inr (i, x), w2)" "core w' = core w2"
      "claim w' u s k = Some (Done (Some i))"
proof -
  obtain z w1 where acq: "acquire E u s k w = (z, w1)" by fastforce
  show thesis
  proof (cases z)
    case (Inl e)
    with assms acq show thesis by (simp add: run_def guard_run_def bindM_def)
  next
    case (Inr a)
    show thesis
    proof (cases a)
      case ACQUIRED
      obtain y w2 where ex: "execute w1 = (y, w2)" by fastforce
      show thesis
      proof (cases y)
        case (Inl e)
        with assms acq Inr ACQUIRED ex show thesis
          by (auto simp: run_def guard_run_def bindM_def catchM_def throwM_def split: prod.splits sum.splits)
      next
        case y: (Inr p)
        obtain i v where p: "p = (i, v)" by fastforce
        obtain c w3 where comp: "complete E u s k i w2 = (c, w3)" by fastforce
        have "c = Inr () \<and> v = x \<and> w' = w3"
          using assms acq Inr ACQUIRED ex y p comp
          by (cases c) (auto simp: run_def guard_run_def bindM_def catchM_def throwM_def returnM_def split: prod.splits sum.splits)
        with acq Inr ACQUIRED ex y p lossy_complete [of E u s k i w2 "()" w3] comp show thesis by (intro executed) auto
      qed
    qed (use assms acq Inr replayed in \<open>auto simp: run_def guard_run_def bindM_def throwM_def\<close>)
  qed
qed

lemma answered_done:
  assumes "k \<noteq> []" and answer: "run E u s (Some k) execute rehydrate w = (Inr x, w')"
    and quiet: "\<And>r v y v'. rehydrate r v = (y, v') \<Longrightarrow> claim v' u s k = claim v u s k"
  obtains r where "claim w' u s k = Some (Done r)"
    "(\<exists>v. rehydrate r v = (Inr x, w')) \<or> (\<exists>i v v'. r = Some i \<and> execute v = (Inr (i, x), v'))"
  using assms(1) answer
proof (cases rule: run_answered)
  case (replayed r w1)
  have "claim w1 u s k = Some (Done r)"
  proof (cases "claim w u s k")
    case None
    from lossy_free [OF this replayed(1)] show ?thesis by simp
  next
    case (Some c)
    then show ?thesis
      using lossy_held [OF _ replayed(1)] lossy_done [OF _ replayed(1)] by (cases c) auto
  qed
  with quiet [OF replayed(2)] replayed(2) show thesis by (intro that [of r]) auto
next
  case (executed i w1 w2)
  then show thesis by (intro that [of "Some i"]) auto
qed

end

section \<open>The repository keeps the contract\<close>

definition idem_claim :: "world \<Rightarrow> string \<Rightarrow> string \<Rightarrow> string \<Rightarrow> claimState option" where
  "idem_claim w u s k =
     map_option (\<lambda>r. if ir_status r = IK_COMPLETED then Done (ir_resourceId r) else Held)
       (List.find (same_key u s k) (idempotencyKeys w))"

definition idem_core :: "world \<Rightarrow> world" where
  "idem_core w = w\<lparr>idempotencyKeys := [], ticks := 0\<rparr>"

lemma idem_core_simps [simp]:
  "idem_core (w\<lparr>ticks := n\<rparr>) = idem_core w" "idem_core (putKeys t w) = idem_core w"
  "idem_core (w\<lparr>idempotencyKeys := t\<rparr>) = idem_core w"
  by (simp_all add: idem_core_def putKeys_def)

lemma idem_claim_simps [simp]:
  "idem_claim (w\<lparr>ticks := n\<rparr>) = idem_claim w" "idempotencyKeys (putKeys t w) = t" "ticks (putKeys t w) = ticks w"
  by (simp_all add: idem_claim_def fun_eq_iff putKeys_def)

lemma find_same_update:
  assumes "\<And>x. P (f x) = P x"
  shows "List.find P (map (\<lambda>x. if Q x then f x else x) xs) =
    map_option (\<lambda>x. if Q x then f x else x) (List.find P xs)"
  using assms by (induction xs) auto

lemma find_same_key_update [simp]:
  "List.find (same_key u s k) (map (\<lambda>x. if Q x then x\<lparr>ir_updatedAt := t\<rparr> else x) xs) =
     map_option (\<lambda>x. if Q x then x\<lparr>ir_updatedAt := t\<rparr> else x) (List.find (same_key u s k) xs)"
  "List.find (same_key u s k)
     (map (\<lambda>x. if Q x then x\<lparr>ir_status := z, ir_resourceId := i, ir_updatedAt := t\<rparr> else x) xs) =
     map_option (\<lambda>x. if Q x then x\<lparr>ir_status := z, ir_resourceId := i, ir_updatedAt := t\<rparr> else x)
       (List.find (same_key u s k) xs)"
  by (rule find_same_update, simp add: same_key_def)+

lemma find_same_key_None:
  "List.find (same_key u s k) t = None \<longleftrightarrow> \<not> list_ex (same_key u s k) t"
  by (auto simp: find_None_iff list_ex_iff)

lemma createKey_run:
  assumes "faultless E"
  shows "createKey E u s k w =
    (if list_ex (same_key u s k) (idempotencyKeys w) then (Inr False, w\<lparr>ticks := ticks w + 3\<rparr>)
     else (Inr True, (putKeys (idempotencyKeys w @
       [\<lparr>ir_id = newUuid E (Suc (ticks w)), ir_userId = u, ir_scope = s, ir_key = k,
         ir_status = IK_IN_PROGRESS, ir_resourceId = None, ir_createdAt = nowMs E (ticks w),
         ir_updatedAt = nowMs E (ticks w)\<rparr>]) w)\<lparr>ticks := ticks w + 3\<rparr>))"
proof -
  have "key_clash \<lparr>ir_id = i, ir_userId = u, ir_scope = s, ir_key = k, ir_status = x, ir_resourceId = y,
      ir_createdAt = t, ir_updatedAt = t'\<rparr> = same_key u s k" for i x y t t'
    by (simp add: key_clash_def fun_eq_iff)
  with assms show ?thesis
    by (simp add: createKey_def bindM_def catchM_def now_apply uuid_apply insert_into_def create_row_def
        comp_simps uniqueViolation_def putKeys_def numeral_3_eq_3)
qed

text \<open>Without failures, the four ways an attempt to claim a key ends, and that one call is enough.\<close>

lemma tryAcquireN_run:
  assumes "faultless E"
  shows "tryAcquireN (Suc n) E u s k w =
    (case List.find (same_key u s k) (idempotencyKeys w) of
       None \<Rightarrow> (Inr ACQUIRED, snd (createKey E u s k w))
     | Some r \<Rightarrow>
         if ir_status r = IK_COMPLETED then (Inr (COMPLETED (ir_resourceId r)), w\<lparr>ticks := ticks w + 4\<rparr>)
         else if nowMs E (ticks w + 4) - ir_createdAt r < STALE_CLAIM_MS
         then (Inr IN_PROGRESS, w\<lparr>ticks := ticks w + 5\<rparr>)
         else (Inr ACQUIRED,
           (putKeys (map (\<lambda>x. if ir_id x = ir_id r \<and> ir_status x = IK_IN_PROGRESS
                              then x\<lparr>ir_updatedAt := nowMs E (ticks w + 5)\<rparr> else x) (idempotencyKeys w)) w)
           \<lparr>ticks := ticks w + 7\<rparr>))"
proof (cases "List.find (same_key u s k) (idempotencyKeys w)")
  case None
  then have "\<not> list_ex (same_key u s k) (idempotencyKeys w)" by (rule find_same_key_None [THEN iffD1])
  with createKey_run [OF assms, of u s k w] show ?thesis by (simp add: None bindM_def comp_simps)
next
  case (Some r)
  then have ex: "list_ex (same_key u s k) (idempotencyKeys w)"
    by (metis find_same_key_None option.distinct(1))
  have mem: "r \<in> set (idempotencyKeys w)" using find_Some_set [OF Some] by simp
  have "ir_status r \<noteq> IK_COMPLETED \<Longrightarrow>
      filter (\<lambda>x. ir_id x = ir_id r \<and> ir_status x = IK_IN_PROGRESS) (idempotencyKeys w) \<noteq> []"
    using mem by (cases "ir_status r") (auto simp: filter_empty_conv)
  with createKey_run [OF assms, of u s k w] ex Some assms show ?thesis
    by (simp add: bindM_def comp_simps update_in_def update_rows_def Let_def putKeys_def eval_nat_numeral)
qed

lemma tryAcquire_fuel:
  "faultless E \<Longrightarrow> tryAcquireN (Suc n) E u s k w = tryAcquire E u s k w"
  by (simp only: tryAcquire_def ACQUIRE_FUEL_def numeral_3_eq_3 tryAcquireN_run)

lemma find_delete_same: "List.find P (filter (\<lambda>r. \<not> P r) t) = None"
  by (auto simp: find_None_iff)

interpretation idem: idempotency_store tryAcquire markCompleted release idem_claim idem_core faultless
proof
  fix E w u s k assume up: "faultless E"
  have run: "tryAcquire E u s k w = tryAcquireN (Suc 2) E u s k w"
    by (simp add: tryAcquire_def ACQUIRE_FUEL_def numeral_3_eq_3)
  show "\<exists>w'. tryAcquire E u s k w = (Inr ACQUIRED, w') \<and> idem_core w' = idem_core w \<and>
      idem_claim w' u s k = Some Held" if "idem_claim w u s k = None"
  proof -
    from that have none: "List.find (same_key u s k) (idempotencyKeys w) = None" by (simp add: idem_claim_def)
    then have "\<not> list_ex (same_key u s k) (idempotencyKeys w)" by (rule find_same_key_None [THEN iffD1])
    with createKey_run [OF up, of u s k w] none show ?thesis
      unfolding run tryAcquireN_run [OF up]
      by (simp add: idem_claim_def putKeys_def find_append same_key_def idem_core_def)
  qed
  show "\<exists>w'. tryAcquire E u s k w = (Inr (COMPLETED r), w') \<and> idem_core w' = idem_core w \<and>
      idem_claim w' u s k = Some (Done r)" if "idem_claim w u s k = Some (Done r)" for r
    using that unfolding run tryAcquireN_run [OF up]
    by (auto simp: idem_claim_def split: if_splits)
  show "\<exists>z w'. tryAcquire E u s k w = (Inr z, w') \<and> (z = IN_PROGRESS \<or> z = ACQUIRED) \<and>
      idem_core w' = idem_core w \<and> idem_claim w' u s k = Some Held" if "idem_claim w u s k = Some Held"
  proof -
    from that obtain r where r: "List.find (same_key u s k) (idempotencyKeys w) = Some r"
      "ir_status r \<noteq> IK_COMPLETED" by (auto simp: idem_claim_def split: if_splits)
    then show ?thesis unfolding run tryAcquireN_run [OF up]
      by (simp add: idem_claim_def putKeys_def idem_core_def)
  qed
  show "\<exists>w'. markCompleted E u s k i w = (Inr (), w') \<and> idem_core w' = idem_core w \<and>
      idem_claim w' u s k = Some (Done (Some i))" if "idem_claim w u s k = Some Held" for i
  proof -
    from that obtain r where r: "List.find (same_key u s k) (idempotencyKeys w) = Some r"
      by (auto simp: idem_claim_def)
    then have "filter (same_key u s k) (idempotencyKeys w) \<noteq> []" "same_key u s k r"
      using find_Some_set [OF r] by (auto simp: filter_empty_conv)
    with r up show ?thesis
      by (simp add: markCompleted_def bindM_def now_apply update_in_def update_rows_def comp_simps
          idem_claim_def putKeys_def idem_core_def)
  qed
  show "\<exists>w'. release E u s k w = (Inr (), w') \<and> idem_core w' = idem_core w \<and> idem_claim w' u s k = None"
    using up find_delete_same [of "same_key u s k"]
    by (simp add: release_def bindM_def update_in_def comp_simps idem_claim_def putKeys_def idem_core_def
        delete_rows_def)
qed

lemma idempotent_run_eq: "idem.run E = idempotent_run E"
  by (simp add: idem.run_def idempotent_run_def)

section \<open>A claim always ends\<close>

text \<open>The same whatever the database does: the claim is refused only by a row that is there.\<close>

lemma createKey_result:
  obtains w' where "createKey E u s k w = (Inl connectionLost, w')"
  | w' where "createKey E u s k w = (Inr True, w')"
  | "createKey E u s k w = (Inr False, w\<lparr>ticks := ticks w + 3\<rparr>)" "list_ex (same_key u s k) (idempotencyKeys w)"
proof -
  have clash: "key_clash \<lparr>ir_id = i, ir_userId = u, ir_scope = s, ir_key = k, ir_status = x, ir_resourceId = y,
      ir_createdAt = t, ir_updatedAt = t'\<rparr> = same_key u s k" for i x y t t'
    by (simp add: key_clash_def fun_eq_iff)
  show thesis
    by (cases "dbFault E (ticks w + 2)"; cases "list_ex (same_key u s k) (idempotencyKeys w)"; rule that)
      (simp_all add: createKey_def bindM_def catchM_def now_apply uuid_apply insert_into_def create_row_def db_def
        comp_simps uniqueViolation_def connectionLost_def putKeys_def numeral_3_eq_3 clash)
qed

lemma createKey_clash:
  assumes "list_ex (same_key u s k) (idempotencyKeys w)"
  shows "createKey E u s k w =
    (if dbFault E (ticks w + 2) = NoFault then Inr False else Inl connectionLost, w\<lparr>ticks := ticks w + 3\<rparr>)"
proof -
  have "key_clash \<lparr>ir_id = i, ir_userId = u, ir_scope = s, ir_key = k, ir_status = x, ir_resourceId = y,
      ir_createdAt = t, ir_updatedAt = t'\<rparr> = same_key u s k" for i x y t t'
    by (simp add: key_clash_def fun_eq_iff)
  with assms show ?thesis
    by (cases "dbFault E (ticks w + 2)")
      (simp_all add: createKey_def bindM_def catchM_def now_apply uuid_apply insert_into_def create_row_def db_def
        comp_simps uniqueViolation_def connectionLost_def numeral_3_eq_3)
qed

lemma tryAcquireN_any:
  "tryAcquireN (Suc n) E u s k w = tryAcquireN (Suc m) E u s k w \<and>
   (case fst (tryAcquireN (Suc n) E u s k w) of Inl e \<Rightarrow> e = connectionLost | Inr _ \<Rightarrow> True)"
proof (rule createKey_result [of E u s k w])
  fix w' assume "createKey E u s k w = (Inl connectionLost, w')"
  then show ?thesis by (simp add: bindM_def)
next
  fix w' assume "createKey E u s k w = (Inr True, w')"
  then show ?thesis by (simp add: bindM_def comp_simps)
next
  assume create: "createKey E u s k w = (Inr False, w\<lparr>ticks := ticks w + 3\<rparr>)"
    and "list_ex (same_key u s k) (idempotencyKeys w)"
  then obtain r where r: "List.find (same_key u s k) (idempotencyKeys w) = Some r"
    by (metis find_same_key_None not_Some_eq)
  then have mem: "r \<in> set (idempotencyKeys w)" using find_Some_set by fastforce
  have "ir_status r \<noteq> IK_COMPLETED \<Longrightarrow>
      filter (\<lambda>x. ir_id x = ir_id r \<and> ir_status x = IK_IN_PROGRESS) (idempotencyKeys w) \<noteq> []"
    using mem by (cases "ir_status r") (auto simp: filter_empty_conv)
  then show ?thesis
    by (cases "dbFault E (ticks w + 3)"; cases "dbFault E (ticks w + 6)")
      (simp_all add: create r bindM_def comp_simps query_def db_def update_in_def update_rows_def Let_def putKeys_def
        eval_nat_numeral)
qed

text \<open>
  Alone, \<open>tryAcquire\<close> never reaches the call to itself, so the bound of the model cuts nothing off; the
  only error is a lost connection.
\<close>

lemma acquire_alone:
  "tryAcquireN (Suc n) E u s k w = tryAcquire E u s k w"
  "fst (tryAcquire E u s k w) = Inl e \<Longrightarrow> e = connectionLost"
  unfolding tryAcquire_def ACQUIRE_FUEL_def numeral_3_eq_3
  using tryAcquireN_any [of n E u s k w "Suc (Suc 0)"] tryAcquireN_any [of "Suc (Suc 0)" E u s k w] by auto

text \<open>Only the table of keys is written.\<close>

lemma key_statements_core:
  "preserves (\<lambda>w. idem_core w = c) (createKey E u s k)"
  "preserves (\<lambda>w. idem_core w = c) (tryAcquire E u s k)"
  "preserves (\<lambda>w. idem_core w = c) (markCompleted E u s k i)"
proof -
  have free: "tick_free (\<lambda>w. idem_core w = c)" by (simp add: tick_free_def)
  show create: "preserves (\<lambda>w. idem_core w = c) (createKey E u s k)"
    unfolding createKey_def by (intro preserves_rules preserves_insert_into free) simp_all
  have "preserves (\<lambda>w. idem_core w = c) (tryAcquireN n E u s k)" for n
    by (induction n) (auto intro!: preserves_rules create preserves_update_in free)
  then show "preserves (\<lambda>w. idem_core w = c) (tryAcquire E u s k)" by (simp add: tryAcquire_def)
  show "preserves (\<lambda>w. idem_core w = c) (markCompleted E u s k i)"
    unfolding markCompleted_def by (intro preserves_rules preserves_update_in free) simp_all
qed

interpretation idem_lossy: lossy_store tryAcquire markCompleted release idem_claim idem_core faultless connectionLost
proof
  fix E w u s k z w' assume acq: "tryAcquire E u s k w = (z, w')"
  have run: "tryAcquire E u s k w = tryAcquireN (Suc 2) E u s k w"
    by (simp add: tryAcquire_def ACQUIRE_FUEL_def numeral_3_eq_3)
  have core: "idem_core w' = idem_core w" using preserves_step [OF key_statements_core(2) HOL.refl acq] .
  show "idem_core w' = idem_core w \<and> (z = Inr ACQUIRED \<or> z = Inl connectionLost)" if "idem_claim w u s k = None"
  proof -
    from that have free: "\<not> list_ex (same_key u s k) (idempotencyKeys w)"
      by (simp add: idem_claim_def find_same_key_None)
    show ?thesis
    proof (rule createKey_result [of E u s k w])
      fix v assume "createKey E u s k w = (Inl connectionLost, v)"
      with core acq [unfolded run tryAcquireN.simps] show ?thesis by (simp add: bindM_Inl)
    next
      fix v assume "createKey E u s k w = (Inr True, v)"
      with core acq [unfolded run tryAcquireN.simps] show ?thesis by (simp add: bindM_Inr returnM_def)
    qed (use free in simp)
  qed
  show "idem_core w' = idem_core w \<and> idem_claim w' u s k = Some (Done r) \<and> (z = Inr (COMPLETED r) \<or> z = Inl connectionLost)"
    if done_: "idem_claim w u s k = Some (Done r)" for r
  proof -
    from done_ obtain x where x: "List.find (same_key u s k) (idempotencyKeys w) = Some x" "ir_status x = IK_COMPLETED"
      "ir_resourceId x = r" by (auto simp: idem_claim_def split: if_splits)
    then have ex: "list_ex (same_key u s k) (idempotencyKeys w)" by (metis find_same_key_None option.distinct(1))
    show ?thesis
      using acq core done_ x unfolding run createKey_clash [OF ex] tryAcquireN.simps
      by (auto simp: bindM_def comp_simps createKey_clash [OF ex] query_def db_def Let_def split: fault.splits if_splits)
  qed
  show "z \<noteq> Inr (COMPLETED r)" if held: "idem_claim w u s k = Some Held" for r
  proof -
    from held obtain x where x: "List.find (same_key u s k) (idempotencyKeys w) = Some x" "ir_status x \<noteq> IK_COMPLETED"
      by (auto simp: idem_claim_def split: if_splits)
    then have ex: "list_ex (same_key u s k) (idempotencyKeys w)" by (metis find_same_key_None option.distinct(1))
    have "filter (\<lambda>y. ir_id y = ir_id x \<and> ir_status y = IK_IN_PROGRESS) (idempotencyKeys w) \<noteq> []"
      using find_Some_set [OF x(1)] x(2) by (cases "ir_status x") (auto simp: filter_empty_conv)
    moreover have "tryAcquire E u s k w = tryAcquireN (Suc 0) E u s k w" by (rule acquire_alone(1) [symmetric])
    ultimately show ?thesis
      using acq x unfolding tryAcquireN.simps
      by (auto simp: bindM_def comp_simps createKey_clash [OF ex] query_def db_def Let_def update_in_def update_rows_def
          split: fault.splits if_splits)
  qed
next
  fix E u s k i w x w' assume run: "markCompleted E u s k i w = (Inr x, w')"
  have "idem_core w' = idem_core w" using preserves_step [OF key_statements_core(3) HOL.refl run] .
  moreover have "idem_claim w' u s k = Some (Done (Some i))"
    using run [unfolded markCompleted_def]
  proof (elim bindM_InrE)
    fix t count w1 w2
    assume s: "now E w = (Inr t :: exn + int, w1)"
      "update_in E idempotencyKeys putKeys (update_rows (same_key u s k)
         (\<lambda>x. x\<lparr>ir_status := IK_COMPLETED, ir_resourceId := Some i, ir_updatedAt := t\<rparr>)) w1 = (Inr count, w2)"
      "guardM (count \<noteq> 0) recordNotFound w2 = (Inr x, w')"
    from step_Inr(2) [OF s(3)] have c: "count \<noteq> 0" "w' = w2" by auto
    have "length (filter (same_key u s k) (idempotencyKeys w)) = count" and
      w2: "idempotencyKeys w2 = map (\<lambda>x. if same_key u s k x
        then x\<lparr>ir_status := IK_COMPLETED, ir_resourceId := Some i, ir_updatedAt := t\<rparr> else x) (idempotencyKeys w)"
      using s(2) now_Inr [OF s(1)]
      by (auto simp: update_in_def update_rows_def Let_def putKeys_def dest!: db_eq_Inr)
    with c obtain r where r: "List.find (same_key u s k) (idempotencyKeys w) = Some r"
      by (cases "List.find (same_key u s k) (idempotencyKeys w)") (auto simp: find_None_iff filter_empty_conv)
    then show ?thesis using find_Some_set [OF r] by (simp add: idem_claim_def c(2) w2)
  qed
  ultimately show "idem_core w' = idem_core w \<and> idem_claim w' u s k = Some (Done (Some i))" by simp
qed

section \<open>Retries\<close>

text \<open>An operation that leaves the table of keys alone.\<close>

definition keeps_keys :: "'a action \<Rightarrow> bool" where
  "keeps_keys m \<longleftrightarrow> (\<forall>w. idempotencyKeys (snd (m w)) = idempotencyKeys w)"

lemma keeps_keys_claim: "keeps_keys m \<Longrightarrow> m v = (r, v') \<Longrightarrow> idem_claim v' u s k = idem_claim v u s k"
proof -
  assume "keeps_keys m" and "m v = (r, v')"
  then have "idempotencyKeys v' = idempotencyKeys v" unfolding keeps_keys_def by (metis snd_conv)
  then show "idem_claim v' u s k = idem_claim v u s k" by (simp only: idem_claim_def)
qed

text \<open>
  C18. Retry safety. A request with a free key that is answered, whatever database calls fail, has executed
  its operation exactly once on the data as they were, and from then on the key stands for its result:
  every later request with the same key, whenever it comes, whatever happened meanwhile to other keys and
  to all other data (as long as this key's row is as it was left) and whatever operation it carries, is
  answered by \<open>rehydrate\<close> on the recorded resource without executing anything, or loses the connection
  to the database before that. While the database answers, a request with a free key is answered when its
  operation returns, and when the operation throws, the same error reaches the caller and the key is free
  again. Requests are served one at a time here; \<open>ClaimRace\<close> has the attempts that overlap.
\<close>

theorem idempotent_retry:
  fixes execute :: "(string \<times> 'a) action" and rehydrate :: "string option \<Rightarrow> 'a action"
  assumes "k \<noteq> []" and "idem_claim w u s k = None" and "keeps_keys execute"
  shows "(\<forall>response w3. idempotent_run E u s (Some k) execute rehydrate w = (Inr response, w3) \<longrightarrow>
      (\<exists>w1 i w2. idem_core w1 = idem_core w \<and> execute w1 = (Inr (i, response), w2) \<and> idem_core w3 = idem_core w2 \<and>
        (\<forall>F w4 (execute' :: (string \<times> 'a) action) rehydrate'. idem_claim w4 u s k = idem_claim w3 u s k \<longrightarrow>
           (\<exists>w5. idem_core w5 = idem_core w4 \<and> idem_claim w5 u s k = idem_claim w4 u s k \<and>
              (idempotent_run F u s (Some k) execute' rehydrate' w4 = rehydrate' (Some i) w5 \<or>
               \<not> faultless F \<and> idempotent_run F u s (Some k) execute' rehydrate' w4 = (Inl connectionLost, w5)))))) \<and>
    (faultless E \<longrightarrow>
      (\<exists>w1. idem_core w1 = idem_core w \<and>
        (case execute w1 of
           (Inr (i, response), w2) \<Rightarrow> \<exists>w3. idempotent_run E u s (Some k) execute rehydrate w = (Inr response, w3)
         | (Inl e, w2) \<Rightarrow> \<exists>w3. idempotent_run E u s (Some k) execute rehydrate w = (Inl e, w3) \<and>
             idem_core w3 = idem_core w2 \<and> idem_claim w3 u s k = None)))"
proof (intro conjI allI impI)
  fix response w3
  assume answer: "idempotent_run E u s (Some k) execute rehydrate w = (Inr response, w3)"
  note lossy = idem_lossy.run_answered [OF assms(1), unfolded idempotent_run_eq, OF answer]
  show "\<exists>w1 i w2. idem_core w1 = idem_core w \<and> execute w1 = (Inr (i, response), w2) \<and> idem_core w3 = idem_core w2 \<and>
      (\<forall>F w4 (execute' :: (string \<times> 'a) action) rehydrate'. idem_claim w4 u s k = idem_claim w3 u s k \<longrightarrow>
         (\<exists>w5. idem_core w5 = idem_core w4 \<and> idem_claim w5 u s k = idem_claim w4 u s k \<and>
            (idempotent_run F u s (Some k) execute' rehydrate' w4 = rehydrate' (Some i) w5 \<or>
             \<not> faultless F \<and> idempotent_run F u s (Some k) execute' rehydrate' w4 = (Inl connectionLost, w5))))"
  proof (rule lossy)
    fix r w1 assume "tryAcquire E u s k w = (Inr (COMPLETED r), w1)"
    from idem_lossy.lossy_free [OF assms(2) this] show ?thesis by simp
  next
    fix i w1 w2
    assume acq: "tryAcquire E u s k w = (Inr ACQUIRED, w1)" and ex: "execute w1 = (Inr (i, response), w2)"
      and core: "idem_core w3 = idem_core w2" and claimed: "idem_claim w3 u s k = Some (Done (Some i))"
    have "\<exists>w5. idem_core w5 = idem_core w4 \<and> idem_claim w5 u s k = idem_claim w4 u s k \<and>
        (idempotent_run F u s (Some k) execute' rehydrate' w4 = rehydrate' (Some i) w5 \<or>
         \<not> faultless F \<and> idempotent_run F u s (Some k) execute' rehydrate' w4 = (Inl connectionLost, w5))"
      if same: "idem_claim w4 u s k = idem_claim w3 u s k"
      for F w4 and execute' :: "(string \<times> 'a) action" and rehydrate'
      by (rule idem_lossy.replay_lossy [OF assms(1) same [unfolded claimed], of F execute' rehydrate', unfolded idempotent_run_eq])
        (auto simp: same claimed)
    with idem_lossy.lossy_free [OF assms(2) acq] ex core show ?thesis by blast
  qed
next
  assume "faultless E"
  note free = idem.run_free [OF this assms(1,2), where execute = execute and rehydrate = rehydrate, unfolded idempotent_run_eq]
  show "\<exists>w1. idem_core w1 = idem_core w \<and>
      (case execute w1 of
         (Inr (i, response), w2) \<Rightarrow> \<exists>w3. idempotent_run E u s (Some k) execute rehydrate w = (Inr response, w3)
       | (Inl e, w2) \<Rightarrow> \<exists>w3. idempotent_run E u s (Some k) execute rehydrate w = (Inl e, w3) \<and>
           idem_core w3 = idem_core w2 \<and> idem_claim w3 u s k = None)"
    by (rule exE [OF free]) (erule keeps_keys_claim [OF assms(3)], elim conjE, rule exI, rule conjI, assumption,
        auto split: prod.splits sum.splits)
qed

text \<open>An operation for examples: it publishes an event and returns a resource.\<close>

definition exampleOp :: "(string \<times> bool) action" where
  "exampleOp = bindM (publishAll [domainEvent 0 (PasswordChangedEvent ''u'')]) (\<lambda>_. returnM (''t1'', True))"

lemma exampleOp_run: "exampleOp w = (Inr (''t1'', True), w\<lparr>published := published w @ [domainEvent 0 (PasswordChangedEvent ''u'')]\<rparr>)"
  by (simp add: exampleOp_def bindM_def publishAll_apply returnM_def)

text \<open>Between the two requests another key is claimed and an account table is replaced.\<close>

theorem idempotent_retry_witness:
  "\<exists>w3 w4 w5. idempotent_run exampleEnv ''u'' ''transfer.internal'' (Some ''k'') exampleOp (\<lambda>i. returnM False) emptyWorld = (Inr True, w3) \<and>
     w4 = (snd (tryAcquire exampleEnv ''u'' ''transfer.internal'' ''other'' w3))\<lparr>accounts := []\<rparr> \<and>
     idempotent_run exampleEnv ''u'' ''transfer.internal'' (Some ''k'') (throwM connectionLost)
       (\<lambda>i. returnM (i = Some ''t1'')) w4 = (Inr True, w5)"
proof -
  let ?r = "\<lambda>i :: string option. returnM False :: bool action"
  let ?run = "idempotent_run exampleEnv ''u'' ''transfer.internal'' (Some ''k'') exampleOp ?r emptyWorld"
  let ?w4 = "(snd (tryAcquire exampleEnv ''u'' ''transfer.internal'' ''other'' (snd ?run)))\<lparr>accounts := []\<rparr>"
  have none: "idem_claim emptyWorld ''u'' ''transfer.internal'' ''k'' = None"
    by (simp add: idem_claim_def emptyWorld_def)
  have keeps: "keeps_keys exampleOp" by (simp add: keeps_keys_def exampleOp_run)
  have "fst ?run = Inr True" "idem_claim ?w4 ''u'' ''transfer.internal'' ''k'' = idem_claim (snd ?run) ''u'' ''transfer.internal'' ''k''"
    by code_simp+
  then have first: "?run = (Inr True, snd ?run)"
    and same: "idem_claim ?w4 ''u'' ''transfer.internal'' ''k'' = idem_claim (snd ?run) ''u'' ''transfer.internal'' ''k''"
    by (simp_all add: prod_eq_iff)
  from idempotent_retry [OF _ none keeps, where rehydrate = ?r and E = exampleEnv, THEN conjunct1, rule_format, OF _ first]
  obtain w1 i w2 where "exampleOp w1 = (Inr (i, True), w2)" and later:
    "\<And>F w4 (execute' :: (string \<times> bool) action) rehydrate'.
      idem_claim w4 ''u'' ''transfer.internal'' ''k'' = idem_claim (snd ?run) ''u'' ''transfer.internal'' ''k'' \<Longrightarrow>
      \<exists>w5. idem_core w5 = idem_core w4 \<and> idem_claim w5 ''u'' ''transfer.internal'' ''k'' = idem_claim w4 ''u'' ''transfer.internal'' ''k'' \<and>
        (idempotent_run F ''u'' ''transfer.internal'' (Some ''k'') execute' rehydrate' w4 = rehydrate' (Some i) w5 \<or>
         \<not> faultless F \<and> idempotent_run F ''u'' ''transfer.internal'' (Some ''k'') execute' rehydrate' w4 = (Inl connectionLost, w5))"
    by auto
  then have "i = ''t1''" by (simp add: exampleOp_run)
  with later [OF same, of exampleEnv "throwM connectionLost" "\<lambda>i. returnM (i = Some ''t1'')"] obtain w5 where
    "idempotent_run exampleEnv ''u'' ''transfer.internal'' (Some ''k'') (throwM connectionLost) (\<lambda>i. returnM (i = Some ''t1'')) ?w4 =
      (Inr True, w5)" by (auto simp: returnM_def)
  with first show ?thesis by blast
qed

section \<open>Where the guarantee ends\<close>

text \<open>
  Reclaiming a stale claim is not exclusive: the reclaim changes neither the status nor the
  creation time the staleness is measured by, so once a claim is stale, two callers that try one
  after the other are both told ACQUIRED for the same key, while the first may still be executing.
\<close>

theorem stale_reclaim_not_exclusive:
  assumes "faultless E" and "faultless F"
    and "List.find (same_key u s k) (idempotencyKeys w) = Some r" and "ir_status r = IK_IN_PROGRESS"
    and "\<And>n. STALE_CLAIM_MS \<le> nowMs E n - ir_createdAt r"
    and "\<And>n. STALE_CLAIM_MS \<le> nowMs F n - ir_createdAt r"
    and "tryAcquire E u s k w = (first, w1)" and "tryAcquire F u s k w1 = (second, w2)"
  shows "first = Inr ACQUIRED \<and> second = Inr ACQUIRED"
proof -
  have run: "tryAcquire G u s k v = tryAcquireN (Suc 2) G u s k v" for G v
    by (simp add: tryAcquire_def ACQUIRE_FUEL_def numeral_3_eq_3)
  have one: "first = Inr ACQUIRED" and "\<exists>t. List.find (same_key u s k) (idempotencyKeys w1) = Some (r\<lparr>ir_updatedAt := t\<rparr>)"
    using assms(7) assms(3,4) assms(5) [of "ticks w + 4"]
    unfolding run tryAcquireN_run [OF assms(1)] by (auto simp: putKeys_def)
  then obtain t where row: "List.find (same_key u s k) (idempotencyKeys w1) = Some (r\<lparr>ir_updatedAt := t\<rparr>)" by blast
  have "second = Inr ACQUIRED"
    using assms(8) row assms(4) assms(6) [of "ticks w1 + 4"]
    unfolding run tryAcquireN_run [OF assms(2)] by auto
  with one show ?thesis by simp
qed

definition lateEnv :: env where
  "lateEnv = exampleEnv\<lparr>nowMs := \<lambda>n. 500000\<rparr>"

definition claimedWorld :: world where
  "claimedWorld = emptyWorld\<lparr>idempotencyKeys := [\<lparr>ir_id = ''i'', ir_userId = ''u'', ir_scope = ''s'', ir_key = ''k'',
     ir_status = IK_IN_PROGRESS, ir_resourceId = None, ir_createdAt = 0, ir_updatedAt = 0\<rparr>]\<rparr>"

theorem stale_reclaim_not_exclusive_witness:
  "fst (tryAcquire lateEnv ''u'' ''s'' ''k'' claimedWorld) = Inr ACQUIRED \<and>
   fst (tryAcquire lateEnv ''u'' ''s'' ''k'' (snd (tryAcquire lateEnv ''u'' ''s'' ''k'' claimedWorld))) = Inr ACQUIRED"
proof -
  have "faultless lateEnv" by (simp add: lateEnv_def faultless_def exampleEnv_def)
  from stale_reclaim_not_exclusive [OF this this _ _ _ _ prod.collapse [symmetric] prod.collapse [symmetric],
      of "''u''" "''s''" "''k''" claimedWorld]
  show ?thesis by (simp add: claimedWorld_def same_key_def lateEnv_def STALE_CLAIM_MS_def)
qed

text \<open>
  A success can be executed twice: when the operation has succeeded but recording the completion
  fails, the guard treats this as a failure of the operation. The caller gets the error, the effects
  of the operation stay, and the key is free, so the next request with it executes the operation
  again.
\<close>

theorem lost_completion_frees_key:
  assumes "k \<noteq> []" and "tryAcquire E u s k w = (Inr ACQUIRED, w1)" and "execute w1 = (Inr (i, response), w2)"
    and "markCompleted E u s k i w2 = (Inl e, w3)" and "release E u s k w3 = (Inr (), w4)"
    and "faultless F"
  shows "idempotent_run E u s (Some k) execute rehydrate w = (Inl e, w4) \<and>
    idem_core w4 = idem_core w2 \<and> fst (tryAcquire F u s k w4) = Inr ACQUIRED"
proof -
  have run: "idempotent_run E u s (Some k) execute rehydrate w = (Inl e, w4)"
    using assms(1-5) by (simp add: idempotent_run_def guard_run_def bindM_def catchM_def comp_simps)
  have w4: "w4 = putKeys (delete_rows (same_key u s k) (idempotencyKeys w3)) (w3\<lparr>ticks := Suc (ticks w3)\<rparr>)"
    using assms(5) by (auto simp: release_def bindM_eq_Inr comp_simps update_in_def Let_def dest!: db_eq_Inr)
  have "idem_core (snd (update_in E idempotencyKeys putKeys f v)) = idem_core v" for f v
    by (simp add: update_in_def db_def Let_def split: fault.split prod.split)
  then have "idem_core (snd (markCompleted E u s k i w2)) = idem_core w2"
    by (auto simp: markCompleted_def bindM_def now_apply guardM_def comp_simps split: prod.split sum.split)
      (metis idem_core_simps(1) snd_conv)+
  with assms(4) w4 have "idem_core w4 = idem_core w2" by simp
  moreover have "idem_claim w4 u s k = None"
    using find_delete_same [of "same_key u s k" "idempotencyKeys w3"]
    by (simp add: w4 idem_claim_def putKeys_def delete_rows_def)
  from idem.acquire_free [OF assms(6) this] have "fst (tryAcquire F u s k w4) = Inr ACQUIRED" by auto
  ultimately show ?thesis using run by blast
qed

text \<open>The fifth use of the surroundings, the update that records the completion, loses its connection.\<close>

definition lossyEnv :: env where
  "lossyEnv = exampleEnv\<lparr>dbFault := \<lambda>n. if n = 4 then FaultBefore else NoFault\<rparr>"

theorem lost_completion_frees_key_witness:
  "\<exists>w4. idempotent_run lossyEnv ''u'' ''s'' (Some ''k'')
          exampleOp
          (\<lambda>i. returnM False) emptyWorld = (Inl connectionLost, w4) \<and>
     fst (tryAcquire exampleEnv ''u'' ''s'' ''k'' w4) = Inr ACQUIRED"
proof -
  let ?w1 = "snd (tryAcquire lossyEnv ''u'' ''s'' ''k'' emptyWorld)"
  let ?w2 = "snd (exampleOp ?w1)"
  let ?w3 = "snd (markCompleted lossyEnv ''u'' ''s'' ''k'' ''t1'' ?w2)"
  have "fst (tryAcquire lossyEnv ''u'' ''s'' ''k'' emptyWorld) = Inr ACQUIRED"
    "fst (markCompleted lossyEnv ''u'' ''s'' ''k'' ''t1'' ?w2) = Inl connectionLost"
    "fst (release lossyEnv ''u'' ''s'' ''k'' ?w3) = Inr ()" "fst (exampleOp ?w1) = Inr (''t1'', True)"
    by code_simp+
  then have "tryAcquire lossyEnv ''u'' ''s'' ''k'' emptyWorld = (Inr ACQUIRED, ?w1)"
    "exampleOp ?w1 = (Inr (''t1'', True), ?w2)"
    "markCompleted lossyEnv ''u'' ''s'' ''k'' ''t1'' ?w2 = (Inl connectionLost, ?w3)"
    "release lossyEnv ''u'' ''s'' ''k'' ?w3 = (Inr (), snd (release lossyEnv ''u'' ''s'' ''k'' ?w3))"
    by (metis prod.collapse)+
  from lost_completion_frees_key [where execute = exampleOp, OF _ this exampleEnv_faultless] show ?thesis by blast
qed

end
