(* ===== verification/TransferServices.thy ===== *)
theory TransferServices
  imports Transfers AccountOps Ledger Idempotency
begin

text \<open>
  The services of the transfers module (\<^verbatim>\<open>modules/transfers/infrastructure\<close>): the fee schedule, the
  tier limits of a transfer, the payout provider with the mapping of the Flutterwave integration,
  and the response object.
\<close>

section \<open>Fees\<close>

text \<open>
  \<open>Number(amount.toMajorUnitsString())\<close> is the double nearest to an amount with two decimals. As
  5000 and 50000 are doubles and rounding is monotone, comparing with them is comparing the exact
  amounts.
\<close>

definition calculate :: "money \<Rightarrow> transferType \<Rightarrow> exn + money" where
  "calculate amount transferType =
     (let currency = moneyCurrency amount
      in if transferType = TT_INTERNAL then Inr (zeroMoney currency)
         else if minorUnits amount \<le> 5000 * 100 then fromDecimalString ''10.00'' currency
         else if minorUnits amount \<le> 50000 * 100 then fromDecimalString ''25.00'' currency
         else fromDecimalString ''50.00'' currency)"

text \<open>What the use cases rely on, of any implementation of the port \<open>IFeeCalculator\<close>.\<close>

locale fee_calculator =
  fixes fee_of :: "money \<Rightarrow> transferType \<Rightarrow> exn + money"
  assumes total: "money_ok m \<Longrightarrow>
    \<exists>f. fee_of m ty = Inr f \<and> money_ok f \<and> moneyCurrency f = moneyCurrency m"
begin

lemma fee_fields: "money_ok m \<Longrightarrow> fee_of m ty = Inr f \<Longrightarrow> money_ok f \<and> moneyCurrency f = moneyCurrency m"
  using total [of m ty] by auto

text \<open>Amount and fee always add up to the total that is debited.\<close>

lemma total_debit:
  "money_ok m \<Longrightarrow> fee_of m ty = Inr f \<Longrightarrow>
    addMoney m f = Inr \<lparr>minorUnits = minorUnits m + minorUnits f, moneyCurrency = moneyCurrency m\<rparr> \<and>
    minorUnits m \<le> minorUnits m + minorUnits f"
  using fee_fields [of m ty f] by (simp add: money_ok_def)

end

lemma flat_fees:
  "fromDecimalString ''10.00'' c = Inr \<lparr>minorUnits = 1000, moneyCurrency = c\<rparr>"
  "fromDecimalString ''25.00'' c = Inr \<lparr>minorUnits = 2500, moneyCurrency = c\<rparr>"
  "fromDecimalString ''50.00'' c = Inr \<lparr>minorUnits = 5000, moneyCurrency = c\<rparr>"
  by (simp_all add: fromDecimalString_def is_decimal_amount_def split_decimal_def is_digit_def
      pad_end_def digits_val_def digit_val_def)

interpretation flat: fee_calculator calculate
  by unfold_locales (simp add: calculate_def Let_def flat_fees money_ok_def)

section \<open>Tier limits of a transfer\<close>

definition ROLLING_WINDOW_MS :: int where
  "ROLLING_WINDOW_MS = 24 * 60 * 60 * 1000"

text \<open>The two checks of \<open>assertWithinLimits\<close>.\<close>

definition checkPerTransaction :: "kycTier \<Rightarrow> kycTierLimits_t \<Rightarrow> money \<Rightarrow> unit action" where
  "checkPerTransaction tier limits amount =
     (case perTransactionLimit limits of
        None \<Rightarrow> returnM ()
      | Some limit \<Rightarrow>
          bindM (liftE (isGreaterThanOrEqualTo limit amount)) (\<lambda>within.
          guardM within (TransferLimitExceededException ''per-transaction'' tier)))"

definition checkDaily :: "env \<Rightarrow> kycTier \<Rightarrow> kycTierLimits_t \<Rightarrow> string \<Rightarrow> money \<Rightarrow> unit action" where
  "checkDaily E tier limits sourceAccountId amount =
     (case dailyTransferLimit limits of
        None \<Rightarrow> returnM ()
      | Some limit \<Rightarrow>
          bindM (now E) (\<lambda>t.
          bindM (sumSourceAmountSince E sourceAccountId (t - ROLLING_WINDOW_MS) (moneyCurrency amount))
            (\<lambda>alreadyTransferredToday.
          bindM (liftE (addMoney alreadyTransferredToday amount)) (\<lambda>projectedTotal.
          bindM (liftE (isGreaterThanOrEqualTo limit projectedTotal)) (\<lambda>within.
          guardM within (TransferLimitExceededException ''daily'' tier))))))"

definition assertWithinLimits :: "env \<Rightarrow> string \<Rightarrow> string \<Rightarrow> money \<Rightarrow> unit action" where
  "assertWithinLimits E userId sourceAccountId amount =
     bindM (resolveTier E userId) (\<lambda>tier.
     bindM (kycTierLimit_findByTier E tier (moneyCurrency amount)) (\<lambda>limits.
     bindM (checkPerTransaction tier limits amount) (\<lambda>_.
     checkDaily E tier limits sourceAccountId amount)))"

section \<open>The payout provider\<close>

text \<open>The wire format; \<open>amount\<close> keeps the decimal string that \<open>Number\<close> turns into a JSON number.\<close>

record transferRequest =
  account_bank :: string
  account_number :: string
  rq_amount :: string
  rq_narration :: string
  rq_currency :: string
  rq_reference :: string
  callback_url :: string
  debit_currency :: string

record kudiPayoutRequest =
  pr_bankCode :: string
  pr_accountNumber :: string
  pr_amountMajorUnits :: string
  pr_currency :: string
  pr_reference :: string
  pr_narration :: string
  pr_callbackUrl :: string

datatype flutterwaveStatus = FS_NEW | FS_PENDING | FS_SUCCESSFUL | FS_FAILED

text \<open>Of the answer's data, the fields the code reads.\<close>

record transferData =
  td_id :: int
  td_status :: flutterwaveStatus
  complete_message :: "string option"

record transferResponse =
  rp_success :: bool
  rp_message :: string
  rp_data :: "transferData option"

definition toProviderRequest :: "kudiPayoutRequest \<Rightarrow> transferRequest" where
  "toProviderRequest request =
     \<lparr>account_bank = pr_bankCode request, account_number = pr_accountNumber request,
      rq_amount = pr_amountMajorUnits request, rq_narration = pr_narration request,
      rq_currency = pr_currency request, rq_reference = pr_reference request,
      callback_url = pr_callbackUrl request, debit_currency = pr_currency request\<rparr>"

definition extractProviderReference :: "transferData \<Rightarrow> string" where
  "extractProviderReference data = int_str (td_id data)"

definition isTerminalSuccess :: "transferData \<Rightarrow> bool" where
  "isTerminalSuccess data \<longleftrightarrow> td_status data = FS_SUCCESSFUL"

definition isTerminalFailure :: "transferData \<Rightarrow> bool" where
  "isTerminalFailure data \<longleftrightarrow> td_status data = FS_FAILED"

text \<open>
  The HTTP client of the integration answers or throws; what it does is a parameter, which may
  answer differently at every use.
\<close>

type_synonym flutterwaveClient = "nat \<Rightarrow> transferRequest \<Rightarrow> exn + transferResponse"

record payoutResult =
  providerReference :: string
  isImmediatelySettled :: bool

definition initiatePayout ::
  "flutterwaveClient \<Rightarrow> string \<Rightarrow> string \<Rightarrow> externalRecipient \<Rightarrow> money \<Rightarrow> string \<Rightarrow> payoutResult action" where
  "initiatePayout client callbackUrl reference recipient amount narration =
     (let providerRequest = toProviderRequest
            \<lparr>pr_bankCode = er_bankCode recipient, pr_accountNumber = er_accountNumber recipient,
             pr_amountMajorUnits = toMajorUnitsString amount,
             pr_currency = currency_str (moneyCurrency amount), pr_reference = reference,
             pr_narration = narration, pr_callbackUrl = callbackUrl\<rparr>
      in bindM (draw (\<lambda>n. client n providerRequest)) (\<lambda>answer.
         bindM (liftE answer) (\<lambda>response.
         case rp_data response of
           Some data \<Rightarrow>
             if rp_success response
             then returnM \<lparr>providerReference = extractProviderReference data,
                           isImmediatelySettled = isTerminalSuccess data\<rparr>
             else throwM (PayoutProviderException (rp_message response))
         | None \<Rightarrow> throwM (PayoutProviderException (rp_message response)))))"

section \<open>Responses\<close>

record transferResponseDto =
  trs_id :: string
  trs_reference :: string
  trs_type :: string
  trs_sourceAccountId :: string
  trs_destinationAccountId :: "string option"
  trs_recipientBankCode :: "string option"
  trs_recipientAccountNumber :: "string option"
  trs_amount :: string
  trs_fee :: string
  trs_currency :: string
  trs_narration :: string
  trs_status :: string
  trs_failureReason :: "string option"
  trs_createdAt :: string
  trs_updatedAt :: string

definition TransferResponseDto_fromDomain :: "transfer \<Rightarrow> transferResponseDto" where
  "TransferResponseDto_fromDomain x =
     \<lparr>trs_id = tf_id x, trs_reference = ref_value (tf_reference x), trs_type = transferType_str (tf_type x),
      trs_sourceAccountId = tf_sourceAccountId x, trs_destinationAccountId = tf_destinationAccountId x,
      trs_recipientBankCode = map_option er_bankCode (tf_externalRecipient x),
      trs_recipientAccountNumber = map_option er_accountNumber (tf_externalRecipient x),
      trs_amount = toMajorUnitsString (tf_amount x), trs_fee = toMajorUnitsString (tf_fee x),
      trs_currency = currency_str (moneyCurrency (tf_amount x)), trs_narration = tf_narration x,
      trs_status = transactionStatus_str (tf_status x), trs_failureReason = tf_failureReason x,
      trs_createdAt = toISOString (tf_createdAt x), trs_updatedAt = toISOString (tf_updatedAt x)\<rparr>"

section \<open>Queries\<close>

definition GetTransferByReference_execute ::
  "env \<Rightarrow> string \<Rightarrow> string \<Rightarrow> bool \<Rightarrow> transferResponseDto action" where
  "GetTransferByReference_execute E reference requestingUserId isAdmin =
     bindM (liftE (TransferReference_create reference)) (\<lambda>ref.
     bindM (transfer_findByReference E ref) (\<lambda>found.
     bindM (required found (TransferNotFoundException reference)) (\<lambda>transfer.
     bindM (guardM (\<not> (tf_initiatorUserId transfer \<noteq> requestingUserId \<and> \<not> isAdmin))
              (ForbiddenException ''You may only access your own transfers'')) (\<lambda>_.
     returnM (TransferResponseDto_fromDomain transfer)))))"

definition ListMyTransfers_execute :: "env \<Rightarrow> string \<Rightarrow> transferResponseDto list action" where
  "ListMyTransfers_execute E userId =
     bindM (transfer_findAllByUserId E userId) (\<lambda>transfers.
     returnM (map TransferResponseDto_fromDomain transfers))"

section \<open>The fee schedule\<close>

text \<open>
  C36. The fee schedule: internal transfers are free; an external payout costs 10.00 up to 5000.00,
  25.00 up to 50000.00 and 50.00 above, in the currency of the amount, with no gap and no failure,
  and the schedule never charges less for a larger amount.
\<close>

theorem fee_schedule:
  assumes "money_ok m"
  shows "calculate m TT_INTERNAL = Inr (zeroMoney (moneyCurrency m)) \<and>
    (\<exists>f. calculate m TT_EXTERNAL = Inr f \<and> moneyCurrency f = moneyCurrency m \<and>
       minorUnits f = (if minorUnits m \<le> 500000 then 1000 else if minorUnits m \<le> 5000000 then 2500 else 5000) \<and>
       addMoney m f = Inr \<lparr>minorUnits = minorUnits m + minorUnits f, moneyCurrency = moneyCurrency m\<rparr> \<and>
       (\<forall>m' f'. moneyCurrency m' = moneyCurrency m \<and> minorUnits m \<le> minorUnits m' \<and>
          calculate m' TT_EXTERNAL = Inr f' \<longrightarrow> minorUnits f \<le> minorUnits f'))"
proof -
  have fee: "calculate x TT_EXTERNAL = Inr \<lparr>minorUnits =
      (if minorUnits x \<le> 500000 then 1000 else if minorUnits x \<le> 5000000 then 2500 else 5000),
      moneyCurrency = moneyCurrency x\<rparr>" for x
    by (simp add: calculate_def Let_def flat_fees)
  moreover have "calculate m TT_INTERNAL = Inr (zeroMoney (moneyCurrency m))" by (simp add: calculate_def)
  ultimately show ?thesis using flat.total_debit [OF assms fee] by auto
qed

theorem fee_schedule_witness:
  "\<exists>f. calculate \<lparr>minorUnits = 500001, moneyCurrency = NGN\<rparr> TT_EXTERNAL = Inr f \<and> minorUnits f = 2500"
  using fee_schedule [of "\<lparr>minorUnits = 500001, moneyCurrency = NGN\<rparr>"] by (auto simp: money_ok_def)

section \<open>What a passed limit check guarantees\<close>

text \<open>What an account has sent since a time, by the transfers that were not refused or returned.\<close>

definition sentSince :: "world \<Rightarrow> string \<Rightarrow> int \<Rightarrow> int" where
  "sentSince w sourceAccountId since =
     sum_list (map tr_amountMinorUnits
       (filter (\<lambda>r. tr_sourceAccountId r = sourceAccountId \<and>
                    (tr_status r = TS_SUCCESSFUL \<or> tr_status r = TS_PROCESSING) \<and>
                    since \<le> tr_createdAt r) (transfers w)))"

lemma sentSince_ticks [simp]: "sentSince (w\<lparr>ticks := n\<rparr>) i t = sentSince w i t"
  by (simp add: sentSince_def)

text \<open>
  The amount is within the limits of the sender's tier, the daily one with what the account sent in the
  24 hours before the use \<open>n\<close> of the clock.
\<close>

definition within_limits :: "env \<Rightarrow> world \<Rightarrow> nat \<Rightarrow> string \<Rightarrow> string \<Rightarrow> money \<Rightarrow> bool" where
  "within_limits E w n userId sourceAccountId amount \<longleftrightarrow>
     (\<exists>limits. limitsOf w (tierOf w userId) (moneyCurrency amount) = Inr limits \<and>
        (case perTransactionLimit limits of None \<Rightarrow> True
         | Some l \<Rightarrow> moneyCurrency l = moneyCurrency amount \<and> minorUnits amount \<le> minorUnits l) \<and>
        (case dailyTransferLimit limits of None \<Rightarrow> True
         | Some l \<Rightarrow> moneyCurrency l = moneyCurrency amount \<and>
             sentSince w sourceAccountId (nowMs E n - ROLLING_WINDOW_MS) + minorUnits amount \<le> minorUnits l))"

lemma reads_assertWithinLimits [reads_rules]: "reads (assertWithinLimits E u i m)"
  unfolding assertWithinLimits_def checkPerTransaction_def checkDaily_def sumSourceAmountSince_def
  by (intro reads_rules)

lemma sumSourceAmountSince_Inr:
  "sumSourceAmountSince E i since c w = (Inr m, w') \<Longrightarrow>
    w' = w\<lparr>ticks := Suc (ticks w)\<rparr> \<and> minorUnits m = sentSince w i since \<and> moneyCurrency m = c"
  by (auto simp: sumSourceAmountSince_def bindM_eq_Inr comp_simps sentSince_def fromMinorUnits_Inr
      dest!: query_eq_Inr)

lemma checkPerTransaction_Inr:
  "checkPerTransaction tier limits m w = (Inr x, w') \<Longrightarrow>
    w' = w \<and> (case perTransactionLimit limits of None \<Rightarrow> True
      | Some l \<Rightarrow> moneyCurrency l = moneyCurrency m \<and> minorUnits m \<le> minorUnits l)"
  by (cases "perTransactionLimit limits")
    (auto simp: checkPerTransaction_def bindM_eq_Inr comp_simps isGreaterThanOrEqualTo_Inr split: if_splits)

lemma checkDaily_Inr:
  "checkDaily E tier limits i m w = (Inr x, w') \<Longrightarrow>
    (case dailyTransferLimit limits of None \<Rightarrow> True
     | Some l \<Rightarrow> moneyCurrency l = moneyCurrency m \<and>
         sentSince w i (nowMs E (ticks w) - ROLLING_WINDOW_MS) + minorUnits m \<le> minorUnits l)"
  by (cases "dailyTransferLimit limits")
    (auto simp: checkDaily_def bindM_eq_Inr comp_simps isGreaterThanOrEqualTo_Inr addMoney_Inr
      dest!: sumSourceAmountSince_Inr split: if_splits)

lemma assertWithinLimits_Inr:
  assumes "assertWithinLimits E u i m w = (Inr x, w')"
  shows "within_limits E w (ticks w + 2) u i m"
proof -
  from assms obtain tier limits w1 w2 w3 where
    tier: "resolveTier E u w = (Inr tier, w1)"
    and limits: "kycTierLimit_findByTier E tier (moneyCurrency m) w1 = (Inr limits, w2)"
    and per: "checkPerTransaction tier limits m w2 = (Inr (), w3)"
    and daily: "checkDaily E tier limits i m w3 = (Inr x, w')"
    by (auto simp: assertWithinLimits_def bindM_eq_Inr)
  from resolveTier_Inr [OF tier] findByTier_Inr [OF limits] checkPerTransaction_Inr [OF per]
  have l: "limitsOf w (tierOf w u) (moneyCurrency m) = Inr limits" and w3: "w3 = w\<lparr>ticks := ticks w + 2\<rparr>" by auto
  from checkPerTransaction_Inr [OF per] checkDaily_Inr [OF daily] l w3 show ?thesis
    unfolding within_limits_def
    by (intro exI [of _ limits]) (auto split: option.split)
qed

text \<open>
  C35. Tier limits: when the limit check of a transfer passes, the amount is within the limit per
  transaction of the sender's tier, and together with everything the account sent in the 24 hours
  before the reading of the clock the check itself takes, right after the two reads of tier and limits
  (successful transfers and those still being processed; refused and reversed ones do not count),
  within the daily limit; the check itself changes nothing.
\<close>

theorem transfer_limits_enforced:
  assumes "assertWithinLimits E userId sourceAccountId amount w = (res, w')"
  shows "(\<exists>n. w' = w\<lparr>ticks := n\<rparr>) \<and> (res = Inr () \<longrightarrow> within_limits E w (ticks w + 2) userId sourceAccountId amount)"
  using assertWithinLimits_Inr readsD [OF reads_assertWithinLimits assms] assms by blast

theorem transfer_limits_enforced_witness:
  "within_limits exampleEnv exampleWorld (ticks exampleWorld + 2) ''u1'' ''a1'' \<lparr>minorUnits = 250, moneyCurrency = NGN\<rparr>"
proof -
  have "fst (assertWithinLimits exampleEnv ''u1'' ''a1'' \<lparr>minorUnits = 250, moneyCurrency = NGN\<rparr> exampleWorld) = Inr ()"
    by code_simp
  with transfer_limits_enforced [OF prod.collapse [symmetric]] show ?thesis by metis
qed

end
