(* ===== verification/InternalTransfer.thy ===== *)
theory InternalTransfer
  imports TransferServices
begin

text \<open>
  Transfers between two accounts of the bank: the executor that moves the money in one database
  transaction (\<^verbatim>\<open>prisma-internal-transfer-executor.service.ts\<close>) and the command handler around it.
\<close>

section \<open>Transactions\<close>

text \<open>
  \<open>prisma.$transaction(callback)\<close>: if the callback throws, or the commit fails, every write of the
  callback is undone and the error thrown; if only the answer to the commit is lost, the writes stay
  and an error is thrown all the same. \<open>lost x\<close> is the error of a commit after the value \<open>x\<close>.
\<close>

definition rollback :: "world \<Rightarrow> world \<Rightarrow> world" where
  "rollback before after = before\<lparr>published := published after, ticks := ticks after\<rparr>"

definition transaction ::
  "env \<Rightarrow> ('a \<Rightarrow> 'e) \<Rightarrow> (world, 'e, 'a) comp \<Rightarrow> (world, 'e, 'a) comp" where
  "transaction E lost callback = (\<lambda>w.
     case callback w of
       (Inl e, w1) \<Rightarrow> (Inl e, rollback w w1)
     | (Inr x, w1) \<Rightarrow>
         (let w2 = w1\<lparr>ticks := Suc (ticks w1)\<rparr>
          in case dbFault E (ticks w1) of
               NoFault \<Rightarrow> (Inr x, w2)
             | FaultBefore \<Rightarrow> (Inl (lost x), rollback w w2)
             | FaultAfter \<Rightarrow> (Inl (lost x), w2)))"

section \<open>The executor\<close>

definition saveAccountInTransaction :: "env \<Rightarrow> account \<Rightarrow> unit action" where
  "saveAccountInTransaction E account =
     (let data = AccountMapper_toPersistence account; previousVersion = ar_version data - 1
      in if \<not> fits_int8 (ar_balance data) then db E (throwM int8Overflow)
         else
           bindM (update_in E accounts (\<lambda>t w. w\<lparr>accounts := t\<rparr>)
                    (update_rows (\<lambda>r. ar_id r = ar_id data \<and> ar_version r = previousVersion) (\<lambda>r. data)))
             (\<lambda>count. guardM (count \<noteq> 0)
                (DomainException (''Account '' @ ar_id data @ '' was modified concurrently; please retry'')
                   ''CONCURRENT_MODIFICATION'')))"

definition internal_legs :: "account \<Rightarrow> account \<Rightarrow> money \<Rightarrow> money \<Rightarrow> money \<Rightarrow> ledgerPostingLeg list" where
  "internal_legs sourceAccount destinationAccount totalDebit amount fee =
     [\<lparr>leg_accountId = acc_id sourceAccount, leg_direction = DEBIT, leg_amount = totalDebit,
       leg_balanceAfter = Some (acc_balance sourceAccount)\<rparr>,
      \<lparr>leg_accountId = acc_id destinationAccount, leg_direction = CREDIT, leg_amount = amount,
       leg_balanceAfter = Some (acc_balance destinationAccount)\<rparr>] @
     (if \<not> isZeroMoney fee
      then [\<lparr>leg_accountId = feeRevenue (moneyCurrency fee), leg_direction = CREDIT, leg_amount = fee,
             leg_balanceAfter = None\<rparr>]
      else [])"

text \<open>The callback up to the ledger posting; it leaves the two accounts as they were saved.\<close>

definition moveMoney ::
  "env \<Rightarrow> string \<Rightarrow> string \<Rightarrow> string \<Rightarrow> string \<Rightarrow> money \<Rightarrow> money \<Rightarrow> string \<Rightarrow> (account \<times> account) action" where
  "moveMoney E reference initiatorUserId sourceAccountId destinationAccountId amount fee narration =
     bindM (query E (\<lambda>w. List.find (\<lambda>r. ar_id r = sourceAccountId) (accounts w))) (\<lambda>found.
     bindM (required found (AccountNotFoundException sourceAccountId)) (\<lambda>sourceRecord.
     bindM (query E (\<lambda>w. List.find (\<lambda>r. ar_id r = destinationAccountId) (accounts w))) (\<lambda>found'.
     bindM (required found' (AccountNotFoundException destinationAccountId)) (\<lambda>destinationRecord.
     bindM (liftE (AccountMapper_toDomain sourceRecord)) (\<lambda>sourceAccount.
     bindM (liftE (AccountMapper_toDomain destinationRecord)) (\<lambda>destinationAccount.
     bindM (guardM (acc_userId sourceAccount = initiatorUserId) UnauthorizedTransferException) (\<lambda>_.
     bindM (liftE (addMoney amount fee)) (\<lambda>totalDebit.
     bindM (now E) (\<lambda>t.
     bindM (liftE (debit t totalDebit reference sourceAccount)) (\<lambda>sourceAccount'.
     bindM (assertWithinLimit E destinationAccount amount) (\<lambda>_.
     bindM (now E) (\<lambda>t'.
     bindM (liftE (credit t' amount reference destinationAccount)) (\<lambda>destinationAccount'.
     bindM (saveAccountInTransaction E sourceAccount') (\<lambda>_.
     bindM (saveAccountInTransaction E destinationAccount') (\<lambda>_.
     bindM (ledger_post E
              \<lparr>po_reference = reference, po_narration = narration, po_userId = initiatorUserId,
               po_entryType = LT_TRANSFER,
               po_legs = internal_legs sourceAccount' destinationAccount' totalDebit amount fee\<rparr>) (\<lambda>_.
     returnM (sourceAccount', destinationAccount')))))))))))))))))"

text \<open>
  The whole callback. The object \<open>transfer\<close> is shared with the \<open>catch\<close> block, so an error carries
  the transfer as it was when it was thrown: \<open>markSuccessful\<close> has already changed it when storing
  it, or the commit, fails.
\<close>

definition internalCallback ::
  "env \<Rightarrow> transfer \<Rightarrow> string \<Rightarrow> string \<Rightarrow> string \<Rightarrow> money \<Rightarrow> money \<Rightarrow> string \<Rightarrow>
   (world, exn \<times> transfer, domain_event list \<times> transfer) comp" where
  "internalCallback E transfer initiatorUserId sourceAccountId destinationAccountId amount fee narration =
     bindM (mapE (\<lambda>e. (e, transfer))
              (moveMoney E (ref_value (tf_reference transfer)) initiatorUserId sourceAccountId
                 destinationAccountId amount fee narration)) (\<lambda>(sourceAccount, destinationAccount).
     bindM (now E) (\<lambda>t.
     bindM (mapE (\<lambda>e. (e, transfer)) (liftE (markSuccessful t transfer))) (\<lambda>transfer'.
     bindM (mapE (\<lambda>e. (e, transfer')) (transfer_create E (TransferMapper_toPersistence transfer'))) (\<lambda>_.
     returnM (acc_events sourceAccount @ acc_events destinationAccount, transfer')))))"

text \<open>The \<open>catch\<close> block.\<close>

definition internalFailed :: "env \<Rightarrow> exn \<times> transfer \<Rightarrow> (domain_event list \<times> transfer) action" where
  "internalFailed E = (\<lambda>(error, transfer').
     bindM (now E) (\<lambda>t.
     bindM (liftE (markFailed t (exn_message error) transfer')) (\<lambda>transfer''.
     bindM (transfer_save E transfer'') (\<lambda>_.
     throwM error))))"

definition internal_execute ::
  "env \<Rightarrow> string \<Rightarrow> string \<Rightarrow> string \<Rightarrow> money \<Rightarrow> money \<Rightarrow> string \<Rightarrow> (transfer \<times> domain_event list) action" where
  "internal_execute E initiatorUserId sourceAccountId destinationAccountId amount fee narration =
     bindM (initiateInternal E initiatorUserId sourceAccountId destinationAccountId amount fee narration)
       (\<lambda>transfer.
     bindM
       (catchM
         (transaction E (\<lambda>(events, transfer'). (connectionLost, transfer'))
            (internalCallback E transfer initiatorUserId sourceAccountId destinationAccountId amount fee
               narration))
         (internalFailed E))
       (\<lambda>(accountEvents, transfer').
     let (transferEvents, transfer'') = tf_pullDomainEvents transfer'
     in returnM (transfer'', transferEvents @ accountEvents)))"

section \<open>The command handler\<close>

definition rehydrateTransfer :: "env \<Rightarrow> string option \<Rightarrow> transferResponseDto action" where
  "rehydrateTransfer E resourceId =
     (case resourceId of
        None \<Rightarrow> throwM (OtherError ''PrismaClientValidationError'')
      | Some i \<Rightarrow>
          bindM (transfer_findById E i) (\<lambda>found.
          bindM (required found (AccountNotFoundException i)) (\<lambda>transfer.
          returnM (TransferResponseDto_fromDomain transfer))))"

definition initiateInternal_doExecute ::
  "env \<Rightarrow> string \<Rightarrow> string \<Rightarrow> string \<Rightarrow> string \<Rightarrow> string \<Rightarrow> (string \<times> transferResponseDto) action" where
  "initiateInternal_doExecute E initiatorUserId sourceAccountId destinationAccountId amountText narration =
     bindM (guardM (sourceAccountId \<noteq> destinationAccountId) SelfTransferNotAllowedException) (\<lambda>_.
     bindM (account_findById E sourceAccountId) (\<lambda>found.
     bindM (required found (AccountNotFoundException sourceAccountId)) (\<lambda>sourceAccount.
     bindM (guardM (acc_userId sourceAccount = initiatorUserId) UnauthorizedTransferException) (\<lambda>_.
     bindM (liftE (fromDecimalString amountText (acc_currency sourceAccount))) (\<lambda>amount.
     bindM (assertWithinLimits E initiatorUserId sourceAccountId amount) (\<lambda>_.
     bindM (liftE (calculate amount TT_INTERNAL)) (\<lambda>fee.
     bindM (internal_execute E initiatorUserId sourceAccountId destinationAccountId amount fee narration)
       (\<lambda>(transfer, events).
     bindM (publishAll events) (\<lambda>_.
     returnM (tf_id transfer, TransferResponseDto_fromDomain transfer))))))))))"

definition InitiateInternalTransfer_execute ::
  "env \<Rightarrow> string \<Rightarrow> string \<Rightarrow> string \<Rightarrow> string \<Rightarrow> string \<Rightarrow> string option \<Rightarrow> transferResponseDto action" where
  "InitiateInternalTransfer_execute E initiatorUserId sourceAccountId destinationAccountId amount narration
     idempotencyKey =
     idempotent_run E initiatorUserId ''transfer.internal'' idempotencyKey
       (initiateInternal_doExecute E initiatorUserId sourceAccountId destinationAccountId amount narration)
       (rehydrateTransfer E)"


section \<open>What the callback does\<close>

lemma assertWithinLimit_reads:
  "assertWithinLimit E a m w = (r, w') \<Longrightarrow> \<exists>n. w' = w\<lparr>ticks := n\<rparr>"
  by (rule readsD [OF reads_assertWithinLimit])

lemma query_Inr_find:
  "query E (\<lambda>w. List.find P (accounts w)) w = (Inr x, w') \<Longrightarrow>
     x = List.find P (accounts w) \<and> w' = w\<lparr>ticks := Suc (ticks w)\<rparr>"
  by (auto dest!: query_eq_Inr)

text \<open>A save in the transaction that returns has replaced the row of the account.\<close>

lemma saveAccountInTransaction_Inr:
  assumes "saveAccountInTransaction E b w = (Inr u, w')" and "accounts_ok w"
    and "r \<in> set (accounts w)" and "acc_id b = ar_id r" and "acc_version b = ar_version r + 1"
  shows "fits_int8 (minorUnits (acc_balance b)) \<and>
    w' = w\<lparr>accounts := put_account b (accounts w), ticks := Suc (ticks w)\<rparr>"
proof -
  have only: "x = r" if "x \<in> set (accounts w)" "ar_id x = ar_id r" for x
    using that assms(2,3) distinct_key_eq [of ar_id "accounts w"] by (auto simp: accounts_ok_def)
  then have put: "map (\<lambda>x. if ar_id x = acc_id b \<and> ar_version x = acc_version b - 1
      then AccountMapper_toPersistence b else x) (accounts w) = put_account b (accounts w)"
    using assms(4,5) by (auto simp: put_account_def)
  have fits: "fits_int8 (minorUnits (acc_balance b))"
    using assms(1) by (auto simp: saveAccountInTransaction_def Let_def db_def comp_simps split: if_splits fault.splits)
  then show ?thesis
    using assms(1) put
    by (auto simp: saveAccountInTransaction_def Let_def bindM_eq_Inr update_in_def update_rows_def
        comp_simps dest!: db_eq_Inr split: if_splits)
qed

text \<open>The row of an account under the replacement of another.\<close>

lemma put_account_other:
  "r \<in> set t \<Longrightarrow> ar_id r \<noteq> acc_id b \<Longrightarrow> r \<in> set (put_account b t)"
  by (force simp: put_account_def)

lemma accounts_ok_member:
  "accounts_ok w \<Longrightarrow> r \<in> set (accounts w) \<Longrightarrow> account_ok (account_of_row r)"
  by (simp add: accounts_ok_def account_row_ok_def)

text \<open>The accounts that come out of the callback: debited and credited, under their own versions.\<close>

lemma debit_effect:
  assumes "debit t m ref a = Inr b" and "account_ok a" and "money_ok m"
  shows "account_ok b \<and> acc_id b = acc_id a \<and> acc_version b = acc_version a + 1 \<and>
    acc_accountNumber b = acc_accountNumber a \<and> acc_userId b = acc_userId a \<and>
    acc_currency b = acc_currency a \<and> moneyCurrency m = acc_currency a \<and>
    acc_balance b = \<lparr>minorUnits = minorUnits (acc_balance a) - minorUnits m, moneyCurrency = acc_currency a\<rparr>"
  using assms by (auto simp: debit_Inr account_ok_def money_ok_def)

lemma credit_effect:
  assumes "credit t m ref a = Inr b" and "account_ok a" and "money_ok m"
  shows "account_ok b \<and> acc_id b = acc_id a \<and> acc_version b = acc_version a + 1 \<and>
    acc_accountNumber b = acc_accountNumber a \<and> acc_userId b = acc_userId a \<and>
    acc_currency b = acc_currency a \<and> moneyCurrency m = acc_currency a \<and>
    acc_balance b = \<lparr>minorUnits = minorUnits (acc_balance a) + minorUnits m, moneyCurrency = acc_currency a\<rparr>"
  using assms by (auto simp: credit_Inr account_ok_def money_ok_def)

text \<open>
  The specification of a move of money: the source pays amount and fee, the destination receives the
  amount, the ledger gets one balanced journal for it, and nothing else changes.
\<close>

definition balance_changed :: "account_row \<Rightarrow> account \<Rightarrow> int \<Rightarrow> bool" where
  "balance_changed r b delta \<longleftrightarrow>
     account_ok b \<and> acc_id b = ar_id r \<and> acc_userId b = ar_userId r \<and> acc_currency b = ar_currency r \<and>
     an_value (acc_accountNumber b) = ar_accountNumber r \<and> acc_version b = ar_version r + 1 \<and>
     minorUnits (acc_balance b) = ar_balance r + delta \<and> fits_int8 (minorUnits (acc_balance b))"

definition money_moved ::
  "string \<Rightarrow> string \<Rightarrow> string \<Rightarrow> string \<Rightarrow> money \<Rightarrow> money \<Rightarrow> world \<Rightarrow> world \<Rightarrow> bool" where
  "money_moved reference initiatorUserId src dst amount fee w w' \<longleftrightarrow>
     (\<exists>s d s' d' rows posting n.
        s \<in> set (accounts w) \<and> d \<in> set (accounts w) \<and> ar_id s = src \<and> ar_id d = dst \<and>
        ar_userId s = initiatorUserId \<and> ar_status s = AS_ACTIVE \<and> ar_status d = AS_ACTIVE \<and>
        ar_currency s = moneyCurrency amount \<and> ar_currency d = moneyCurrency amount \<and>
        minorUnits amount + minorUnits fee \<le> ar_balance s \<and>
        balance_changed s s' (- (minorUnits amount + minorUnits fee)) \<and>
        balance_changed d d' (minorUnits amount) \<and>
        po_reference posting = reference \<and>
        po_legs posting = internal_legs s' d' \<lparr>minorUnits = minorUnits amount + minorUnits fee,
                                              moneyCurrency = moneyCurrency amount\<rparr> amount fee \<and>
        list_all2 (row_of_leg posting) (po_legs posting) rows \<and>
        (\<forall>c. legs_net c (po_legs posting) = 0) \<and>
        w' = w\<lparr>accounts := put_account d' (put_account s' (accounts w)),
               ledgerEntries := ledgerEntries w @ rows, ticks := n\<rparr>)"

lemma money_movedE:
  assumes "money_moved reference u src dst amount fee w w'"
  obtains s d s' d' rows posting n where "s \<in> set (accounts w)" "d \<in> set (accounts w)"
    "ar_id s = src" "ar_id d = dst" "ar_currency s = moneyCurrency amount" "ar_currency d = moneyCurrency amount"
    "balance_changed s s' (- (minorUnits amount + minorUnits fee))" "balance_changed d d' (minorUnits amount)"
    "po_legs posting = internal_legs s' d' \<lparr>minorUnits = minorUnits amount + minorUnits fee,
                                              moneyCurrency = moneyCurrency amount\<rparr> amount fee"
    "list_all2 (row_of_leg posting) (po_legs posting) rows" "\<forall>c. legs_net c (po_legs posting) = 0"
    "w' = w\<lparr>accounts := put_account d' (put_account s' (accounts w)),
            ledgerEntries := ledgerEntries w @ rows, ticks := n\<rparr>"
  using assms unfolding money_moved_def by (elim exE conjE) (rule that)

text \<open>The two saves of the callback, one after the other.\<close>

lemma two_saves:
  assumes ok: "accounts_ok w" and src: "s \<in> set (accounts w)" and dst: "d \<in> set (accounts w)"
    and ne: "ar_id s \<noteq> ar_id d"
    and s': "account_ok s'" "acc_id s' = ar_id s" "acc_version s' = ar_version s + 1"
      "an_value (acc_accountNumber s') = ar_accountNumber s"
    and d': "acc_id d' = ar_id d" "acc_version d' = ar_version d + 1"
    and first: "saveAccountInTransaction E s' w = (Inr u, w1)"
    and second: "saveAccountInTransaction E d' w1 = (Inr v, w2)"
  shows "fits_int8 (minorUnits (acc_balance s')) \<and> fits_int8 (minorUnits (acc_balance d')) \<and>
    (\<exists>n. w2 = w\<lparr>accounts := put_account d' (put_account s' (accounts w)), ticks := n\<rparr>)"
proof -
  from saveAccountInTransaction_Inr [OF first ok src s'(2,3)]
  have w1: "fits_int8 (minorUnits (acc_balance s'))"
    "w1 = w\<lparr>accounts := put_account s' (accounts w), ticks := Suc (ticks w)\<rparr>" by auto
  have "x = s" if "x \<in> set (accounts w)" "ar_id x = ar_id s" for x
    using that ok src distinct_key_eq [of ar_id "accounts w"] by (auto simp: accounts_ok_def)
  then have "accounts_ok (w\<lparr>accounts := put_account s' (accounts w)\<rparr>)"
    using put_account_ok [OF ok s'(1) w1(1)] s'(2,4) by auto
  then have ok1: "accounts_ok w1" by (simp add: w1 accounts_ok_def)
  have "d \<in> set (accounts w1)" using put_account_other [OF dst] ne s'(2) by (simp add: w1)
  from saveAccountInTransaction_Inr [OF second ok1 this d'] show ?thesis by (auto simp: w1)
qed

text \<open>A posting that returned has appended a balanced journal.\<close>

lemma ledger_post_Inr:
  assumes "ledger_post E posting w = (Inr u, w')"
  obtains rows n where "list_all2 (row_of_leg posting) (po_legs posting) rows"
    "\<forall>c. legs_net c (po_legs posting) = 0" "w' = w\<lparr>ledgerEntries := ledgerEntries w @ rows, ticks := n\<rparr>"
proof (rule ledger_post_outcome [OF assms])
  fix rows j t n k
  assume *: "list_all2 (leg_written (ledgerEntries w) posting j t) (po_legs posting) rows"
    "w' = w\<lparr>ledgerEntries := ledgerEntries w @ rows, ticks := n\<rparr>" "\<forall>c. legs_net c (po_legs posting) = 0"
  from *(1) have "list_all2 (row_of_leg posting) (po_legs posting) rows"
    by (rule list_all2_mono) (simp add: leg_written_def)
  from that [OF this *(3,2)] show thesis .
qed simp

lemma moveMoney_Inr:
  assumes run: "moveMoney E reference initiatorUserId src dst amount fee narration w = (Inr (s', d'), w')"
    and ok: "accounts_ok w" and amount: "money_ok amount" and fee: "money_ok fee" and ne: "src \<noteq> dst"
  shows "money_moved reference initiatorUserId src dst amount fee w w'"
  using run unfolding moveMoney_def
proof (elim bindM_InrE)
  fix found s found' d sa da totalDebit t sd t' dd z
    and w1 w2 w3 w4 w5 w6 w7 w8 w9 w10 w11 w12 w13 w14 w15 w16 :: world and u1 u2 u3 u4 u5 :: unit
  assume q1: "query E (\<lambda>w. List.find (\<lambda>r. ar_id r = src) (accounts w)) w = (Inr found, w1)"
    and r1: "required found (AccountNotFoundException src) w1 = (Inr s, w2)"
    and q2: "query E (\<lambda>w. List.find (\<lambda>r. ar_id r = dst) (accounts w)) w2 = (Inr found', w3)"
    and r2: "required found' (AccountNotFoundException dst) w3 = (Inr d, w4)"
    and sa: "liftE (AccountMapper_toDomain s) w4 = (Inr sa, w5)"
    and da: "liftE (AccountMapper_toDomain d) w5 = (Inr da, w6)"
    and own: "guardM (acc_userId sa = initiatorUserId) UnauthorizedTransferException w6 = (Inr u1, w7)"
    and tot: "liftE (addMoney amount fee) w7 = (Inr totalDebit, w8)"
    and now1: "now E w8 = (Inr t, w9)"
    and deb: "liftE (debit t totalDebit reference sa) w9 = (Inr sd, w10)"
    and lim: "assertWithinLimit E da amount w10 = (Inr u2, w11)"
    and now2: "now E w11 = (Inr t', w12)"
    and cre: "liftE (credit t' amount reference da) w12 = (Inr dd, w13)"
    and sav1: "saveAccountInTransaction E sd w13 = (Inr u3, w14)"
    and sav2: "saveAccountInTransaction E dd w14 = (Inr u4, w15)"
    and post: "ledger_post E
              \<lparr>po_reference = reference, po_narration = narration, po_userId = initiatorUserId,
               po_entryType = LT_TRANSFER,
               po_legs = internal_legs sd dd totalDebit amount fee\<rparr> w15 = (Inr u5, w16)"
    and ret: "returnM (sd, dd) w16 = (Inr (s', d'), w')"
  let ?post = "\<lparr>po_reference = reference, po_narration = narration, po_userId = initiatorUserId,
      po_entryType = LT_TRANSFER, po_legs = internal_legs sd dd totalDebit amount fee\<rparr>"
  have res: "sd = s'" "dd = d'" "w' = w16" using step_Inr(4) [OF ret] by auto
  have w13: "\<exists>n. w13 = w\<lparr>ticks := n\<rparr>"
    using query_eq_Inr [OF q1] step_Inr(1) [OF r1] query_eq_Inr [OF q2] step_Inr(1) [OF r2] step_Inr(3) [OF sa]
      step_Inr(3) [OF da] step_Inr(2) [OF own] step_Inr(3) [OF tot] now_Inr [OF now1] step_Inr(3) [OF deb]
      assertWithinLimit_reads [OF lim] now_Inr [OF now2] step_Inr(3) [OF cre] by auto
  have s: "List.find (\<lambda>r. ar_id r = src) (accounts w) = Some s" and "AccountMapper_toDomain s = Inr sa"
    using query_eq_Inr [OF q1] step_Inr(1) [OF r1] step_Inr(3) [OF sa] by auto
  then have sa': "sa = account_of_row s" by (simp add: AccountMapper_toDomain_Inr)
  have d: "List.find (\<lambda>r. ar_id r = dst) (accounts w) = Some d" and "AccountMapper_toDomain d = Inr da"
    using query_eq_Inr [OF q1] step_Inr(1) [OF r1] query_eq_Inr [OF q2] step_Inr(1) [OF r2] step_Inr(3) [OF da] by auto
  then have da': "da = account_of_row d" by (simp add: AccountMapper_toDomain_Inr)
  from find_Some_set [OF s] find_Some_set [OF d]
  have rows: "s \<in> set (accounts w)" "ar_id s = src" "d \<in> set (accounts w)" "ar_id d = dst" by auto
  have oka: "account_ok sa" "account_ok da" using accounts_ok_member [OF ok] rows sa' da' by auto
  have total: "totalDebit = \<lparr>minorUnits = minorUnits amount + minorUnits fee, moneyCurrency = moneyCurrency amount\<rparr>"
    "moneyCurrency fee = moneyCurrency amount"
    using step_Inr(3) [OF tot] by (auto simp: addMoney_def assertSameCurrency_def bindE_eq_Inr split: if_splits)
  have okt: "money_ok totalDebit" using total amount fee by (simp add: money_ok_def)
  have deb': "debit t totalDebit reference sa = Inr s'" using step_Inr(3) [OF deb] res by simp
  have cre': "credit t' amount reference da = Inr d'" using step_Inr(3) [OF cre] res by simp
  note de = debit_effect [OF deb' oka(1) okt] and ce = credit_effect [OF cre' oka(2) amount]
  have ok13: "accounts_ok w13" and same: "accounts w13 = accounts w" "ledgerEntries w13 = ledgerEntries w"
    using w13 ok by (auto simp: accounts_ok_def)
  have saved: "fits_int8 (minorUnits (acc_balance s')) \<and> fits_int8 (minorUnits (acc_balance d')) \<and>
      (\<exists>n. w15 = w13\<lparr>accounts := put_account d' (put_account s' (accounts w13)), ticks := n\<rparr>)"
    by (rule two_saves [OF ok13 _ _ _ _ _ _ _ _ _ sav1 [unfolded res] sav2 [unfolded res]])
      (use same rows ne de ce sa' da' in auto)
  then obtain n where w15: "w15 = w\<lparr>accounts := put_account d' (put_account s' (accounts w)), ticks := n\<rparr>"
    using w13 by auto
  obtain lrows m where led: "list_all2 (row_of_leg ?post) (po_legs ?post) lrows"
    "\<forall>c. legs_net c (po_legs ?post) = 0"
    "w16 = w15\<lparr>ledgerEntries := ledgerEntries w15 @ lrows, ticks := m\<rparr>"
    by (rule ledger_post_Inr [OF post])
  have act: "ar_status s = AS_ACTIVE" "ar_status d = AS_ACTIVE" "minorUnits totalDebit \<le> ar_balance s"
    using deb' cre' sa' da' by (auto simp: debit_Inr credit_Inr)
  show ?thesis
    unfolding money_moved_def
    apply (rule exI [of _ s], rule exI [of _ d], rule exI [of _ s'], rule exI [of _ d'], rule exI [of _ lrows],
        rule exI [of _ ?post], rule exI [of _ m])
    using rows act de ce sa' da' saved led w15 total res step_Inr(2) [OF own]
    by (intro conjI) (simp_all add: comp_simps balance_changed_def)
qed


section \<open>What the executor does, under any failures\<close>

lemma transaction_outcome:
  assumes "transaction E lost m w = (res, w')" and "\<And>v. preserves (\<lambda>w. published w = v) m"
  obtains (undone) e n where "res = Inl e" "w' = w\<lparr>ticks := n\<rparr>"
      "(\<exists>w1. m w = (Inl e, w1)) \<or> (\<exists>x w1. m w = (Inr x, w1) \<and> e = lost x)"
  | (committed) x w1 where "m w = (Inr x, w1)" "w' = w1\<lparr>ticks := Suc (ticks w1)\<rparr>"
      "res = Inr x \<or> res = Inl (lost x)"
proof -
  obtain z w1 where m: "m w = (z, w1)" by fastforce
  from preservesD [OF assms(2) HOL.refl, of w] m have pub: "published w1 = published w" by simp
  then have undo: "rollback w w1 = w\<lparr>ticks := ticks w1\<rparr>" "rollback w (w1\<lparr>ticks := k\<rparr>) = w\<lparr>ticks := k\<rparr>" for k
    by (simp_all add: rollback_def)
  show ?thesis
  proof (cases z)
    case (Inl e)
    with assms(1) m undo undone [of e "ticks w1"] show ?thesis by (simp add: transaction_def)
  next
    case (Inr x)
    show ?thesis
    proof (cases "dbFault E (ticks w1)")
      case FaultBefore
      with assms(1) m undo Inr undone [of "lost x" "Suc (ticks w1)"] show ?thesis by (simp add: transaction_def Let_def)
    qed (use assms(1) m Inr committed [of x w1] in \<open>simp_all add: transaction_def Let_def\<close>)
  qed
qed

text \<open>The callback publishes nothing.\<close>

lemma published_tick_free [simp]: "tick_free (\<lambda>w. published w = v)"
  by (simp add: tick_free_def)

lemma preserves_ledger_post:
  assumes "tick_free I" and "\<And>w rows. I w \<Longrightarrow> I (w\<lparr>ledgerEntries := ledgerEntries w @ rows\<rparr>)"
  shows "preserves I (ledger_post E posting)"
  unfolding preserves_def
proof (intro allI impI)
  fix w assume "I w"
  obtain res w' where run: "ledger_post E posting w = (res, w')" by fastforce
  show "I (snd (ledger_post E posting w))"
    by (rule ledger_post_outcome [OF run]) (use \<open>I w\<close> assms run in \<open>auto simp: tick_free_def\<close>)
qed

lemma moveMoney_published: "preserves (\<lambda>w. published w = v) (moveMoney E ref u src dst amount fee narration)"
  unfolding moveMoney_def saveAccountInTransaction_def Let_def
  by (intro preserves_rules preserves_ledger_post preserves_update_in preserves_db
      reads_preserves [OF reads_assertWithinLimit]) (auto simp: update_rows_def)

lemma preserves_now_pub [preserves_rules]: "preserves (\<lambda>w. published w = v) (now E)"
  by (rule preserves_now) simp

lemma callback_published: "preserves (\<lambda>w. published w = v) (internalCallback E x u src dst amount fee narration)"
  unfolding internalCallback_def transfer_create_def
  by (intro preserves_rules moveMoney_published preserves_insert_into) auto

text \<open>The instruction and the status a stored internal transfer states.\<close>

definition internal_row ::
  "string \<Rightarrow> string \<Rightarrow> string \<Rightarrow> money \<Rightarrow> money \<Rightarrow> transactionStatus \<Rightarrow> transfer_row \<Rightarrow> bool" where
  "internal_row u src dst amount fee status r \<longleftrightarrow>
     tr_type r = TT_INTERNAL \<and> tr_initiatorUserId r = u \<and> tr_sourceAccountId r = src \<and>
     tr_destinationAccountId r = Some dst \<and> tr_amountMinorUnits r = minorUnits amount \<and>
     tr_feeMinorUnits r = minorUnits fee \<and> tr_currency r = moneyCurrency amount \<and> tr_status r = status"

lemma money_moved_ticks:
  "money_moved ref u src dst amount fee (w\<lparr>ticks := k\<rparr>) w' \<longleftrightarrow> money_moved ref u src dst amount fee w w'"
  by (simp add: money_moved_def)

lemma money_moved_transfers:
  "money_moved ref u src dst amount fee w w' \<Longrightarrow> transfers w' = transfers w \<and> published w' = published w"
  by (auto simp: money_moved_def)

lemma transfer_create_Inr:
  "transfer_create E r w = (Inr u, w') \<Longrightarrow> w' = w\<lparr>transfers := transfers w @ [r], ticks := Suc (ticks w)\<rparr>"
  by (auto simp: transfer_create_def insert_into_def create_row_Inr comp_simps dest!: db_eq_Inr
      split: sum.splits)


text \<open>The transfer the executor starts with, and what is stored of it.\<close>

definition fresh_internal :: "string \<Rightarrow> string \<Rightarrow> string \<Rightarrow> money \<Rightarrow> money \<Rightarrow> transfer \<Rightarrow> bool" where
  "fresh_internal u src dst amount fee x \<longleftrightarrow>
     tf_type x = TT_INTERNAL \<and> tf_initiatorUserId x = u \<and> tf_sourceAccountId x = src \<and>
     tf_destinationAccountId x = Some dst \<and> tf_amount x = amount \<and> tf_fee x = fee \<and>
     tf_status x = TS_PENDING \<and> tf_version x = 0"

lemma initiateInternal_run:
  obtains x n where "initiateInternal E u src dst amount fee narration w = (Inr x, w\<lparr>ticks := n\<rparr>)"
    "fresh_internal u src dst amount fee x" "\<exists>k. tf_id x = newUuid E k"
  by (auto simp: initiateInternal_def TransferReference_generate_def bindM_def draw_def comp_simps
      fresh_internal_def tf_addDomainEvent_def)

lemma markSuccessful_pending:
  assumes "fresh_internal u src dst amount fee x"
  obtains y where "markSuccessful t x = Inr y" "terminal y" "tf_reference y = tf_reference x" "tf_id y = tf_id x"
    "internal_row u src dst amount fee TS_SUCCESSFUL (TransferMapper_toPersistence y)" "tf_version y = 1"
  using assms
  by (auto simp: fresh_internal_def transfer_op_defs terminal_def TERMINAL_STATUSES_def internal_row_def
      TransferMapper_toPersistence_def)

lemma markFailed_pending:
  assumes "fresh_internal u src dst amount fee x"
  obtains y where "markFailed t reason x = Inr y" "tf_id y = tf_id x" "tf_failureReason y = Some reason"
    "internal_row u src dst amount fee TS_FAILED (TransferMapper_toPersistence y)" "tf_version y = 1"
  using assms
  by (auto simp: fresh_internal_def transfer_op_defs TERMINAL_STATUSES_def internal_row_def
      TransferMapper_toPersistence_def)

lemma callback_cases:
  assumes run: "internalCallback E x u src dst amount fee narration w = (res, w')"
    and fresh: "fresh_internal u src dst amount fee x"
  obtains (early) e where "res = Inl (e, x)" "moveMoney E (ref_value (tf_reference x)) u src dst amount fee narration w = (Inl e, w')"
  | (late) e y where "res = Inl (e, y)" "terminal y"
  | (finished) y evs s d w1 n where "res = Inr (evs, y)" "terminal y"
      "moveMoney E (ref_value (tf_reference x)) u src dst amount fee narration w = (Inr (s, d), w1)"
      "internal_row u src dst amount fee TS_SUCCESSFUL (TransferMapper_toPersistence y)"
      "tf_reference y = tf_reference x" "tf_id y = tf_id x"
      "w' = w1\<lparr>transfers := transfers w1 @ [TransferMapper_toPersistence y], ticks := n\<rparr>"
proof -
  obtain z w1 where mv: "moveMoney E (ref_value (tf_reference x)) u src dst amount fee narration w = (z, w1)"
    by fastforce
  show ?thesis
  proof (cases z)
    case (Inl e)
    with run mv have "res = Inl (e, x)" "w' = w1" by (simp_all add: internalCallback_def mapE_def bindM_def)
    with mv Inl early show ?thesis by simp
  next
    case (Inr sd)
    obtain s d where sd: "sd = (s, d)" by fastforce
    obtain y where y: "markSuccessful (nowMs E (ticks w1)) x = Inr y" "terminal y" "tf_reference y = tf_reference x"
        "tf_id y = tf_id x"
      "internal_row u src dst amount fee TS_SUCCESSFUL (TransferMapper_toPersistence y)"
      by (rule markSuccessful_pending [OF fresh])
    obtain c w2 where cr: "transfer_create E (TransferMapper_toPersistence y) (w1\<lparr>ticks := Suc (ticks w1)\<rparr>) = (c, w2)"
      by fastforce
    have all: "internalCallback E x u src dst amount fee narration w =
        (case c of Inl e \<Rightarrow> (Inl (e, y), w2) | Inr v \<Rightarrow> (Inr (acc_events s @ acc_events d, y), w2))"
      using mv Inr sd y(1) cr
      by (cases c) (simp_all add: internalCallback_def mapE_def bindM_def now_apply liftE_def returnM_def)
    show ?thesis
    proof (cases c)
      case (Inl e)
      with all run y(2) late show ?thesis by simp
    next
      case c: (Inr v)
      from c all run have res: "res = Inr (acc_events s @ acc_events d, y)" and w': "w' = w2" by simp_all
      from transfer_create_Inr [OF cr [unfolded c]]
      have "w2 = w1\<lparr>transfers := transfers w1 @ [TransferMapper_toPersistence y], ticks := Suc (Suc (ticks w1))\<rparr>"
        by simp
      from finished [OF res y(2) mv [unfolded Inr sd] y(5,3,4)] this w' show ?thesis by blast
    qed
  qed
qed

lemma markFailed_terminal: "terminal x \<Longrightarrow> \<exists>e. markFailed t reason x = Inl e"
  using terminal_refuses [of x t "MarkFailed reason"] by simp

lemma transfer_create_outcome:
  assumes "transfer_create E r w = (res, w')"
  shows "\<exists>n rows. w' = w\<lparr>transfers := transfers w @ rows, ticks := n\<rparr> \<and> (rows = [r] \<or> rows = [])"
proof -
  obtain z where z: "create_row transfer_row_valid transfer_clash r (transfers w) = z" by simp
  then have "z = Inr (transfers w @ [r]) \<or> (\<exists>e. z = Inl e)" by (cases z) (simp_all add: create_row_Inr)
  moreover have *: "w\<lparr>ticks := k\<rparr> = w\<lparr>transfers := transfers w @ [], ticks := k\<rparr>" for k by simp
  ultimately have "w' = w\<lparr>transfers := transfers w @ [r], ticks := Suc (ticks w)\<rparr> \<or> w' = w\<lparr>ticks := Suc (ticks w)\<rparr>"
    using assms z by (auto simp: transfer_create_def insert_into_def db_def Let_def comp_simps split: fault.splits)
  with * show ?thesis by metis
qed

lemma transfer_save_new:
  assumes run: "transfer_save E y w = (res, w')" and "tf_version y = 1"
    and "\<forall>r \<in> set (transfers w). tr_id r \<noteq> tf_id y"
  shows "\<exists>n rows. w' = w\<lparr>transfers := transfers w @ rows, ticks := n\<rparr> \<and>
    (rows = [TransferMapper_toPersistence y] \<or> rows = [])"
proof -
  let ?r = "TransferMapper_toPersistence y"
  have none: "filter (\<lambda>r. tr_id r = tf_id y \<and> tr_version r = 0) (transfers w) = []"
    "List.find (\<lambda>r. tr_id r = tf_id y) (transfers w) = None"
    using assms(3) by (auto simp: filter_empty_conv find_None_iff)
  have id: "map (\<lambda>r. if tr_id r = tf_id y \<and> tr_version r = 0 then ?r else r) (transfers w) = transfers w"
    using assms(3) by (auto intro!: map_idI)
  have row: "tr_id ?r = tf_id y" "tr_version ?r = 1"
    using assms(2) by (simp_all add: TransferMapper_toPersistence_def)
  obtain c w1 where up: "transfer_updateMany E ?r 0 w = (c, w1)" by fastforce
  then have w1: "\<exists>n. w1 = w\<lparr>ticks := n\<rparr>" and c: "\<And>k. c = Inr k \<Longrightarrow> k = 0"
    using none id row
    by (auto simp: transfer_updateMany_def update_in_def update_rows_def db_def Let_def comp_simps
        split: if_splits fault.splits)
  have go: "transfer_save E y w = (case c of Inl e \<Rightarrow> (Inl e, w1) | Inr k \<Rightarrow>
      bindM (query E (\<lambda>w. List.find (\<lambda>r. tr_id r = tr_id ?r) (transfers w))) (\<lambda>exists.
        if exists = None then transfer_create E ?r
        else throwM (DomainException (''Transfer '' @ tr_id ?r @ '' was modified concurrently; please retry'')
               ''CONCURRENT_MODIFICATION'')) w1)"
    using up c row(2) by (cases c) (simp_all add: transfer_save_def Let_def bindM_def)
  show ?thesis
  proof (cases c)
    case (Inl e)
    with go run w1 show ?thesis by (auto intro!: exI [of _ "[]"])
  next
    case (Inr k)
    obtain n where n: "w1 = w\<lparr>ticks := n\<rparr>" using w1 by blast
    obtain q w2 where q: "query E (\<lambda>w. List.find (\<lambda>r. tr_id r = tr_id ?r) (transfers w)) w1 = (q, w2)" by fastforce
    obtain m where w2: "w2 = w\<lparr>ticks := m\<rparr>" using readsD [OF reads_query q] n by auto
    show ?thesis
    proof (cases q)
      case (Inl e)
      with go run \<open>c = Inr k\<close> q w2 show ?thesis by (auto simp: bindM_def intro!: exI [of _ "[]"] exI [of _ m])
    next
      case (Inr f)
      have "f = None" using query_eq_Inr [OF q [unfolded Inr]] w2 none(2) row(1) by simp
      with go run \<open>c = Inr k\<close> q Inr have "transfer_create E ?r w2 = (res, w')" by (simp add: bindM_def)
      from transfer_create_outcome [OF this] w2 show ?thesis by (auto simp: comp_simps)
    qed
  qed
qed


text \<open>Everything a call of the executor can do.\<close>

lemma internal_execute_run:
  assumes "initiateInternal E u src dst amount fee narration w = (Inr x :: exn + transfer, w0)"
    and "transaction E (\<lambda>(events, transfer'). (connectionLost, transfer'))
      (internalCallback E x u src dst amount fee narration) w0 = (z, w2)"
  shows "internal_execute E u src dst amount fee narration w =
    (case z of
       Inl f \<Rightarrow> (case internalFailed E f w2 of (Inl e, v) \<Rightarrow> (Inl e, v)
                 | (Inr (evs, y), v) \<Rightarrow> (Inr (y\<lparr>tf_events := []\<rparr>, tf_events y @ evs), v))
     | Inr (evs, y) \<Rightarrow> (Inr (y\<lparr>tf_events := []\<rparr>, tf_events y @ evs), w2))"
  by (cases z) (auto simp: internal_execute_def bindM_def catchM_def assms tf_pullDomainEvents_def returnM_def
      split: prod.split sum.split)

text \<open>The \<open>catch\<close> block stores a pending transfer as FAILED, or nothing.\<close>

lemma internalFailed_terminal: "terminal y \<Longrightarrow> \<exists>e' k. internalFailed E (e, y) v = (Inl e', v\<lparr>ticks := k\<rparr>)"
  using markFailed_terminal [of y "nowMs E (ticks v)" "exn_message e"]
  by (auto simp: internalFailed_def bindM_def now_apply liftE_def)

lemma internalFailed_pending:
  assumes fresh: "fresh_internal u src dst amount fee x" and ids: "\<forall>r \<in> set (transfers w). tr_id r \<noteq> tf_id x"
  shows "\<exists>e' rows n. internalFailed E (e, x) (w\<lparr>ticks := k\<rparr>) = (Inl e', w\<lparr>transfers := transfers w @ rows, ticks := n\<rparr>) \<and>
    (rows = [] \<or> (\<exists>r. rows = [r] \<and> internal_row u src dst amount fee TS_FAILED r))"
proof -
  obtain y where y: "markFailed (nowMs E k) (exn_message e) x = Inr y" "tf_id y = tf_id x"
    "internal_row u src dst amount fee TS_FAILED (TransferMapper_toPersistence y)" "tf_version y = 1"
    by (rule markFailed_pending [OF fresh])
  obtain s v where s: "transfer_save E y (w\<lparr>ticks := Suc k\<rparr>) = (s, v)" by fastforce
  have "\<forall>r \<in> set (transfers (w\<lparr>ticks := Suc k\<rparr>)). tr_id r \<noteq> tf_id y" using ids y(2) by auto
  from transfer_save_new [OF s y(4) this] obtain n rows where
    v: "v = w\<lparr>transfers := transfers w @ rows, ticks := n\<rparr>" "rows = [TransferMapper_toPersistence y] \<or> rows = []"
    by auto
  have "internalFailed E (e, x) (w\<lparr>ticks := k\<rparr>) = (case s of Inl e' \<Rightarrow> (Inl e', v) | Inr _ \<Rightarrow> (Inl e, v))"
    using y(1) s by (cases s) (simp_all add: internalFailed_def bindM_def now_apply liftE_def throwM_def)
  with v y(3) show ?thesis by (cases s) auto
qed

lemma internal_undone:
  assumes fresh: "fresh_internal u src dst amount fee x" and ids: "\<forall>r \<in> set (transfers w). tr_id r \<noteq> tf_id x"
    and why: "(\<exists>w1. internalCallback E x u src dst amount fee narration w0 = (Inl f, w1)) \<or>
      (\<exists>v w1. internalCallback E x u src dst amount fee narration w0 = (Inr v, w1) \<and> f = (case v of (evs, y) \<Rightarrow> (connectionLost, y)))"
  shows "\<exists>e rows n. internalFailed E f (w\<lparr>ticks := k\<rparr>) = (Inl e, w\<lparr>transfers := transfers w @ rows, ticks := n\<rparr>) \<and>
    (rows = [] \<or> (\<exists>r. rows = [r] \<and> internal_row u src dst amount fee TS_FAILED r))"
proof -
  from why consider (pending) e where "f = (e, x)" | (settled) e y where "f = (e, y)" "terminal y"
  proof (elim disjE exE conjE)
    fix w1 assume cb: "internalCallback E x u src dst amount fee narration w0 = (Inl f, w1)"
    show thesis by (rule callback_cases [OF cb fresh]) (use pending settled in auto)
  next
    fix v w1 assume cb: "internalCallback E x u src dst amount fee narration w0 = (Inr v, w1)"
      and f: "f = (case v of (evs, y) \<Rightarrow> (connectionLost, y))"
    show thesis by (rule callback_cases [OF cb fresh]) (use settled f in auto)
  qed
  then show ?thesis
  proof cases
    case pending
    then show ?thesis using internalFailed_pending [OF fresh ids] by blast
  next
    case settled
    from internalFailed_terminal [OF settled(2), of E e "w\<lparr>ticks := k\<rparr>"] obtain e' n where
      "internalFailed E f (w\<lparr>ticks := k\<rparr>) = (Inl e', w\<lparr>ticks := n\<rparr>)" by (auto simp: settled(1))
    then show ?thesis by (intro exI [of _ e'] exI [of _ "[]"] exI [of _ n]) simp
  qed
qed

lemma internal_execute_outcome:
  assumes run: "internal_execute E u src dst amount fee narration w = (res, w')"
    and ok: "accounts_ok w" and money: "money_ok amount" "money_ok fee" and ne: "src \<noteq> dst"
    and ids: "\<forall>r \<in> set (transfers w). \<forall>k. tr_id r \<noteq> newUuid E k"
  obtains (unchanged) e rows n where "res = Inl e" "w' = w\<lparr>transfers := transfers w @ rows, ticks := n\<rparr>"
      "rows = [] \<or> (\<exists>r. rows = [r] \<and> internal_row u src dst amount fee TS_FAILED r)"
  | (moved) r w1 n where "money_moved (tr_reference r) u src dst amount fee w w1"
      "internal_row u src dst amount fee TS_SUCCESSFUL r"
      "w' = w1\<lparr>transfers := transfers w @ [r], ticks := n\<rparr>"
      "case res of Inr (x, evs) \<Rightarrow> TransferMapper_toPersistence x = r | Inl e \<Rightarrow> True"
proof -
  obtain x n0 where x: "initiateInternal E u src dst amount fee narration w = (Inr x :: exn + transfer, w\<lparr>ticks := n0\<rparr>)"
    "fresh_internal u src dst amount fee x" "\<exists>k. tf_id x = newUuid E k"
    by (rule initiateInternal_run)
  let ?w = "w\<lparr>ticks := n0\<rparr>" and ?cb = "internalCallback E x u src dst amount fee narration"
  let ?lost = "\<lambda>(events, transfer'). (connectionLost, transfer')"
  have ids': "\<forall>r \<in> set (transfers w). tr_id r \<noteq> tf_id x" using ids x(3) by auto
  obtain z w2 where tx: "transaction E ?lost ?cb ?w = (z, w2)" by fastforce
  note rest = internal_execute_run [OF x(1) tx, unfolded run]
  show ?thesis
  proof (rule transaction_outcome [OF tx callback_published])
    fix f n
    assume z: "z = Inl f" and w2: "w2 = ?w\<lparr>ticks := n\<rparr>"
      and why: "(\<exists>w1. ?cb ?w = (Inl f, w1)) \<or> (\<exists>x w1. ?cb ?w = (Inr x, w1) \<and> f = ?lost x)"
    from internal_undone [OF x(2) ids' why, of n] obtain e rows k where
      e: "internalFailed E f (w\<lparr>ticks := n\<rparr>) = (Inl e, w\<lparr>transfers := transfers w @ rows, ticks := k\<rparr>)"
      and rows: "rows = [] \<or> (\<exists>r. rows = [r] \<and> internal_row u src dst amount fee TS_FAILED r)" by blast
    show thesis by (rule unchanged [OF _ _ rows, of e k]) (use e rest z w2 in simp_all)
  next
    fix v w1
    assume cb: "?cb ?w = (Inr v, w1)" and w2: "w2 = w1\<lparr>ticks := Suc (ticks w1)\<rparr>"
      and z: "z = Inr v \<or> z = Inl (?lost v)"
    obtain y evs s d w3 n where v: "v = (evs, y)" and y: "terminal y"
        "internal_row u src dst amount fee TS_SUCCESSFUL (TransferMapper_toPersistence y)"
        "tf_reference y = tf_reference x"
      and mv: "moveMoney E (ref_value (tf_reference x)) u src dst amount fee narration ?w = (Inr (s, d), w3)"
      and w1: "w1 = w3\<lparr>transfers := transfers w3 @ [TransferMapper_toPersistence y], ticks := n\<rparr>"
      by (rule callback_cases [OF cb x(2)]) (simp_all only: sum.inject sum.distinct)
    have "accounts_ok ?w" using ok by (simp add: accounts_ok_def)
    from moveMoney_Inr [OF mv this money ne]
    have mm: "money_moved (tr_reference (TransferMapper_toPersistence y)) u src dst amount fee w w3"
      by (simp add: money_moved_ticks y(3) TransferMapper_toPersistence_def)
    have w3: "transfers w3 = transfers w" using money_moved_transfers [OF mm] by simp
    from z show thesis
    proof
      assume "z = Inr v"
      with rest v have "res = Inr (y\<lparr>tf_events := []\<rparr>, tf_events y @ evs)" "w' = w2" by auto
      then show thesis
        by (intro moved [OF mm y(2), of "Suc n"]) (simp_all add: w2 w1 w3 TransferMapper_toPersistence_def)
    next
      assume "z = Inl (?lost v)"
      moreover from internalFailed_terminal [OF y(1), of E connectionLost w2] obtain e' k where
        "internalFailed E (connectionLost, y) w2 = (Inl e', w2\<lparr>ticks := k\<rparr>)" by blast
      ultimately have "res = Inl e'" "w' = w2\<lparr>ticks := k\<rparr>" using rest v by auto
      then show thesis by (intro moved [OF mm y(2), of k]) (simp_all add: w2 w1 w3)
    qed
  qed
qed


section \<open>What a move of money keeps\<close>

lemma money_moved_accounts_ok:
  assumes "money_moved ref u src dst amount fee w w'" and "accounts_ok w" and "src \<noteq> dst"
  shows "accounts_ok w'"
proof (rule money_movedE [OF assms(1)])
  fix s d s' d' rows n
  assume s: "s \<in> set (accounts w)" "ar_id s = src" and d: "d \<in> set (accounts w)" "ar_id d = dst"
    and s': "balance_changed s s' (- (minorUnits amount + minorUnits fee))"
    and d': "balance_changed d d' (minorUnits amount)"
    and w': "w' = w\<lparr>accounts := put_account d' (put_account s' (accounts w)),
               ledgerEntries := ledgerEntries w @ rows, ticks := n\<rparr>"
  have only: "x = r" if "x \<in> set (accounts w)" "r \<in> set (accounts w)" "ar_id x = ar_id r" for x r
    using that assms(2) distinct_key_eq [of ar_id "accounts w"] by (auto simp: accounts_ok_def)
  have ok1: "accounts_ok (w\<lparr>accounts := put_account s' (accounts w)\<rparr>)"
    using only [OF _ s(1)] s' by (intro put_account_ok [OF assms(2)]) (auto simp: balance_changed_def)
  have "ar_accountNumber r = an_value (acc_accountNumber d')"
    if r: "r \<in> set (put_account s' (accounts w))" "ar_id r = acc_id d'" for r
  proof -
    have "r \<in> set (accounts w)"
      using r s' d' s(2) d(2) assms(3) by (auto simp: put_account_def balance_changed_def split: if_splits)
    from only [OF this d(1)] show ?thesis using r(2) d' by (simp add: balance_changed_def)
  qed
  moreover have "account_ok d'" "fits_int8 (minorUnits (acc_balance d'))"
    using d' unfolding balance_changed_def by blast+
  ultimately have "accounts_ok (w\<lparr>accounts := put_account d' (put_account s' (accounts w))\<rparr>)"
    using put_account_ok [OF ok1, of d'] by simp
  then show ?thesis by (simp add: w' accounts_ok_def)
qed

lemma money_moved_trial_balance:
  assumes "money_moved ref u src dst amount fee w w'" and "trial_balance w"
  shows "trial_balance w'"
proof (rule money_movedE [OF assms(1)])
  fix s' d' rows n and posting :: ledgerPosting
  assume "list_all2 (row_of_leg posting) (po_legs posting) rows" "\<forall>c. legs_net c (po_legs posting) = 0"
    and w': "w' = w\<lparr>accounts := put_account d' (put_account s' (accounts w)),
               ledgerEntries := ledgerEntries w @ rows, ticks := n\<rparr>"
  then have "rows_net c rows = 0" for c by (simp add: rows_of_legs_net)
  with assms(2) show ?thesis by (simp add: trial_balance_def w')
qed

text \<open>The money the bank holds in a currency: the balances of its customers and its fee income.\<close>

definition customer_money :: "currency \<Rightarrow> world \<Rightarrow> int" where
  "customer_money c w = sum_list (map (\<lambda>r. if ar_currency r = c then ar_balance r else 0) (accounts w))"

lemma put_account_sum:
  assumes "distinct (map ar_id t)" and "r \<in> set t" and "ar_id r = acc_id b"
  shows "sum_list (map f (put_account b t)) = sum_list (map f t) - f r + (f (AccountMapper_toPersistence b) :: int)"
  using assms
proof (induction t)
  case (Cons x t)
  show ?case
  proof (cases "ar_id x = acc_id b")
    case True
    with Cons.prems have "x = r" by (auto simp: image_iff)
    moreover have "put_account b t = t" using Cons.prems True by (force simp: put_account_def intro!: map_idI)
    ultimately show ?thesis using True by (simp add: put_account_def)
  next
    case False
    with Cons show ?thesis by (auto simp: put_account_def)
  qed
qed simp

lemma put_account_distinct: "distinct (map ar_id t) \<Longrightarrow> distinct (map ar_id (put_account b t))"
proof -
  have "map ar_id (put_account b t) = map ar_id t" unfolding put_account_def by (rule map_key_update) simp
  then show "distinct (map ar_id t) \<Longrightarrow> distinct (map ar_id (put_account b t))" by simp
qed

lemma rows_position:
  "list_all2 (row_of_leg posting) legs rows \<Longrightarrow>
    sum_list (map row_signed (filter (\<lambda>r. lr_accountId r = i) rows)) =
    sum_list (map debit_signed (filter (\<lambda>l. leg_accountId l = i) legs))"
  by (induction rule: list_all2_induct) (auto simp: row_of_leg_def row_signed_def debit_signed_def)

lemma feeRevenue_inj [simp]: "feeRevenue c = feeRevenue c' \<longleftrightarrow> c = c'"
  by (cases c; cases c') (simp_all add: feeRevenue_def)

lemma money_moved_conserves:
  assumes mm: "money_moved ref u src dst amount fee w w'" and "accounts_ok w" and "src \<noteq> dst"
    and fee: "moneyCurrency fee = moneyCurrency amount"
    and "\<forall>c. feeRevenue c \<noteq> src \<and> feeRevenue c \<noteq> dst"
  shows "customer_money c w' + account_position w' (feeRevenue c) =
    customer_money c w + account_position w (feeRevenue c)"
proof -
  obtain s d s' d' rows posting n where s: "s \<in> set (accounts w)" "ar_id s = src"
    and d: "d \<in> set (accounts w)" "ar_id d = dst"
    and cur: "ar_currency s = moneyCurrency amount" "ar_currency d = moneyCurrency amount"
    and s': "balance_changed s s' (- (minorUnits amount + minorUnits fee))"
    and d': "balance_changed d d' (minorUnits amount)"
    and legs: "list_all2 (row_of_leg posting) (po_legs posting) rows"
      "po_legs posting = internal_legs s' d' \<lparr>minorUnits = minorUnits amount + minorUnits fee,
                                              moneyCurrency = moneyCurrency amount\<rparr> amount fee"
    and w': "w' = w\<lparr>accounts := put_account d' (put_account s' (accounts w)),
               ledgerEntries := ledgerEntries w @ rows, ticks := n\<rparr>"
    by (rule money_movedE [OF mm])
  have ids: "acc_id s' = src" "acc_id d' = dst" using s d s' d' by (auto simp: balance_changed_def)
  let ?f = "\<lambda>r. if ar_currency r = c then ar_balance r else 0"
  have dist: "distinct (map ar_id (accounts w))" using assms(2) by (simp add: accounts_ok_def)
  have d1: "d \<in> set (put_account s' (accounts w))" using put_account_other [OF d(1)] d(2) ids assms(3) by simp
  have "customer_money c w' = customer_money c w - ?f s + ?f (AccountMapper_toPersistence s')
      - ?f d + ?f (AccountMapper_toPersistence d')"
    using put_account_sum [OF dist s(1), of s' ?f] put_account_sum [OF put_account_distinct [OF dist] d1, of d' ?f]
      s(2) d(2) ids by (simp add: customer_money_def w')
  then have cm: "customer_money c w' = customer_money c w - (if moneyCurrency amount = c then minorUnits fee else 0)"
    using s' d' cur by (simp add: balance_changed_def)
  have not_fee: "src \<noteq> feeRevenue c" "dst \<noteq> feeRevenue c" using assms(5) by metis+
  have "account_position w' (feeRevenue c) = account_position w (feeRevenue c)
      + (if moneyCurrency amount = c then minorUnits fee else 0)"
    using rows_position [OF legs(1), of "feeRevenue c"] ids fee not_fee
    by (simp add: account_position_def w' legs(2) internal_legs_def isZeroMoney_def debit_signed_def)
  with cm show ?thesis by simp
qed


section \<open>Atomicity and conservation\<close>

text \<open>
  C1. An internal transfer is all or nothing, whatever database calls of the executor fail and
  wherever (before or after the statement, the commit included): either no balance and no ledger
  entry has changed, the call threw, and the only transfer that may be stored is a FAILED one; or
  the source (owned by the initiator, active, with enough money) has paid amount and fee, the
  destination has received the amount, one balanced journal is in the ledger and one SUCCESSFUL
  transfer with its reference is stored. The tables stay well formed, the trial balance holds and
  nothing is published before the executor returns.
\<close>

theorem internal_transfer_atomic:
  assumes "internal_execute E u src dst amount fee narration w = (res, w')"
    and "accounts_ok w" and "trial_balance w" and "money_ok amount" and "money_ok fee" and "src \<noteq> dst"
    and "\<forall>r \<in> set (transfers w). \<forall>k. tr_id r \<noteq> newUuid E k"
  shows "accounts_ok w' \<and> trial_balance w' \<and> published w' = published w \<and>
    ((accounts w' = accounts w \<and> ledgerEntries w' = ledgerEntries w \<and> (\<exists>e. res = Inl e) \<and>
      (\<exists>rows. transfers w' = transfers w @ rows \<and> list_all (internal_row u src dst amount fee TS_FAILED) rows)) \<or>
     (\<exists>r w1. money_moved (tr_reference r) u src dst amount fee w w1 \<and>
        internal_row u src dst amount fee TS_SUCCESSFUL r \<and>
        accounts w' = accounts w1 \<and> ledgerEntries w' = ledgerEntries w1 \<and> transfers w' = transfers w @ [r] \<and>
        (\<forall>x evs. res = Inr (x, evs) \<longrightarrow> TransferMapper_toPersistence x = r)))"
proof (rule internal_execute_outcome [OF assms(1,2,4,5,6,7)])
  fix e rows n
  assume *: "res = Inl e" "w' = w\<lparr>transfers := transfers w @ rows, ticks := n\<rparr>"
    "rows = [] \<or> (\<exists>r. rows = [r] \<and> internal_row u src dst amount fee TS_FAILED r)"
  then have "list_all (internal_row u src dst amount fee TS_FAILED) rows" by auto
  with assms(2,3) *(1,2) show ?thesis by (simp add: accounts_ok_def trial_balance_def)
next
  fix r w1 n
  assume mm: "money_moved (tr_reference r) u src dst amount fee w w1"
    and r: "internal_row u src dst amount fee TS_SUCCESSFUL r"
    and w': "w' = w1\<lparr>transfers := transfers w @ [r], ticks := n\<rparr>"
    and res: "case res of Inr (x, evs) \<Rightarrow> TransferMapper_toPersistence x = r | Inl e \<Rightarrow> True"
  from res have "\<forall>x evs. res = Inr (x, evs) \<longrightarrow> TransferMapper_toPersistence x = r" by auto
  moreover have "accounts_ok w'" using money_moved_accounts_ok [OF mm assms(2,6)] by (simp add: w' accounts_ok_def)
  moreover have "trial_balance w'"
    using money_moved_trial_balance [OF mm assms(3)] by (simp add: w' trial_balance_def)
  moreover have "published w' = published w" using money_moved_transfers [OF mm] by (simp add: w')
  moreover have "accounts w' = accounts w1 \<and> ledgerEntries w' = ledgerEntries w1 \<and> transfers w' = transfers w @ [r]"
    by (simp add: w')
  ultimately show ?thesis using mm r by blast
qed

text \<open>
  C2. Money is conserved: for every currency, the money on customer accounts plus the bank's fee
  income (the position of its fee-revenue ledger account) is the same before and after a call of the
  executor, under any database failures.
\<close>

theorem internal_transfer_conserves_money:
  assumes "internal_execute E u src dst amount fee narration w = (res, w')"
    and "accounts_ok w" and "money_ok amount" and "money_ok fee" and "src \<noteq> dst"
    and "moneyCurrency fee = moneyCurrency amount"
    and "\<forall>c. feeRevenue c \<noteq> src \<and> feeRevenue c \<noteq> dst"
    and "\<forall>r \<in> set (transfers w). \<forall>k. tr_id r \<noteq> newUuid E k"
  shows "customer_money c w' + account_position w' (feeRevenue c) =
    customer_money c w + account_position w (feeRevenue c)"
proof (rule internal_execute_outcome [OF assms(1,2,3,4,5,8)])
  fix rows n
  assume "w' = w\<lparr>transfers := transfers w @ rows, ticks := n\<rparr>"
  then show ?thesis by (simp add: customer_money_def account_position_def)
next
  fix r w1 n
  assume mm: "money_moved (tr_reference r) u src dst amount fee w w1"
    and w': "w' = w1\<lparr>transfers := transfers w @ [r], ticks := n\<rparr>"
  show ?thesis
    using money_moved_conserves [OF mm assms(2,5,6,7), of c]
    by (simp add: w' customer_money_def account_position_def)
qed

text \<open>The first save of a transfer when no call fails.\<close>

lemma transfer_save_new_faultless:
  assumes "faultless E" and "tf_version y = 1" and "transfer_row_valid (TransferMapper_toPersistence y)"
    and "\<forall>r \<in> set (transfers w). tr_id r \<noteq> tf_id y \<and> tr_reference r \<noteq> ref_value (tf_reference y)"
  shows "\<exists>n. transfer_save E y w = (Inr (), w\<lparr>transfers := transfers w @ [TransferMapper_toPersistence y], ticks := n\<rparr>)"
proof -
  let ?r = "TransferMapper_toPersistence y"
  have row: "tr_id ?r = tf_id y" "tr_version ?r = 1" "tr_reference ?r = ref_value (tf_reference y)"
    using assms(2) by (simp_all add: TransferMapper_toPersistence_def)
  have none: "filter (\<lambda>r. tr_id r = tf_id y \<and> tr_version r = 0) (transfers w) = []"
    "List.find (\<lambda>r. tr_id r = tf_id y) (transfers w) = None"
    "map (\<lambda>r. if tr_id r = tf_id y \<and> tr_version r = 0 then ?r else r) (transfers w) = transfers w"
    "\<not> list_ex (transfer_clash ?r) (transfers w)"
    using assms(4) row
    by (auto simp: filter_empty_conv find_None_iff transfer_clash_def list_ex_iff intro!: map_idI)
  show ?thesis
    using none assms(1,3) row
    by (simp add: transfer_save_def Let_def transfer_updateMany_def update_in_def update_rows_def bindM_def
        db_faultless query_apply transfer_create_def insert_into_def create_row_def comp_simps) blast
qed

text \<open>How the executor ends when the callback throws before the transfer is marked.\<close>

lemma internal_execute_refused:
  assumes "initiateInternal E u src dst amount fee narration w = (Inr x :: exn + transfer, w0)"
    and "moveMoney E (ref_value (tf_reference x)) u src dst amount fee narration w0 = (Inl e, w1)"
    and "markFailed (nowMs E (ticks w1)) (exn_message e) x = Inr y"
    and "transfer_save E y (w0\<lparr>ticks := Suc (ticks w1)\<rparr>) = (Inr (), w2)"
  shows "internal_execute E u src dst amount fee narration w = (Inl e, w2)"
proof -
  have "published w1 = published w0"
    using preservesD [OF moveMoney_published HOL.refl, of E "ref_value (tf_reference x)" u src dst amount fee narration w0]
      assms(2) by simp
  then have rb: "rollback w0 w1 = w0\<lparr>ticks := ticks w1\<rparr>" by (simp add: rollback_def)
  have "internalCallback E x u src dst amount fee narration w0 = (Inl (e, x), w1)"
    using assms(2) by (simp add: internalCallback_def bindM_def mapE_def)
  then have tx: "transaction E f (internalCallback E x u src dst amount fee narration) w0 =
      (Inl (e, x), w0\<lparr>ticks := ticks w1\<rparr>)" for f
    by (simp add: transaction_def rb)
  show ?thesis
    by (simp add: internal_execute_def internalFailed_def bindM_def assms(1) catchM_def tx now_apply liftE_def
        assms(3,4) throwM_def)
qed

text \<open>
  C34. A transfer that is refused leaves a trace: when no database call fails and moving the money is
  refused (unknown or inactive account, another owner, too little money, wrong currency, the tier
  ceiling of the destination, a full 64-bit column), the executor throws exactly that exception, no
  balance and no ledger entry changes, and one FAILED transfer is stored whose reason is the message.
\<close>

theorem refused_internal_transfer_recorded:
  assumes "faultless E" and "initiateInternal E u src dst amount fee narration w = (Inr x :: exn + transfer, w0)"
    and "moveMoney E (ref_value (tf_reference x)) u src dst amount fee narration w0 = (Inl e, w1)"
    and "\<forall>r \<in> set (transfers w). tr_id r \<noteq> tf_id x \<and> tr_reference r \<noteq> ref_value (tf_reference x)"
    and "fits_int8 (minorUnits amount)" and "fits_int8 (minorUnits fee)"
  shows "\<exists>r n. internal_execute E u src dst amount fee narration w =
      (Inl e, w\<lparr>transfers := transfers w @ [r], ticks := n\<rparr>) \<and>
    internal_row u src dst amount fee TS_FAILED r \<and> tr_failureReason r = Some (exn_message e) \<and>
    tr_reference r = ref_value (tf_reference x)"
proof -
  obtain x' n where x': "initiateInternal E u src dst amount fee narration w = (Inr x' :: exn + transfer, w\<lparr>ticks := n\<rparr>)"
    "fresh_internal u src dst amount fee x'" by (rule initiateInternal_run)
  with assms(2) have w0: "w0 = w\<lparr>ticks := n\<rparr>" and fresh: "fresh_internal u src dst amount fee x" by auto
  obtain y where y: "markFailed (nowMs E (ticks w1)) (exn_message e) x = Inr y" "tf_id y = tf_id x"
    "tf_failureReason y = Some (exn_message e)" "tf_version y = 1"
    "internal_row u src dst amount fee TS_FAILED (TransferMapper_toPersistence y)"
    by (rule markFailed_pending [OF fresh])
  have ref: "tf_reference y = tf_reference x" using y(1) by (auto simp: transfer_op_defs split: if_splits)
  have "transfer_row_valid (TransferMapper_toPersistence y)"
    using y(5) assms(5,6) by (simp add: internal_row_def transfer_row_valid_def)
  then obtain m where "transfer_save E y (w0\<lparr>ticks := Suc (ticks w1)\<rparr>) =
      (Inr (), w\<lparr>transfers := transfers w @ [TransferMapper_toPersistence y], ticks := m\<rparr>)"
    using transfer_save_new_faultless [OF assms(1) y(4), of "w0\<lparr>ticks := Suc (ticks w1)\<rparr>"] assms(4) w0 ref y(2)
    by auto
  from internal_execute_refused [OF assms(2,3) y(1) this] y(3,5) ref show ?thesis
    by (auto simp: TransferMapper_toPersistence_def)
qed


section \<open>A commit that fails\<close>

text \<open>
  A failed commit is not recorded. When everything in the callback went well but the transaction
  cannot be committed, all writes are undone, no transfer is stored at all (not even a FAILED one),
  and the caller does not get the error of the database: the transfer object was already marked
  successful, so marking it failed throws an \<open>InvalidTransferStateException\<close> instead.
\<close>

theorem failed_commit_leaves_no_trace:
  assumes "initiateInternal E u src dst amount fee narration w = (Inr x :: exn + transfer, w0)"
    and "internalCallback E x u src dst amount fee narration w0 = (Inr v, w1)"
    and "dbFault E (ticks w1) = FaultBefore"
  shows "\<exists>n. internal_execute E u src dst amount fee narration w =
      (Inl (InvalidTransferStateException (tf_id x) ''SUCCESSFUL'' ''mark as failed''), w\<lparr>ticks := n\<rparr>)"
proof -
  obtain x' k where x': "initiateInternal E u src dst amount fee narration w = (Inr x' :: exn + transfer, w\<lparr>ticks := k\<rparr>)"
    "fresh_internal u src dst amount fee x'" by (rule initiateInternal_run)
  with assms(1) have w0: "w0 = w\<lparr>ticks := k\<rparr>" and fresh: "fresh_internal u src dst amount fee x" by auto
  have "published w1 = published w0"
    using preservesD [OF callback_published HOL.refl, of E x u src dst amount fee narration w0] assms(2) by simp
  then have tx: "transaction E f (internalCallback E x u src dst amount fee narration) w0 =
      (Inl (f v), w0\<lparr>ticks := Suc (ticks w1)\<rparr>)" for f
    using assms(2,3) by (simp add: transaction_def Let_def rollback_def)
  have y: "tf_status (snd v) = TS_SUCCESSFUL \<and> tf_id (snd v) = tf_id x"
  proof (rule callback_cases [OF assms(2) fresh])
    fix y evs
    assume "Inr v = Inr (evs, y)" "internal_row u src dst amount fee TS_SUCCESSFUL (TransferMapper_toPersistence y)"
      and id: "tf_id y = tf_id x"
    then show ?thesis by (simp add: internal_row_def TransferMapper_toPersistence_def)
  qed simp_all
  then have mf: "markFailed t m (snd v) = Inl (InvalidTransferStateException (tf_id x) ''SUCCESSFUL'' ''mark as failed'')" for t m
    by (simp add: transfer_op_defs TERMINAL_STATUSES_def)
  obtain evs y' where v: "v = (evs, y')" by fastforce
  have "internal_execute E u src dst amount fee narration w =
      (Inl (InvalidTransferStateException (tf_id x) ''SUCCESSFUL'' ''mark as failed''), w0\<lparr>ticks := Suc (Suc (ticks w1))\<rparr>)"
    using mf by (simp add: internal_execute_def internalFailed_def bindM_def assms(1) catchM_def tx v now_apply liftE_def)
  then show ?thesis by (auto simp: w0)
qed



section \<open>Examples\<close>

text \<open>Two active accounts of two users, 5.00 NGN on the first.\<close>

definition payWorld :: world where
  "payWorld = exampleWorld\<lparr>
     accounts := [AccountMapper_toPersistence exampleAccount,
       AccountMapper_toPersistence (exampleAccount\<lparr>acc_id := ''a2'', acc_userId := ''u2'',
         acc_accountNumber := AccountNumber ''0000000001'', acc_balance := zeroMoney NGN\<rparr>)]\<rparr>"

abbreviation ngn :: "int \<Rightarrow> money" where
  "ngn n \<equiv> \<lparr>minorUnits = n, moneyCurrency = NGN\<rparr>"

lemma payWorld_ok: "accounts_ok payWorld" "trial_balance payWorld" "transfers payWorld = []" "published payWorld = []"
  by (simp_all add: accounts_ok_def payWorld_def exampleWorld_def exampleAccount_def AccountMapper_toPersistence_def
      account_row_ok_def account_ok_def money_ok_def matches_digits_def is_digit_def fits_int8_def zeroMoney_def
      trial_balance_def rows_net_def emptyWorld_def)

theorem internal_transfer_atomic_witness:
  "\<exists>w' z. internal_execute exampleEnv ''u1'' ''a1'' ''a2'' (ngn 100) (ngn 10) ''rent'' payWorld = (Inr z, w') \<and>
     trial_balance w' \<and> map ar_balance (accounts w') = [390, 100] \<and>
     (\<exists>r. transfers w' = [r] \<and> internal_row ''u1'' ''a1'' ''a2'' (ngn 100) (ngn 10) TS_SUCCESSFUL r)"
proof -
  let ?run = "internal_execute exampleEnv ''u1'' ''a1'' ''a2'' (ngn 100) (ngn 10) ''rent''"
  have "\<not> isl (fst (?run payWorld))" by code_simp
  from ran [of ?run, OF this] obtain z w' where run: "?run payWorld = (Inr z, w')" by blast
  have bal: "map ar_balance (accounts (snd (?run payWorld))) = [390, 100]" by code_simp
  have "trial_balance w' \<and> (\<exists>r. transfers w' = [r] \<and> internal_row ''u1'' ''a1'' ''a2'' (ngn 100) (ngn 10) TS_SUCCESSFUL r)"
    using internal_transfer_atomic [OF run payWorld_ok(1,2)] payWorld_ok(3)
    by (simp add: money_ok_def) blast
  with run bal show ?thesis by simp
qed


theorem internal_transfer_conserves_money_witness:
  "customer_money NGN (snd (internal_execute exampleEnv ''u1'' ''a1'' ''a2'' (ngn 100) (ngn 10) ''rent'' payWorld)) +
   account_position (snd (internal_execute exampleEnv ''u1'' ''a1'' ''a2'' (ngn 100) (ngn 10) ''rent'' payWorld))
     (feeRevenue NGN) = 500"
proof -
  have start: "customer_money NGN payWorld + account_position payWorld (feeRevenue NGN) = 500" by code_simp
  have "feeRevenue c \<noteq> ''a1'' \<and> feeRevenue c \<noteq> ''a2''" for c by (simp add: feeRevenue_def)
  then show ?thesis unfolding start [symmetric]
    by (intro internal_transfer_conserves_money [OF prod.collapse [symmetric] payWorld_ok(1)])
      (simp_all add: payWorld_ok(3) money_ok_def)
qed

theorem refused_internal_transfer_recorded_witness:
  "\<exists>r w'. internal_execute exampleEnv ''u1'' ''a1'' ''a2'' (ngn 700) (ngn 10) ''rent'' payWorld =
      (Inl (InsufficientFundsException ''a1''), w') \<and> transfers w' = [r] \<and> tr_status r = TS_FAILED"
proof -
  let ?init = "initiateInternal exampleEnv ''u1'' ''a1'' ''a2'' (ngn 700) (ngn 10) ''rent'' :: transfer action"
  have "\<not> isl (fst (?init payWorld))" by code_simp
  from ran [of ?init, OF this] obtain x w0 where init: "?init payWorld = (Inr x, w0)" by blast
  have "fst (moveMoney exampleEnv (ref_value (tf_reference (projr (fst (?init payWorld))))) ''u1'' ''a1'' ''a2''
    (ngn 700) (ngn 10) ''rent'' (snd (?init payWorld))) = Inl (InsufficientFundsException ''a1'')" by code_simp
  then obtain w1 where "moveMoney exampleEnv (ref_value (tf_reference x)) ''u1'' ''a1'' ''a2''
      (ngn 700) (ngn 10) ''rent'' w0 = (Inl (InsufficientFundsException ''a1''), w1)"
    unfolding init by (metis prod.collapse fst_conv snd_conv sum.sel(2))
  from refused_internal_transfer_recorded [OF exampleEnv_faultless init this] obtain r n where
    "internal_execute exampleEnv ''u1'' ''a1'' ''a2'' (ngn 700) (ngn 10) ''rent'' payWorld =
      (Inl (InsufficientFundsException ''a1''), payWorld\<lparr>transfers := transfers payWorld @ [r], ticks := n\<rparr>)"
    "internal_row ''u1'' ''a1'' ''a2'' (ngn 700) (ngn 10) TS_FAILED r"
    by (auto simp: payWorld_ok(3) fits_int8_def)
  then show ?thesis by (simp add: internal_row_def payWorld_ok(3))
qed


text \<open>The commit of the example transfer is the 22nd use of the surroundings; here it fails.\<close>

definition commitEnv :: env where
  "commitEnv = exampleEnv\<lparr>dbFault := (\<lambda>n. if n = 21 then FaultBefore else NoFault)\<rparr>"

theorem failed_commit_leaves_no_trace_witness:
  "\<exists>i w'. internal_execute commitEnv ''u1'' ''a1'' ''a2'' (ngn 100) (ngn 10) ''rent'' payWorld =
      (Inl (InvalidTransferStateException i ''SUCCESSFUL'' ''mark as failed''), w') \<and> transfers w' = []"
proof -
  let ?init = "initiateInternal commitEnv ''u1'' ''a1'' ''a2'' (ngn 100) (ngn 10) ''rent'' :: transfer action"
  have "\<not> isl (fst (?init payWorld))" by code_simp
  from ran [of ?init, OF this] obtain x w0 where init: "?init payWorld = (Inr x, w0)" by blast
  let ?cb = "\<lambda>x. internalCallback commitEnv x ''u1'' ''a1'' ''a2'' (ngn 100) (ngn 10) ''rent''"
  have "\<not> isl (fst (?cb (projr (fst (?init payWorld))) (snd (?init payWorld))))" by code_simp
  then have "\<not> isl (fst (?cb x w0))" by (simp add: init)
  then obtain v w1 where cb: "?cb x w0 = (Inr v, w1)" by (metis prod.collapse sum.collapse(2))
  have "ticks (snd (?cb (projr (fst (?init payWorld))) (snd (?init payWorld)))) = 21" by code_simp
  then have "ticks w1 = 21" by (simp add: init cb)
  then have "dbFault commitEnv (ticks w1) = FaultBefore" by (simp add: commitEnv_def)
  from failed_commit_leaves_no_trace [OF init cb this] show ?thesis by (auto simp: payWorld_ok(3))
qed

end
