(* ===== verification/ExternalTransfer.thy ===== *)
theory ExternalTransfer
  imports InternalTransfer
begin

text \<open>
  Payouts to other banks: the command handler that holds the money, asks the provider and settles or
  compensates (\<^verbatim>\<open>initiate-external-transfer.handler.ts\<close>), the handler of the provider's later
  answer (\<^verbatim>\<open>confirm-external-transfer.handler.ts\<close>) and the webhook in front of it.
\<close>

section \<open>Postings\<close>

definition hold_legs :: "account \<Rightarrow> money \<Rightarrow> ledgerPostingLeg list" where
  "hold_legs sourceAccount totalDebit =
     [\<lparr>leg_accountId = acc_id sourceAccount, leg_direction = DEBIT, leg_amount = totalDebit,
       leg_balanceAfter = Some (acc_balance sourceAccount)\<rparr>,
      \<lparr>leg_accountId = externalPayoutClearing (moneyCurrency totalDebit), leg_direction = CREDIT,
       leg_amount = totalDebit, leg_balanceAfter = None\<rparr>]"

definition settlement_legs :: "money \<Rightarrow> money \<Rightarrow> money \<Rightarrow> ledgerPostingLeg list" where
  "settlement_legs totalDebit amount fee =
     [\<lparr>leg_accountId = externalPayoutClearing (moneyCurrency totalDebit), leg_direction = DEBIT,
       leg_amount = totalDebit, leg_balanceAfter = None\<rparr>,
      \<lparr>leg_accountId = externalPayoutSettled (moneyCurrency amount), leg_direction = CREDIT,
       leg_amount = amount, leg_balanceAfter = None\<rparr>] @
     (if \<not> isZeroMoney fee
      then [\<lparr>leg_accountId = feeRevenue (moneyCurrency fee), leg_direction = CREDIT, leg_amount = fee,
             leg_balanceAfter = None\<rparr>]
      else [])"

definition reversal_legs :: "account \<Rightarrow> money \<Rightarrow> ledgerPostingLeg list" where
  "reversal_legs sourceAccount totalDebit =
     [\<lparr>leg_accountId = externalPayoutClearing (moneyCurrency totalDebit), leg_direction = DEBIT,
       leg_amount = totalDebit, leg_balanceAfter = None\<rparr>,
      \<lparr>leg_accountId = acc_id sourceAccount, leg_direction = CREDIT, leg_amount = totalDebit,
       leg_balanceAfter = Some (acc_balance sourceAccount)\<rparr>]"

definition external_posting ::
  "string \<Rightarrow> string \<Rightarrow> string \<Rightarrow> ledgerPostingLeg list \<Rightarrow> ledgerPosting" where
  "external_posting reference narration userId legs =
     \<lparr>po_reference = reference, po_narration = narration, po_userId = userId,
      po_entryType = LT_TRANSFER, po_legs = legs\<rparr>"

section \<open>The saga\<close>

text \<open>
  Step 3, the \<open>try\<close> block up to the save. An error carries the transfer as it was when the error
  was thrown, because the \<open>catch\<close> block goes on with the same, possibly already marked, object.
\<close>

definition attemptPayout ::
  "env \<Rightarrow> flutterwaveClient \<Rightarrow> string \<Rightarrow> transfer \<Rightarrow> string \<Rightarrow> externalRecipient \<Rightarrow> money \<Rightarrow> money \<Rightarrow> money \<Rightarrow> string \<Rightarrow>
   (world, exn \<times> transfer, transfer) comp" where
  "attemptPayout E client callbackUrl transfer initiatorUserId recipient amount fee totalDebit narration =
     bindM (mapE (\<lambda>e. (e, transfer))
              (initiatePayout client callbackUrl (ref_value (tf_reference transfer)) recipient amount narration))
       (\<lambda>payoutResult.
     bindM (now E) (\<lambda>t.
     bindM
       (if isImmediatelySettled payoutResult then
          bindM (mapE (\<lambda>e. (e, transfer)) (liftE (markSuccessful t transfer))) (\<lambda>transfer'.
          bindM (mapE (\<lambda>e. (e, transfer'))
                   (ledger_post E (external_posting (ref_value (tf_reference transfer)) narration initiatorUserId
                      (settlement_legs totalDebit amount fee)))) (\<lambda>_.
          returnM transfer'))
        else mapE (\<lambda>e. (e, transfer)) (liftE (markProcessing t (Some (providerReference payoutResult)) transfer)))
       (\<lambda>transfer'.
     bindM (mapE (\<lambda>e. (e, transfer')) (transfer_save E transfer')) (\<lambda>_.
     returnM transfer'))))"

text \<open>
  Returning the money: credit the account, save it, relieve the clearing account; the refreshed
  account, with its pending event.
\<close>

definition refund :: "env \<Rightarrow> account \<Rightarrow> string \<Rightarrow> string \<Rightarrow> money \<Rightarrow> string \<Rightarrow> account option action" where
  "refund E account initiatorUserId reference totalDebit narration =
     bindM (now E) (\<lambda>t.
     bindM (liftE (credit t totalDebit (''reversal:'' @ reference) account)) (\<lambda>account'.
     bindM (account_save E account') (\<lambda>_.
     bindM (ledger_post E (external_posting reference narration initiatorUserId
              (reversal_legs account' totalDebit))) (\<lambda>_.
     returnM (Some account')))))"

definition compensate ::
  "env \<Rightarrow> string \<Rightarrow> string \<Rightarrow> string \<Rightarrow> money \<Rightarrow> string \<Rightarrow> account option action" where
  "compensate E sourceAccountId initiatorUserId reference totalDebit narration =
     bindM (account_findById E sourceAccountId) (\<lambda>found.
     case found of
       None \<Rightarrow> returnM None
     | Some account \<Rightarrow> refund E account initiatorUserId reference totalDebit narration)"

definition account_events :: "account option \<Rightarrow> domain_event list" where
  "account_events a = (case a of None \<Rightarrow> [] | Some a \<Rightarrow> acc_events a)"

text \<open>The \<open>catch\<close> block.\<close>

definition payoutFailed ::
  "env \<Rightarrow> string \<Rightarrow> string \<Rightarrow> money \<Rightarrow> string \<Rightarrow> domain_event list \<Rightarrow> exn \<times> transfer \<Rightarrow> 'a action" where
  "payoutFailed E sourceAccountId initiatorUserId totalDebit narration earlierEvents = (\<lambda>(payoutError, transfer).
     bindM (compensate E sourceAccountId initiatorUserId (ref_value (tf_reference transfer)) totalDebit
              (''reversal: '' @ narration)) (\<lambda>refreshedSource.
     bindM (now E) (\<lambda>t.
     bindM (liftE (markReversed t (exn_message payoutError) transfer)) (\<lambda>transfer'.
     bindM (transfer_save E transfer') (\<lambda>_.
     bindM (publishAll (earlierEvents @ account_events refreshedSource @ tf_events transfer')) (\<lambda>_.
     throwM payoutError))))))"

text \<open>Steps 1 and 2: hold the money, store the instruction, post the hold.\<close>

definition holdFunds ::
  "env \<Rightarrow> account \<Rightarrow> string \<Rightarrow> string \<Rightarrow> externalRecipient \<Rightarrow> money \<Rightarrow> money \<Rightarrow> money \<Rightarrow> string \<Rightarrow>
   (domain_event list \<times> transfer) action" where
  "holdFunds E sourceAccount initiatorUserId sourceAccountId recipient amount fee totalDebit narration =
     bindM (now E) (\<lambda>t.
     bindM (liftE (debit t totalDebit (''pending-external-payout:'' @ er_accountNumber recipient) sourceAccount))
       (\<lambda>sourceAccount'.
     bindM (account_save E sourceAccount') (\<lambda>_.
     bindM (initiateExternal E initiatorUserId sourceAccountId recipient amount fee narration) (\<lambda>transfer.
     bindM (transfer_save E transfer) (\<lambda>_.
     let (initiatedEvents, transfer') = tf_pullDomainEvents transfer
     in bindM (ledger_post E (external_posting (ref_value (tf_reference transfer)) narration initiatorUserId
                 (hold_legs sourceAccount' totalDebit))) (\<lambda>_.
        returnM (acc_events sourceAccount' @ initiatedEvents, transfer')))))))"

text \<open>What is checked and computed before any money moves.\<close>

definition externalRequest ::
  "env \<Rightarrow> string \<Rightarrow> string \<Rightarrow> string \<Rightarrow> string \<Rightarrow> string option \<Rightarrow> string \<Rightarrow>
   (account \<times> money \<times> money \<times> money \<times> externalRecipient) action" where
  "externalRequest E initiatorUserId sourceAccountId bankCode recipientAccountNumber recipientAccountName
     amountText =
     bindM (account_findById E sourceAccountId) (\<lambda>found.
     bindM (required found (AccountNotFoundException sourceAccountId)) (\<lambda>sourceAccount.
     bindM (guardM (acc_userId sourceAccount = initiatorUserId) UnauthorizedTransferException) (\<lambda>_.
     bindM (liftE (fromDecimalString amountText (acc_currency sourceAccount))) (\<lambda>amount.
     bindM (assertWithinLimits E initiatorUserId sourceAccountId amount) (\<lambda>_.
     bindM (liftE (calculate amount TT_EXTERNAL)) (\<lambda>fee.
     bindM (liftE (addMoney amount fee)) (\<lambda>totalDebit.
     bindM (liftE (ExternalRecipient_create bankCode recipientAccountNumber recipientAccountName)) (\<lambda>recipient.
     returnM (sourceAccount, amount, fee, totalDebit, recipient)))))))))"

definition initiateExternal_doExecute ::
  "env \<Rightarrow> flutterwaveClient \<Rightarrow> string \<Rightarrow> string \<Rightarrow> string \<Rightarrow> string \<Rightarrow> string \<Rightarrow> string option \<Rightarrow> string \<Rightarrow> string \<Rightarrow>
   (string \<times> transferResponseDto) action" where
  "initiateExternal_doExecute E client callbackUrl initiatorUserId sourceAccountId bankCode
     recipientAccountNumber recipientAccountName amountText narration =
     bindM (externalRequest E initiatorUserId sourceAccountId bankCode recipientAccountNumber
              recipientAccountName amountText) (\<lambda>(sourceAccount, amount, fee, totalDebit, recipient).
     bindM (holdFunds E sourceAccount initiatorUserId sourceAccountId recipient amount fee totalDebit narration)
       (\<lambda>(earlierEvents, transfer).
     catchM
       (bindM (attemptPayout E client callbackUrl transfer initiatorUserId recipient amount fee totalDebit narration)
          (\<lambda>transfer'.
        let (transferEvents, transfer'') = tf_pullDomainEvents transfer'
        in bindM (publishAll (earlierEvents @ transferEvents)) (\<lambda>_.
           returnM (tf_id transfer'', TransferResponseDto_fromDomain transfer''))))
       (payoutFailed E sourceAccountId initiatorUserId totalDebit narration earlierEvents)))"

definition InitiateExternalTransfer_execute ::
  "env \<Rightarrow> flutterwaveClient \<Rightarrow> string \<Rightarrow> string \<Rightarrow> string \<Rightarrow> string \<Rightarrow> string \<Rightarrow> string option \<Rightarrow> string \<Rightarrow> string \<Rightarrow>
   string option \<Rightarrow> transferResponseDto action" where
  "InitiateExternalTransfer_execute E client callbackUrl initiatorUserId sourceAccountId bankCode
     recipientAccountNumber recipientAccountName amount narration idempotencyKey =
     idempotent_run E initiatorUserId ''transfer.external'' idempotencyKey
       (initiateExternal_doExecute E client callbackUrl initiatorUserId sourceAccountId bankCode
          recipientAccountNumber recipientAccountName amount narration)
       (rehydrateTransfer E)"

section \<open>The provider's later answer\<close>

definition settleConfirmed :: "env \<Rightarrow> transfer \<Rightarrow> unit action" where
  "settleConfirmed E transfer =
     bindM (now E) (\<lambda>t.
     bindM (liftE (markSuccessful t transfer)) (\<lambda>transfer'.
     bindM (transfer_save E transfer') (\<lambda>_.
     bindM (liftE (addMoney (tf_amount transfer') (tf_fee transfer'))) (\<lambda>totalDebit.
     bindM (ledger_post E (external_posting (ref_value (tf_reference transfer'))
              ''external payout confirmed by webhook'' (tf_initiatorUserId transfer')
              (settlement_legs totalDebit (tf_amount transfer') (tf_fee transfer')))) (\<lambda>_.
     publishAll (tf_events transfer'))))))"

text \<open>A late failure: the money goes back to the source account, where it can still be loaded.\<close>

definition refundConfirmed :: "env \<Rightarrow> transfer \<Rightarrow> account option \<Rightarrow> account option action" where
  "refundConfirmed E transfer sourceAccount = (case sourceAccount of
     None \<Rightarrow> returnM None
   | Some account \<Rightarrow>
       bindM (liftE (addMoney (tf_amount transfer) (tf_fee transfer))) (\<lambda>totalDebit.
       refund E account (tf_initiatorUserId transfer) (ref_value (tf_reference transfer)) totalDebit
         ''external payout failed at provider (late webhook)''))"

definition storeReversed :: "env \<Rightarrow> transfer \<Rightarrow> string option \<Rightarrow> account option \<Rightarrow> unit action" where
  "storeReversed E transfer failureReason sourceAccount =
     bindM (now E) (\<lambda>t.
     bindM (liftE (markReversed t
              (case failureReason of None \<Rightarrow> ''Payout failed at provider'' | Some r \<Rightarrow> r) transfer)) (\<lambda>transfer'.
     bindM (transfer_save E transfer') (\<lambda>_.
     publishAll (account_events sourceAccount @ tf_events transfer'))))"

definition reverseConfirmed :: "env \<Rightarrow> transfer \<Rightarrow> string option \<Rightarrow> unit action" where
  "reverseConfirmed E transfer failureReason =
     bindM (account_findById E (tf_sourceAccountId transfer)) (\<lambda>found.
     bindM (refundConfirmed E transfer found) (storeReversed E transfer failureReason))"

definition ConfirmExternalTransfer_execute :: "env \<Rightarrow> string \<Rightarrow> bool \<Rightarrow> string option \<Rightarrow> unit action" where
  "ConfirmExternalTransfer_execute E reference isSuccessful failureReason =
     bindM (findByProviderReference E reference) (\<lambda>found.
     bindM (required found (TransferNotFoundException reference)) (\<lambda>transfer.
     if tf_status transfer \<in> set TERMINAL_STATUSES then returnM ()
     else if isSuccessful then settleConfirmed E transfer
     else reverseConfirmed E transfer failureReason))"

section \<open>The webhook\<close>

text \<open>The values are the bytes of the header and of the secret; an empty one counts as missing.\<close>

definition isValid :: "string option \<Rightarrow> string option \<Rightarrow> bool" where
  "isValid receivedHeaderValue configuredSecretHash =
     (case (receivedHeaderValue, configuredSecretHash) of
        (Some received, Some expected) \<Rightarrow>
          (if received = [] \<or> expected = [] then False
           else if length received \<noteq> length expected then False
           else received = expected)
      | _ \<Rightarrow> False)"

record webhookPayload =
  wp_event :: string
  wp_data :: "transferData option"

definition FlutterwaveWebhook_handle :: "env \<Rightarrow> string option \<Rightarrow> string option \<Rightarrow> webhookPayload \<Rightarrow> unit action" where
  "FlutterwaveWebhook_handle E configuredSecret verifHash payload =
     bindM (guardM (isValid verifHash configuredSecret) (BadRequestException ''Invalid webhook signature'')) (\<lambda>_.
     case wp_data payload of
       None \<Rightarrow> returnM ()
     | Some data \<Rightarrow>
         if wp_event payload \<noteq> ''transfer.completed'' then returnM ()
         else if isTerminalSuccess data \<or> isTerminalFailure data then
           ConfirmExternalTransfer_execute E (extractProviderReference data) (isTerminalSuccess data)
             (if isTerminalFailure data then complete_message data else None)
         else returnM ())"


section \<open>What stays as it is\<close>

text \<open>Predicates on the ledger alone and on the accounts alone.\<close>

lemma reads_initiatePayout [reads_rules]: "reads (initiatePayout client cb ref rec amount narration)"
  unfolding initiatePayout_def Let_def by (intro reads_rules)

lemma reads_account_findById [reads_rules]: "reads (account_findById E i)"
  unfolding account_findById_def by (intro reads_rules)

lemma reads_transfer_find [reads_rules]:
  "reads (transfer_findById E i)" "reads (findByProviderReference E p)"
  unfolding transfer_findById_def findByProviderReference_def by (intro reads_rules)+

lemma reads_externalRequest [reads_rules]: "reads (externalRequest E u i bank acc name amount)"
  unfolding externalRequest_def by (intro reads_rules reads_assertWithinLimits)

lemma reads_initiateExternal [reads_rules]: "reads (initiateExternal E u i r a f n)"
  unfolding initiateExternal_def TransferReference_generate_def by (intro reads_rules)

lemma trial_balance_tick_free [simp]: "tick_free trial_balance"
  by (simp add: tick_free_def trial_balance_def)

lemma accounts_tick_free [simp]: "tick_free (\<lambda>w. accounts w = v)"
  by (simp add: tick_free_def)

lemma preserves_trial_balance_post [preserves_rules]: "preserves trial_balance (ledger_post E posting)"
  unfolding preserves_def
proof (intro allI impI)
  fix w assume tb: "trial_balance w"
  obtain res w' where run: "ledger_post E posting w = (res, w')" by fastforce
  have "trial_balance w'"
  proof (rule ledger_post_outcome [OF run])
    fix rows j t n
    assume rows: "list_all2 (leg_written (ledgerEntries w) posting j t) (po_legs posting) rows"
      and w': "w' = w\<lparr>ledgerEntries := ledgerEntries w @ rows, ticks := n\<rparr>"
      and bal: "\<forall>c. legs_net c (po_legs posting) = 0"
    from rows have "list_all2 (row_of_leg posting) (po_legs posting) rows"
      by (rule list_all2_mono) (simp add: leg_written_def)
    from rows_of_legs_net [OF this] tb bal show ?thesis by (simp add: w' trial_balance_def)
  qed (use tb in \<open>simp add: trial_balance_def\<close>)
  with run show "trial_balance (snd (ledger_post E posting w))" by simp
qed

lemma preserves_transfer_save:
  assumes "tick_free I" and "\<And>w t. I w \<Longrightarrow> I (w\<lparr>transfers := t\<rparr>)"
  shows "preserves I (transfer_save E x)"
  unfolding transfer_save_def transfer_updateMany_def transfer_create_def Let_def
  by (intro preserves_rules preserves_db preserves_insert_into preserves_update_in assms) (simp_all add: assms)

lemma trial_balance_other [simp]:
  "trial_balance (w\<lparr>accounts := a\<rparr>) = trial_balance w" "trial_balance (w\<lparr>transfers := t\<rparr>) = trial_balance w"
  "trial_balance (w\<lparr>published := p\<rparr>) = trial_balance w"
  by (simp_all add: trial_balance_def)

lemma preserves_trial_balance_rules [preserves_rules]:
  "preserves trial_balance (account_save E a)" "preserves trial_balance (transfer_save E x)"
  "preserves trial_balance (publishAll evs)" "preserves trial_balance (now E)"
  unfolding account_save_def publishAll_def
  by (intro preserves_saveVersioned preserves_transfer_save preserves_modifyM preserves_now; simp)+

lemma preserves_reads_trial_balance: "reads m \<Longrightarrow> preserves trial_balance m"
  by (rule reads_preserves) simp_all

lemmas trial_balance_reads = preserves_reads_trial_balance [OF reads_account_findById]
  preserves_reads_trial_balance [OF reads_externalRequest]
  preserves_reads_trial_balance [OF reads_initiatePayout]
  preserves_reads_trial_balance [OF reads_transfer_find(2)]
  preserves_reads_trial_balance [OF reads_initiateExternal]

text \<open>No step of the saga or of the confirmation unbalances the ledger.\<close>

lemma external_trial_balance:
  "preserves trial_balance (initiateExternal_doExecute E client cb u i bank acc name amount narration)"
  unfolding initiateExternal_doExecute_def holdFunds_def attemptPayout_def payoutFailed_def compensate_def
    refund_def Let_def
  by (intro preserves_rules trial_balance_reads)

lemma confirm_trial_balance:
  "preserves trial_balance (ConfirmExternalTransfer_execute E p ok reason)"
  unfolding ConfirmExternalTransfer_execute_def settleConfirmed_def reverseConfirmed_def refundConfirmed_def
    storeReversed_def refund_def
  by (intro preserves_rules trial_balance_reads)

lemma attemptPayout_accounts:
  "preserves (\<lambda>w. accounts w = v) (attemptPayout E client cb x u rec amount fee td narration)"
  unfolding attemptPayout_def
  by (intro preserves_rules preserves_ledger_post preserves_transfer_save reads_preserves [OF reads_initiatePayout])
    simp_all


section \<open>What the steps do to the accounts\<close>

text \<open>A save of an account that an operation has changed, under any failure of the database.\<close>

lemma save_changed:
  assumes save: "account_save E b w = (s, w')" and ok: "accounts_ok w" and r: "r \<in> set (accounts w)"
    and b: "account_ok b" "acc_id b = ar_id r" "acc_version b = ar_version r + 1" "acc_userId b = ar_userId r"
      "acc_currency b = ar_currency r" "an_value (acc_accountNumber b) = ar_accountNumber r"
      "minorUnits (acc_balance b) = ar_balance r + d"
  obtains (unsaved) e n where "s = Inl e" "w' = w\<lparr>ticks := n\<rparr>"
  | (saved) n where "balance_changed r b d" "w' = w\<lparr>accounts := put_account b (accounts w), ticks := n\<rparr>"
proof -
  have "0 \<le> ar_version r"
    using accounts_ok_member [OF ok r] by (simp add: account_ok_def)
  from account_save_outcome [OF save ok r b(2,3) this] unsaved saved b show ?thesis
    by (auto simp: balance_changed_def)
qed

lemma refund_outcome:
  assumes run: "refund E (account_of_row r) u ref m narration w = (res, w')" and ok: "accounts_ok w"
    and r: "r \<in> set (accounts w)" and m: "money_ok m"
  obtains (unchanged) e n where "res = Inl e" "w' = w\<lparr>ticks := n\<rparr>"
  | (saved) b rows n where "balance_changed r b (minorUnits m)" "moneyCurrency m = ar_currency r"
      "w' = w\<lparr>accounts := put_account b (accounts w), ledgerEntries := ledgerEntries w @ rows, ticks := n\<rparr>"
      "res = Inr (Some b) \<and> list_all2 (row_of_leg (external_posting ref narration u (reversal_legs b m)))
          (reversal_legs b m) rows \<or> (\<exists>e. res = Inl e)"
proof -
  let ?a = "account_of_row r" and ?t = "nowMs E (ticks w)"
  have oka: "account_ok ?a" using accounts_ok_member [OF ok r] .
  show ?thesis
  proof (cases "credit ?t m (''reversal:'' @ ref) ?a")
    case (Inl e)
    with run show ?thesis by (intro unchanged [of e "Suc (ticks w)"]) (simp_all add: refund_def bindM_def now_apply liftE_def)
  next
    case (Inr b)
    note ce = credit_effect [OF Inr oka m]
    let ?w1 = "w\<lparr>ticks := Suc (ticks w)\<rparr>"
    obtain s w2 where save: "account_save E b ?w1 = (s, w2)" by fastforce
    have rest: "(case s of Inl e \<Rightarrow> (Inl e, w2) | Inr _ \<Rightarrow>
        bindM (ledger_post E (external_posting ref narration u (reversal_legs b m))) (\<lambda>_. returnM (Some b)) w2) = (res, w')"
      using run Inr save by (cases s) (simp_all add: refund_def bindM_def now_apply liftE_def)
    have ok1: "accounts_ok ?w1" and r1: "r \<in> set (accounts ?w1)" using ok r by (simp_all add: accounts_ok_def)
    show ?thesis
    proof (rule save_changed [OF save ok1 r1, of "minorUnits m"])
      fix e n assume "s = Inl e" "w2 = ?w1\<lparr>ticks := n\<rparr>"
      with rest show ?thesis by (intro unchanged [of e n]) simp_all
    next
      fix n assume b: "balance_changed r b (minorUnits m)"
        and "w2 = ?w1\<lparr>accounts := put_account b (accounts ?w1), ticks := n\<rparr>"
      then have w2: "w2 = w\<lparr>accounts := put_account b (accounts w), ticks := n\<rparr>" by simp
      have cur: "moneyCurrency m = ar_currency r" using ce by simp
      show ?thesis
      proof (cases s)
        case (Inl e)
        with rest w2 show ?thesis by (intro saved [OF b cur, where rows = "[]" and n = n]) auto
      next
        case (Inr x)
        obtain p w3 where post: "ledger_post E (external_posting ref narration u (reversal_legs b m)) w2 = (p, w3)"
          by fastforce
        have res: "(case p of Inl e \<Rightarrow> (Inl e, w3) | Inr _ \<Rightarrow> (Inr (Some b), w3)) = (res, w')"
          using rest Inr post by (cases p) (simp_all add: bindM_def returnM_def)
        show ?thesis
        proof (rule ledger_post_outcome [OF post])
          fix e k assume "p = Inl e" "w3 = w2\<lparr>ticks := k\<rparr>"
          with res w2 show ?thesis by (intro saved [OF b cur, where rows = "[]" and n = k]) auto
        next
          fix rows j t k
          assume written: "list_all2 (leg_written (ledgerEntries w2) (external_posting ref narration u (reversal_legs b m)) j t)
              (po_legs (external_posting ref narration u (reversal_legs b m))) rows"
            and "w3 = w2\<lparr>ledgerEntries := ledgerEntries w2 @ rows, ticks := k\<rparr>"
          moreover from written have "list_all2 (row_of_leg (external_posting ref narration u (reversal_legs b m)))
              (reversal_legs b m) rows"
            unfolding external_posting_def ledgerPosting.simps by (rule list_all2_mono) (simp add: leg_written_def)
          ultimately show ?thesis using res w2
            by (intro saved [OF b cur, where rows = rows and n = k]) (auto split: sum.splits)
        qed
      qed
    qed (use ce in auto)
  qed
qed


text \<open>The instruction a stored external transfer carries.\<close>

definition external_instruction ::
  "string \<Rightarrow> string \<Rightarrow> externalRecipient \<Rightarrow> money \<Rightarrow> money \<Rightarrow> transfer \<Rightarrow> bool" where
  "external_instruction u i recipient amount fee x \<longleftrightarrow>
     tf_type x = TT_EXTERNAL \<and> tf_initiatorUserId x = u \<and> tf_sourceAccountId x = i \<and>
     tf_destinationAccountId x = None \<and> tf_externalRecipient x = Some recipient \<and>
     tf_amount x = amount \<and> tf_fee x = fee"

lemma initiateExternal_run:
  obtains x n where "initiateExternal E u i recipient amount fee narration w = (Inr x :: 'e + transfer, w\<lparr>ticks := n\<rparr>)"
    "external_instruction u i recipient amount fee x" "tf_status x = TS_PENDING" "tf_version x = 0"
    "\<exists>k. tf_id x = newUuid E k" "tf_providerReference x = None"
proof -
  have "\<exists>x. initiateExternal E u i recipient amount fee narration w =
        (Inr x :: 'e + transfer, w\<lparr>ticks := Suc (Suc (Suc (ticks w)))\<rparr>) \<and>
      external_instruction u i recipient amount fee x \<and> tf_status x = TS_PENDING \<and> tf_version x = 0 \<and>
      tf_id x = newUuid E (Suc (Suc (ticks w))) \<and> tf_providerReference x = None"
    by (simp add: initiateExternal_def TransferReference_generate_def bindM_def draw_def now_def uuid_def
        returnM_def tf_addDomainEvent_def external_instruction_def)
  with that show thesis by blast
qed

text \<open>Storing the instruction and posting the hold, after the account is saved.\<close>

lemma instruction_stored:
  assumes run: "bindM (transfer_save E x) (\<lambda>_.
     let (initiatedEvents, transfer') = tf_pullDomainEvents x
     in bindM (ledger_post E posting) (\<lambda>_. returnM (evs @ initiatedEvents, transfer'))) w = (res, w')"
    and x: "tf_version x = 0"
  obtains trs rows n where
    "w' = w\<lparr>transfers := transfers w @ trs, ledgerEntries := ledgerEntries w @ rows, ticks := n\<rparr>"
    "res = Inr (evs @ tf_events x, x\<lparr>tf_events := []\<rparr>) \<and> trs = [TransferMapper_toPersistence x] \<and>
      list_all2 (row_of_leg posting) (po_legs posting) rows \<or> (\<exists>e. res = Inl e)"
proof -
  let ?r = "TransferMapper_toPersistence x"
  have create: "transfer_save E x = transfer_create E ?r"
    using x by (simp add: transfer_save_def Let_def TransferMapper_toPersistence_def)
  obtain c w1 where cr: "transfer_create E ?r w = (c, w1)" by fastforce
  from transfer_create_outcome [OF cr] obtain n1 trs where w1: "w1 = w\<lparr>transfers := transfers w @ trs, ticks := n1\<rparr>"
    by auto
  show thesis
  proof (cases c)
    case (Inl e)
    with run create cr w1 show thesis by (intro that [where trs = trs and rows = "[]" and n = n1]) (auto simp: bindM_def)
  next
    case (Inr z)
    then have "transfers w1 = transfers w @ [?r]" using transfer_create_Inr [of E ?r w z w1] cr by simp
    then have trs: "trs = [?r]" using w1 by simp
    obtain q w2 where post: "ledger_post E posting w1 = (q, w2)" by fastforce
    have out: "(case q of Inl e \<Rightarrow> (Inl e, w2) | Inr _ \<Rightarrow> (Inr (evs @ tf_events x, x\<lparr>tf_events := []\<rparr>), w2)) = (res, w')"
      using run create cr Inr post by (cases q) (simp_all add: bindM_def tf_pullDomainEvents_def returnM_def)
    show thesis
    proof (cases q)
      case (Inl e)
      show thesis
        by (rule ledger_post_outcome [OF post])
          (use out Inl w1 in \<open>auto intro: that [where trs = trs and rows = "[]"] that [where trs = trs]\<close>)
    next
      case q: (Inr y)
      show thesis
        by (rule ledger_post_Inr [OF post [unfolded q]]) (use out q w1 trs in \<open>auto intro: that [where trs = trs]\<close>)
    qed
  qed
qed

lemma holdFunds_outcome:
  assumes run: "holdFunds E (account_of_row r) u i recipient amount fee m narration w = (res, w')"
    and ok: "accounts_ok w" and r: "r \<in> set (accounts w)" and m: "money_ok m"
  obtains (unchanged) e n where "res = Inl e" "w' = w\<lparr>ticks := n\<rparr>"
  | (held) b trs rows n where "balance_changed r b (- minorUnits m)" "moneyCurrency m = ar_currency r"
      "minorUnits m \<le> ar_balance r" "ar_status r = AS_ACTIVE"
      "w' = w\<lparr>accounts := put_account b (accounts w), transfers := transfers w @ trs,
              ledgerEntries := ledgerEntries w @ rows, ticks := n\<rparr>"
      "(\<exists>evs x. res = Inr (evs, x) \<and> trs = [TransferMapper_toPersistence x] \<and> (\<exists>k. tf_id x = newUuid E k) \<and>
          external_instruction u i recipient amount fee x \<and> tf_status x = TS_PENDING \<and> tf_version x = 0 \<and>
          tf_providerReference x = None \<and>
          list_all2 (row_of_leg (external_posting (ref_value (tf_reference x)) narration u (hold_legs b m)))
            (hold_legs b m) rows) \<or> (\<exists>e. res = Inl e)"
proof -
  let ?a = "account_of_row r" and ?t = "nowMs E (ticks w)" and ?ref = "''pending-external-payout:'' @ er_accountNumber recipient"
  have oka: "account_ok ?a" using accounts_ok_member [OF ok r] .
  show ?thesis
  proof (cases "debit ?t m ?ref ?a")
    case (Inl e)
    with run show ?thesis by (intro unchanged [of e "Suc (ticks w)"]) (simp_all add: holdFunds_def bindM_def now_apply liftE_def)
  next
    case d: (Inr b)
    note de = debit_effect [OF d oka m]
    have start: "bindM (now E) (\<lambda>t. bindM (liftE (debit t m ?ref ?a)) f) w = f b (w\<lparr>ticks := Suc (ticks w)\<rparr>)"
      for f :: "account \<Rightarrow> (domain_event list \<times> transfer) action"
      using d by (simp add: bindM_def now_apply liftE_def)
    from d have act: "ar_status r = AS_ACTIVE" "minorUnits m \<le> ar_balance r" by (auto simp: debit_Inr)
    have cur: "moneyCurrency m = ar_currency r" using de by simp
    let ?w1 = "w\<lparr>ticks := Suc (ticks w)\<rparr>"
    obtain s w2 where save: "account_save E b ?w1 = (s, w2)" by fastforce
    have ok1: "accounts_ok ?w1" and r1: "r \<in> set (accounts ?w1)" using ok r by (simp_all add: accounts_ok_def)
    show ?thesis
    proof (rule save_changed [OF save ok1 r1, of "- minorUnits m"])
      fix e n assume "s = Inl e" "w2 = ?w1\<lparr>ticks := n\<rparr>"
      with run d save show ?thesis
        by (intro unchanged [of e n]) (simp_all add: holdFunds_def bindM_def now_apply liftE_def)
    next
      fix n assume b: "balance_changed r b (- minorUnits m)"
        and "w2 = ?w1\<lparr>accounts := put_account b (accounts ?w1), ticks := n\<rparr>"
      then have w2: "w2 = w\<lparr>accounts := put_account b (accounts w), ticks := n\<rparr>" by simp
      note fin = held [OF b cur act(2,1)]
      show ?thesis
      proof (cases s)
        case (Inl e)
        with run d save w2 show ?thesis
          by (intro fin [where trs = "[]" and rows = "[]" and n = n]) (auto simp: holdFunds_def bindM_def now_apply liftE_def)
      next
        case (Inr v)
        obtain x n2 where x: "initiateExternal E u i recipient amount fee narration w2 = (Inr x :: exn + transfer, w2\<lparr>ticks := n2\<rparr>)"
          "external_instruction u i recipient amount fee x" "tf_status x = TS_PENDING" "tf_version x = 0"
          "\<exists>k. tf_id x = newUuid E k" "tf_providerReference x = None"
          by (rule initiateExternal_run)
        let ?p = "external_posting (ref_value (tf_reference x)) narration u (hold_legs b m)"
        have "bindM (transfer_save E x) (\<lambda>_.
            let (initiatedEvents, transfer') = tf_pullDomainEvents x
            in bindM (ledger_post E ?p) (\<lambda>_. returnM (acc_events b @ initiatedEvents, transfer'))) (w2\<lparr>ticks := n2\<rparr>) = (res, w')"
          using run unfolding holdFunds_def start bindM_Inr [of "account_save E b", OF save [unfolded Inr]]
              bindM_Inr [of "initiateExternal E u i recipient amount fee narration", OF x(1)] .
        then show ?thesis
        proof (rule instruction_stored [OF _ x(4)])
          fix trs rows k
          let ?x = "x\<lparr>tf_events := []\<rparr>"
          assume "w' = (w2\<lparr>ticks := n2\<rparr>)\<lparr>transfers := transfers (w2\<lparr>ticks := n2\<rparr>) @ trs,
              ledgerEntries := ledgerEntries (w2\<lparr>ticks := n2\<rparr>) @ rows, ticks := k\<rparr>"
            and out: "res = Inr (acc_events b @ tf_events x, ?x) \<and> trs = [TransferMapper_toPersistence x] \<and>
              list_all2 (row_of_leg ?p) (po_legs ?p) rows \<or> (\<exists>e. res = Inl e)"
          then have "w' = w\<lparr>accounts := put_account b (accounts w), transfers := transfers w @ trs,
              ledgerEntries := ledgerEntries w @ rows, ticks := k\<rparr>" by (simp add: w2)
          moreover have "external_instruction u i recipient amount fee ?x" "TransferMapper_toPersistence ?x = TransferMapper_toPersistence x"
            using x(2) by (simp_all add: external_instruction_def TransferMapper_toPersistence_def)
          ultimately show ?thesis using out x(3-6)
            by (intro fin [where trs = trs and rows = rows and n = k]) (auto simp: external_posting_def)
        qed
      qed
    qed (use de in auto)
  qed
qed


lemma within_limits_ticks [simp]: "within_limits E (w\<lparr>ticks := n\<rparr>) k u i m = within_limits E w k u i m"
  by (simp add: within_limits_def cong: option.case_cong)

lemma externalRequest_Inr:
  assumes run: "externalRequest E u i bank acc name amountText w = (Inr (a, amount, fee, m, recipient), w')"
    and ok: "accounts_ok w"
  shows "(\<exists>n. w' = w\<lparr>ticks := n\<rparr>) \<and>
    (\<exists>r. r \<in> set (accounts w) \<and> ar_id r = i \<and> ar_userId r = u \<and> a = account_of_row r \<and>
       fromDecimalString amountText (ar_currency r) = Inr amount \<and> calculate amount TT_EXTERNAL = Inr fee \<and>
       money_ok amount \<and> money_ok fee \<and> money_ok m \<and>
       m = \<lparr>minorUnits = minorUnits amount + minorUnits fee, moneyCurrency = moneyCurrency amount\<rparr> \<and>
       moneyCurrency fee = moneyCurrency amount \<and> within_limits E w (ticks w + 3) u i amount \<and>
       ExternalRecipient_create bank acc name = Inr recipient)"
  using run unfolding externalRequest_def
proof (elim bindM_InrE)
  fix found a' amount' fee' m' recipient' and u1 u2 :: unit and w1 w2 w3 w4 w5 w6 w7 w8 :: world
  assume s: "account_findById E i w = (Inr found, w1)" "required found (AccountNotFoundException i) w1 = (Inr a', w2)"
      "guardM (acc_userId a' = u) UnauthorizedTransferException w2 = (Inr u1, w3)"
      "liftE (fromDecimalString amountText (acc_currency a')) w3 = (Inr amount', w4)"
      "assertWithinLimits E u i amount' w4 = (Inr u2, w5)"
      "liftE (calculate amount' TT_EXTERNAL) w5 = (Inr fee', w6)"
      "liftE (addMoney amount' fee') w6 = (Inr m', w7)"
      "liftE (ExternalRecipient_create bank acc name) w7 = (Inr recipient', w8)"
      "returnM (a', amount', fee', m', recipient') w8 = (Inr (a, amount, fee, m, recipient), w')"
  have eq: "a' = a" "amount' = amount" "fee' = fee" "m' = m" "w' = w8" using step_Inr(4) [OF s(9)] by auto
  have found: "found = Some a" "w2 = w1" using step_Inr(1) [OF s(2)] eq by auto
  have load: "loadAccount E i w = (Inr a, w1)"
    using s(1) by (simp add: loadAccount_def bindM_def found comp_simps)
  from loadAccount_Inr [OF load ok] obtain r where
    r: "r \<in> set (accounts w)" "ar_id r = i" "a = account_of_row r" and w1: "w1 = w\<lparr>ticks := Suc (ticks w)\<rparr>" by blast
  have own: "ar_userId r = u" "w3 = w1" using step_Inr(2) [OF s(3)] eq r(3) found by auto
  have am: "fromDecimalString amountText (ar_currency r) = Inr amount" "w4 = w1"
    using step_Inr(3) [OF s(4)] eq r(3) own by auto
  have lim: "within_limits E w (ticks w + 3) u i amount"
    using assertWithinLimits_Inr [OF s(5)] by (simp add: eq am(2) w1 numeral_3_eq_3)
  obtain n5 where w5: "w5 = w\<lparr>ticks := n5\<rparr>" using readsD [OF reads_assertWithinLimits s(5)] by (auto simp: am(2) w1)
  have fee: "calculate amount TT_EXTERNAL = Inr fee" "w6 = w5" using step_Inr(3) [OF s(6)] eq by auto
  have m: "addMoney amount fee = Inr m" "w7 = w5" using step_Inr(3) [OF s(7)] eq fee by auto
  have rc: "ExternalRecipient_create bank acc name = Inr recipient" "w8 = w5"
    using step_Inr(3) [OF s(8)] step_Inr(4) [OF s(9)] m by auto
  have oka: "money_ok amount" using fromDecimalString_ok [OF am(1)] by simp
  moreover have "money_ok fee" "moneyCurrency fee = moneyCurrency amount"
    using fee(1) by (auto simp: calculate_def Let_def flat_fees money_ok_def split: if_splits)
  ultimately show ?thesis
    using w5 eq(5) r own(1) am(1) fee(1) lim m(1) rc oka by (auto simp: addMoney_Inr money_ok_def)
qed

lemma put_account_twice: "acc_id b' = acc_id b \<Longrightarrow> put_account b' (put_account b t) = put_account b' t"
  by (simp add: put_account_def)


lemma account_findById_Inr:
  assumes "account_findById E i w = (Inr (Some a), w')" and "accounts_ok w"
  obtains r where "r \<in> set (accounts w)" "ar_id r = i" "a = account_of_row r" "w' = w\<lparr>ticks := Suc (ticks w)\<rparr>"
proof -
  have "loadAccount E i w = (Inr a, w')" using assms(1) by (simp add: loadAccount_def bindM_def comp_simps)
  from loadAccount_Inr [OF this assms(2)] that show thesis by blast
qed

lemma compensate_accounts:
  assumes run: "compensate E i u ref m narration w = (res, w')" and ok: "accounts_ok w" and m: "money_ok m"
  obtains (unchanged) "accounts w' = accounts w"
  | (returned) r b where "r \<in> set (accounts w)" "ar_id r = i" "balance_changed r b (minorUnits m)"
      "accounts w' = put_account b (accounts w)"
proof -
  obtain z w1 where load: "account_findById E i w = (z, w1)" by fastforce
  from readsD [OF reads_account_findById load] have same: "accounts w1 = accounts w" by auto
  show ?thesis
  proof (cases z)
    case (Inl e)
    with run load same unchanged show ?thesis by (simp add: compensate_def bindM_def)
  next
    case (Inr f)
    show ?thesis
    proof (cases f)
      case None
      with run load same Inr unchanged show ?thesis by (simp add: compensate_def bindM_def returnM_def)
    next
      case (Some a)
      then obtain r where r: "r \<in> set (accounts w)" "ar_id r = i" "a = account_of_row r"
        and w1: "w1 = w\<lparr>ticks := Suc (ticks w)\<rparr>"
        using account_findById_Inr [OF _ ok] load Inr by metis
      have ref: "refund E (account_of_row r) u ref m narration w1 = (res, w')"
        using run load Inr Some r(3) by (simp add: compensate_def bindM_def)
      have ok1: "accounts_ok w1" and r1: "r \<in> set (accounts w1)" using ok r(1) w1 by (simp_all add: accounts_ok_def)
      show ?thesis
        by (rule refund_outcome [OF ref ok1 r1 m])
          (use same in \<open>auto intro: unchanged returned [OF r(1,2)]\<close>)
    qed
  qed
qed

lemma payoutFailed_never_returns: "payoutFailed E i u m narration evs ex w = (res, w') \<Longrightarrow> \<exists>e. res = Inl e"
  by (auto simp: payoutFailed_def bindM_def throwM_def split: prod.splits sum.splits)

lemma payoutFailed_accounts:
  assumes run: "payoutFailed E i u m narration evs ex w = (res, w')" and ok: "accounts_ok w" and m: "money_ok m"
  shows "(\<exists>e. res = Inl e) \<and>
    (accounts w' = accounts w \<or>
     (\<exists>r b. r \<in> set (accounts w) \<and> ar_id r = i \<and> balance_changed r b (minorUnits m) \<and>
            accounts w' = put_account b (accounts w)))"
proof -
  obtain e x where ex: "ex = (e, x)" by fastforce
  obtain z w1 where c: "compensate E i u (ref_value (tf_reference x)) m (''reversal: '' @ narration) w = (z, w1)" by fastforce
  let ?rest = "\<lambda>refreshedSource. bindM (now E) (\<lambda>t.
     bindM (liftE (markReversed t (exn_message e) x)) (\<lambda>transfer'.
     bindM (transfer_save E transfer') (\<lambda>_.
     bindM (publishAll (evs @ account_events refreshedSource @ tf_events transfer')) (\<lambda>_.
     throwM e))))"
  have run': "(case z of Inl e' \<Rightarrow> (Inl e', w1) | Inr a \<Rightarrow> ?rest a w1) = (res, w')"
    using run ex c by (cases z) (simp_all add: payoutFailed_def bindM_def)
  have keep: "preserves (\<lambda>w. accounts w = v) (?rest a)" for v a
    unfolding publishAll_def
    by (intro preserves_rules preserves_transfer_save preserves_now preserves_modifyM) simp_all
  have "accounts w' = accounts w1"
    using run' preserves_step [OF keep HOL.refl] by (cases z) auto
  moreover have "\<exists>e. res = Inl e"
    using run' by (cases z) (auto simp: bindM_def throwM_def split: prod.splits sum.splits)
  ultimately show ?thesis
    using compensate_accounts [OF c ok m] by metis
qed


section \<open>The saga never loses or invents customer money\<close>

text \<open>What a payout can leave of the source account: all of it, or all but amount and fee.\<close>

definition payout_source ::
  "string \<Rightarrow> string \<Rightarrow> string \<Rightarrow> account_row \<Rightarrow> account \<Rightarrow> bool \<Rightarrow> bool" where
  "payout_source u i amountText r b returned \<longleftrightarrow>
     ar_id r = i \<and> ar_userId r = u \<and> ar_status r = AS_ACTIVE \<and> acc_id b = i \<and>
     (\<exists>amount fee. fromDecimalString amountText (ar_currency r) = Inr amount \<and>
        calculate amount TT_EXTERNAL = Inr fee \<and> minorUnits amount + minorUnits fee \<le> ar_balance r \<and>
        minorUnits (acc_balance b) = ar_balance r - (if returned then 0 else minorUnits amount + minorUnits fee))"

lemma account_row_unique:
  "accounts_ok w \<Longrightarrow> x \<in> set (accounts w) \<Longrightarrow> y \<in> set (accounts w) \<Longrightarrow> ar_id x = ar_id y \<Longrightarrow> x = y"
  using distinct_key_eq [of ar_id "accounts w"] by (auto simp: accounts_ok_def)

lemma balance_changed_put_ok:
  assumes "balance_changed r b d" and "accounts_ok w" and "r \<in> set (accounts w)" and "accounts w' = put_account b (accounts w)"
  shows "accounts_ok w'"
proof -
  have "accounts_ok (w\<lparr>accounts := put_account b (accounts w)\<rparr>)"
    using assms(1,3) account_row_unique [OF assms(2) _ assms(3)]
    by (intro put_account_ok [OF assms(2)]) (auto simp: balance_changed_def)
  then show ?thesis using assms(4) by (simp add: accounts_ok_def)
qed

text \<open>The part of the saga after the hold, in and behind its \<open>try\<close> block.\<close>

lemma payout_attempt_accounts:
  assumes run: "catchM
       (bindM (attemptPayout E client cb x u recipient amount fee m narration)
          (\<lambda>transfer'.
        let (transferEvents, transfer'') = tf_pullDomainEvents transfer'
        in bindM (publishAll (evs @ transferEvents)) (\<lambda>_.
           returnM (tf_id transfer'', TransferResponseDto_fromDomain transfer''))))
       (payoutFailed E i u m narration evs) w = (res, w')"
    and ok: "accounts_ok w" and m: "money_ok m"
  shows "accounts w' = accounts w \<or>
    (\<exists>e. res = Inl e) \<and>
    (\<exists>r b. r \<in> set (accounts w) \<and> ar_id r = i \<and> balance_changed r b (minorUnits m) \<and>
           accounts w' = put_account b (accounts w))"
proof -
  obtain at w1 where att: "attemptPayout E client cb x u recipient amount fee m narration w = (at, w1)" by fastforce
  have same: "accounts w1 = accounts w" using preserves_step [OF attemptPayout_accounts HOL.refl att] .
  show ?thesis
  proof (cases at)
    case (Inr y)
    with run att have "accounts w' = accounts w1"
      by (simp add: catchM_def bindM_def tf_pullDomainEvents_def publishAll_apply returnM_def) auto
    with same show ?thesis by simp
  next
    case (Inl ex)
    with run att have pf: "payoutFailed E i u m narration evs ex w1 = (res, w')"
      by (simp add: catchM_def bindM_def)
    have "accounts_ok w1" using ok same by (simp add: accounts_ok_def)
    from payoutFailed_accounts [OF pf this m] show ?thesis by (simp add: same)
  qed
qed

text \<open>The saga up to the hold, and what the rest does to the row it has left.\<close>

definition payout_held ::
  "string \<Rightarrow> string \<Rightarrow> string \<Rightarrow> world \<Rightarrow> account_row \<Rightarrow> account \<Rightarrow> money \<Rightarrow> bool" where
  "payout_held u i amountText w r b m \<longleftrightarrow>
     r \<in> set (accounts w) \<and> ar_id r = i \<and> ar_userId r = u \<and> ar_status r = AS_ACTIVE \<and> money_ok m \<and>
     minorUnits m \<le> ar_balance r \<and> balance_changed r b (- minorUnits m) \<and>
     (\<exists>amount fee. fromDecimalString amountText (ar_currency r) = Inr amount \<and>
        calculate amount TT_EXTERNAL = Inr fee \<and> minorUnits m = minorUnits amount + minorUnits fee)"

lemma payout_held_outcome:
  assumes ok: "accounts_ok w"
    and run: "initiateExternal_doExecute E client cb u i bank acc name amountText narration w = (res, w')"
  obtains (unchanged) e where "accounts w' = accounts w" "res = Inl e"
  | (held) r b m where "payout_held u i amountText w r b m" "accounts w' = put_account b (accounts w)"
  | (returned) r b m r' b' e where "payout_held u i amountText w r b m" "res = Inl e"
      "r' \<in> set (put_account b (accounts w))" "ar_id r' = i" "balance_changed r' b' (minorUnits m)"
      "accounts w' = put_account b' (put_account b (accounts w))"
proof -
  obtain z w1 where req: "externalRequest E u i bank acc name amountText w = (z, w1)" by fastforce
  from readsD [OF reads_externalRequest req] obtain n1 where w1: "w1 = w\<lparr>ticks := n1\<rparr>" by blast
  show ?thesis
  proof (cases z)
    case (Inl e)
    with run req w1 show ?thesis by (intro unchanged) (auto simp: initiateExternal_doExecute_def bindM_def)
  next
    case (Inr q)
    obtain a amount fee m recipient where q: "q = (a, amount, fee, m, recipient)" by (metis prod.exhaust)
    from externalRequest_Inr [OF req [unfolded Inr q] ok] obtain r where
      r: "r \<in> set (accounts w)" "ar_id r = i" "ar_userId r = u" "a = account_of_row r"
      and am: "fromDecimalString amountText (ar_currency r) = Inr amount" "calculate amount TT_EXTERNAL = Inr fee"
      and m: "money_ok m" "minorUnits m = minorUnits amount + minorUnits fee" by force
    obtain h w2 where hold: "holdFunds E (account_of_row r) u i recipient amount fee m narration w1 = (h, w2)" by fastforce
    let ?go = "\<lambda>(earlierEvents, transfer).
     catchM
       (bindM (attemptPayout E client cb transfer u recipient amount fee m narration)
          (\<lambda>transfer'.
        let (transferEvents, transfer'') = tf_pullDomainEvents transfer'
        in bindM (publishAll (earlierEvents @ transferEvents)) (\<lambda>_.
           returnM (tf_id transfer'', TransferResponseDto_fromDomain transfer''))))
       (payoutFailed E i u m narration earlierEvents)"
    have rest: "(case h of Inl e \<Rightarrow> (Inl e, w2) | Inr p \<Rightarrow> ?go p w2) = (res, w')"
      using run req Inr q hold r(4)
      by (cases h) (simp_all add: initiateExternal_doExecute_def bindM_def [of "externalRequest E u i bank acc name amountText"]
          bindM_def [of "holdFunds E (account_of_row r) u i recipient amount fee m narration"])
    have ok1: "accounts_ok w1" and r1: "r \<in> set (accounts w1)" using ok r w1 by (simp_all add: accounts_ok_def)
    show ?thesis
    proof (rule holdFunds_outcome [OF hold ok1 r1 m(1)])
      fix e n assume "h = Inl e" "w2 = w1\<lparr>ticks := n\<rparr>"
      with rest w1 show ?thesis by (intro unchanged) auto
    next
      fix b trs rows n
      assume b: "balance_changed r b (- minorUnits m)" and enough: "minorUnits m \<le> ar_balance r" "ar_status r = AS_ACTIVE"
        and "w2 = w1\<lparr>accounts := put_account b (accounts w1), transfers := transfers w1 @ trs,
              ledgerEntries := ledgerEntries w1 @ rows, ticks := n\<rparr>"
      then have w2: "accounts w2 = put_account b (accounts w)" by (simp add: w1)
      have was: "payout_held u i amountText w r b m"
        unfolding payout_held_def using r am m b enough by blast
      show ?thesis
      proof (cases h)
        case (Inl e)
        with rest w2 show ?thesis by (intro held [OF was]) simp
      next
        case (Inr p)
        obtain evs x where p: "p = (evs, x)" by fastforce
        have go: "?go (evs, x) w2 = (res, w')" using rest Inr p by simp
        from payout_attempt_accounts [OF go [unfolded prod.case] balance_changed_put_ok [OF b ok r(1) w2] m(1)]
        show ?thesis unfolding w2 by (auto intro: held [OF was] returned [OF was])
      qed
    qed
  qed
qed

lemma payout_accounts:
  assumes ok: "accounts_ok w"
    and run: "initiateExternal_doExecute E client cb u i bank acc name amountText narration w = (res, w')"
  shows "accounts_ok w' \<and>
    ((accounts w' = accounts w \<and> (\<exists>e. res = Inl e)) \<or>
     (\<exists>r b returned. r \<in> set (accounts w) \<and> payout_source u i amountText r b returned \<and>
        accounts w' = put_account b (accounts w) \<and> (returned \<longrightarrow> (\<exists>e. res = Inl e))))"
proof (rule payout_held_outcome [OF ok run])
  fix e assume "accounts w' = accounts w" "res = Inl e"
  with ok show ?thesis by (simp add: accounts_ok_def)
next
  fix r b m assume was: "payout_held u i amountText w r b m" and w': "accounts w' = put_account b (accounts w)"
  have "accounts_ok w'" using balance_changed_put_ok [OF _ ok _ w'] was by (auto simp: payout_held_def)
  moreover have "payout_source u i amountText r b False"
    using was by (auto simp: payout_source_def payout_held_def balance_changed_def)
  moreover have "r \<in> set (accounts w)" using was by (simp add: payout_held_def)
  ultimately show ?thesis using w' by blast
next
  fix r b m r' b' e
  assume was: "payout_held u i amountText w r b m" and e: "res = Inl e"
    and r': "r' \<in> set (put_account b (accounts w))" "ar_id r' = i" and b': "balance_changed r' b' (minorUnits m)"
    and w': "accounts w' = put_account b' (put_account b (accounts w))"
  let ?w2 = "w\<lparr>accounts := put_account b (accounts w)\<rparr>"
  have r: "r \<in> set (accounts w)" "ar_id r = i" and b: "balance_changed r b (- minorUnits m)"
    using was by (simp_all add: payout_held_def)
  have ok2: "accounts_ok ?w2" by (rule balance_changed_put_ok [OF b ok r(1)]) simp
  have idb: "acc_id b = i" using b r(2) by (simp add: balance_changed_def)
  have "AccountMapper_toPersistence b \<in> set (accounts ?w2)"
    using r idb by (auto simp: put_account_def image_iff)
  then have "r' = AccountMapper_toPersistence b"
    using account_row_unique [OF ok2, of r'] r' idb by simp
  then have "payout_source u i amountText r b' True"
    using was b' r(2) idb by (auto simp: payout_source_def payout_held_def balance_changed_def)
  moreover have "accounts w' = put_account b' (accounts w)"
    using r'(2) b' idb w' put_account_twice [of b' b] by (simp add: balance_changed_def)
  moreover have "accounts_ok w'" using balance_changed_put_ok [OF b' ok2, of w'] r'(1) w' by simp
  ultimately show ?thesis using e r(1) by blast
qed

text \<open>
  C5. A payout to another bank, under every pattern of database failures, every behaviour of the
  provider and wherever the saga breaks off: the account table stays well formed and the trial
  balance holds; only the source account can change, and only when it belongs to the initiator, is
  active and had enough money; it then has paid exactly amount and fee, or has all its money back and
  the call threw. A call that returns has taken the money.
\<close>

theorem external_payout_accounts:
  assumes ok: "accounts_ok w"
    and run: "initiateExternal_doExecute E client cb u i bank acc name amountText narration w = (res, w')"
  shows "accounts_ok w' \<and> (trial_balance w \<longrightarrow> trial_balance w') \<and>
    ((accounts w' = accounts w \<and> (\<exists>e. res = Inl e)) \<or>
     (\<exists>r b returned. r \<in> set (accounts w) \<and> payout_source u i amountText r b returned \<and>
        accounts w' = put_account b (accounts w) \<and> (returned \<longrightarrow> (\<exists>e. res = Inl e))))"
  using payout_accounts [OF ok run] preserves_step [OF external_trial_balance _ run] by blast

section \<open>A payout that returns\<close>

lemma position_append:
  assumes "ledgerEntries w' = ledgerEntries w @ rows" and "list_all2 (row_of_leg posting) legs rows"
  shows "account_position w' p =
    account_position w p - sum_list (map debit_signed (filter (\<lambda>l. leg_accountId l = p) legs))"
  using rows_position [OF assms(2), of p] by (simp add: account_position_def assms(1))

text \<open>The positions of the bank's own ledger accounts in a currency.\<close>

definition system_positions :: "world \<Rightarrow> currency \<Rightarrow> int \<times> int \<times> int" where
  "system_positions w c = (account_position w (externalPayoutClearing c),
     account_position w (externalPayoutSettled c), account_position w (feeRevenue c))"

definition not_system :: "string \<Rightarrow> bool" where
  "not_system i \<longleftrightarrow> (\<forall>c. i \<noteq> externalPayoutClearing c \<and> i \<noteq> externalPayoutSettled c \<and> i \<noteq> feeRevenue c)"

lemma system_ids_distinct [simp]:
  "externalPayoutClearing c \<noteq> externalPayoutSettled c'" "externalPayoutSettled c' \<noteq> externalPayoutClearing c"
  "externalPayoutClearing c \<noteq> feeRevenue c'" "feeRevenue c' \<noteq> externalPayoutClearing c"
  "externalPayoutSettled c \<noteq> feeRevenue c'" "feeRevenue c' \<noteq> externalPayoutSettled c"
  by (simp_all add: externalPayoutClearing_def externalPayoutSettled_def feeRevenue_def)

lemma hold_positions:
  assumes "ledgerEntries w' = ledgerEntries w @ rows" and "list_all2 (row_of_leg posting) (hold_legs b m) rows"
    and "not_system (acc_id b)" and "moneyCurrency m = c"
  shows "system_positions w' c = (case system_positions w c of (x, y, z) \<Rightarrow> (x + minorUnits m, y, z))"
  using position_append [OF assms(1,2)] assms(3,4)
  by (auto simp: system_positions_def hold_legs_def not_system_def debit_signed_def)

lemma settlement_positions:
  assumes "ledgerEntries w' = ledgerEntries w @ rows"
    and "list_all2 (row_of_leg posting) (settlement_legs m amount fee) rows"
    and "moneyCurrency m = c" "moneyCurrency amount = c" "moneyCurrency fee = c"
  shows "system_positions w' c = (case system_positions w c of
    (x, y, z) \<Rightarrow> (x - minorUnits m, y + minorUnits amount, z + minorUnits fee))"
  using position_append [OF assms(1,2)] assms(3-5)
  by (auto simp: system_positions_def settlement_legs_def debit_signed_def isZeroMoney_def)

lemma reversal_positions:
  assumes "ledgerEntries w' = ledgerEntries w @ rows" and "list_all2 (row_of_leg posting) (reversal_legs b m) rows"
    and "not_system (acc_id b)" and "moneyCurrency m = c"
  shows "system_positions w' c = (case system_positions w c of (x, y, z) \<Rightarrow> (x - minorUnits m, y, z))"
  using position_append [OF assms(1,2)] assms(3,4)
  by (auto simp: system_positions_def reversal_legs_def not_system_def debit_signed_def)

lemma transfer_save_Inr:
  assumes "transfer_save E x w = (Inr u, w')"
  shows "TransferMapper_toPersistence x \<in> set (transfers w')"
proof -
  let ?r = "TransferMapper_toPersistence x"
  have create: "?r \<in> set (transfers w2)" if "transfer_create E ?r w1 = (Inr v, w2)" for w1 v w2
    using transfer_create_Inr [OF that] by simp
  show ?thesis
  proof (cases "tr_version ?r - 1 < 0")
    case True
    with assms create show ?thesis by (simp add: transfer_save_def Let_def)
  next
    case False
    let ?f = "\<lambda>count. if count = 0 then
             bindM (query E (\<lambda>w. List.find (\<lambda>r. tr_id r = tr_id ?r) (transfers w))) (\<lambda>exists.
             if exists = None then transfer_create E ?r
             else throwM (DomainException
                    (''Transfer '' @ tr_id ?r @ '' was modified concurrently; please retry'')
                    ''CONCURRENT_MODIFICATION''))
           else returnM ()"
    from False assms have "bindM (transfer_updateMany E ?r (tr_version ?r - 1)) ?f w = (Inr u, w')"
      by (simp add: transfer_save_def Let_def)
    then obtain count w1 where up: "transfer_updateMany E ?r (tr_version ?r - 1) w = (Inr count, w1)"
      and f: "?f count w1 = (Inr u, w')" by (rule bindM_InrE)
    show ?thesis
    proof (cases "count = 0")
      case True
      with f have "bindM (query E (\<lambda>w. List.find (\<lambda>r. tr_id r = tr_id ?r) (transfers w))) (\<lambda>exists.
             if exists = None then transfer_create E ?r
             else throwM (DomainException
                    (''Transfer '' @ tr_id ?r @ '' was modified concurrently; please retry'')
                    ''CONCURRENT_MODIFICATION'')) w1 = (Inr u, w')"
        by (simp only: if_True simp_thms)
      then show ?thesis
      proof (rule bindM_InrE)
        fix e w2
        assume "(if e = None then transfer_create E ?r
             else throwM (DomainException
                    (''Transfer '' @ tr_id ?r @ '' was modified concurrently; please retry'')
                    ''CONCURRENT_MODIFICATION'')) w2 = (Inr u, w')"
        with create show ?thesis by (cases "e = None") (simp_all add: throwM_def)
      qed
    next
      case c: False
      with f have w': "w' = w1" by (simp add: returnM_def)
      from up c have "filter (\<lambda>r. tr_id r = tr_id ?r \<and> tr_version r = tr_version ?r - 1) (transfers w) \<noteq> []"
        and w1: "transfers w1 = map (\<lambda>r. if tr_id r = tr_id ?r \<and> tr_version r = tr_version ?r - 1 then ?r else r) (transfers w)"
        by (auto simp: transfer_updateMany_def update_in_def update_rows_def comp_simps throwM_def split: if_splits dest!: db_eq_Inr)
      then obtain y where "y \<in> set (transfers w)" "tr_id y = tr_id ?r \<and> tr_version y = tr_version ?r - 1"
        by (auto simp: filter_empty_conv)
      then show ?thesis unfolding w' w1 by (auto simp: image_iff intro!: bexI [of _ y])
    qed
  qed
qed


lemma ledger_tick_free [simp]: "tick_free (\<lambda>w. ledgerEntries w = v)"
  by (simp add: tick_free_def)

lemma transfer_save_ledger: "transfer_save E x w = (r, w') \<Longrightarrow> ledgerEntries w' = ledgerEntries w"
  using preserves_step [of "\<lambda>v. ledgerEntries v = ledgerEntries w" "transfer_save E x" w]
    preserves_transfer_save [of "\<lambda>v. ledgerEntries v = ledgerEntries w" E x] by simp

lemma attemptPayout_Inr:
  assumes run: "attemptPayout E client cb x u recipient amount fee m narration w = (Inr y, w')"
    and cur: "moneyCurrency m = c" "moneyCurrency amount = c" "moneyCurrency fee = c"
  shows "accounts w' = accounts w \<and> TransferMapper_toPersistence y \<in> set (transfers w') \<and> same_instruction x y \<and>
    ((tf_status y = TS_PROCESSING \<and> system_positions w' c = system_positions w c) \<or>
     (tf_status y = TS_SUCCESSFUL \<and> tf_providerReference y = tf_providerReference x \<and>
      system_positions w' c = (case system_positions w c of
        (p, q, z) \<Rightarrow> (p - minorUnits m, q + minorUnits amount, z + minorUnits fee))))"
proof -
  have acc: "accounts w' = accounts w" using preserves_step [OF attemptPayout_accounts HOL.refl run] .
  from run show ?thesis unfolding attemptPayout_def
  proof (elim bindM_InrE)
    fix pr t y' and w1 w2 w3 w4 :: world and v :: unit
    assume pay: "mapE (\<lambda>e. (e, x)) (initiatePayout client cb (ref_value (tf_reference x)) recipient amount narration) w = (Inr pr, w1)"
      and nw: "now E w1 = (Inr t, w2)"
      and mk: "(if isImmediatelySettled pr then
          bindM (mapE (\<lambda>e. (e, x)) (liftE (markSuccessful t x))) (\<lambda>transfer'.
          bindM (mapE (\<lambda>e. (e, transfer'))
                   (ledger_post E (external_posting (ref_value (tf_reference x)) narration u
                      (settlement_legs m amount fee)))) (\<lambda>_.
          returnM transfer'))
        else mapE (\<lambda>e. (e, x)) (liftE (markProcessing t (Some (providerReference pr)) x))) w2 = (Inr y', w3)"
      and sv: "mapE (\<lambda>e. (e, y')) (transfer_save E y') w3 = (Inr v, w4)"
      and ret: "returnM y' w4 = (Inr y, w')"
    have y: "y' = y" "w4 = w'" using step_Inr(4) [OF ret] by auto
    have "initiatePayout client cb (ref_value (tf_reference x)) recipient amount narration w = (Inr pr, w1)"
      using pay by (auto simp: mapE_def split: prod.splits sum.splits)
    from readsD [OF reads_initiatePayout this] now_Inr [OF nw] have w2: "ledgerEntries w2 = ledgerEntries w" by auto
    have save: "transfer_save E y w3 = (Inr v, w')" using sv y by (auto simp: mapE_def split: prod.splits sum.splits)
    note mem = transfer_save_Inr [OF save]
    have w': "ledgerEntries w' = ledgerEntries w3" using transfer_save_ledger [OF save] .
    show ?thesis
    proof (cases "isImmediatelySettled pr")
      case False
      then have "markProcessing t (Some (providerReference pr)) x = Inr y" "w3 = w2"
        using mk y by (auto simp: mapE_def liftE_def split: sum.splits)
      then show ?thesis using acc mem w' w2
        by (auto simp: transfer_op_defs same_instruction_def system_positions_def account_position_def split: if_splits)
    next
      case True
      then obtain w5 q where sc: "markSuccessful t x = Inr y"
        and post: "ledger_post E (external_posting (ref_value (tf_reference x)) narration u (settlement_legs m amount fee)) w2 = (Inr q, w5)"
        and w3: "w3 = w5"
        using mk y by (auto simp: mapE_def liftE_def bindM_def returnM_def split: sum.splits prod.splits)
      obtain rows n where rows: "list_all2 (row_of_leg (external_posting (ref_value (tf_reference x)) narration u (settlement_legs m amount fee)))
          (settlement_legs m amount fee) rows" "w5 = w2\<lparr>ledgerEntries := ledgerEntries w2 @ rows, ticks := n\<rparr>"
        using ledger_post_Inr [OF post] unfolding external_posting_def ledgerPosting.simps by metis
      have "ledgerEntries w' = ledgerEntries w @ rows" using rows(2) w' w3 w2 by simp
      from settlement_positions [OF this rows(1) cur] acc mem sc show ?thesis
        by (auto simp: transfer_op_defs same_instruction_def split: if_splits)
    qed
  qed
qed

text \<open>The steps of a payout that returns.\<close>

lemma payout_Inr:
  assumes ok: "accounts_ok w"
    and run: "initiateExternal_doExecute E client cb u i bank acc name amountText narration w = (Inr (resourceId, dto), w')"
  obtains r amount fee m recipient evs x y w1 w2 w3 where
    "\<exists>n. w1 = w\<lparr>ticks := n\<rparr>" "r \<in> set (accounts w)" "ar_id r = i" "ar_userId r = u"
    "fromDecimalString amountText (ar_currency r) = Inr amount" "calculate amount TT_EXTERNAL = Inr fee" "money_ok m"
    "m = \<lparr>minorUnits = minorUnits amount + minorUnits fee, moneyCurrency = moneyCurrency amount\<rparr>"
    "moneyCurrency fee = moneyCurrency amount" "within_limits E w (ticks w + 3) u i amount"
    "ExternalRecipient_create bank acc name = Inr recipient"
    "holdFunds E (account_of_row r) u i recipient amount fee m narration w1 = (Inr (evs, x), w2)"
    "attemptPayout E client cb x u recipient amount fee m narration w2 = (Inr y, w3)"
    "tf_id y = resourceId" "dto = TransferResponseDto_fromDomain (y\<lparr>tf_events := []\<rparr>)"
    "accounts w' = accounts w3" "transfers w' = transfers w3" "ledgerEntries w' = ledgerEntries w3"
proof -
  let ?tail = "\<lambda>recipient amount fee totalDebit (earlierEvents, transfer).
     catchM
       (bindM (attemptPayout E client cb transfer u recipient amount fee totalDebit narration)
          (\<lambda>transfer'.
        let (transferEvents, transfer'') = tf_pullDomainEvents transfer'
        in bindM (publishAll (earlierEvents @ transferEvents)) (\<lambda>_.
           returnM (tf_id transfer'', TransferResponseDto_fromDomain transfer''))))
       (payoutFailed E i u totalDebit narration earlierEvents)"
  from run obtain z w1 where req: "externalRequest E u i bank acc name amountText w = (Inr z, w1)"
    and rest: "(case z of (sourceAccount, amount, fee, totalDebit, recipient) \<Rightarrow>
        bindM (holdFunds E sourceAccount u i recipient amount fee totalDebit narration)
          (?tail recipient amount fee totalDebit)) w1 = (Inr (resourceId, dto), w')"
    unfolding initiateExternal_doExecute_def by (rule bindM_InrE)
  obtain a amount fee m recipient where z: "z = (a, amount, fee, m, recipient)" by (metis prod.exhaust)
  from externalRequest_Inr [OF req [unfolded z] ok] obtain r where r: "\<exists>n. w1 = w\<lparr>ticks := n\<rparr>" "r \<in> set (accounts w)"
    "ar_id r = i" "ar_userId r = u"
    "fromDecimalString amountText (ar_currency r) = Inr amount" "calculate amount TT_EXTERNAL = Inr fee" "money_ok m"
    "m = \<lparr>minorUnits = minorUnits amount + minorUnits fee, moneyCurrency = moneyCurrency amount\<rparr>"
    "moneyCurrency fee = moneyCurrency amount" "within_limits E w (ticks w + 3) u i amount"
    "ExternalRecipient_create bank acc name = Inr recipient" and a: "a = account_of_row r" by metis
  from rest [unfolded z a prod.case] obtain h w2 where
    hold: "holdFunds E (account_of_row r) u i recipient amount fee m narration w1 = (Inr h, w2)"
    and tail: "?tail recipient amount fee m h w2 = (Inr (resourceId, dto), w')" by (rule bindM_InrE)
  obtain evs x where h: "h = (evs, x)" by fastforce
  obtain at w3 where att: "attemptPayout E client cb x u recipient amount fee m narration w2 = (at, w3)" by fastforce
  show thesis
  proof (cases at)
    case (Inl ex)
    with tail h att have "payoutFailed E i u m narration evs ex w3 = (Inr (resourceId, dto), w')"
      by (simp add: catchM_def bindM_def)
    from payoutFailed_never_returns [OF this] show thesis by simp
  next
    case (Inr y)
    with tail h att have "tf_id y = resourceId" "dto = TransferResponseDto_fromDomain (y\<lparr>tf_events := []\<rparr>)"
      "accounts w' = accounts w3" "transfers w' = transfers w3" "ledgerEntries w' = ledgerEntries w3"
      by (auto simp: catchM_def bindM_def tf_pullDomainEvents_def publishAll_apply returnM_def)
    with that [OF r hold [unfolded h] att [unfolded Inr]] show thesis by blast
  qed
qed

text \<open>
  C6. A payout that returns has done all of its work, in whatever environment: the source account
  (owned by the initiator, active, within its limits) paid exactly amount and fee; the transfer is
  stored with the instruction of the request; and either it is being processed and the whole debit
  rests on the clearing account, or it is settled, the clearing account is relieved again, the amount
  is booked as settled and the fee as revenue. In the settled case no provider reference is stored.
\<close>

theorem external_payout_returned:
  assumes ok: "accounts_ok w" and "not_system i"
    and run: "initiateExternal_doExecute E client cb u i bank acc name amountText narration w = (Inr (resourceId, dto), w')"
  shows "\<exists>r b amount fee x c. r \<in> set (accounts w) \<and> payout_source u i amountText r b False \<and>
    accounts w' = put_account b (accounts w) \<and> within_limits E w (ticks w + 3) u i amount \<and>
    c = ar_currency r \<and> fromDecimalString amountText c = Inr amount \<and> calculate amount TT_EXTERNAL = Inr fee \<and>
    TransferMapper_toPersistence x \<in> set (transfers w') \<and> tf_id x = resourceId \<and>
    dto = TransferResponseDto_fromDomain (x\<lparr>tf_events := []\<rparr>) \<and>
    (\<exists>recipient. ExternalRecipient_create bank acc name = Inr recipient \<and>
       external_instruction u i recipient amount fee x) \<and>
    ((tf_status x = TS_PROCESSING \<and> system_positions w' c =
        (case system_positions w c of (p, q, z) \<Rightarrow> (p + (minorUnits amount + minorUnits fee), q, z))) \<or>
     (tf_status x = TS_SUCCESSFUL \<and> tf_providerReference x = None \<and> system_positions w' c =
        (case system_positions w c of (p, q, z) \<Rightarrow> (p, q + minorUnits amount, z + minorUnits fee))))"
proof (rule payout_Inr [OF ok run])
  fix r amount fee m recipient evs x0 y w1 w2 w3
  assume w1: "\<exists>n. w1 = w\<lparr>ticks := n\<rparr>" and r: "r \<in> set (accounts w)" "ar_id r = i" "ar_userId r = u"
    and am: "fromDecimalString amountText (ar_currency r) = Inr amount" "calculate amount TT_EXTERNAL = Inr fee"
    and m: "money_ok m" "m = \<lparr>minorUnits = minorUnits amount + minorUnits fee, moneyCurrency = moneyCurrency amount\<rparr>"
      "moneyCurrency fee = moneyCurrency amount"
    and lim: "within_limits E w (ticks w + 3) u i amount" and rc: "ExternalRecipient_create bank acc name = Inr recipient"
    and hold: "holdFunds E (account_of_row r) u i recipient amount fee m narration w1 = (Inr (evs, x0), w2)"
    and att: "attemptPayout E client cb x0 u recipient amount fee m narration w2 = (Inr y, w3)"
    and y: "tf_id y = resourceId" "dto = TransferResponseDto_fromDomain (y\<lparr>tf_events := []\<rparr>)"
    and w': "accounts w' = accounts w3" "transfers w' = transfers w3" "ledgerEntries w' = ledgerEntries w3"
  have cur: "moneyCurrency amount = ar_currency r" using fromDecimalString_ok [OF am(1)] by simp
  have mc: "moneyCurrency m = ar_currency r" "moneyCurrency fee = ar_currency r" using m cur by simp_all
  have ok1: "accounts_ok w1" and r1: "r \<in> set (accounts w1)" using ok r w1 by (auto simp: accounts_ok_def)
  obtain b rows n where b: "balance_changed r b (- minorUnits m)" "minorUnits m \<le> ar_balance r" "ar_status r = AS_ACTIVE"
    and w2: "accounts w2 = put_account b (accounts w)" "ledgerEntries w2 = ledgerEntries w @ rows"
    and x0: "external_instruction u i recipient amount fee x0" "tf_providerReference x0 = None"
      "list_all2 (row_of_leg (external_posting (ref_value (tf_reference x0)) narration u (hold_legs b m))) (hold_legs b m) rows"
    by (rule holdFunds_outcome [OF hold ok1 r1 m(1)]) (use w1 in auto)
  have ns: "not_system (acc_id b)" using b(1) r(2) assms(2) by (simp add: balance_changed_def)
  note held = hold_positions [OF w2(2) x0(3) ns mc(1)]
  note out = attemptPayout_Inr [OF att mc(1) cur mc(2)]
  have sp: "system_positions w' d = system_positions w3 d" for d by (simp add: system_positions_def account_position_def w'(3))
  have ext: "external_instruction u i recipient amount fee y"
    using x0(1) out by (simp add: external_instruction_def same_instruction_def)
  have src: "payout_source u i amountText r b False"
    using b r am m by (auto simp: payout_source_def balance_changed_def)
  have pos: "(tf_status y = TS_PROCESSING \<and> system_positions w' (ar_currency r) =
      (case system_positions w (ar_currency r) of (p, q, z) \<Rightarrow> (p + (minorUnits amount + minorUnits fee), q, z))) \<or>
   (tf_status y = TS_SUCCESSFUL \<and> tf_providerReference y = None \<and> system_positions w' (ar_currency r) =
      (case system_positions w (ar_currency r) of (p, q, z) \<Rightarrow> (p, q + minorUnits amount, z + minorUnits fee)))"
    using out held x0(2) m(2) by (auto simp: sp split: prod.splits)
  show ?thesis
    using r(1) src w'(1,2) w2(1) out lim am y ext rc pos by metis
qed


section \<open>The provider's later answer\<close>

lemma find_update:
  assumes "List.find P ts = Some r" and "distinct (map tr_id ts)" and "P r'"
    and "\<And>x. f x = (if tr_id x = tr_id r then r' else x)"
  shows "List.find P (map f ts) = Some r'"
  using assms
proof (induction ts)
  case (Cons x ts)
  show ?case
  proof (cases "P x")
    case True
    with Cons.prems show ?thesis by auto
  next
    case False
    with Cons.prems have r: "List.find P ts = Some r" by simp
    have "r \<in> set ts" using find_Some_set [OF r] by simp
    with Cons.prems(2) have "tr_id x \<noteq> tr_id r" by (auto simp: image_iff)
    with False Cons r show ?thesis by simp
  qed
qed simp

text \<open>A save of a transfer that was loaded one version ago.\<close>

lemma transfer_save_existing:
  assumes run: "transfer_save E y w = (Inr u, w')" and r: "r \<in> set (transfers w)" "tr_id r = tf_id y"
    "tf_version y = tr_version r + 1" "0 \<le> tr_version r" and dist: "distinct (map tr_id (transfers w))"
  shows "transfers w' = map (\<lambda>x. if tr_id x = tr_id r then TransferMapper_toPersistence y else x) (transfers w) \<and>
    ledgerEntries w' = ledgerEntries w \<and> accounts w' = accounts w"
proof -
  let ?r = "TransferMapper_toPersistence y"
  have row: "tr_id ?r = tr_id r" "tr_version ?r - 1 = tr_version r" "\<not> tr_version ?r - 1 < 0"
    using r by (simp_all add: TransferMapper_toPersistence_def)
  have only: "(tr_id x = tr_id r \<and> tr_version x = tr_version r) \<longleftrightarrow> tr_id x = tr_id r" if "x \<in> set (transfers w)" for x
    using that r(1) dist distinct_key_eq [of tr_id "transfers w"] by auto
  let ?f = "\<lambda>c. if c = 0 then
             bindM (query E (\<lambda>w. List.find (\<lambda>z. tr_id z = tr_id ?r) (transfers w))) (\<lambda>exists.
             if exists = None then transfer_create E ?r
             else throwM (DomainException
                    (''Transfer '' @ tr_id ?r @ '' was modified concurrently; please retry'')
                    ''CONCURRENT_MODIFICATION''))
           else returnM ()"
  from run row(3) have "bindM (transfer_updateMany E ?r (tr_version ?r - 1)) ?f w = (Inr u, w')"
    by (simp add: transfer_save_def Let_def)
  then obtain c w1 where "transfer_updateMany E ?r (tr_version ?r - 1) w = (Inr c, w1)" and go: "?f c w1 = (Inr u, w')"
    by (rule bindM_InrE)
  then have up: "transfer_updateMany E ?r (tr_version r) w = (Inr c, w1)" using row(2) by simp
  from up have c: "c = length (filter (\<lambda>x. tr_id x = tr_id r \<and> tr_version x = tr_version r) (transfers w))"
    and w1: "w1 = w\<lparr>transfers := map (\<lambda>x. if tr_id x = tr_id r \<and> tr_version x = tr_version r then ?r else x) (transfers w),
                   ticks := Suc (ticks w)\<rparr>"
    by (auto simp: transfer_updateMany_def update_in_def update_rows_def comp_simps throwM_def row(1)
        split: if_splits dest!: db_eq_Inr)
  have "c \<noteq> 0" using r(1) by (auto simp: c filter_empty_conv)
  with go have "w' = w1" by (simp add: returnM_def)
  moreover have "map (\<lambda>x. if tr_id x = tr_id r \<and> tr_version x = tr_version r then ?r else x) (transfers w) =
      map (\<lambda>x. if tr_id x = tr_id r then ?r else x) (transfers w)"
    using only by (intro map_cong) auto
  ultimately show ?thesis by (simp add: w1)
qed

lemma transfer_toDomainOrNull_Some:
  "transfer_toDomainOrNull y = Inr (Some x) \<longleftrightarrow> (\<exists>r. y = Some r \<and> TransferMapper_toDomain r = Inr x)"
  by (cases y) (auto simp: bindE_eq_Inr)

lemma confirm_found:
  assumes run: "ConfirmExternalTransfer_execute E p ok reason w = (Inr u, w')"
  obtains r x n where "List.find (\<lambda>r. tr_providerReference r = Some p) (transfers w) = Some r"
    "TransferMapper_toDomain r = Inr x"
    "(terminal x \<and> w' = w\<lparr>ticks := n\<rparr>) \<or>
     (\<not> terminal x \<and> ok \<and> settleConfirmed E x (w\<lparr>ticks := n\<rparr>) = (Inr (), w')) \<or>
     (\<not> terminal x \<and> \<not> ok \<and> reverseConfirmed E x reason (w\<lparr>ticks := n\<rparr>) = (Inr (), w'))"
  using run unfolding ConfirmExternalTransfer_execute_def
proof (elim bindM_InrE)
  fix f x w1 w2
  assume f: "findByProviderReference E p w = (Inr f, w1)" and rq: "required f (TransferNotFoundException p) w1 = (Inr x, w2)"
    and go: "(if tf_status x \<in> set TERMINAL_STATUSES then returnM ()
     else if ok then settleConfirmed E x
     else reverseConfirmed E x reason) w2 = (Inr u, w')"
  from step_Inr(1) [OF rq] have "f = Some x" "w2 = w1" by auto
  with f obtain r where r: "List.find (\<lambda>r. tr_providerReference r = Some p) (transfers w) = Some r"
    "TransferMapper_toDomain r = Inr x" and w1: "w1 = w\<lparr>ticks := Suc (ticks w)\<rparr>"
    by (auto simp: findByProviderReference_def bindM_eq_Inr comp_simps transfer_toDomainOrNull_Some dest!: query_eq_Inr)
  show thesis
    by (rule that [OF r, of "Suc (ticks w)"])
      (use go w1 \<open>w2 = w1\<close> in \<open>auto simp: terminal_def returnM_def split: if_splits\<close>)
qed

lemma TransferMapper_toDomain_fields:
  "TransferMapper_toDomain r = Inr x \<Longrightarrow> tf_id x = tr_id r \<and> tf_version x = tr_version r \<and> tf_status x = tr_status r \<and>
    tf_providerReference x = tr_providerReference r \<and> money_ok (tf_amount x) \<and> money_ok (tf_fee x) \<and>
    minorUnits (tf_amount x) = tr_amountMinorUnits r \<and> minorUnits (tf_fee x) = tr_feeMinorUnits r \<and>
    moneyCurrency (tf_amount x) = tr_currency r \<and> moneyCurrency (tf_fee x) = tr_currency r \<and>
    tf_sourceAccountId x = tr_sourceAccountId r"
  by (auto simp: TransferMapper_toDomain_def Let_def bindE_eq_Inr fromMinorUnits_def money_ok_def split: if_splits)


definition transfers_wf :: "world \<Rightarrow> bool" where
  "transfers_wf w \<longleftrightarrow> distinct (map tr_id (transfers w)) \<and> (\<forall>r \<in> set (transfers w). 0 \<le> tr_version r)"

lemma terminal_statuses [simp]:
  "terminal x \<longleftrightarrow> tf_status x = TS_SUCCESSFUL \<or> tf_status x = TS_FAILED \<or> tf_status x = TS_REVERSED \<or> tf_status x = TS_CANCELLED"
  by (simp add: terminal_def TERMINAL_STATUSES_def)

text \<open>The row of a transfer is replaced by one in the given terminal status.\<close>

definition outcome_stored :: "transfer_row \<Rightarrow> transactionStatus \<Rightarrow> world \<Rightarrow> world \<Rightarrow> bool" where
  "outcome_stored r status w w' \<longleftrightarrow>
     (\<exists>r'. tr_id r' = tr_id r \<and> tr_status r' = status \<and> tr_providerReference r' = tr_providerReference r \<and>
        tr_version r' = tr_version r + 1 \<and>
        transfers w' = map (\<lambda>x. if tr_id x = tr_id r then r' else x) (transfers w))"

lemma settleConfirmed_Inr:
  assumes run: "settleConfirmed E x w = (Inr v, w')" and wf: "transfers_wf w" and r: "r \<in> set (transfers w)"
    and x: "TransferMapper_toDomain r = Inr x"
  shows "outcome_stored r TS_SUCCESSFUL w w' \<and> accounts w' = accounts w \<and>
    system_positions w' (tr_currency r) = (case system_positions w (tr_currency r) of (p, q, z) \<Rightarrow>
      (p - (tr_amountMinorUnits r + tr_feeMinorUnits r), q + tr_amountMinorUnits r, z + tr_feeMinorUnits r))"
  using run unfolding settleConfirmed_def
proof (elim bindM_InrE)
  fix t y m and u1 u2 :: unit and w1 w2 w3 w4 w5 :: world
  assume s: "now E w = (Inr t, w1)" "liftE (markSuccessful t x) w1 = (Inr y, w2)" "transfer_save E y w2 = (Inr u1, w3)"
    "liftE (addMoney (tf_amount y) (tf_fee y)) w3 = (Inr m, w4)"
    "ledger_post E (external_posting (ref_value (tf_reference y)) ''external payout confirmed by webhook''
       (tf_initiatorUserId y) (settlement_legs m (tf_amount y) (tf_fee y))) w4 = (Inr u2, w5)"
    "publishAll (tf_events y) w5 = (Inr v, w')"
  note f = TransferMapper_toDomain_fields [OF x]
  have w2: "w2 = w\<lparr>ticks := Suc (ticks w)\<rparr>" and y: "markSuccessful t x = Inr y"
    using now_Inr [OF s(1)] step_Inr(3) [OF s(2)] by auto
  have yf: "tf_id y = tr_id r" "tf_version y = tr_version r + 1" "tf_status y = TS_SUCCESSFUL"
    "tf_providerReference y = tr_providerReference r" "tf_amount y = tf_amount x" "tf_fee y = tf_fee x"
    using y f by (auto simp: transfer_op_defs split: if_splits)
  have "transfers w3 = map (\<lambda>z. if tr_id z = tr_id r then TransferMapper_toPersistence y else z) (transfers w2) \<and>
      ledgerEntries w3 = ledgerEntries w2 \<and> accounts w3 = accounts w2"
    by (rule transfer_save_existing [OF s(3)]) (use w2 r wf yf in \<open>auto simp: transfers_wf_def\<close>)
  then have w3: "transfers w3 = map (\<lambda>z. if tr_id z = tr_id r then TransferMapper_toPersistence y else z) (transfers w)"
    "ledgerEntries w3 = ledgerEntries w" "accounts w3 = accounts w" using w2 by simp_all
  have m: "addMoney (tf_amount x) (tf_fee x) = Inr m" "w4 = w3" using step_Inr(3) [OF s(4)] yf by auto
  have cur: "moneyCurrency m = tr_currency r" "moneyCurrency (tf_amount y) = tr_currency r" "moneyCurrency (tf_fee y) = tr_currency r"
    using m(1) f yf by (auto simp: addMoney_Inr)
  obtain rows n where rows: "list_all2 (row_of_leg (external_posting (ref_value (tf_reference y)) ''external payout confirmed by webhook''
       (tf_initiatorUserId y) (settlement_legs m (tf_amount y) (tf_fee y)))) (settlement_legs m (tf_amount y) (tf_fee y)) rows"
    and w5: "w5 = w4\<lparr>ledgerEntries := ledgerEntries w4 @ rows, ticks := n\<rparr>"
    using ledger_post_Inr [OF s(5)] unfolding external_posting_def ledgerPosting.simps by metis
  have w': "transfers w' = transfers w3" "accounts w' = accounts w" "ledgerEntries w' = ledgerEntries w @ rows"
    using publishAll_Inr [OF s(6)] w5 w3 m(2) by simp_all
  have "outcome_stored r TS_SUCCESSFUL w w'"
    unfolding outcome_stored_def
    by (rule exI [of _ "TransferMapper_toPersistence y"])
      (use yf w' w3 in \<open>simp add: TransferMapper_toPersistence_def\<close>)
  moreover have "minorUnits m = tr_amountMinorUnits r + tr_feeMinorUnits r" using m(1) f unfolding addMoney_Inr by simp
  ultimately show ?thesis
    using settlement_positions [OF w'(3) rows cur] w'(2) yf f by simp
qed


lemma account_toDomainOrNull_None: "account_toDomainOrNull y = Inr None \<Longrightarrow> y = None"
  by (cases y) (auto simp: bindE_eq_Inr)

text \<open>The account a late failure goes back to, and what the refund does to it.\<close>

lemma source_found:
  assumes load: "account_findById E (tf_sourceAccountId x) w = (Inr found, w')" and ok: "accounts_ok w"
    and x: "TransferMapper_toDomain r = Inr x"
  obtains n where "w' = w\<lparr>ticks := n\<rparr>" "case found of
      None \<Rightarrow> \<forall>a \<in> set (accounts w). ar_id a \<noteq> tr_sourceAccountId r
    | Some acc \<Rightarrow> \<exists>a. a \<in> set (accounts w) \<and> acc = account_of_row a \<and> ar_id a = tr_sourceAccountId r"
proof -
  note f = TransferMapper_toDomain_fields [OF x]
  obtain n where w': "w' = w\<lparr>ticks := n\<rparr>" using readsD [OF reads_account_findById load] by blast
  show thesis
  proof (cases found)
    case None
    then have "\<forall>a \<in> set (accounts w). ar_id a \<noteq> tr_sourceAccountId r"
      using load f by (auto simp: account_findById_def find_None_iff2 find_None_iff bindM_eq_Inr comp_simps
          dest!: query_eq_Inr account_toDomainOrNull_None)
    with w' None show thesis by (intro that) simp_all
  next
    case (Some acc)
    then show thesis using account_findById_Inr [OF load [unfolded Some] ok] f by (intro that [OF w']) (simp, metis)
  qed
qed

lemma refundConfirmed_outcome:
  assumes run: "refundConfirmed E x found w = (q, w')" and ok: "accounts_ok w" and x: "TransferMapper_toDomain r = Inr x"
    and found: "case found of None \<Rightarrow> True
      | Some acc \<Rightarrow> \<exists>a. a \<in> set (accounts w) \<and> acc = account_of_row a \<and> ar_id a = tr_sourceAccountId r"
  obtains (absent) "found = None" "q = Inr None" "w' = w"
  | (failed) e n where "q = Inl e" "w' = w\<lparr>ticks := n\<rparr>"
  | (refunded) a b m rows n where "found = Some (account_of_row a)" "a \<in> set (accounts w)" "ar_id a = tr_sourceAccountId r"
      "ar_currency a = tr_currency r" "balance_changed a b (minorUnits m)"
      "minorUnits m = tr_amountMinorUnits r + tr_feeMinorUnits r" "moneyCurrency m = tr_currency r"
      "w' = w\<lparr>accounts := put_account b (accounts w), ledgerEntries := ledgerEntries w @ rows, ticks := n\<rparr>"
      "q = Inr (Some b) \<and> list_all2 (row_of_leg (external_posting (ref_value (tf_reference x))
          ''external payout failed at provider (late webhook)'' (tf_initiatorUserId x) (reversal_legs b m)))
          (reversal_legs b m) rows \<or> (\<exists>e. q = Inl e)"
proof (cases found)
  case None
  with run show thesis by (intro absent) (simp_all add: refundConfirmed_def returnM_def)
next
  case (Some acc)
  with found obtain a where a: "a \<in> set (accounts w)" "acc = account_of_row a" "ar_id a = tr_sourceAccountId r" by auto
  show thesis
  proof (cases "addMoney (tf_amount x) (tf_fee x)")
    case (Inl e)
    with run Some show thesis by (intro failed [of e "ticks w"]) (simp_all add: refundConfirmed_def bindM_def liftE_def)
  next
    case (Inr m)
    have m: "money_ok m" "minorUnits m = tr_amountMinorUnits r + tr_feeMinorUnits r" "moneyCurrency m = tr_currency r"
      using Inr TransferMapper_toDomain_fields [OF x] unfolding addMoney_Inr by (auto simp: money_ok_def)
    have "refund E (account_of_row a) (tf_initiatorUserId x) (ref_value (tf_reference x)) m
        ''external payout failed at provider (late webhook)'' w = (q, w')"
      using run unfolding refundConfirmed_def Some a(2) option.case Inr by (simp add: bindM_def liftE_def)
    then show thesis
    proof (rule refund_outcome [OF _ ok a(1) m(1)])
      fix b rows n
      assume "balance_changed a b (minorUnits m)" and cur: "moneyCurrency m = ar_currency a"
        and "w' = w\<lparr>accounts := put_account b (accounts w), ledgerEntries := ledgerEntries w @ rows, ticks := n\<rparr>"
        and "q = Inr (Some b) \<and> list_all2 (row_of_leg (external_posting (ref_value (tf_reference x))
          ''external payout failed at provider (late webhook)'' (tf_initiatorUserId x) (reversal_legs b m)))
          (reversal_legs b m) rows \<or> (\<exists>e. q = Inl e)"
      from this(1,3,4) show thesis
        by (intro refunded [OF Some [unfolded a(2)] a(1,3) _ _ m(2,3)]) (use cur m(3) in simp_all)
    qed (rule failed)
  qed
qed

lemma storeReversed_Inr:
  assumes run: "storeReversed E x reason src w = (Inr v, w')" and wf: "transfers_wf w" and r: "r \<in> set (transfers w)"
    and x: "TransferMapper_toDomain r = Inr x"
  shows "outcome_stored r TS_REVERSED w w' \<and> accounts w' = accounts w \<and> ledgerEntries w' = ledgerEntries w"
  using run unfolding storeReversed_def
proof (elim bindM_InrE)
  fix t y and u1 :: unit and w1 w2 w3 :: world
  assume s: "now E w = (Inr t, w1)"
    "liftE (markReversed t (case reason of None \<Rightarrow> ''Payout failed at provider'' | Some r \<Rightarrow> r) x) w1 = (Inr y, w2)"
    "transfer_save E y w2 = (Inr u1, w3)" "publishAll (account_events src @ tf_events y) w3 = (Inr v, w')"
  have w2: "w2 = w\<lparr>ticks := Suc (ticks w)\<rparr>"
    and y: "markReversed t (case reason of None \<Rightarrow> ''Payout failed at provider'' | Some r \<Rightarrow> r) x = Inr y"
    using now_Inr [OF s(1)] step_Inr(3) [OF s(2)] by auto
  have yf: "tf_id y = tr_id r" "tf_version y = tr_version r + 1" "tf_status y = TS_REVERSED"
    "tf_providerReference y = tr_providerReference r"
    using y TransferMapper_toDomain_fields [OF x] by (auto simp: transfer_op_defs split: if_splits)
  have "transfers w3 = map (\<lambda>z. if tr_id z = tr_id r then TransferMapper_toPersistence y else z) (transfers w2) \<and>
      ledgerEntries w3 = ledgerEntries w2 \<and> accounts w3 = accounts w2"
    by (rule transfer_save_existing [OF s(3)]) (use w2 r wf yf in \<open>auto simp: transfers_wf_def\<close>)
  then have w': "transfers w' = map (\<lambda>z. if tr_id z = tr_id r then TransferMapper_toPersistence y else z) (transfers w)"
    "accounts w' = accounts w" "ledgerEntries w' = ledgerEntries w"
    using publishAll_Inr [OF s(4)] w2 by simp_all
  moreover have "outcome_stored r TS_REVERSED w w'"
    unfolding outcome_stored_def
    by (rule exI [of _ "TransferMapper_toPersistence y"]) (use yf w' in \<open>simp add: TransferMapper_toPersistence_def\<close>)
  ultimately show ?thesis by simp
qed

lemma reverseConfirmed_Inr:
  assumes run: "reverseConfirmed E x reason w = (Inr v, w')" and wf: "transfers_wf w" and r: "r \<in> set (transfers w)"
    and x: "TransferMapper_toDomain r = Inr x" and ok: "accounts_ok w" and ns: "not_system (tr_sourceAccountId r)"
  shows "outcome_stored r TS_REVERSED w w' \<and>
    ((accounts w' = accounts w \<and> system_positions w' (tr_currency r) = system_positions w (tr_currency r) \<and>
      (\<forall>a \<in> set (accounts w). ar_id a \<noteq> tr_sourceAccountId r)) \<or>
     (\<exists>a b. a \<in> set (accounts w) \<and> ar_id a = tr_sourceAccountId r \<and> ar_currency a = tr_currency r \<and>
        balance_changed a b (tr_amountMinorUnits r + tr_feeMinorUnits r) \<and>
        accounts w' = put_account b (accounts w) \<and>
        system_positions w' (tr_currency r) = (case system_positions w (tr_currency r) of (p, q, z) \<Rightarrow>
          (p - (tr_amountMinorUnits r + tr_feeMinorUnits r), q, z))))"
  using run unfolding reverseConfirmed_def
proof (elim bindM_InrE)
  fix found src w1 w2
  assume s: "account_findById E (tf_sourceAccountId x) w = (Inr found, w1)"
    "refundConfirmed E x found w1 = (Inr src, w2)" "storeReversed E x reason src w2 = (Inr v, w')"
  obtain n where w1: "w1 = w\<lparr>ticks := n\<rparr>" and found: "case found of
      None \<Rightarrow> \<forall>a \<in> set (accounts w). ar_id a \<noteq> tr_sourceAccountId r
    | Some acc \<Rightarrow> \<exists>a. a \<in> set (accounts w) \<and> acc = account_of_row a \<and> ar_id a = tr_sourceAccountId r"
    by (rule source_found [OF s(1) ok x])
  have stored: "outcome_stored r TS_REVERSED w w'" "accounts w' = accounts w2" "ledgerEntries w' = ledgerEntries w2"
    if "transfers w2 = transfers w"
    using storeReversed_Inr [OF s(3) _ _ x] wf r that by (simp_all add: transfers_wf_def outcome_stored_def)
  have ok1: "accounts_ok w1" using ok w1 by (simp add: accounts_ok_def)
  have "case found of None \<Rightarrow> True
    | Some acc \<Rightarrow> \<exists>a. a \<in> set (accounts w1) \<and> acc = account_of_row a \<and> ar_id a = tr_sourceAccountId r"
    using found w1 by (simp split: option.splits)
  then show ?thesis
  proof (rule refundConfirmed_outcome [OF s(2) ok1 x])
    assume "found = None" "w2 = w1"
    then show ?thesis using stored found w1 by (simp add: system_positions_def account_position_def)
  next
    fix a b m rows k
    assume a: "a \<in> set (accounts w1)" "ar_id a = tr_sourceAccountId r" "ar_currency a = tr_currency r"
        "balance_changed a b (minorUnits m)"
      and m: "minorUnits m = tr_amountMinorUnits r + tr_feeMinorUnits r" "moneyCurrency m = tr_currency r"
      and w2: "w2 = w1\<lparr>accounts := put_account b (accounts w1), ledgerEntries := ledgerEntries w1 @ rows, ticks := k\<rparr>"
      and rows: "(Inr src :: exn + account option) = Inr (Some b) \<and> list_all2 (row_of_leg (external_posting (ref_value (tf_reference x))
          ''external payout failed at provider (late webhook)'' (tf_initiatorUserId x) (reversal_legs b m)))
          (reversal_legs b m) rows \<or> (\<exists>e. (Inr src :: exn + account option) = Inl e)"
    have "transfers w2 = transfers w" using w2 w1 by simp
    note st = stored [OF this]
    have nb: "not_system (acc_id b)" using a(2,4) ns by (simp add: balance_changed_def)
    have "ledgerEntries w' = ledgerEntries w @ rows" using st(3) w2 w1 by simp
    from reversal_positions [OF this _ nb m(2)] rows
    have "system_positions w' (tr_currency r) = (case system_positions w (tr_currency r) of (p, q, z) \<Rightarrow> (p - minorUnits m, q, z))"
      by auto
    then show ?thesis using st a m w2 w1 by auto
  qed simp
qed


definition confirmed :: "transfer_row \<Rightarrow> bool \<Rightarrow> world \<Rightarrow> world \<Rightarrow> bool" where
  "confirmed r isSuccessful w w' \<longleftrightarrow>
   (if tr_status r \<in> set TERMINAL_STATUSES then (\<exists>n. w' = w\<lparr>ticks := n\<rparr>)
    else if isSuccessful then
      outcome_stored r TS_SUCCESSFUL w w' \<and> accounts w' = accounts w \<and>
      system_positions w' (tr_currency r) = (case system_positions w (tr_currency r) of (x, y, z) \<Rightarrow>
        (x - (tr_amountMinorUnits r + tr_feeMinorUnits r), y + tr_amountMinorUnits r, z + tr_feeMinorUnits r))
    else outcome_stored r TS_REVERSED w w' \<and>
      ((accounts w' = accounts w \<and> system_positions w' (tr_currency r) = system_positions w (tr_currency r) \<and>
        (\<forall>a \<in> set (accounts w). ar_id a \<noteq> tr_sourceAccountId r)) \<or>
       (\<exists>a b. a \<in> set (accounts w) \<and> ar_id a = tr_sourceAccountId r \<and>
          balance_changed a b (tr_amountMinorUnits r + tr_feeMinorUnits r) \<and>
          accounts w' = put_account b (accounts w) \<and>
          system_positions w' (tr_currency r) = (case system_positions w (tr_currency r) of (x, y, z) \<Rightarrow>
            (x - (tr_amountMinorUnits r + tr_feeMinorUnits r), y, z)))))"

lemma confirm_outcome:
  assumes run: "ConfirmExternalTransfer_execute E p isSuccessful reason w = (Inr u, w')"
    and ok: "accounts_ok w" and wf: "transfers_wf w" and ns: "not_system (tr_sourceAccountId r)"
    and found: "List.find (\<lambda>r. tr_providerReference r = Some p) (transfers w) = Some r"
  shows "confirmed r isSuccessful w w'"
proof -
  from found have r: "r \<in> set (transfers w)" using find_Some_set by fastforce
  show ?thesis
  proof (rule confirm_found [OF run])
    fix r0 x n
    assume "List.find (\<lambda>r. tr_providerReference r = Some p) (transfers w) = Some r0"
      and x: "TransferMapper_toDomain r0 = Inr x"
      and cases: "(terminal x \<and> w' = w\<lparr>ticks := n\<rparr>) \<or>
     (\<not> terminal x \<and> isSuccessful \<and> settleConfirmed E x (w\<lparr>ticks := n\<rparr>) = (Inr (), w')) \<or>
     (\<not> terminal x \<and> \<not> isSuccessful \<and> reverseConfirmed E x reason (w\<lparr>ticks := n\<rparr>) = (Inr (), w'))"
    then have x: "TransferMapper_toDomain r = Inr x" using found by simp
    have st: "terminal x \<longleftrightarrow> tr_status r \<in> set TERMINAL_STATUSES"
      using TransferMapper_toDomain_fields [OF x] unfolding terminal_def by simp
    let ?w = "w\<lparr>ticks := n\<rparr>"
    have w: "accounts_ok ?w" "transfers_wf ?w" "r \<in> set (transfers ?w)"
      using ok wf r by (simp_all add: accounts_ok_def transfers_wf_def)
    have same: "outcome_stored r s ?w w' = outcome_stored r s w w'" "system_positions ?w c = system_positions w c" for s c
      by (simp_all add: outcome_stored_def system_positions_def account_position_def)
    from cases consider "terminal x" "w' = w\<lparr>ticks := n\<rparr>"
      | "\<not> terminal x" "isSuccessful" "settleConfirmed E x ?w = (Inr (), w')"
      | "\<not> terminal x" "\<not> isSuccessful" "reverseConfirmed E x reason ?w = (Inr (), w')" by blast
    then show ?thesis
    proof cases
      case 1
      then show ?thesis unfolding st confirmed_def by auto
    next
      case 2
      show ?thesis using settleConfirmed_Inr [OF 2(3) w(2,3) x] 2(1,2) unfolding st same confirmed_def by simp
    next
      case 3
      show ?thesis using reverseConfirmed_Inr [OF 3(3) w(2,3) x w(1) ns] 3(1,2) unfolding st same confirmed_def by auto
    qed
  qed
qed

lemma confirm_terminal:
  assumes "List.find (\<lambda>r. tr_providerReference r = Some p) (transfers w) = Some r"
    and "tr_status r \<in> set TERMINAL_STATUSES"
    and run: "ConfirmExternalTransfer_execute E p isSuccessful reason w = (res, w')"
  shows "\<exists>n. w' = w\<lparr>ticks := n\<rparr>"
proof -
  have keep: "reads (findByProviderReference E p)" by (rule reads_transfer_find)
  obtain f w1 where f: "findByProviderReference E p w = (f, w1)" by fastforce
  from readsD [OF keep f] obtain n where n: "w1 = w\<lparr>ticks := n\<rparr>" by blast
  show ?thesis
  proof (cases f)
    case (Inl e)
    with run f n show ?thesis by (auto simp: ConfirmExternalTransfer_execute_def bindM_def)
  next
    case (Inr y)
    then obtain x where x: "y = Some x" "TransferMapper_toDomain r = Inr x"
      using f assms(1)
      by (auto simp: findByProviderReference_def bindM_eq_Inr comp_simps bindE_eq_Inr dest!: query_eq_Inr)
    have "tf_status x \<in> set TERMINAL_STATUSES" using TransferMapper_toDomain_fields [OF x(2)] assms(2) by simp
    with run f n Inr x show ?thesis
      by (auto simp: ConfirmExternalTransfer_execute_def bindM_def comp_simps returnM_def)
  qed
qed

lemma outcome_stored_found:
  assumes "outcome_stored r s w w'" and "transfers_wf w" and found: "List.find (\<lambda>r. tr_providerReference r = Some p) (transfers w) = Some r"
  obtains r' where "List.find (\<lambda>r. tr_providerReference r = Some p) (transfers w') = Some r'" "tr_status r' = s"
proof -
  from assms(1) obtain r' where r': "tr_status r' = s" "tr_providerReference r' = tr_providerReference r"
    "transfers w' = map (\<lambda>x. if tr_id x = tr_id r then r' else x) (transfers w)"
    by (auto simp: outcome_stored_def)
  have "tr_providerReference r = Some p" using found by (auto simp: find_Some_iff)
  then have "tr_providerReference r' = Some p" using r'(2) by simp
  from that [OF find_update [OF found _ this HOL.refl, folded r'(3)] r'(1)] assms(2) show thesis
    by (simp add: transfers_wf_def)
qed

lemma confirm_twice:
  assumes ok: "accounts_ok w" "transfers_wf w" "not_system (tr_sourceAccountId r)"
    and found: "List.find (\<lambda>r. tr_providerReference r = Some p) (transfers w) = Some r"
    and run: "ConfirmExternalTransfer_execute E p isSuccessful reason w = (Inr u, w')"
  obtains r' where "List.find (\<lambda>r. tr_providerReference r = Some p) (transfers w') = Some r'"
    "tr_status r' \<in> set TERMINAL_STATUSES"
proof (cases "tr_status r \<in> set TERMINAL_STATUSES")
  case True
  with confirm_outcome [OF run ok found] obtain n where "w' = w\<lparr>ticks := n\<rparr>" by (auto simp: confirmed_def)
  with found True that show thesis by simp
next
  case False
  with confirm_outcome [OF run ok found]
  have "outcome_stored r TS_SUCCESSFUL w w' \<or> outcome_stored r TS_REVERSED w w'" by (auto simp: confirmed_def split: if_splits)
  with that show thesis
    by (elim disjE outcome_stored_found [OF _ ok(2) found]) (auto simp: TERMINAL_STATUSES_def)
qed

text \<open>
  C8. What the provider's later answer does, when its handler returns: nothing for a transfer that has
  its outcome; on success the transfer is stored as SUCCESSFUL, no account changes and the debit held
  on the clearing account is split into the settled amount and the fee; on failure the transfer is
  stored as REVERSED and the source account, if it still exists, gets amount and fee back from the
  clearing account.
\<close>

theorem confirm_effect:
  assumes "accounts_ok w" and "transfers_wf w" and "not_system (tr_sourceAccountId r)"
    and found: "List.find (\<lambda>r. tr_providerReference r = Some p) (transfers w) = Some r"
    and run: "ConfirmExternalTransfer_execute E p isSuccessful reason w = (Inr u, w')"
  shows "confirmed r isSuccessful w w'"
  using confirm_outcome [OF run assms(1,2,3) found] .


text \<open>The webhook, called again and again with whatever headers and payloads, in whatever environments.\<close>

fun deliveries :: "string option \<Rightarrow> (env \<times> string option \<times> webhookPayload) list \<Rightarrow> world \<Rightarrow> world" where
  "deliveries secret [] w = w"
| "deliveries secret ((E, verifHash, payload) # ds) w =
     deliveries secret ds (snd (FlutterwaveWebhook_handle E secret verifHash payload w))"

definition payload_about :: "string \<Rightarrow> webhookPayload \<Rightarrow> bool" where
  "payload_about p payload \<longleftrightarrow> (\<forall>data. wp_data payload = Some data \<longrightarrow> extractProviderReference data = p)"

lemma isValid_iff: "isValid h secret \<longleftrightarrow> (\<exists>s. s \<noteq> [] \<and> h = Some s \<and> secret = Some s)"
  by (auto simp: isValid_def split: option.splits)

lemma webhook_cases:
  assumes "FlutterwaveWebhook_handle E secret h payload w = (res, w')"
  obtains (refused) "\<not> (\<exists>s. s \<noteq> [] \<and> h = Some s \<and> secret = Some s)" "w' = w"
      "res = Inl (BadRequestException ''Invalid webhook signature'')"
  | (ignored) "w' = w" "res = Inr ()"
  | (confirmed) data s where "s \<noteq> []" "h = Some s" "secret = Some s" "wp_data payload = Some data"
      "wp_event payload = ''transfer.completed''" "isTerminalSuccess data \<or> isTerminalFailure data"
      "ConfirmExternalTransfer_execute E (extractProviderReference data) (isTerminalSuccess data)
        (if isTerminalFailure data then complete_message data else None) w = (res, w')"
proof -
  from assms have "(if isValid h secret then
      (case wp_data payload of
       None \<Rightarrow> returnM ()
     | Some data \<Rightarrow>
         if wp_event payload \<noteq> ''transfer.completed'' then returnM ()
         else if isTerminalSuccess data \<or> isTerminalFailure data then
           ConfirmExternalTransfer_execute E (extractProviderReference data) (isTerminalSuccess data)
             (if isTerminalFailure data then complete_message data else None)
         else returnM ()) w
      else (Inl (BadRequestException ''Invalid webhook signature''), w)) = (res, w')"
    unfolding FlutterwaveWebhook_handle_def by (simp add: bindM_def comp_simps split: if_splits)
  then show thesis
    by (cases "isValid h secret")
      (auto simp: isValid_iff returnM_def split: option.splits if_splits intro: refused ignored confirmed)
qed

text \<open>
  C9. Deliveries of the webhook are idempotent: once a call for a provider reference has returned,
  any number of further calls about that reference, with whatever headers and whatever outcome they
  claim, leave every account, transfer, ledger entry and event as it is.
\<close>

theorem webhook_redelivered:
  assumes ok: "accounts_ok w" "transfers_wf w" "not_system (tr_sourceAccountId r)"
    and found: "List.find (\<lambda>r. tr_providerReference r = Some p) (transfers w) = Some r"
    and run: "ConfirmExternalTransfer_execute E p isSuccessful reason w = (Inr u, w')"
    and ds: "\<forall>(E, h, payload) \<in> set ds. payload_about p payload"
  shows "\<exists>n. deliveries secret ds w' = w'\<lparr>ticks := n\<rparr>"
proof -
  obtain r' where r': "List.find (\<lambda>r. tr_providerReference r = Some p) (transfers w') = Some r'"
    "tr_status r' \<in> set TERMINAL_STATUSES"
    by (rule confirm_twice [OF ok found run])
  have "\<exists>n. deliveries secret ds (w'\<lparr>ticks := k\<rparr>) = w'\<lparr>ticks := n\<rparr>" for k
    using ds
  proof (induction ds arbitrary: k)
    case Nil
    show ?case by auto
  next
    case (Cons d ds)
    obtain E2 h pl where d: "d = (E2, h, pl)" by (metis prod.exhaust)
    obtain res w2 where one: "FlutterwaveWebhook_handle E2 secret h pl (w'\<lparr>ticks := k\<rparr>) = (res, w2)" by fastforce
    have "\<exists>n. w2 = w'\<lparr>ticks := n\<rparr>"
    proof (cases rule: webhook_cases [OF one])
      case (3 data s)
      have "extractProviderReference data = p" using Cons.prems 3(4) by (simp add: d payload_about_def)
      with 3(7) confirm_terminal [of p "w'\<lparr>ticks := k\<rparr>" r'] r' show ?thesis by fastforce
    qed auto
    with Cons d one show ?case by auto
  qed
  from this [of "ticks w'"] show ?thesis by simp
qed

text \<open>
  C39. Nobody without the secret moves money through the webhook: a call that changes anything came
  with exactly the configured, non-empty secret and reports a final outcome of a completed transfer,
  and what it does is the confirmation of that transfer; a call with any other header is answered
  with a bad request.
\<close>

theorem webhook_authentic:
  assumes "FlutterwaveWebhook_handle E secret h payload w = (res, w')"
  shows "if \<exists>s. s \<noteq> [] \<and> h = Some s \<and> secret = Some s
    then w' = w \<and> res = Inr () \<or>
      (\<exists>data. wp_data payload = Some data \<and> wp_event payload = ''transfer.completed'' \<and>
         (isTerminalSuccess data \<or> isTerminalFailure data) \<and>
         ConfirmExternalTransfer_execute E (extractProviderReference data) (isTerminalSuccess data)
           (if isTerminalFailure data then complete_message data else None) w = (res, w'))
    else w' = w \<and> res = Inl (BadRequestException ''Invalid webhook signature'')"
proof (cases rule: webhook_cases [OF assms])
  case 2
  have "FlutterwaveWebhook_handle E secret h payload w = (Inl (BadRequestException ''Invalid webhook signature''), w)"
    if "\<not> (\<exists>s. s \<noteq> [] \<and> h = Some s \<and> secret = Some s)"
    using that unfolding isValid_iff [symmetric] by (simp add: FlutterwaveWebhook_handle_def bindM_def comp_simps)
  with 2 assms show ?thesis by auto
qed auto

section \<open>A late failure that is interrupted\<close>

lemma bindM_left [simp]: "bindM (returnM x) f = f x" "bindM (liftE (Inr x)) f = f x"
  by (simp_all add: bindM_def returnM_def liftE_def fun_eq_iff)

lemma reverseConfirmed_accounts:
  assumes run: "reverseConfirmed E x reason w = (res, w')" and ok: "accounts_ok w"
    and x: "TransferMapper_toDomain r = Inr x"
  shows "accounts w' = accounts w \<or>
    (\<exists>a b. a \<in> set (accounts w) \<and> ar_id a = tr_sourceAccountId r \<and>
       balance_changed a b (tr_amountMinorUnits r + tr_feeMinorUnits r) \<and> accounts w' = put_account b (accounts w))"
proof -
  have keep: "preserves (\<lambda>w. accounts w = v) (storeReversed E x reason src)" for v src
    unfolding publishAll_def storeReversed_def
    by (intro preserves_rules preserves_transfer_save preserves_now preserves_modifyM) simp_all
  obtain z w1 where load: "account_findById E (tf_sourceAccountId x) w = (z, w1)" by fastforce
  show ?thesis
  proof (cases z)
    case (Inl e)
    with run load have "w' = w1" by (simp add: reverseConfirmed_def bindM_def)
    with readsD [OF reads_account_findById load] show ?thesis by auto
  next
    case (Inr found)
    obtain n where w1: "w1 = w\<lparr>ticks := n\<rparr>" and found: "case found of
        None \<Rightarrow> \<forall>a \<in> set (accounts w). ar_id a \<noteq> tr_sourceAccountId r
      | Some acc \<Rightarrow> \<exists>a. a \<in> set (accounts w) \<and> acc = account_of_row a \<and> ar_id a = tr_sourceAccountId r"
      by (rule source_found [OF load [unfolded Inr] ok x])
    obtain q w2 where ref: "refundConfirmed E x found w1 = (q, w2)" by fastforce
    have "(case q of Inl e \<Rightarrow> (Inl e, w2) | Inr src \<Rightarrow> storeReversed E x reason src w2) = (res, w')"
      using run load Inr ref by (cases q) (simp_all add: reverseConfirmed_def bindM_def)
    then have same: "accounts w' = accounts w2"
      using preserves_step [OF keep HOL.refl] by (cases q) auto
    have ok1: "accounts_ok w1" using ok w1 by (simp add: accounts_ok_def)
    have "case found of None \<Rightarrow> True
      | Some acc \<Rightarrow> \<exists>a. a \<in> set (accounts w1) \<and> acc = account_of_row a \<and> ar_id a = tr_sourceAccountId r"
      using found w1 by (simp split: option.splits)
    then show ?thesis by (rule refundConfirmed_outcome [OF ref ok1 x]) (use same w1 in auto)
  qed
qed


text \<open>
  The credit of a late failure is saved before the transfer is marked. When the handler breaks
  off in between, with the account already credited and the transfer still open, the next delivery
  credits the account again: the customer has amount and fee back twice.
\<close>

theorem late_failure_pays_twice:
  assumes ok: "accounts_ok w" "transfers_wf w" "not_system (tr_sourceAccountId r)"
    and found: "List.find (\<lambda>r. tr_providerReference r = Some p) (transfers w) = Some r"
    and first: "ConfirmExternalTransfer_execute E p False reason w = (Inl e, w1)"
    and broke_off: "accounts w1 \<noteq> accounts w" "transfers w1 = transfers w"
    and second: "ConfirmExternalTransfer_execute E' p False reason' w1 = (Inr u, w2)"
  shows "\<exists>a b. a \<in> set (accounts w) \<and> ar_id a = tr_sourceAccountId r \<and> acc_id b = ar_id a \<and>
    minorUnits (acc_balance b) = ar_balance a + 2 * (tr_amountMinorUnits r + tr_feeMinorUnits r) \<and>
    accounts w2 = put_account b (accounts w)"
proof -
  let ?d = "tr_amountMinorUnits r + tr_feeMinorUnits r"
  obtain f v where f: "findByProviderReference E p w = (f, v)" by fastforce
  from readsD [OF reads_transfer_find(2) f] obtain n where v: "v = w\<lparr>ticks := n\<rparr>" by blast
  obtain x where x: "TransferMapper_toDomain r = Inr x" and rev: "reverseConfirmed E x reason v = (Inl e, w1)"
  proof (cases f)
    case (Inl e')
    with first f v have "w1 = v" by (simp add: ConfirmExternalTransfer_execute_def bindM_def)
    with broke_off v show thesis by simp
  next
    case (Inr y)
    then obtain x where x: "y = Some x" "TransferMapper_toDomain r = Inr x"
      using f found
      by (auto simp: findByProviderReference_def bindM_eq_Inr comp_simps bindE_eq_Inr dest!: query_eq_Inr)
    with first f Inr have "reverseConfirmed E x reason v = (Inl e, w1)"
      by (auto simp: ConfirmExternalTransfer_execute_def bindM_def comp_simps returnM_def split: if_splits)
    with x(2) that show thesis by blast
  qed
  have okv: "accounts_ok v" using ok(1) v by (simp add: accounts_ok_def)
  from reverseConfirmed_accounts [OF rev okv x] broke_off v obtain a b where
    a: "a \<in> set (accounts w)" "ar_id a = tr_sourceAccountId r" and b: "balance_changed a b ?d"
    and w1: "accounts w1 = put_account b (accounts w)" by auto
  have ok1: "accounts_ok w1" by (rule balance_changed_put_ok [OF b ok(1) a(1) w1])
  have found1: "List.find (\<lambda>r. tr_providerReference r = Some p) (transfers w1) = Some r" "transfers_wf w1"
    using found ok(2) broke_off(2) by (simp_all add: transfers_wf_def)
  have idb: "acc_id b = ar_id a" using b by (simp add: balance_changed_def)
  have row: "AccountMapper_toPersistence b \<in> set (accounts w1)"
    using a(1) idb by (auto simp: w1 put_account_def image_iff)
  have keyed: "ar_id (AccountMapper_toPersistence b) = tr_sourceAccountId r"
    "ar_balance (AccountMapper_toPersistence b) = ar_balance a + ?d"
    using b a(2) idb by (simp_all add: balance_changed_def AccountMapper_toPersistence_def)
  have open_: "tr_status r \<notin> set TERMINAL_STATUSES"
  proof
    assume "tr_status r \<in> set TERMINAL_STATUSES"
    from confirm_terminal [OF found this first] broke_off show False by auto
  qed
  from confirm_outcome [OF second ok1 found1(2) ok(3) found1(1)] open_ row keyed(1) obtain a' b' where
    a': "a' \<in> set (accounts w1)" "ar_id a' = tr_sourceAccountId r" and b': "balance_changed a' b' ?d"
    and w2: "accounts w2 = put_account b' (accounts w1)"
    by (auto simp: confirmed_def)
  have "a' = AccountMapper_toPersistence b"
    using account_row_unique [OF ok1 a'(1) row] a'(2) keyed(1) by simp
  then have "minorUnits (acc_balance b') = ar_balance a + 2 * ?d" "acc_id b' = ar_id a"
    using b' keyed a(2) by (auto simp: balance_changed_def)
  moreover from this have "accounts w2 = put_account b' (accounts w)"
    using w2 w1 idb put_account_twice [of b' b] by simp
  ultimately show ?thesis using a by blast
qed



section \<open>Examples\<close>

definition payoutWorld :: world where
  "payoutWorld = payWorld\<lparr>accounts := [AccountMapper_toPersistence (exampleAccount\<lparr>acc_balance := ngn 2000\<rparr>)]\<rparr>"

lemma payoutWorld_ok: "accounts_ok payoutWorld"
  by (simp_all add: accounts_ok_def payoutWorld_def exampleAccount_def AccountMapper_toPersistence_def
      account_row_ok_def account_ok_def money_ok_def matches_digits_def is_digit_def fits_int8_def)

text \<open>A provider that accepts every payout and settles it later.\<close>

definition acceptingClient :: flutterwaveClient where
  "acceptingClient = (\<lambda>n request. Inr \<lparr>rp_success = True, rp_message = ''Transfer queued'',
     rp_data = Some \<lparr>td_id = 7, td_status = FS_NEW, complete_message = None\<rparr>\<rparr>)"

abbreviation examplePayout :: "env \<Rightarrow> flutterwaveClient \<Rightarrow> (string \<times> transferResponseDto) action" where
  "examplePayout E client \<equiv> initiateExternal_doExecute E client ''https://kudi/hook'' ''u1'' ''a1'' ''044''
     ''0123456789'' None ''1.00'' ''rent''"

lemma not_system_example: "not_system ''a1''"
  by (simp add: not_system_def externalPayoutClearing_def externalPayoutSettled_def feeRevenue_def)

theorem external_payout_accounts_witness:
  "\<exists>w'. examplePayout exampleEnv (\<lambda>n request. Inl connectionLost) payoutWorld = (Inl connectionLost, w') \<and>
     accounts_ok w' \<and> map ar_balance (accounts w') = [2000]"
proof -
  let ?run = "examplePayout exampleEnv (\<lambda>n request. Inl connectionLost)"
  have "case ?run payoutWorld of (res, w') \<Rightarrow> res = Inl connectionLost \<and> map ar_balance (accounts w') = [2000]"
    by code_simp
  moreover obtain res w' where run: "?run payoutWorld = (res, w')" by fastforce
  ultimately have "res = Inl connectionLost" "map ar_balance (accounts w') = [2000]" by (simp_all only: split_conv simp_thms)
  moreover from external_payout_accounts [OF payoutWorld_ok run] have "accounts_ok w'" ..
  ultimately show ?thesis using run by (intro exI [of _ w']) (simp only: simp_thms)
qed

theorem external_payout_returned_witness:
  "\<exists>x w'. TransferMapper_toPersistence x \<in> set (transfers w') \<and> tf_status x = TS_PROCESSING \<and>
     w' = snd (examplePayout exampleEnv acceptingClient payoutWorld) \<and> map ar_balance (accounts w') = [900]"
proof -
  let ?run = "examplePayout exampleEnv acceptingClient"
  have "case ?run payoutWorld of (res, w') \<Rightarrow> \<not> isl res \<and> map ar_balance (accounts w') = [900] \<and>
      map tr_status (transfers w') = [TS_PROCESSING]" by code_simp
  moreover obtain z w' where run1: "?run payoutWorld = (z, w')" by fastforce
  ultimately have z: "\<not> isl z" and bal: "map ar_balance (accounts w') = [900]"
    and st: "map tr_status (transfers w') = [TS_PROCESSING]" by (simp_all only: split_conv simp_thms)
  from z obtain i dto where "z = Inr (i, dto)" by (metis sum.collapse(2) surj_pair)
  with run1 have run: "?run payoutWorld = (Inr (i, dto), w')" by (simp only:)
  from external_payout_returned [OF payoutWorld_ok not_system_example run] obtain x where
    x: "TransferMapper_toPersistence x \<in> set (transfers w')" by metis
  moreover from st have "tr_status r = TS_PROCESSING" if "r \<in> set (transfers w')" for r
    using that by (cases "transfers w'") auto
  ultimately have "tr_status (TransferMapper_toPersistence x) = TS_PROCESSING" by blast
  then have "tf_status x = TS_PROCESSING" by (simp add: TransferMapper_toPersistence_def)
  moreover have "w' = snd (?run payoutWorld)" by (simp only: run1 snd_conv)
  ultimately show ?thesis using x bal by (intro exI [of _ x] exI [of _ w']) (simp only: simp_thms)
qed

text \<open>
  The payout of the example is accepted by the provider, and then storing that fails: the catch
  block gives the money back although the payout is under way. Its own save of the transfer then
  fails too, on the version that was never stored, so the transfer stays PENDING without the
  provider's reference, no later answer of the provider finds it, and the caller gets a concurrency
  error.
\<close>

theorem accepted_payout_given_back:
  "case examplePayout (exampleEnv\<lparr>dbFault := \<lambda>n. if n = 20 then FaultBefore else NoFault\<rparr>) acceptingClient payoutWorld of
     (res, w') \<Rightarrow> (case res of Inl (DomainExn n c m s) \<Rightarrow> c = ''CONCURRENT_MODIFICATION'' | _ \<Rightarrow> False) \<and>
       map ar_balance (accounts w') = [2000] \<and>
       map (\<lambda>r. (tr_status r, tr_providerReference r)) (transfers w') = [(TS_PENDING, None)]"
  by code_simp

text \<open>
  Holding the money is not one database transaction: when storing the transfer fails after the
  debit is saved, amount and fee are gone from the account and neither a transfer nor a ledger entry
  says where they are.
\<close>

theorem held_money_without_record:
  "case examplePayout (exampleEnv\<lparr>dbFault := \<lambda>n. if n = 10 then FaultBefore else NoFault\<rparr>) acceptingClient payoutWorld of
     (res, w') \<Rightarrow> res = Inl connectionLost \<and> map ar_balance (accounts w') = [900] \<and>
       transfers w' = [] \<and> ledgerEntries w' = []"
  by code_simp

text \<open>The transfer the examples of the provider's answer are about.\<close>

definition confirmWorld :: world where
  "confirmWorld = payoutWorld\<lparr>transfers := [TransferMapper_toPersistence
     (exampleTransfer\<lparr>tf_status := TS_PROCESSING, tf_providerReference := Some ''7'', tf_version := 1\<rparr>)]\<rparr>"

lemma confirmWorld_ok: "accounts_ok confirmWorld" "transfers_wf confirmWorld"
  "List.find (\<lambda>r. tr_providerReference r = Some ''7'') (transfers confirmWorld) = Some (hd (transfers confirmWorld))"
  "not_system (tr_sourceAccountId (hd (transfers confirmWorld)))"
  "not_system ''a1''"
  using payoutWorld_ok not_system_example
  by (simp_all add: confirmWorld_def accounts_ok_def transfers_wf_def TransferMapper_toPersistence_def exampleTransfer_def)

theorem confirm_effect_witness:
  "\<exists>w'. ConfirmExternalTransfer_execute exampleEnv ''7'' False None confirmWorld = (Inr (), w') \<and>
     confirmed (hd (transfers confirmWorld)) False confirmWorld w' \<and> map ar_balance (accounts w') = [2110]"
proof -
  let ?run = "ConfirmExternalTransfer_execute exampleEnv ''7'' False None"
  have "case ?run confirmWorld of (res, w') \<Rightarrow> res = Inr () \<and> map ar_balance (accounts w') = [2110]" by code_simp
  moreover obtain res w' where run: "?run confirmWorld = (res, w')" by fastforce
  ultimately have res: "res = Inr ()" and bal: "map ar_balance (accounts w') = [2110]" by (simp_all only: split_conv simp_thms)
  from confirm_effect [OF confirmWorld_ok(1,2,4,3) run [unfolded res]] run res bal show ?thesis
    by (intro exI [of _ w']) (simp only: simp_thms)
qed

theorem webhook_redelivered_witness:
  "\<exists>w'. ConfirmExternalTransfer_execute exampleEnv ''7'' True None confirmWorld = (Inr (), w') \<and>
     (\<exists>n. deliveries (Some ''s'') [(exampleEnv, Some ''s'', \<lparr>wp_event = ''transfer.completed'',
        wp_data = Some \<lparr>td_id = 7, td_status = FS_FAILED, complete_message = None\<rparr>\<rparr>)] w' = w'\<lparr>ticks := n\<rparr>)"
proof -
  let ?run = "ConfirmExternalTransfer_execute exampleEnv ''7'' True None"
  let ?pl = "\<lparr>wp_event = ''transfer.completed'',
        wp_data = Some \<lparr>td_id = 7, td_status = FS_FAILED, complete_message = None\<rparr>\<rparr>"
  have "fst (?run confirmWorld) = Inr ()" by code_simp
  then obtain w' where run: "?run confirmWorld = (Inr (), w')" by (metis prod.collapse)
  have "extractProviderReference \<lparr>td_id = 7, td_status = FS_FAILED, complete_message = None\<rparr> = ''7''" by code_simp
  then have "\<forall>(E, h, payload) \<in> set [(exampleEnv, Some ''s'', ?pl)]. payload_about ''7'' payload"
    by (simp add: payload_about_def)
  from webhook_redelivered [OF confirmWorld_ok(1,2,4,3) run this] run show ?thesis by blast
qed

theorem webhook_authentic_witness:
  "\<exists>w'. FlutterwaveWebhook_handle exampleEnv (Some ''s'') (Some ''t'') \<lparr>wp_event = ''transfer.completed'',
      wp_data = Some \<lparr>td_id = 7, td_status = FS_FAILED, complete_message = None\<rparr>\<rparr> confirmWorld =
    (Inl (BadRequestException ''Invalid webhook signature''), w') \<and> w' = confirmWorld"
proof -
  obtain res w' where run: "FlutterwaveWebhook_handle exampleEnv (Some ''s'') (Some ''t'') \<lparr>wp_event = ''transfer.completed'',
      wp_data = Some \<lparr>td_id = 7, td_status = FS_FAILED, complete_message = None\<rparr>\<rparr> confirmWorld = (res, w')" by fastforce
  from webhook_authentic [OF this] run show ?thesis by simp
qed

text \<open>The save of the marked transfer is the seventh use of the surroundings; here it fails.\<close>

definition markEnv :: env where
  "markEnv = exampleEnv\<lparr>dbFault := \<lambda>n. if n = 6 then FaultBefore else NoFault\<rparr>"

theorem late_failure_pays_twice_witness:
  "\<exists>w1 w2 b. ConfirmExternalTransfer_execute markEnv ''7'' False None confirmWorld = (Inl connectionLost, w1) \<and>
     ConfirmExternalTransfer_execute exampleEnv ''7'' False None w1 = (Inr (), w2) \<and>
     minorUnits (acc_balance b) = 2000 + 2 * (100 + 10) \<and> accounts w2 = put_account b (accounts confirmWorld)"
proof -
  let ?run1 = "ConfirmExternalTransfer_execute markEnv ''7'' False None"
  let ?run2 = "ConfirmExternalTransfer_execute exampleEnv ''7'' False None"
  have "case ?run1 confirmWorld of (res, w1) \<Rightarrow> res = Inl connectionLost \<and> accounts w1 \<noteq> accounts confirmWorld \<and>
      transfers w1 = transfers confirmWorld \<and> fst (?run2 w1) = Inr ()" by code_simp
  moreover obtain res w1 where run: "?run1 confirmWorld = (res, w1)" by fastforce
  ultimately have res: "res = Inl connectionLost" and w1: "accounts w1 \<noteq> accounts confirmWorld"
      "transfers w1 = transfers confirmWorld" and "fst (?run2 w1) = Inr ()" by (simp_all only: split_conv simp_thms)
  then obtain w2 where run2: "?run2 w1 = (Inr (), w2)" by (metis prod.collapse)
  have row: "a \<in> set (accounts confirmWorld) \<Longrightarrow> ar_balance a = 2000" for a
    by (simp add: confirmWorld_def payoutWorld_def AccountMapper_toPersistence_def)
  have amounts: "tr_amountMinorUnits (hd (transfers confirmWorld)) = 100" "tr_feeMinorUnits (hd (transfers confirmWorld)) = 10"
    by (simp_all add: confirmWorld_def exampleTransfer_def TransferMapper_toPersistence_def)
  from late_failure_pays_twice [OF confirmWorld_ok(1,2,4,3) run [unfolded res] w1 run2] obtain a b where
    "a \<in> set (accounts confirmWorld)" and b: "minorUnits (acc_balance b) = ar_balance a + 2 * (100 + 10)"
      "accounts w2 = put_account b (accounts confirmWorld)" unfolding amounts by (elim exE conjE)
  with row have "minorUnits (acc_balance b) = 2000 + 2 * (100 + 10)" by (simp only:)
  with run res run2 b(2) show ?thesis
    by (intro exI [of _ w1] exI [of _ w2] exI [of _ b]) (simp only: simp_thms)
qed

end
