(* ===== verification/Strings.thy ===== *)
theory Strings
  imports Prelude
begin

text \<open>
  The JavaScript string operations of the identity and compliance modules: white space, \<open>trim\<close>,
  upper and lower case, splitting at white space and joining, for strings of the code units below
  256 the library's strings hold.
\<close>

section \<open>Characters\<close>

abbreviation code_unit :: "char \<Rightarrow> nat" where
  "code_unit c \<equiv> of_char c"

text \<open>\<open>\s\<close> and what \<open>trim\<close> removes: tab, line feed, vertical tab, form feed, return, space, no-break space.\<close>

definition is_space :: "char \<Rightarrow> bool" where
  "is_space c \<longleftrightarrow> (9 \<le> code_unit c \<and> code_unit c \<le> 13) \<or> code_unit c = 32 \<or> code_unit c = 160"

definition is_upper :: "char \<Rightarrow> bool" where
  "is_upper c \<longleftrightarrow> 65 \<le> code_unit c \<and> code_unit c \<le> 90"

definition is_lower :: "char \<Rightarrow> bool" where
  "is_lower c \<longleftrightarrow> 97 \<le> code_unit c \<and> code_unit c \<le> 122"

text \<open>\<open>toLowerCase\<close>: the letters of ASCII and of Latin-1.\<close>

definition lower_char :: "char \<Rightarrow> char" where
  "lower_char c =
     (if is_upper c \<or> (192 \<le> code_unit c \<and> code_unit c \<le> 222 \<and> code_unit c \<noteq> 215)
      then char_of (code_unit c + 32) else c)"

definition toLowerCase :: "string \<Rightarrow> string" where
  "toLowerCase s = map lower_char s"

text \<open>
  \<open>toUpperCase\<close>: sharp s becomes two letters. The micro sign and y with diaeresis leave the code
  units below 256 and are kept; neither they nor their images are letters of ASCII or white space.
\<close>

definition upper_char :: "char \<Rightarrow> string" where
  "upper_char c =
     (if code_unit c = 223 then ''SS''
      else if is_lower c \<or> (224 \<le> code_unit c \<and> code_unit c \<le> 254 \<and> code_unit c \<noteq> 247)
      then [char_of (code_unit c - 32)] else [c])"

definition toUpperCase :: "string \<Rightarrow> string" where
  "toUpperCase s = concat (map upper_char s)"

section \<open>Trimming, splitting, joining\<close>

definition trim :: "string \<Rightarrow> string" where
  "trim s = rev (dropWhile is_space (rev (dropWhile is_space s)))"

text \<open>
  \<open>s.split(/\s+/)\<close> up to empty strings, which the code filters out: a new word starts after every
  white space.
\<close>

fun split_spaces :: "string \<Rightarrow> string list" where
  "split_spaces [] = [[]]"
| "split_spaces (c # s) =
     (if is_space c then [] # split_spaces s
      else (case split_spaces s of [] \<Rightarrow> [[c]] | w # ws \<Rightarrow> (c # w) # ws))"

text \<open>\<open>parts.join(sep)\<close>\<close>

fun join :: "string \<Rightarrow> string list \<Rightarrow> string" where
  "join sep [] = []"
| "join sep [s] = s"
| "join sep (s # t # ss) = s @ sep @ join sep (t # ss)"

section \<open>Facts\<close>

lemma of_char_char_of_small [simp]: "n < 256 \<Longrightarrow> code_unit (char_of n) = n"
  by (simp add: take_bit_eq_mod)

lemma lower_char_twice [simp]: "lower_char (lower_char c) = lower_char c"
proof -
  have "code_unit c + 32 < 256" if "is_upper c \<or> (192 \<le> code_unit c \<and> code_unit c \<le> 222 \<and> code_unit c \<noteq> 215)"
    using that by (auto simp: is_upper_def)
  then show ?thesis unfolding lower_char_def by (auto simp: is_upper_def)
qed

lemma is_space_lower [simp]: "is_space (lower_char c) = is_space c"
proof -
  have "code_unit c + 32 < 256" if "is_upper c \<or> (192 \<le> code_unit c \<and> code_unit c \<le> 222 \<and> code_unit c \<noteq> 215)"
    using that by (auto simp: is_upper_def)
  then show ?thesis unfolding lower_char_def by (auto simp: is_upper_def is_space_def)
qed

lemma toLowerCase_twice [simp]: "toLowerCase (toLowerCase s) = toLowerCase s"
  by (simp add: toLowerCase_def comp_def)

lemma trim_Nil [simp]: "trim [] = []"
  by (simp add: trim_def)

lemma dropWhile_head: "dropWhile P xs = [] \<or> \<not> P (hd (dropWhile P xs))"
  using hd_dropWhile by blast

text \<open>A string that neither starts nor ends with white space is its own trim.\<close>

lemma trim_id: "s = [] \<or> \<not> is_space (hd s) \<and> \<not> is_space (last s) \<Longrightarrow> trim s = s"
proof -
  have head: "dropWhile is_space xs = xs" if "xs = [] \<or> \<not> is_space (hd xs)" for xs
    using that by (cases xs) auto
  assume "s = [] \<or> \<not> is_space (hd s) \<and> \<not> is_space (last s)"
  then show "trim s = s" using head [of s] head [of "rev s"] by (auto simp: trim_def hd_rev)
qed

lemma trim_no_space: "\<forall>c \<in> set s. \<not> is_space c \<Longrightarrow> trim s = s"
  by (rule trim_id) (cases s; auto)

lemma split_spaces_nonempty: "split_spaces s \<noteq> []"
  by (induction s) (auto split: list.splits)

lemma set_split_spaces: "w \<in> set (split_spaces s) \<Longrightarrow> c \<in> set w \<Longrightarrow> c \<in> set s \<and> \<not> is_space c"
proof (induction s arbitrary: w)
  case (Cons x s)
  obtain v vs where v: "split_spaces s = v # vs" using split_spaces_nonempty [of s] by (cases "split_spaces s") auto
  then have IH: "\<And>w. w \<in> set (v # vs) \<Longrightarrow> c \<in> set w \<Longrightarrow> c \<in> set s \<and> \<not> is_space c" using Cons.IH by simp
  show ?case
  proof (cases "is_space x")
    case True
    then show ?thesis using Cons.prems v IH by auto
  next
    case False
    then have "w = x # v \<or> w \<in> set vs" using Cons.prems(1) v by auto
    then show ?thesis using IH [of v] IH [of w] Cons.prems(2) False by auto
  qed
qed simp

lemma length_join_pos: "0 < length (join sep ss) \<Longrightarrow> ss \<noteq> []"
  by (cases ss) auto

end
