(* ===== verification/Users.thy ===== *)
theory Users
  imports Store Strings
begin

text \<open>
  The identity domain (\<^verbatim>\<open>modules/identity/domain\<close>): the value objects, the \<open>User\<close>
  aggregate with its lockout, the \<open>RefreshToken\<close> entity, and their mappers and repositories.
\<close>

section \<open>Value objects\<close>

datatype email = Email (email_value: string)

text \<open>
  \<open>EMAIL_REGEX\<close>: no white space, one at sign with something before it, and a dot strictly inside of
  what follows it.
\<close>

definition is_email :: "string \<Rightarrow> bool" where
  "is_email s \<longleftrightarrow>
     list_all (\<lambda>c. \<not> is_space c) s \<and>
     (let local = takeWhile (\<lambda>c. c \<noteq> CHR ''@'') s; rest = drop (Suc (length local)) s
      in local \<noteq> [] \<and> length local < length s \<and> CHR ''@'' \<notin> set rest \<and>
         CHR ''.'' \<in> set (butlast (tl rest)))"

definition Email_create :: "string \<Rightarrow> exn + email" where
  "Email_create rawEmail =
     (let normalized = toLowerCase (trim rawEmail)
      in if normalized = [] \<or> \<not> is_email normalized
         then Inl (DomainException (''Invalid email address: '' @ rawEmail) ''INVALID_EMAIL'')
         else if length normalized > 254
         then Inl (DomainException ''Email address exceeds maximum length'' ''INVALID_EMAIL'')
         else Inr (Email normalized))"

datatype phoneNumber = PhoneNumber (phone_value: string)

text \<open>\<open>E164_REGEX\<close>: a plus sign, a digit that is not zero, and 7 to 14 digits.\<close>

definition is_e164 :: "string \<Rightarrow> bool" where
  "is_e164 s \<longleftrightarrow>
     (case s of
        p # d # ds \<Rightarrow> p = CHR ''+'' \<and> is_digit d \<and> d \<noteq> CHR ''0'' \<and>
          7 \<le> length ds \<and> length ds \<le> 14 \<and> list_all is_digit ds
      | _ \<Rightarrow> False)"

definition PhoneNumber_create :: "string \<Rightarrow> exn + phoneNumber" where
  "PhoneNumber_create rawNumber =
     (let normalized = filter (\<lambda>c. \<not> is_space c \<and> c \<noteq> CHR ''-'') (trim rawNumber)
      in if normalized = [] \<or> \<not> is_e164 normalized
         then Inl (DomainException (''Invalid phone number, expected E.164 format: '' @ rawNumber)
                     ''INVALID_PHONE_NUMBER'')
         else Inr (PhoneNumber normalized))"

datatype plainPassword = PlainPassword (plain_value: string)

definition PlainPassword_create :: "string \<Rightarrow> exn + plainPassword" where
  "PlainPassword_create rawPassword =
     (if rawPassword = [] \<or> length rawPassword < 10
      then Inl (DomainException ''Password must be at least 10 characters'' ''WEAK_PASSWORD'')
      else Inr (PlainPassword rawPassword))"

datatype hashedPassword = HashedPassword (hash_value: string)

definition HashedPassword_fromHash :: "string \<Rightarrow> exn + hashedPassword" where
  "HashedPassword_fromHash hash =
     (if hash = [] then Inl (DomainException ''Password hash cannot be empty'' ''INVALID_PASSWORD_HASH'')
      else Inr (HashedPassword hash))"

section \<open>The user aggregate\<close>

record user =
  u_id :: string
  u_email :: email
  u_phoneNumber :: phoneNumber
  u_passwordHash :: hashedPassword
  u_firstName :: string
  u_lastName :: string
  u_role :: userRole
  u_status :: userStatus
  u_failedLoginAttempts :: int
  u_lockedUntil :: "int option"
  u_lastLoginAt :: "int option"
  u_createdAt :: int
  u_updatedAt :: int
  u_events :: "domain_event list"

definition MAX_FAILED_LOGIN_ATTEMPTS :: int where
  "MAX_FAILED_LOGIN_ATTEMPTS = 5"

definition LOCKOUT_DURATION_MS :: int where
  "LOCKOUT_DURATION_MS = 15 * 60 * 1000"

text \<open>As for the other aggregates, a method takes the time of the call and a new identifier.\<close>

definition user_addDomainEvent :: "int \<Rightarrow> event \<Rightarrow> user \<Rightarrow> user" where
  "user_addDomainEvent t e u = u\<lparr>u_events := u_events u @ [domainEvent t e]\<rparr>"

definition user_register ::
  "int \<Rightarrow> string \<Rightarrow> email \<Rightarrow> phoneNumber \<Rightarrow> hashedPassword \<Rightarrow> string \<Rightarrow> string \<Rightarrow> userRole option \<Rightarrow> user" where
  "user_register t newId email phone passwordHash firstName lastName role =
     (let r = (case role of None \<Rightarrow> UR_CUSTOMER | Some r \<Rightarrow> r)
      in user_addDomainEvent t (UserRegisteredEvent newId (email_value email) (userRole_str r))
           \<lparr>u_id = newId, u_email = email, u_phoneNumber = phone, u_passwordHash = passwordHash,
            u_firstName = firstName, u_lastName = lastName, u_role = r,
            u_status = US_PENDING_VERIFICATION, u_failedLoginAttempts = 0, u_lockedUntil = None,
            u_lastLoginAt = None, u_createdAt = t, u_updatedAt = t, u_events = []\<rparr>)"

text \<open>The assertion unlocks a user whose lockout has ended.\<close>

definition assertCanAttemptLogin :: "int \<Rightarrow> user \<Rightarrow> exn + user" where
  "assertCanAttemptLogin t u =
     (if u_status u = US_LOCKED then
        (case u_lockedUntil u of
           Some l \<Rightarrow>
             if l > t then Inl (AccountLockedException (toISOString l))
             else Inr (u\<lparr>u_status := US_ACTIVE, u_failedLoginAttempts := 0, u_lockedUntil := None,
                         u_updatedAt := t\<rparr>)
         | None \<Rightarrow> Inr (u\<lparr>u_status := US_ACTIVE, u_failedLoginAttempts := 0, u_lockedUntil := None,
                         u_updatedAt := t\<rparr>))
      else if u_status u \<noteq> US_ACTIVE \<and> u_status u \<noteq> US_PENDING_VERIFICATION
      then Inl (UserNotActiveException (userStatus_str (u_status u)))
      else Inr u)"

definition recordSuccessfulLogin :: "int \<Rightarrow> string option \<Rightarrow> string option \<Rightarrow> user \<Rightarrow> user" where
  "recordSuccessfulLogin t ipAddress userAgent u =
     user_addDomainEvent t (UserLoggedInEvent (u_id u) ipAddress userAgent)
       (u\<lparr>u_failedLoginAttempts := 0, u_lockedUntil := None,
          u_status := (if u_status u = US_LOCKED then US_ACTIVE else u_status u),
          u_lastLoginAt := Some t, u_updatedAt := t\<rparr>)"

definition recordFailedLogin :: "int \<Rightarrow> string option \<Rightarrow> user \<Rightarrow> user" where
  "recordFailedLogin t ipAddress u =
     (let u1 = u\<lparr>u_failedLoginAttempts := u_failedLoginAttempts u + 1, u_updatedAt := t\<rparr>;
          u2 = user_addDomainEvent t (UserLoginFailedEvent (u_id u) (u_failedLoginAttempts u1) ipAddress) u1
      in if u_failedLoginAttempts u2 \<ge> MAX_FAILED_LOGIN_ATTEMPTS
         then user_addDomainEvent t (UserAccountLockedEvent (u_id u) (t + LOCKOUT_DURATION_MS))
                (u2\<lparr>u_status := US_LOCKED, u_lockedUntil := Some (t + LOCKOUT_DURATION_MS)\<rparr>)
         else u2)"

definition changePassword :: "int \<Rightarrow> hashedPassword \<Rightarrow> user \<Rightarrow> user" where
  "changePassword t newPasswordHash u =
     user_addDomainEvent t (PasswordChangedEvent (u_id u))
       (u\<lparr>u_passwordHash := newPasswordHash, u_updatedAt := t\<rparr>)"

section \<open>Refresh tokens\<close>

record refreshToken =
  rt_id :: string
  rt_userId :: string
  rt_tokenHash :: string
  rt_family :: string
  rt_expiresAt :: int
  rt_revokedAt :: "int option"
  rt_replacedByTokenId :: "string option"
  rt_ipAddress :: "string option"
  rt_userAgent :: "string option"
  rt_createdAt :: int

text \<open>\<open>issue\<close> draws the token's identifier, a family where none is given, and the time.\<close>

definition RefreshToken_issue ::
  "env \<Rightarrow> string \<Rightarrow> string \<Rightarrow> string option \<Rightarrow> int \<Rightarrow> string option \<Rightarrow> string option \<Rightarrow>
   (world, 'e, refreshToken) comp" where
  "RefreshToken_issue E userId tokenHash family expiresAt ipAddress userAgent =
     bindM (uuid E) (\<lambda>newId.
     bindM (case family of Some f \<Rightarrow> returnM f | None \<Rightarrow> uuid E) (\<lambda>fam.
     bindM (now E) (\<lambda>t.
     returnM \<lparr>rt_id = newId, rt_userId = userId, rt_tokenHash = tokenHash, rt_family = fam,
              rt_expiresAt = expiresAt, rt_revokedAt = None, rt_replacedByTokenId = None,
              rt_ipAddress = ipAddress, rt_userAgent = userAgent, rt_createdAt = t\<rparr>)))"

definition isExpired :: "int \<Rightarrow> refreshToken \<Rightarrow> bool" where
  "isExpired t k \<longleftrightarrow> rt_expiresAt k \<le> t"

definition isRevoked :: "refreshToken \<Rightarrow> bool" where
  "isRevoked k \<longleftrightarrow> rt_revokedAt k \<noteq> None"

definition isActive :: "int \<Rightarrow> refreshToken \<Rightarrow> bool" where
  "isActive t k \<longleftrightarrow> \<not> isExpired t k \<and> \<not> isRevoked k"

definition revoke :: "int \<Rightarrow> string option \<Rightarrow> refreshToken \<Rightarrow> refreshToken" where
  "revoke t replacedByTokenId k =
     (let k1 = k\<lparr>rt_revokedAt := Some t\<rparr>
      in case replacedByTokenId of
           Some i \<Rightarrow> if i \<noteq> [] then k1\<lparr>rt_replacedByTokenId := Some i\<rparr> else k1
         | None \<Rightarrow> k1)"

section \<open>Persistence\<close>

definition UserMapper_toDomain :: "user_row \<Rightarrow> exn + user" where
  "UserMapper_toDomain r =
     bindE (Email_create (ur_email r)) (\<lambda>email.
     bindE (PhoneNumber_create (ur_phoneNumber r)) (\<lambda>phone.
     bindE (HashedPassword_fromHash (ur_passwordHash r)) (\<lambda>passwordHash.
     Inr \<lparr>u_id = ur_id r, u_email = email, u_phoneNumber = phone, u_passwordHash = passwordHash,
          u_firstName = ur_firstName r, u_lastName = ur_lastName r, u_role = ur_role r,
          u_status = ur_status r, u_failedLoginAttempts = ur_failedLoginAttempts r,
          u_lockedUntil = ur_lockedUntil r, u_lastLoginAt = ur_lastLoginAt r,
          u_createdAt = ur_createdAt r, u_updatedAt = ur_updatedAt r, u_events = []\<rparr>)))"

definition UserMapper_toPersistence :: "user \<Rightarrow> user_row" where
  "UserMapper_toPersistence u =
     \<lparr>ur_id = u_id u, ur_email = email_value (u_email u), ur_phoneNumber = phone_value (u_phoneNumber u),
      ur_passwordHash = hash_value (u_passwordHash u), ur_firstName = u_firstName u,
      ur_lastName = u_lastName u, ur_role = u_role u, ur_status = u_status u,
      ur_failedLoginAttempts = u_failedLoginAttempts u, ur_lockedUntil = u_lockedUntil u,
      ur_lastLoginAt = u_lastLoginAt u, ur_createdAt = u_createdAt u, ur_updatedAt = u_updatedAt u\<rparr>"

definition RefreshTokenMapper_toDomain :: "refresh_token_row \<Rightarrow> refreshToken" where
  "RefreshTokenMapper_toDomain r =
     \<lparr>rt_id = rr_id r, rt_userId = rr_userId r, rt_tokenHash = rr_tokenHash r, rt_family = rr_family r,
      rt_expiresAt = rr_expiresAt r, rt_revokedAt = rr_revokedAt r,
      rt_replacedByTokenId = rr_replacedByTokenId r, rt_ipAddress = rr_ipAddress r,
      rt_userAgent = rr_userAgent r, rt_createdAt = rr_createdAt r\<rparr>"

definition RefreshTokenMapper_toPersistence :: "refreshToken \<Rightarrow> refresh_token_row" where
  "RefreshTokenMapper_toPersistence k =
     \<lparr>rr_id = rt_id k, rr_userId = rt_userId k, rr_tokenHash = rt_tokenHash k, rr_family = rt_family k,
      rr_expiresAt = rt_expiresAt k, rr_revokedAt = rt_revokedAt k,
      rr_replacedByTokenId = rt_replacedByTokenId k, rr_ipAddress = rt_ipAddress k,
      rr_userAgent = rt_userAgent k, rr_createdAt = rt_createdAt k\<rparr>"

text \<open>
  Prisma's \<open>upsert\<close> by the primary key: the row with the key is replaced, or the row is added, unless
  another row has the same value in a unique column.
\<close>

definition upsert_row :: "('r \<Rightarrow> string) \<Rightarrow> ('r \<Rightarrow> 'r \<Rightarrow> bool) \<Rightarrow> 'r \<Rightarrow> 'r list \<Rightarrow> exn + 'r list" where
  "upsert_row key clash r t =
     (if list_ex (\<lambda>x. key x \<noteq> key r \<and> clash r x) t then Inl uniqueViolation
      else if list_ex (\<lambda>x. key x = key r) t then Inr (map (\<lambda>x. if key x = key r then r else x) t)
      else Inr (t @ [r]))"

definition user_clash :: "user_row \<Rightarrow> user_row \<Rightarrow> bool" where
  "user_clash a b \<longleftrightarrow> ur_email a = ur_email b \<or> ur_phoneNumber a = ur_phoneNumber b"

fun user_toDomainOrNull :: "user_row option \<Rightarrow> exn + user option" where
  "user_toDomainOrNull None = Inr None"
| "user_toDomainOrNull (Some r) = bindE (UserMapper_toDomain r) (\<lambda>u. Inr (Some u))"

definition user_findById :: "env \<Rightarrow> string \<Rightarrow> user option action" where
  "user_findById E i =
     bindM (query E (\<lambda>w. List.find (\<lambda>r. ur_id r = i) (users w))) (\<lambda>record.
     liftE (user_toDomainOrNull record))"

definition user_findByEmail :: "env \<Rightarrow> email \<Rightarrow> user option action" where
  "user_findByEmail E email =
     bindM (query E (\<lambda>w. List.find (\<lambda>r. ur_email r = email_value email) (users w))) (\<lambda>record.
     liftE (user_toDomainOrNull record))"

definition existsByEmail :: "env \<Rightarrow> email \<Rightarrow> bool action" where
  "existsByEmail E email =
     bindM (query E (\<lambda>w. length (filter (\<lambda>r. ur_email r = email_value email) (users w)))) (\<lambda>count.
     returnM (count > 0))"

definition user_save :: "env \<Rightarrow> user \<Rightarrow> unit action" where
  "user_save E u =
     insert_into E users (\<lambda>t w. w\<lparr>users := t\<rparr>) (upsert_row ur_id user_clash (UserMapper_toPersistence u))"

definition token_findById :: "env \<Rightarrow> string \<Rightarrow> refreshToken option action" where
  "token_findById E i =
     bindM (query E (\<lambda>w. List.find (\<lambda>r. rr_id r = i) (refreshTokens w))) (\<lambda>record.
     returnM (map_option RefreshTokenMapper_toDomain record))"

definition findByTokenHash :: "env \<Rightarrow> string \<Rightarrow> refreshToken option action" where
  "findByTokenHash E tokenHash =
     bindM (query E (\<lambda>w. List.find (\<lambda>r. rr_tokenHash r = tokenHash) (refreshTokens w))) (\<lambda>record.
     returnM (map_option RefreshTokenMapper_toDomain record))"

definition token_save :: "env \<Rightarrow> refreshToken \<Rightarrow> unit action" where
  "token_save E token =
     insert_into E refreshTokens (\<lambda>t w. w\<lparr>refreshTokens := t\<rparr>)
       (upsert_row rr_id (\<lambda>a b. rr_tokenHash a = rr_tokenHash b) (RefreshTokenMapper_toPersistence token))"

text \<open>The updates that revoke what is not yet revoked, given the condition on the token.\<close>

definition revoke_where :: "env \<Rightarrow> (refresh_token_row \<Rightarrow> bool) \<Rightarrow> unit action" where
  "revoke_where E cond =
     bindM (now E) (\<lambda>t.
     bindM (update_in E refreshTokens (\<lambda>ts w. w\<lparr>refreshTokens := ts\<rparr>)
              (update_rows (\<lambda>r. cond r \<and> rr_revokedAt r = None) (\<lambda>r. r\<lparr>rr_revokedAt := Some t\<rparr>))) (\<lambda>_.
     returnM ()))"

definition revokeFamily :: "env \<Rightarrow> string \<Rightarrow> unit action" where
  "revokeFamily E family = revoke_where E (\<lambda>r. rr_family r = family)"

definition revokeAllForUser :: "env \<Rightarrow> string \<Rightarrow> unit action" where
  "revokeAllForUser E userId = revoke_where E (\<lambda>r. rr_userId r = userId)"

definition deleteExpired :: "env \<Rightarrow> nat action" where
  "deleteExpired E =
     bindM (now E) (\<lambda>t.
     update_in E refreshTokens (\<lambda>ts w. w\<lparr>refreshTokens := ts\<rparr>)
       (\<lambda>ts. (length (filter (\<lambda>r. rr_expiresAt r < t) ts), delete_rows (\<lambda>r. rr_expiresAt r < t) ts)))"


section \<open>What the value objects accept\<close>

lemma is_email_iff:
  "is_email s \<longleftrightarrow> (\<exists>a b c. s = a @ ''@'' @ b @ ''.'' @ c \<and> a \<noteq> [] \<and> b \<noteq> [] \<and> c \<noteq> [] \<and>
     (\<forall>x \<in> set (a @ b @ c). \<not> is_space x \<and> x \<noteq> CHR ''@''))"
proof
  assume e: "is_email s"
  let ?a = "takeWhile (\<lambda>c. c \<noteq> CHR ''@'') s"
  let ?r = "drop (Suc (length ?a)) s"
  from e have sp: "\<forall>c \<in> set s. \<not> is_space c" and a: "?a \<noteq> []" "length ?a < length s"
    and r: "CHR ''@'' \<notin> set ?r" "CHR ''.'' \<in> set (butlast (tl ?r))"
    by (auto simp: is_email_def Let_def list_all_iff)
  have "s ! length ?a = CHR ''@''" using nth_length_takeWhile [OF a(2)] by simp
  moreover have "s = take (length ?a) s @ s ! length ?a # ?r" using a(2) by (simp add: Cons_nth_drop_Suc)
  ultimately have s: "s = ?a @ ''@'' @ ?r" by (metis append_Cons append_Nil takeWhile_eq_take)
  obtain x t where t: "?r = x # t" using r(2) by (cases ?r) auto
  from r(2) t have dot: "CHR ''.'' \<in> set (butlast t)" by simp
  then obtain u v where uv: "butlast t = u @ CHR ''.'' # v" by (meson split_list)
  have "t \<noteq> []" using dot by auto
  then have "t = u @ CHR ''.'' # (v @ [last t])" using uv append_butlast_last_id [of t] by simp
  then have r2: "?r = (x # u) @ ''.'' @ (v @ [last t])" using t by simp
  have na: "CHR ''@'' \<notin> set ?a" using set_takeWhileD by fastforce
  have "\<forall>y \<in> set (?a @ (x # u) @ (v @ [last t])). \<not> is_space y \<and> y \<noteq> CHR ''@''"
  proof
    fix y assume "y \<in> set (?a @ (x # u) @ (v @ [last t]))"
    moreover have "set (x # u) \<subseteq> set ?r" "set (v @ [last t]) \<subseteq> set ?r" unfolding r2 by auto
    ultimately have "y \<in> set ?a \<or> y \<in> set ?r" by (metis Un_iff set_append subsetD)
    moreover have "set ?a \<subseteq> set s" "set ?r \<subseteq> set s" by (auto dest: set_takeWhileD in_set_dropD)
    ultimately show "\<not> is_space y \<and> y \<noteq> CHR ''@''" using sp na r(1) by blast
  qed
  then show "\<exists>a b c. s = a @ ''@'' @ b @ ''.'' @ c \<and> a \<noteq> [] \<and> b \<noteq> [] \<and> c \<noteq> [] \<and>
     (\<forall>x \<in> set (a @ b @ c). \<not> is_space x \<and> x \<noteq> CHR ''@'')"
    using s a(1) r2 by (intro exI [of _ ?a] exI [of _ "x # u"] exI [of _ "v @ [last t]"]) simp
next
  assume "\<exists>a b c. s = a @ ''@'' @ b @ ''.'' @ c \<and> a \<noteq> [] \<and> b \<noteq> [] \<and> c \<noteq> [] \<and>
     (\<forall>x \<in> set (a @ b @ c). \<not> is_space x \<and> x \<noteq> CHR ''@'')"
  then obtain a b c where s: "s = a @ ''@'' @ b @ ''.'' @ c" and ne: "a \<noteq> []" "b \<noteq> []" "c \<noteq> []"
    and ch: "\<forall>x \<in> set (a @ b @ c). \<not> is_space x \<and> x \<noteq> CHR ''@''" by (elim exE conjE) iprover
  have tw: "takeWhile (\<lambda>c. c \<noteq> CHR ''@'') s = a" unfolding s using ch by (subst takeWhile_append2) auto
  have rest: "drop (Suc (length a)) s = b @ ''.'' @ c" unfolding s by simp
  obtain b0 bs where b: "b = b0 # bs" using ne(2) by (cases b) auto
  have "CHR ''.'' \<in> set (butlast (tl (b @ ''.'' @ c)))" using ne(3) by (simp add: b butlast_append)
  moreover have "CHR ''@'' \<notin> set (b @ ''.'' @ c)" using ch by auto
  moreover have "\<not> is_space x" if "x \<in> set s" for x
  proof -
    have "x \<in> set (a @ b @ c) \<or> x = CHR ''@'' \<or> x = CHR ''.''" using that unfolding s by auto
    moreover have "\<not> is_space (CHR ''@'')" "\<not> is_space (CHR ''.'')" by (simp_all add: is_space_def)
    ultimately show ?thesis using ch by blast
  qed
  moreover have "length a < length s" unfolding s by simp
  ultimately show "is_email s" using ne(1) by (simp only: is_email_def Let_def tw rest list_all_iff) simp
qed

lemma email_no_space: "is_email s \<Longrightarrow> c \<in> set s \<Longrightarrow> \<not> is_space c"
  by (simp add: is_email_def list_all_iff)

lemma email_normal: "is_email s \<Longrightarrow> trim s = s"
  by (rule trim_no_space) (auto dest: email_no_space)

text \<open>A value that a value object holds is accepted again, unchanged.\<close>

lemma Email_create_again: "Email_create raw = Inr e \<Longrightarrow> Email_create (email_value e) = Inr e"
  by (auto simp: Email_create_def Let_def email_normal split: if_splits)

lemma digit_no_space [simp]: "is_digit c \<Longrightarrow> \<not> is_space c"
  by (auto simp: is_digit_def is_space_def)

lemma e164_plain: "is_e164 s \<Longrightarrow> c \<in> set s \<Longrightarrow> \<not> is_space c \<and> c \<noteq> CHR ''-''"
  by (auto simp: is_e164_def is_space_def is_digit_def list_all_iff split: list.splits)

lemma PhoneNumber_create_again: "PhoneNumber_create raw = Inr p \<Longrightarrow> PhoneNumber_create (phone_value p) = Inr p"
proof -
  assume "PhoneNumber_create raw = Inr p"
  then have p: "phone_value p \<noteq> []" "is_e164 (phone_value p)" by (auto simp: PhoneNumber_create_def Let_def split: if_splits)
  then have "trim (phone_value p) = phone_value p" "filter (\<lambda>c. \<not> is_space c \<and> c \<noteq> CHR ''-'') (phone_value p) = phone_value p"
    using e164_plain by (auto intro!: trim_no_space filter_True)
  with p show "PhoneNumber_create (phone_value p) = Inr p" by (simp add: PhoneNumber_create_def)
qed

lemma HashedPassword_again: "HashedPassword_fromHash raw = Inr h \<Longrightarrow> HashedPassword_fromHash (hash_value h) = Inr h"
  by (auto simp: HashedPassword_fromHash_def split: if_splits)

text \<open>A user whose value objects were made by their factories.\<close>

definition user_ok :: "user \<Rightarrow> bool" where
  "user_ok u \<longleftrightarrow> Email_create (email_value (u_email u)) = Inr (u_email u) \<and>
     PhoneNumber_create (phone_value (u_phoneNumber u)) = Inr (u_phoneNumber u) \<and>
     HashedPassword_fromHash (hash_value (u_passwordHash u)) = Inr (u_passwordHash u)"

lemma user_mapper [row_simps]: "user_ok u \<Longrightarrow> UserMapper_toDomain (UserMapper_toPersistence u) = Inr (u\<lparr>u_events := []\<rparr>)"
  by (simp add: user_ok_def UserMapper_toDomain_def UserMapper_toPersistence_def)

lemma UserMapper_toDomain_ok: "UserMapper_toDomain r = Inr u \<Longrightarrow> user_ok u"
  by (auto simp: user_ok_def UserMapper_toDomain_def bindE_eq_Inr
      dest: Email_create_again PhoneNumber_create_again HashedPassword_again)

text \<open>
  What an e-mail address is: the value is the trimmed input in lower case, it consists of a local
  part and a domain with an inner dot, none of them with white space or a second at sign, it has at
  most 254 characters, and everything of this form is accepted.
\<close>

theorem email_create_spec:
  "Email_create raw = Inr e \<longleftrightarrow>
     email_value e = toLowerCase (trim raw) \<and> length (email_value e) \<le> 254 \<and>
     (\<exists>a b c. email_value e = a @ ''@'' @ b @ ''.'' @ c \<and> a \<noteq> [] \<and> b \<noteq> [] \<and> c \<noteq> [] \<and>
        list_all (\<lambda>x. \<not> is_space x \<and> x \<noteq> CHR ''@'') (a @ b @ c))"
  unfolding list_all_iff is_email_iff [symmetric]
  by (cases e) (auto simp: Email_create_def Let_def is_email_def split: if_splits)

section \<open>The life of a user\<close>

datatype user_op =
    AttemptLogin int
  | FailLogin int "string option"
  | SucceedLogin int "string option" "string option"
  | SetPassword int hashedPassword

fun apply_user_op :: "user_op \<Rightarrow> user \<Rightarrow> user" where
  "apply_user_op (AttemptLogin t) u = (case assertCanAttemptLogin t u of Inl e \<Rightarrow> u | Inr v \<Rightarrow> v)"
| "apply_user_op (FailLogin t ip) u = recordFailedLogin t ip u"
| "apply_user_op (SucceedLogin t ip agent) u = recordSuccessfulLogin t ip agent u"
| "apply_user_op (SetPassword t k) u = changePassword t k u"

definition user_run :: "user_op list \<Rightarrow> user \<Rightarrow> user" where
  "user_run ops u = foldl (\<lambda>u f. apply_user_op f u) u ops"

lemmas user_op_defs = assertCanAttemptLogin_def recordFailedLogin_def recordSuccessfulLogin_def changePassword_def
  user_addDomainEvent_def Let_def MAX_FAILED_LOGIN_ATTEMPTS_def LOCKOUT_DURATION_MS_def

definition made_password :: "user_op \<Rightarrow> bool" where
  "made_password f \<longleftrightarrow> (\<forall>t k. f = SetPassword t k \<longrightarrow> HashedPassword_fromHash (hash_value k) = Inr k)"

text \<open>What no operation changes.\<close>

lemma apply_user_op_same:
  "u_id (apply_user_op f u) = u_id u \<and> u_email (apply_user_op f u) = u_email u \<and>
   u_phoneNumber (apply_user_op f u) = u_phoneNumber u \<and> u_role (apply_user_op f u) = u_role u \<and>
   u_firstName (apply_user_op f u) = u_firstName u \<and> u_lastName (apply_user_op f u) = u_lastName u"
  by (cases f) (auto simp: user_op_defs split: sum.splits option.splits if_splits)

lemma apply_user_op_ok: "user_ok u \<Longrightarrow> made_password f \<Longrightarrow> user_ok (apply_user_op f u)"
  by (cases f) (auto simp: user_ok_def made_password_def user_op_defs split: sum.splits option.splits if_splits)

lemma user_run_ok:
  "user_ok u \<Longrightarrow> list_all made_password ops \<Longrightarrow> user_ok (user_run ops u) \<and>
    u_id (user_run ops u) = u_id u \<and> u_email (user_run ops u) = u_email u \<and>
    u_phoneNumber (user_run ops u) = u_phoneNumber u \<and> u_role (user_run ops u) = u_role u"
proof (induction ops arbitrary: u)
  case Nil
  then show ?case by (simp add: user_run_def)
next
  case (Cons f ops)
  have "user_run (f # ops) u = user_run ops (apply_user_op f u)" by (simp add: user_run_def)
  with Cons apply_user_op_ok [of u f] apply_user_op_same [of f u] show ?case by simp
qed

text \<open>
  Storing a user and loading it again loses nothing but the pending events, and identity, address
  and role are those of the registration, after any sequence of operations on a registered user.
\<close>

theorem user_roundtrip:
  assumes "Email_create rawEmail = Inr e" and "PhoneNumber_create rawPhone = Inr p"
    and "HashedPassword_fromHash h = Inr k" and "list_all made_password ops"
    and u: "u = user_run ops (user_register t i e p k firstName lastName role)"
  shows "UserMapper_toDomain (UserMapper_toPersistence u) = Inr (u\<lparr>u_events := []\<rparr>) \<and>
    u_id u = i \<and> u_email u = e \<and> u_phoneNumber u = p \<and>
    u_role u = (case role of None \<Rightarrow> UR_CUSTOMER | Some r \<Rightarrow> r)"
proof -
  let ?u = "user_register t i e p k firstName lastName role"
  have "user_ok ?u"
    using Email_create_again [OF assms(1)] PhoneNumber_create_again [OF assms(2)] HashedPassword_again [OF assms(3)]
    by (simp add: user_ok_def user_register_def user_addDomainEvent_def Let_def)
  from user_run_ok [OF this assms(4)] show ?thesis
    by (simp add: u row_simps user_register_def user_addDomainEvent_def Let_def)
qed

section \<open>The lockout\<close>

text \<open>
  The lockout doubles as a verification: a registered user who never verified anything is ACTIVE
  after five wrong passwords and one attempt once the lockout is over.
\<close>

theorem lockout_activates_pending_user:
  assumes "u_status u = US_PENDING_VERIFICATION" and "u_failedLoginAttempts u = 0"
    and "t + LOCKOUT_DURATION_MS \<le> t'"
  shows "u_status (user_run [FailLogin t ip, FailLogin t ip, FailLogin t ip, FailLogin t ip, FailLogin t ip,
    AttemptLogin t'] u) = US_ACTIVE"
  using assms by (simp add: user_run_def user_op_defs)

section \<open>Examples\<close>

definition exampleUser :: user where
  "exampleUser = user_register 5 ''u1'' (Email ''ada@kudi.ng'') (PhoneNumber ''+2348012345678'')
     (HashedPassword ''hash'') ''Ada'' ''Obi'' None"

theorem user_roundtrip_witness:
  "let u = user_run [FailLogin 7 None, SetPassword 8 (HashedPassword ''other'')] exampleUser in
   UserMapper_toDomain (UserMapper_toPersistence u) = Inr (u\<lparr>u_events := []\<rparr>) \<and> u_id u = ''u1''"
proof -
  have "Email_create '' Ada@Kudi.ng'' = Inr (Email ''ada@kudi.ng'')"
    "PhoneNumber_create ''+234 801-234-5678'' = Inr (PhoneNumber ''+2348012345678'')" by code_simp+
  from user_roundtrip [OF this, of "''hash''" "HashedPassword ''hash''"
      "[FailLogin 7 None, SetPassword 8 (HashedPassword ''other'')]" _ 5 "''u1''" "''Ada''" "''Obi''" None]
  show ?thesis
    by (simp add: exampleUser_def HashedPassword_fromHash_def made_password_def Let_def)
qed

theorem lockout_activates_pending_user_witness:
  "u_status exampleUser = US_PENDING_VERIFICATION \<and>
   u_status (user_run [FailLogin 1 None, FailLogin 1 None, FailLogin 1 None, FailLogin 1 None, FailLogin 1 None,
     AttemptLogin 900001] exampleUser) = US_ACTIVE"
proof -
  have u: "u_status exampleUser = US_PENDING_VERIFICATION" "u_failedLoginAttempts exampleUser = 0"
    by (simp_all add: exampleUser_def user_register_def user_addDomainEvent_def Let_def)
  with lockout_activates_pending_user [OF u, of 1 900001 None] show ?thesis by (simp add: LOCKOUT_DURATION_MS_def)
qed

end
