(* ===== verification/Auth.thy ===== *)
theory Auth
  imports Users AccountOps
begin

text \<open>
  The application layer of the identity module (\<^verbatim>\<open>modules/identity/application\<close>): registration,
  login, rotation of refresh tokens, logout, change of password, the queries, the token service, the
  guard of the user endpoint and the controllers.

  The libraries bcrypt, jsonwebtoken and crypto are parameters, collected in \<open>security\<close>: hashing and
  signing may use randomness and time, so they are given the number of the use.
\<close>

record security =
  bcryptHash :: "nat \<Rightarrow> string \<Rightarrow> string"
  bcryptCompare :: "string \<Rightarrow> string \<Rightarrow> bool"
  jwtSign :: "nat \<Rightarrow> string \<times> string \<times> userRole \<Rightarrow> string \<Rightarrow> exn + string"
  jwtVerify :: "nat \<Rightarrow> string \<Rightarrow> exn + (string \<times> string \<times> userRole)"
  sha256Hex :: "string \<Rightarrow> string"
  accessExpiresIn :: "string option"

section \<open>Hashing and tokens\<close>

definition passwordHash_hash :: "security \<Rightarrow> string \<Rightarrow> (world, 'e, string) comp" where
  "passwordHash_hash S plainText = draw (\<lambda>n. bcryptHash S n plainText)"

definition passwordHash_compare :: "security \<Rightarrow> string \<Rightarrow> string \<Rightarrow> (world, 'e, bool) comp" where
  "passwordHash_compare S plainText hash = returnM (bcryptCompare S plainText hash)"

text \<open>The digits, then one of the letters s, m, h, d; anything else counts as 15 minutes.\<close>

definition parseExpiresInSeconds :: "string \<Rightarrow> int" where
  "parseExpiresInSeconds expiresIn =
     (let value = takeWhile is_digit expiresIn; unit = dropWhile is_digit expiresIn
      in if value = [] then 900
         else if unit = ''s'' then int (digits_val value)
         else if unit = ''m'' then int (digits_val value) * 60
         else if unit = ''h'' then int (digits_val value) * 3600
         else if unit = ''d'' then int (digits_val value) * 86400
         else 900)"

definition signAccessToken :: "security \<Rightarrow> string \<times> string \<times> userRole \<Rightarrow> (string \<times> int) action" where
  "signAccessToken S payload =
     (let expiresIn = (case accessExpiresIn S of None \<Rightarrow> ''15m'' | Some e \<Rightarrow> e)
      in bindM (draw (\<lambda>n. jwtSign S n payload expiresIn)) (\<lambda>signed.
         bindM (liftE signed) (\<lambda>token.
         returnM (token, parseExpiresInSeconds expiresIn))))"

definition UnauthorizedException :: "string \<Rightarrow> exn" where
  "UnauthorizedException m = HttpExn 401 m"

definition verifyAccessToken :: "security \<Rightarrow> string \<Rightarrow> (string \<times> string \<times> userRole) action" where
  "verifyAccessToken S token =
     bindM (draw (\<lambda>n. jwtVerify S n token)) (\<lambda>verified.
     case verified of
       Inl e \<Rightarrow> throwM (UnauthorizedException ''Invalid or expired access token'')
     | Inr payload \<Rightarrow> returnM payload)"

definition generateOpaqueRefreshToken :: "env \<Rightarrow> (world, 'e, string) comp" where
  "generateOpaqueRefreshToken E = draw (randomHex E)"

definition hashRefreshToken :: "security \<Rightarrow> string \<Rightarrow> string" where
  "hashRefreshToken S token = sha256Hex S token"

section \<open>Responses\<close>

record authUserDto =
  au_id :: string
  au_email :: string
  au_firstName :: string
  au_lastName :: string
  au_role :: string
  au_status :: string

record authResponseDto =
  ad_accessToken :: string
  ad_refreshToken :: string
  ad_accessTokenExpiresIn :: int
  ad_user :: authUserDto

definition authUser :: "user \<Rightarrow> authUserDto" where
  "authUser u =
     \<lparr>au_id = u_id u, au_email = email_value (u_email u), au_firstName = u_firstName u,
      au_lastName = u_lastName u, au_role = userRole_str (u_role u),
      au_status = userStatus_str (u_status u)\<rparr>"

record userResponseDto =
  ud_id :: string
  ud_email :: string
  ud_phoneNumber :: string
  ud_firstName :: string
  ud_lastName :: string
  ud_role :: string
  ud_status :: string
  ud_lastLoginAt :: "string option"
  ud_createdAt :: string

definition userResponse :: "user \<Rightarrow> userResponseDto" where
  "userResponse u =
     \<lparr>ud_id = u_id u, ud_email = email_value (u_email u), ud_phoneNumber = phone_value (u_phoneNumber u),
      ud_firstName = u_firstName u, ud_lastName = u_lastName u, ud_role = userRole_str (u_role u),
      ud_status = userStatus_str (u_status u), ud_lastLoginAt = map_option toISOString (u_lastLoginAt u),
      ud_createdAt = toISOString (u_createdAt u)\<rparr>"

section \<open>Login\<close>

definition REFRESH_TOKEN_TTL_MS :: int where
  "REFRESH_TOKEN_TTL_MS = 7 * 24 * 60 * 60 * 1000"

text \<open>
  The comparison for an unknown e-mail address only takes time; the one for a known address decides.
\<close>

definition loginFailed :: "env \<Rightarrow> string option \<Rightarrow> user \<Rightarrow> 'a action" where
  "loginFailed E ipAddress user =
     bindM (now E) (\<lambda>t.
     let user' = recordFailedLogin t ipAddress user
     in bindM (user_save E user') (\<lambda>_.
        bindM (publishAll (u_events user')) (\<lambda>_.
        throwM InvalidCredentialsException)))"

definition loginSucceeded ::
  "env \<Rightarrow> security \<Rightarrow> string option \<Rightarrow> string option \<Rightarrow> user \<Rightarrow> authResponseDto action" where
  "loginSucceeded E S ipAddress userAgent user =
     bindM (now E) (\<lambda>t.
     let user' = recordSuccessfulLogin t ipAddress userAgent user
     in bindM (user_save E user') (\<lambda>_.
        bindM (signAccessToken S (u_id user', email_value (u_email user'), u_role user')) (\<lambda>(accessToken, expiresIn).
        bindM (generateOpaqueRefreshToken E) (\<lambda>rawRefreshToken.
        bindM (now E) (\<lambda>t2.
        bindM (RefreshToken_issue E (u_id user') (hashRefreshToken S rawRefreshToken) None
                 (t2 + REFRESH_TOKEN_TTL_MS) ipAddress userAgent) (\<lambda>refreshToken.
        bindM (token_save E refreshToken) (\<lambda>_.
        bindM (publishAll (u_events user')) (\<lambda>_.
        returnM \<lparr>ad_accessToken = accessToken, ad_refreshToken = rawRefreshToken,
                 ad_accessTokenExpiresIn = expiresIn, ad_user = authUser user'\<rparr>))))))))"

definition Login_execute ::
  "env \<Rightarrow> security \<Rightarrow> string \<Rightarrow> string \<Rightarrow> string option \<Rightarrow> string option \<Rightarrow> authResponseDto action" where
  "Login_execute E S emailText password ipAddress userAgent =
     bindM (liftE (Email_create emailText)) (\<lambda>email.
     bindM (user_findByEmail E email) (\<lambda>found.
     bindM (required found InvalidCredentialsException) (\<lambda>user.
     bindM (now E) (\<lambda>t.
     bindM (liftE (assertCanAttemptLogin t user)) (\<lambda>user'.
     bindM (passwordHash_compare S password (hash_value (u_passwordHash user'))) (\<lambda>passwordMatches.
     if \<not> passwordMatches then loginFailed E ipAddress user'
     else loginSucceeded E S ipAddress userAgent user'))))))"

section \<open>Rotation of refresh tokens\<close>

definition rotate ::
  "env \<Rightarrow> security \<Rightarrow> string option \<Rightarrow> string option \<Rightarrow> refreshToken \<Rightarrow> user \<Rightarrow> authResponseDto action" where
  "rotate E S ipAddress userAgent existingToken user =
     bindM (generateOpaqueRefreshToken E) (\<lambda>newRawRefreshToken.
     bindM (now E) (\<lambda>t.
     bindM (RefreshToken_issue E (u_id user) (hashRefreshToken S newRawRefreshToken)
              (Some (rt_family existingToken)) (t + REFRESH_TOKEN_TTL_MS) ipAddress userAgent) (\<lambda>newRefreshToken.
     bindM (now E) (\<lambda>t2.
     bindM (token_save E (revoke t2 (Some (rt_id newRefreshToken)) existingToken)) (\<lambda>_.
     bindM (token_save E newRefreshToken) (\<lambda>_.
     bindM (signAccessToken S (u_id user, email_value (u_email user), u_role user)) (\<lambda>(accessToken, expiresIn).
     returnM \<lparr>ad_accessToken = accessToken, ad_refreshToken = newRawRefreshToken,
              ad_accessTokenExpiresIn = expiresIn, ad_user = authUser user\<rparr>)))))))"

definition RefreshAccessToken_execute ::
  "env \<Rightarrow> security \<Rightarrow> string \<Rightarrow> string option \<Rightarrow> string option \<Rightarrow> authResponseDto action" where
  "RefreshAccessToken_execute E S presented ipAddress userAgent =
     bindM (findByTokenHash E (hashRefreshToken S presented)) (\<lambda>found.
     bindM (required found InvalidRefreshTokenException) (\<lambda>existingToken.
     if isRevoked existingToken then
       bindM (revokeFamily E (rt_family existingToken)) (\<lambda>_. throwM InvalidRefreshTokenException)
     else
       bindM (now E) (\<lambda>t.
       bindM (guardM (\<not> isExpired t existingToken) InvalidRefreshTokenException) (\<lambda>_.
       bindM (user_findById E (rt_userId existingToken)) (\<lambda>foundUser.
       bindM (required foundUser InvalidRefreshTokenException) (\<lambda>user.
       bindM (now E) (\<lambda>t2.
       bindM (liftE (assertCanAttemptLogin t2 user)) (\<lambda>user'.
       rotate E S ipAddress userAgent existingToken user'))))))))"

section \<open>Logout, change of password, registration\<close>

definition Logout_execute :: "env \<Rightarrow> security \<Rightarrow> string \<Rightarrow> unit action" where
  "Logout_execute E S presented =
     bindM (findByTokenHash E (hashRefreshToken S presented)) (\<lambda>existingToken.
     case existingToken of
       None \<Rightarrow> returnM ()
     | Some k \<Rightarrow> if \<not> isRevoked k then revokeFamily E (rt_family k) else returnM ())"

definition ChangePassword_execute :: "env \<Rightarrow> security \<Rightarrow> string \<Rightarrow> string \<Rightarrow> string \<Rightarrow> unit action" where
  "ChangePassword_execute E S userId currentPassword newPassword =
     bindM (user_findById E userId) (\<lambda>found.
     bindM (required found (NotFoundException ''User not found'')) (\<lambda>user.
     bindM (passwordHash_compare S currentPassword (hash_value (u_passwordHash user))) (\<lambda>currentMatches.
     bindM (guardM currentMatches InvalidCredentialsException) (\<lambda>_.
     bindM (liftE (PlainPassword_create newPassword)) (\<lambda>newPlainPassword.
     bindM (passwordHash_hash S (plain_value newPlainPassword)) (\<lambda>newHash.
     bindM (liftE (HashedPassword_fromHash newHash)) (\<lambda>hashed.
     bindM (now E) (\<lambda>t.
     let user' = changePassword t hashed user
     in bindM (user_save E user') (\<lambda>_.
        bindM (revokeAllForUser E (u_id user')) (\<lambda>_.
        publishAll (u_events user')))))))))))"

text \<open>The command bus runs the handler of \<open>OpenAccountCommand\<close> and passes its error on.\<close>

definition RegisterUser_execute ::
  "env \<Rightarrow> security \<Rightarrow> string \<Rightarrow> string \<Rightarrow> string \<Rightarrow> string \<Rightarrow> string \<Rightarrow> string \<Rightarrow> userResponseDto action" where
  "RegisterUser_execute E S bankCode emailText phoneText password firstName lastName =
     bindM (liftE (Email_create emailText)) (\<lambda>email.
     bindM (existsByEmail E email) (\<lambda>alreadyExists.
     bindM (guardM (\<not> alreadyExists) (UserAlreadyExistsException (email_value email))) (\<lambda>_.
     bindM (liftE (PlainPassword_create password)) (\<lambda>plainPassword.
     bindM (passwordHash_hash S (plain_value plainPassword)) (\<lambda>hash.
     bindM (liftE (HashedPassword_fromHash hash)) (\<lambda>passwordHash.
     bindM (liftE (PhoneNumber_create phoneText)) (\<lambda>phone.
     bindM (now E) (\<lambda>t.
     bindM (uuid E) (\<lambda>newId.
     let user = user_register t newId email phone passwordHash firstName lastName None
     in bindM (user_save E user) (\<lambda>_.
        bindM (OpenAccount_execute E bankCode (u_id user) AT_WALLET NGN) (\<lambda>_.
        bindM (publishAll (u_events user)) (\<lambda>_.
        returnM ((userResponse user)\<lparr>ud_lastLoginAt := None\<rparr>)))))))))))))"

section \<open>Queries\<close>

definition GetUserById_execute :: "env \<Rightarrow> string \<Rightarrow> userResponseDto action" where
  "GetUserById_execute E userId =
     bindM (user_findById E userId) (\<lambda>found.
     bindM (required found (NotFoundException ''User not found'')) (\<lambda>user.
     returnM (userResponse user)))"

definition GetUserProfile_execute :: "env \<Rightarrow> string \<Rightarrow> userResponseDto action" where
  "GetUserProfile_execute E userId =
     bindM (user_findById E userId) (\<lambda>found.
     bindM (required found (NotFoundException ''User not found'')) (\<lambda>user.
     returnM (userResponse user)))"

section \<open>The endpoint of a user\<close>

definition SelfOrAdminGuard_canActivate :: "accessTokenPayload option \<Rightarrow> string \<Rightarrow> exn + bool" where
  "SelfOrAdminGuard_canActivate caller requestedUserId =
     (case caller of
        None \<Rightarrow> Inl (ForbiddenException ''Authentication required'')
      | Some c \<Rightarrow>
          (let isSelf = (sub c = requestedUserId); isAdmin = (payloadRole c \<in> set [UR_ADMIN, UR_SUPER_ADMIN])
           in if \<not> isSelf \<and> \<not> isAdmin then Inl (ForbiddenException ''You may only access your own resource'')
              else Inr True))"

definition UsersController_getMyProfile :: "env \<Rightarrow> accessTokenPayload \<Rightarrow> userResponseDto action" where
  "UsersController_getMyProfile E user = GetUserProfile_execute E (sub user)"

definition UsersController_getUserById :: "env \<Rightarrow> accessTokenPayload option \<Rightarrow> string \<Rightarrow> userResponseDto action" where
  "UsersController_getUserById E caller userId =
     bindM (liftE (SelfOrAdminGuard_canActivate caller userId)) (\<lambda>_.
     GetUserById_execute E userId)"


section \<open>Saving users and tokens\<close>

lemma upsert_row_Inr:
  "upsert_row key clash r t = Inr t' \<Longrightarrow>
    \<not> list_ex (\<lambda>x. key x \<noteq> key r \<and> clash r x) t \<and>
    (if key r \<in> key ` set t then t' = map (\<lambda>x. if key x = key r then r else x) t else t' = t @ [r])"
  by (auto simp: upsert_row_def list_ex_iff image_iff split: if_splits)

lemma upsert_row_in: "upsert_row key clash r t = Inr t' \<Longrightarrow> r \<in> set t'"
  using upsert_row_Inr [of key clash r t t'] by (auto split: if_splits)

lemma upsert_row_keys:
  assumes "upsert_row key clash r t = Inr t'" and "distinct (map key t)"
  shows "distinct (map key t')"
proof (cases "key r \<in> key ` set t")
  case True
  with upsert_row_Inr [OF assms(1)] have "t' = map (\<lambda>x. if key x = key r then r else x) t" by simp
  moreover have "map key (map (\<lambda>x. if key x = key r then r else x) t) = map key t" by (induction t) auto
  ultimately show ?thesis using assms(2) by (simp only:)
next
  case False
  with upsert_row_Inr [OF assms(1)] assms(2) show ?thesis by auto
qed

text \<open>Another unique column stays unique, when equal values of it count as a clash.\<close>

lemma upsert_row_unique:
  assumes up: "upsert_row key clash r t = Inr t'" and dist: "distinct (map col t)" "distinct (map key t)"
    and clash: "\<And>x. col x = col r \<Longrightarrow> clash r x"
  shows "distinct (map col t')"
proof (cases "key r \<in> key ` set t")
  case True
  with upsert_row_Inr [OF up] have t': "t' = map (\<lambda>x. if key x = key r then r else x) t"
    and other: "\<And>x. x \<in> set t \<Longrightarrow> col x = col r \<Longrightarrow> key x = key r"
    using clash by (auto simp: list_ex_iff)
  from dist other show ?thesis unfolding t'
  proof (induction t)
    case (Cons x t)
    then have IH: "distinct (map col (map (\<lambda>x. if key x = key r then r else x) t))" by simp
    show ?case
    proof (cases "key x = key r")
      case True
      have "key x \<notin> key ` set t" using Cons.prems(2) by simp
      with True have none: "\<forall>y \<in> set t. key y \<noteq> key r" by (metis imageI)
      then have "map (\<lambda>x. if key x = key r then r else x) t = t" by (intro map_idI) auto
      moreover have "col r \<notin> col ` set t" using Cons.prems(3) none by force
      ultimately show ?thesis using True Cons.prems(1) by simp
    next
      case False
      have "col x \<noteq> col r" using Cons.prems(3) [of x] False by auto
      then have "col x \<notin> set (map col (map (\<lambda>x. if key x = key r then r else x) t))"
        using Cons.prems(1) by (auto simp: image_iff)
      with IH False show ?thesis by simp
    qed
  qed simp
next
  case False
  then have other: "\<And>x. x \<in> set t \<Longrightarrow> key x \<noteq> key r" by (metis imageI)
  have t': "t' = t @ [r]" using upsert_row_Inr [OF up] False by simp
  have "\<And>x. x \<in> set t \<Longrightarrow> col x \<noteq> col r"
    using upsert_row_Inr [OF up] clash other by (auto simp: list_ex_iff)
  then have "col r \<notin> col ` set t" by force
  with t' show ?thesis using dist(1) by simp
qed

text \<open>The tables of the module: unique columns, and every user row loads.\<close>

definition identity_ok :: "world \<Rightarrow> bool" where
  "identity_ok w \<longleftrightarrow>
     distinct (map ur_id (users w)) \<and> distinct (map ur_email (users w)) \<and> distinct (map ur_phoneNumber (users w)) \<and>
     (\<forall>r \<in> set (users w). \<exists>u. UserMapper_toDomain r = Inr u) \<and>
     distinct (map rr_id (refreshTokens w)) \<and> distinct (map rr_tokenHash (refreshTokens w))"

lemma identity_tick_free [simp]: "tick_free identity_ok"
  by (simp add: tick_free_def identity_ok_def)

lemma identity_other [simp]:
  "identity_ok (w\<lparr>accounts := a\<rparr>) = identity_ok w" "identity_ok (w\<lparr>published := p\<rparr>) = identity_ok w"
  "identity_ok (w\<lparr>ticks := n\<rparr>) = identity_ok w"
  by (simp_all add: identity_ok_def)

lemma user_save_identity:
  assumes "user_ok u"
  shows "preserves identity_ok (user_save E u)"
  unfolding user_save_def
proof (rule preserves_insert_into)
  fix w t assume ok: "identity_ok w" and up: "upsert_row ur_id user_clash (UserMapper_toPersistence u) (users w) = Inr t"
  note unique = upsert_row_unique [OF up]
  have "\<forall>r \<in> set t. \<exists>u. UserMapper_toDomain r = Inr u"
    using upsert_row_Inr [OF up] ok user_mapper [OF assms] by (auto simp: identity_ok_def split: if_splits)
  with upsert_row_keys [OF up] unique [of ur_email] unique [of ur_phoneNumber] ok
  show "identity_ok (w\<lparr>users := t\<rparr>)" by (simp add: identity_ok_def user_clash_def)
qed simp

lemma token_save_identity: "preserves identity_ok (token_save E k)"
  unfolding token_save_def
proof (rule preserves_insert_into)
  fix w t assume ok: "identity_ok w"
    and up: "upsert_row rr_id (\<lambda>a b. rr_tokenHash a = rr_tokenHash b) (RefreshTokenMapper_toPersistence k) (refreshTokens w) = Inr t"
  from upsert_row_keys [OF up] upsert_row_unique [OF up, of rr_tokenHash] ok
  show "identity_ok (w\<lparr>refreshTokens := t\<rparr>)" by (simp add: identity_ok_def)
qed simp

lemma revoke_where_identity: "preserves identity_ok (revoke_where E cond)"
proof -
  have rows: "map rr_id (map (\<lambda>r. if c r then r\<lparr>rr_revokedAt := v\<rparr> else r) ts) = map rr_id ts"
    "map rr_tokenHash (map (\<lambda>r. if c r then r\<lparr>rr_revokedAt := v\<rparr> else r) ts) = map rr_tokenHash ts" for c v ts
    by (induction ts) auto
  show ?thesis unfolding revoke_where_def
    by (intro preserves_rules preserves_update_in)
      (auto simp: update_rows_def identity_ok_def rows simp del: map_map)
qed

lemma reads_user_find [reads_rules]:
  "reads (user_findById E i)" "reads (user_findByEmail E e)" "reads (existsByEmail E e)" "reads (findByTokenHash E h)"
  unfolding user_findById_def user_findByEmail_def existsByEmail_def findByTokenHash_def by (intro reads_rules)+

lemma reads_auth [reads_rules]:
  "reads (signAccessToken S p)" "reads (passwordHash_hash S s)" "reads (passwordHash_compare S s h)"
  "reads (generateOpaqueRefreshToken E)"
  unfolding signAccessToken_def passwordHash_hash_def passwordHash_compare_def generateOpaqueRefreshToken_def Let_def
  by (intro reads_rules)+

lemma reads_now_uuid [reads_rules]: "reads (now E)" "reads (uuid E)"
  by (simp_all add: now_def uuid_def reads_draw)

lemma reads_issue [reads_rules]: "reads (RefreshToken_issue E u h f e ip ua)"
  unfolding RefreshToken_issue_def by (intro reads_rules)

lemma reads_identity: "reads m \<Longrightarrow> preserves identity_ok m"
  by (rule reads_preserves) simp_all

lemmas identity_reads = reads_user_find [THEN reads_identity] reads_auth [THEN reads_identity]
  reads_now_uuid [THEN reads_identity] reads_issue [THEN reads_identity]

section \<open>The tables stay well formed\<close>

lemma user_findById_Inr:
  assumes "user_findById E i w = (Inr (Some u), w')" and "identity_ok w"
  obtains r where "r \<in> set (users w)" "ur_id r = i" "UserMapper_toDomain r = Inr u" "w' = w\<lparr>ticks := Suc (ticks w)\<rparr>"
proof -
  have some: "user_toDomainOrNull y = Inr (Some u) \<Longrightarrow> \<exists>r. y = Some r \<and> UserMapper_toDomain r = Inr u" for y
    by (cases y) (auto simp: bindE_eq_Inr)
  from assms(1) obtain r where "List.find (\<lambda>r. ur_id r = i) (users w) = Some r" "UserMapper_toDomain r = Inr u"
    "w' = w\<lparr>ticks := Suc (ticks w)\<rparr>"
    by (auto simp: user_findById_def bindM_eq_Inr comp_simps dest!: query_eq_Inr some)
  with that find_Some_set show thesis by fastforce
qed

lemma user_findByEmail_Inr:
  assumes "user_findByEmail E e w = (Inr (Some u), w')"
  obtains r where "r \<in> set (users w)" "ur_email r = email_value e" "UserMapper_toDomain r = Inr u"
    "w' = w\<lparr>ticks := Suc (ticks w)\<rparr>"
proof -
  have some: "user_toDomainOrNull y = Inr (Some u) \<Longrightarrow> \<exists>r. y = Some r \<and> UserMapper_toDomain r = Inr u" for y
    by (cases y) (auto simp: bindE_eq_Inr)
  from assms(1) obtain r where "List.find (\<lambda>r. ur_email r = email_value e) (users w) = Some r" "UserMapper_toDomain r = Inr u"
    "w' = w\<lparr>ticks := Suc (ticks w)\<rparr>"
    by (auto simp: user_findByEmail_def bindM_eq_Inr comp_simps dest!: query_eq_Inr some)
  with that find_Some_set show thesis by fastforce
qed

text \<open>A computation keeps a predicate when it does so for every value an earlier step can return.\<close>

lemma preserves_bindM_Inr:
  assumes "preserves I m" and "\<And>w x w'. I w \<Longrightarrow> m w = (Inr x, w') \<Longrightarrow> preserves I (f x)"
  shows "preserves I (bindM m f)"
  unfolding preserves_def
proof (intro allI impI)
  fix w assume w: "I w"
  obtain r w' where run: "m w = (r, w')" by fastforce
  have w': "I w'" using preserves_step [OF assms(1) w run] .
  show "I (snd (bindM m f w))"
  proof (cases r)
    case (Inl e)
    with run w' show ?thesis by (simp add: bindM_def)
  next
    case (Inr x)
    with assms(2) [OF w] run have "preserves I (f x)" by blast
    with w' run Inr show ?thesis by (simp add: bindM_def preserves_def)
  qed
qed

lemma loaded_user_ok: "user_findById E i w = (Inr (Some u), w') \<Longrightarrow> user_ok u"
  "user_findByEmail E e w = (Inr (Some u), w') \<Longrightarrow> user_ok u"
proof -
  have some: "user_toDomainOrNull y = Inr (Some u) \<Longrightarrow> user_ok u" for y
    by (cases y) (auto simp: bindE_eq_Inr dest: UserMapper_toDomain_ok)
  show "user_findById E i w = (Inr (Some u), w') \<Longrightarrow> user_ok u"
    by (auto simp: user_findById_def bindM_eq_Inr comp_simps dest!: some)
  show "user_findByEmail E e w = (Inr (Some u), w') \<Longrightarrow> user_ok u"
    by (auto simp: user_findByEmail_def bindM_eq_Inr comp_simps dest!: some)
qed

lemma required_loaded:
  "required found e w = (Inr u, w') \<Longrightarrow> found = Some u"
  by (auto dest: step_Inr(1))

lemma assertCanAttemptLogin_same:
  "assertCanAttemptLogin t u = Inr v \<Longrightarrow> user_ok v = user_ok u \<and> u_id v = u_id u \<and> u_email v = u_email u \<and>
    u_passwordHash v = u_passwordHash u \<and> u_role v = u_role u"
  by (auto simp: assertCanAttemptLogin_def user_ok_def split: if_splits option.splits)

lemmas identity_steps = user_save_identity token_save_identity revoke_where_identity
  preserves_modifyM [of identity_ok]

lemma rotate_identity: "preserves identity_ok (rotate E S ip ua k u)"
  unfolding rotate_def by (intro preserves_rules identity_steps identity_reads) simp_all

lemma Logout_identity: "preserves identity_ok (Logout_execute E S tok)"
  unfolding Logout_execute_def revokeFamily_def by (intro preserves_rules identity_steps identity_reads)

lemma Refresh_identity: "preserves identity_ok (RefreshAccessToken_execute E S tok ip ua)"
  unfolding RefreshAccessToken_execute_def revokeFamily_def
  by (intro preserves_rules identity_steps identity_reads rotate_identity) simp_all

lemma loginFailed_identity: "user_ok u \<Longrightarrow> preserves identity_ok (loginFailed E ip u)"
  unfolding loginFailed_def Let_def publishAll_def
  by (intro preserves_rules identity_steps) (simp_all add: user_ok_def user_op_defs)

lemma loginSucceeded_identity: "user_ok u \<Longrightarrow> preserves identity_ok (loginSucceeded E S ip ua u)"
  unfolding loginSucceeded_def Let_def publishAll_def
  by (intro preserves_rules identity_steps identity_reads) (simp_all add: user_ok_def user_op_defs)

lemma Login_identity: "preserves identity_ok (Login_execute E S email password ip ua)"
  unfolding Login_execute_def
proof (intro preserves_bindM_Inr [of identity_ok "user_findByEmail E x" for x]
    preserves_bindM_Inr [of identity_ok "required x e" for x e]
    preserves_bindM_Inr [of identity_ok "liftE (assertCanAttemptLogin t u)" for t u]
    preserves_rules identity_reads)
qed (auto dest!: required_loaded loaded_user_ok(2) assertCanAttemptLogin_same simp: comp_simps
    intro: loginFailed_identity loginSucceeded_identity)

lemma made:
  "liftE (Email_create x) w = (Inr e, w') \<Longrightarrow> Email_create (email_value e) = Inr e"
  "liftE (PhoneNumber_create y) w = (Inr p, w') \<Longrightarrow> PhoneNumber_create (phone_value p) = Inr p"
  "liftE (HashedPassword_fromHash h) w = (Inr k, w') \<Longrightarrow> HashedPassword_fromHash (hash_value k) = Inr k"
  by (auto simp: comp_simps intro: Email_create_again PhoneNumber_create_again HashedPassword_again)

lemma user_ok_register:
  "Email_create (email_value e) = Inr e \<Longrightarrow> PhoneNumber_create (phone_value p) = Inr p \<Longrightarrow>
   HashedPassword_fromHash (hash_value k) = Inr k \<Longrightarrow> user_ok (user_register t i e p k first name role)"
  by (simp add: user_register_def user_addDomainEvent_def user_ok_def Let_def)

lemma user_ok_changePassword:
  "user_ok u \<Longrightarrow> HashedPassword_fromHash (hash_value k) = Inr k \<Longrightarrow> user_ok (changePassword t k u)"
  by (simp add: changePassword_def user_addDomainEvent_def user_ok_def)

lemma ChangePassword_identity: "preserves identity_ok (ChangePassword_execute E S i old new)"
  unfolding ChangePassword_execute_def Let_def publishAll_def revokeAllForUser_def
proof (intro preserves_bindM_Inr [of identity_ok "user_findById E x" for x]
    preserves_bindM_Inr [of identity_ok "required x e" for x e]
    preserves_bindM_Inr [of identity_ok "liftE (HashedPassword_fromHash h)" for h]
    preserves_rules identity_reads identity_steps)
qed (auto dest!: required_loaded loaded_user_ok(1) made intro: user_ok_changePassword)

lemma OpenAccount_identity: "preserves identity_ok (OpenAccount_execute E bankCode i ty c)"
  unfolding OpenAccount_execute_def saveAndRespond_def account_save_def publishAll_def acc_pullDomainEvents_def Let_def
    prod.case
  by (intro preserves_rules preserves_saveVersioned reads_identity [OF reads_nuban] identity_reads
      preserves_modifyM; simp)

lemma Register_identity: "preserves identity_ok (RegisterUser_execute E S bankCode email phone password first name)"
  unfolding RegisterUser_execute_def Let_def publishAll_def
proof (intro preserves_bindM_Inr [of identity_ok "liftE (Email_create x)" for x]
    preserves_bindM_Inr [of identity_ok "liftE (PhoneNumber_create x)" for x]
    preserves_bindM_Inr [of identity_ok "liftE (HashedPassword_fromHash h)" for h]
    preserves_rules identity_reads identity_steps OpenAccount_identity)
qed (auto dest!: made intro: user_ok_register)

text \<open>The commands of the module, each with the environment it runs in.\<close>

datatype auth_command =
    Register string string string string string
  | Login string string "string option" "string option"
  | Refresh string "string option" "string option"
  | Logout string
  | ChangePassword string string string

fun run_auth :: "env \<Rightarrow> security \<Rightarrow> string \<Rightarrow> auth_command \<Rightarrow> world \<Rightarrow> world" where
  "run_auth E S bankCode (Register email phone password first name) w =
     snd (RegisterUser_execute E S bankCode email phone password first name w)"
| "run_auth E S bankCode (Login email password ip agent) w = snd (Login_execute E S email password ip agent w)"
| "run_auth E S bankCode (Refresh tok ip agent) w = snd (RefreshAccessToken_execute E S tok ip agent w)"
| "run_auth E S bankCode (Logout tok) w = snd (Logout_execute E S tok w)"
| "run_auth E S bankCode (ChangePassword i old new) w = snd (ChangePassword_execute E S i old new w)"

text \<open>
  Any sequence of registrations, logins, token rotations, logouts and password changes, in any
  environments, keeps the tables of the identity module well formed: identifiers, e-mail addresses,
  phone numbers and token hashes are unique, and every stored user loads.
\<close>

theorem identity_tables_invariant:
  assumes "identity_ok w"
  shows "identity_ok (foldl (\<lambda>w (E, S, c). run_auth E S bankCode c w) w cs)"
  using assms
proof (induction cs arbitrary: w)
  case (Cons c cs)
  obtain E S d where c: "c = (E, S, d)" by (metis prod.exhaust)
  have "identity_ok (run_auth E S bankCode d w)"
    using Cons.prems Register_identity Login_identity Refresh_identity Logout_identity ChangePassword_identity
    by (cases d) (simp_all add: preservesD)
  with Cons.IH show ?case by (simp add: c)
qed simp

section \<open>What the statements on tokens and users do\<close>

lemma token_mapper [simp]: "RefreshTokenMapper_toPersistence (RefreshTokenMapper_toDomain r) = r"
  by (simp add: RefreshTokenMapper_toPersistence_def RefreshTokenMapper_toDomain_def)

lemma token_save_Inr:
  assumes "token_save E k w = (Inr u, w')"
  shows "w' = w\<lparr>refreshTokens := (if rt_id k \<in> rr_id ` set (refreshTokens w)
    then map (\<lambda>x. if rr_id x = rt_id k then RefreshTokenMapper_toPersistence k else x) (refreshTokens w)
    else refreshTokens w @ [RefreshTokenMapper_toPersistence k]), ticks := Suc (ticks w)\<rparr>"
proof -
  from assms obtain t where up: "upsert_row rr_id (\<lambda>a b. rr_tokenHash a = rr_tokenHash b)
      (RefreshTokenMapper_toPersistence k) (refreshTokens w) = Inr t"
    and w': "w' = (w\<lparr>ticks := Suc (ticks w)\<rparr>)\<lparr>refreshTokens := t\<rparr>"
    unfolding token_save_def by (rule insert_into_Inr) simp_all
  have "rr_id (RefreshTokenMapper_toPersistence k) = rt_id k" by (simp add: RefreshTokenMapper_toPersistence_def)
  with upsert_row_Inr [OF up] w' show ?thesis by simp
qed

lemma user_save_Inr:
  assumes "user_save E u w = (Inr v, w')"
  shows "w' = w\<lparr>users := (if u_id u \<in> ur_id ` set (users w)
    then map (\<lambda>x. if ur_id x = u_id u then UserMapper_toPersistence u else x) (users w)
    else users w @ [UserMapper_toPersistence u]), ticks := Suc (ticks w)\<rparr>"
proof -
  from assms obtain t where up: "upsert_row ur_id user_clash (UserMapper_toPersistence u) (users w) = Inr t"
    and w': "w' = (w\<lparr>ticks := Suc (ticks w)\<rparr>)\<lparr>users := t\<rparr>"
    unfolding user_save_def by (rule insert_into_Inr) simp_all
  have "ur_id (UserMapper_toPersistence u) = u_id u" by (simp add: UserMapper_toPersistence_def)
  with upsert_row_Inr [OF up] w' show ?thesis by simp
qed

definition revoke_rows :: "(refresh_token_row \<Rightarrow> bool) \<Rightarrow> int \<Rightarrow> refresh_token_row list \<Rightarrow> refresh_token_row list" where
  "revoke_rows cond t ts = map (\<lambda>r. if cond r \<and> rr_revokedAt r = None then r\<lparr>rr_revokedAt := Some t\<rparr> else r) ts"

lemma revoke_where_Inr:
  assumes "revoke_where E cond w = (Inr u, w')"
  shows "w' = w\<lparr>refreshTokens := revoke_rows cond (nowMs E (ticks w)) (refreshTokens w), ticks := Suc (Suc (ticks w))\<rparr>"
  using assms
  by (auto simp: revoke_where_def bindM_eq_Inr comp_simps update_in_def update_rows_def revoke_rows_def dest!: db_eq_Inr)

lemma revoke_where_faultless:
  "faultless E \<Longrightarrow> revoke_where E cond w =
    (Inr (), w\<lparr>refreshTokens := revoke_rows cond (nowMs E (ticks w)) (refreshTokens w), ticks := Suc (Suc (ticks w))\<rparr>)"
  by (auto simp: revoke_where_def bindM_def comp_simps update_in_def update_rows_def revoke_rows_def)

lemma revoke_rows_revoked: "r \<in> set (revoke_rows cond t ts) \<Longrightarrow> cond r \<Longrightarrow> (\<And>r v. cond (r\<lparr>rr_revokedAt := v\<rparr>) = cond r) \<Longrightarrow>
    rr_revokedAt r \<noteq> None"
  by (auto simp: revoke_rows_def split: if_splits)

lemma findByTokenHash_Inr:
  assumes "findByTokenHash E h w = (Inr (Some k), w')"
  obtains r where "r \<in> set (refreshTokens w)" "rr_tokenHash r = h" "k = RefreshTokenMapper_toDomain r"
    "w' = w\<lparr>ticks := Suc (ticks w)\<rparr>"
proof -
  from assms obtain r where "List.find (\<lambda>r. rr_tokenHash r = h) (refreshTokens w) = Some r"
    "k = RefreshTokenMapper_toDomain r" "w' = w\<lparr>ticks := Suc (ticks w)\<rparr>"
    by (auto simp: findByTokenHash_def bindM_eq_Inr comp_simps dest!: query_eq_Inr)
  with that find_Some_set show thesis by fastforce
qed

lemma RefreshToken_issue_Inr:
  assumes "RefreshToken_issue E i h (Some f) x ip ua w = (Inr k, w')"
  shows "rt_id k = newUuid E (ticks w) \<and> rt_userId k = i \<and> rt_tokenHash k = h \<and> rt_family k = f \<and>
    rt_expiresAt k = x \<and> rt_revokedAt k = None \<and> rt_replacedByTokenId k = None \<and> (\<exists>n. w' = w\<lparr>ticks := n\<rparr>)"
  using assms by (auto simp: RefreshToken_issue_def bindM_eq_Inr comp_simps)

lemma rotate_Inr:
  assumes run: "rotate E S ip ua (RefreshTokenMapper_toDomain r) u w = (Inr dto, w')"
    and r: "r \<in> set (refreshTokens w)"
    and fresh: "\<forall>n. newUuid E n \<noteq> [] \<and> newUuid E n \<notin> rr_id ` set (refreshTokens w)"
  obtains t new n where
    "w' = w\<lparr>refreshTokens := map (\<lambda>x. if rr_id x = rr_id r
       then r\<lparr>rr_revokedAt := Some t, rr_replacedByTokenId := Some (rr_id new)\<rparr> else x) (refreshTokens w) @ [new],
       ticks := n\<rparr>"
    "rr_family new = rr_family r" "rr_userId new = u_id u" "rr_revokedAt new = None"
    "rr_tokenHash new = hashRefreshToken S (ad_refreshToken dto)"
  using run unfolding rotate_def
proof (elim bindM_InrE)
  fix raw t0 k t and u1 u2 :: unit and p and w1 w2 w3 w4 w5 w6 w7 :: world
  assume s: "generateOpaqueRefreshToken E w = (Inr raw, w1)" "now E w1 = (Inr t0, w2)"
    "RefreshToken_issue E (u_id u) (hashRefreshToken S raw) (Some (rt_family (RefreshTokenMapper_toDomain r)))
       (t0 + REFRESH_TOKEN_TTL_MS) ip ua w2 = (Inr k, w3)"
    "now E w3 = (Inr t, w4)"
    "token_save E (revoke t (Some (rt_id k)) (RefreshTokenMapper_toDomain r)) w4 = (Inr u1, w5)"
    "token_save E k w5 = (Inr u2, w6)"
    "signAccessToken S (u_id u, email_value (u_email u), u_role u) w6 = (Inr p, w7)"
    "(case p of (accessToken, expiresIn) \<Rightarrow> returnM \<lparr>ad_accessToken = accessToken, ad_refreshToken = raw,
       ad_accessTokenExpiresIn = expiresIn, ad_user = authUser u\<rparr>) w7 = (Inr dto, w')"
  obtain n1 where w1: "w1 = w\<lparr>ticks := n1\<rparr>" using readsD [OF reads_auth(4) s(1)] by blast
  have w2: "w2 = w\<lparr>ticks := Suc n1\<rparr>" using now_Inr [OF s(2)] w1 by simp
  note k = RefreshToken_issue_Inr [OF s(3)]
  obtain n3 where w3: "w3 = w\<lparr>ticks := n3\<rparr>" using k w2 by auto
  have w4: "w4 = w\<lparr>ticks := Suc n3\<rparr>" using now_Inr [OF s(4)] w3 by simp
  obtain n7 where w7: "w7 = w6\<lparr>ticks := n7\<rparr>" using readsD [OF reads_auth(1) s(7)] by blast
  have w': "w' = w7" and raw: "ad_refreshToken dto = raw"
    using s(8) by (auto simp: returnM_def split: prod.splits)
  have id: "rt_id k \<noteq> []" "rt_id k \<notin> rr_id ` set (refreshTokens w)" using fresh k by auto
  have rev: "RefreshTokenMapper_toPersistence (revoke t (Some (rt_id k)) (RefreshTokenMapper_toDomain r)) =
      r\<lparr>rr_revokedAt := Some t, rr_replacedByTokenId := Some (rt_id k)\<rparr>"
    "rt_id (revoke t (Some (rt_id k)) (RefreshTokenMapper_toDomain r)) = rr_id r"
    using id(1) by (simp_all add: revoke_def Let_def RefreshTokenMapper_toPersistence_def RefreshTokenMapper_toDomain_def)
  have w5: "w5 = w\<lparr>refreshTokens := map (\<lambda>x. if rr_id x = rr_id r
       then r\<lparr>rr_revokedAt := Some t, rr_replacedByTokenId := Some (rt_id k)\<rparr> else x) (refreshTokens w),
       ticks := Suc (Suc n3)\<rparr>"
    using token_save_Inr [OF s(5)] r by (simp add: rev w4)
  have "rt_id k \<notin> rr_id ` set (refreshTokens w5)"
    using id(2) r by (auto simp: w5 image_iff split: if_splits)
  with token_save_Inr [OF s(6)] have w6: "w6 = w5\<lparr>refreshTokens := refreshTokens w5 @ [RefreshTokenMapper_toPersistence k],
      ticks := Suc (ticks w5)\<rparr>" by simp
  let ?new = "RefreshTokenMapper_toPersistence k"
  have new: "rr_id ?new = rt_id k" "rr_family ?new = rr_family r" "rr_userId ?new = u_id u" "rr_revokedAt ?new = None"
    "rr_tokenHash ?new = hashRefreshToken S (ad_refreshToken dto)"
    using k raw by (simp_all add: RefreshTokenMapper_toPersistence_def RefreshTokenMapper_toDomain_def)
  show thesis
    by (rule that [where t = t and new = ?new and n = n7]) (use w' w7 w6 w5 new in simp_all)
qed

lemma reused_token_refused:
  assumes look: "List.find (\<lambda>x. rr_tokenHash x = hashRefreshToken S presented) (refreshTokens w) = Some r"
    and "rr_revokedAt r \<noteq> None" and "rr_family r = f"
  shows "\<exists>e w2. RefreshAccessToken_execute E S presented ip ua w = (Inl e, w2) \<and>
      (faultless E \<longrightarrow> e = InvalidRefreshTokenException \<and>
        (\<forall>x \<in> set (refreshTokens w2). rr_family x = f \<longrightarrow> rr_revokedAt x \<noteq> None))"
proof -
  obtain res w1 where find: "findByTokenHash E (hashRefreshToken S presented) w = (res, w1)" by fastforce
  show ?thesis
  proof (cases res)
    case (Inl e)
    with find have "\<not> faultless E" using look by (auto simp: findByTokenHash_def bindM_def comp_simps)
    with find Inl show ?thesis by (simp add: RefreshAccessToken_execute_def bindM_def)
  next
    case (Inr g)
    then have g: "g = Some (RefreshTokenMapper_toDomain r)" and w1: "refreshTokens w1 = refreshTokens w"
      using find look by (auto simp: findByTokenHash_def bindM_eq_Inr comp_simps dest!: query_eq_Inr)
    have rev: "isRevoked (RefreshTokenMapper_toDomain r)" "rt_family (RefreshTokenMapper_toDomain r) = f"
      using assms(2,3) by (simp_all add: isRevoked_def RefreshTokenMapper_toDomain_def)
    obtain q w2 where rv: "revokeFamily E f w1 = (q, w2)" by fastforce
    have run: "RefreshAccessToken_execute E S presented ip ua w =
        (Inl (case q of Inl e \<Rightarrow> e | Inr _ \<Rightarrow> InvalidRefreshTokenException), w2)"
      using find rv rev by (cases q) (simp_all add: RefreshAccessToken_execute_def bindM_def comp_simps Inr g throwM_def)
    have "q = Inr () \<and> (\<forall>x \<in> set (refreshTokens w2). rr_family x = f \<longrightarrow> rr_revokedAt x \<noteq> None)" if "faultless E"
      using rv revoke_where_faultless [OF that, of "\<lambda>r. rr_family r = f" w1]
      by (auto simp: revokeFamily_def dest!: revoke_rows_revoked)
    with run show ?thesis by auto
  qed
qed

text \<open>A refresh that returns found a token that is in use and its user, and has rotated it.\<close>

lemma Refresh_Inr:
  assumes ok: "identity_ok w" and run: "RefreshAccessToken_execute E S presented ip ua w = (Inr dto, w')"
  obtains r v n where "r \<in> set (refreshTokens w)" "rr_tokenHash r = hashRefreshToken S presented" "rr_revokedAt r = None"
    "u_id v = rr_userId r" "rotate E S ip ua (RefreshTokenMapper_toDomain r) v (w\<lparr>ticks := n\<rparr>) = (Inr dto, w')"
  using run [unfolded RefreshAccessToken_execute_def]
proof (elim bindM_InrE)
  fix found k w1 w2
  assume s: "findByTokenHash E (hashRefreshToken S presented) w = (Inr found :: exn + refreshToken option, w1)"
    "required found InvalidRefreshTokenException w1 = (Inr k, w2)"
    and go: "(if isRevoked k then bindM (revokeFamily E (rt_family k)) (\<lambda>_. throwM InvalidRefreshTokenException)
     else
       bindM (now E) (\<lambda>t.
       bindM (guardM (\<not> isExpired t k) InvalidRefreshTokenException) (\<lambda>_.
       bindM (user_findById E (rt_userId k)) (\<lambda>foundUser.
       bindM (required foundUser InvalidRefreshTokenException) (\<lambda>user.
       bindM (now E) (\<lambda>t2.
       bindM (liftE (assertCanAttemptLogin t2 user)) (\<lambda>user'.
       rotate E S ip ua k user'))))))) w2 = (Inr dto, w')"
  have found: "found = Some k" "w2 = w1" using step_Inr(1) [OF s(2)] by auto
  obtain r where r: "r \<in> set (refreshTokens w)" "rr_tokenHash r = hashRefreshToken S presented"
    "k = RefreshTokenMapper_toDomain r" and w1: "w1 = w\<lparr>ticks := Suc (ticks w)\<rparr>"
    using s(1) unfolding found(1) by (rule findByTokenHash_Inr)
  have unused: "\<not> isRevoked k"
  proof
    assume "isRevoked k"
    with go show False by (auto simp: bindM_def throwM_def split: prod.splits sum.splits)
  qed
  then have active: "rr_revokedAt r = None" by (simp add: isRevoked_def r(3) RefreshTokenMapper_toDomain_def)
  from go [unfolded if_not_P [OF unused]] show thesis
  proof (elim bindM_InrE)
    fix t u1 foundUser u t2 v w3 w4 w5 w6 w7 w8
    assume q: "now E w2 = (Inr t :: exn + int, w3)" "guardM (\<not> isExpired t k) InvalidRefreshTokenException w3 = (Inr u1, w4)"
      "user_findById E (rt_userId k) w4 = (Inr foundUser, w5)"
      "required foundUser InvalidRefreshTokenException w5 = (Inr u, w6)" "now E w6 = (Inr t2 :: exn + int, w7)"
      "liftE (assertCanAttemptLogin t2 u) w7 = (Inr v, w8)" "rotate E S ip ua k v w8 = (Inr dto, w')"
    have w4: "w4 = w3" using step_Inr(2) [OF q(2)] by simp
    have fu: "foundUser = Some u" "w6 = w5" using step_Inr(1) [OF q(4)] by auto
    have v: "assertCanAttemptLogin t2 u = Inr v" "w8 = w7" using step_Inr(3) [OF q(6)] by auto
    have "identity_ok w4" using ok w4 now_Inr [OF q(1)] found(2) w1 by simp
    from user_findById_Inr [OF q(3) [unfolded fu(1)] this] obtain ur where
      ur: "ur_id ur = rt_userId k" "UserMapper_toDomain ur = Inr u" and w5: "w5 = w4\<lparr>ticks := Suc (ticks w4)\<rparr>" by blast
    have "u_id u = rr_userId r"
      using ur by (auto simp: UserMapper_toDomain_def bindE_eq_Inr r(3) RefreshTokenMapper_toDomain_def)
    then have uid: "u_id v = rr_userId r" using assertCanAttemptLogin_same [OF v(1)] by simp
    obtain n8 where w8: "w8 = w\<lparr>ticks := n8\<rparr>"
      using v(2) now_Inr [OF q(5)] fu(2) w5 w4 now_Inr [OF q(1)] found(2) w1 by auto
    show thesis by (rule that [OF r(1,2) active uid]) (use q(7) w8 r(3) in simp)
  qed
qed

text \<open>
  C13. A refresh token is used once. A rotation that returns found the token unrevoked, revokes it in
  favour of a new token of the same family and the same user, and changes no other token; from then
  on presenting it is refused, and where the database answers, the whole family is revoked by the
  attempt, the token just issued included.
\<close>

theorem refresh_token_single_use:
  assumes ok: "identity_ok w"
    and fresh: "\<forall>n. newUuid E n \<noteq> [] \<and> newUuid E n \<notin> rr_id ` set (refreshTokens w)"
    and run: "RefreshAccessToken_execute E S presented ip ua w = (Inr dto, w')"
  shows "\<exists>r new t. r \<in> set (refreshTokens w) \<and> rr_tokenHash r = hashRefreshToken S presented \<and>
    rr_revokedAt r = None \<and>
    refreshTokens w' = map (\<lambda>x. if rr_id x = rr_id r
      then r\<lparr>rr_revokedAt := Some t, rr_replacedByTokenId := Some (rr_id new)\<rparr> else x) (refreshTokens w) @ [new] \<and>
    rr_family new = rr_family r \<and> rr_userId new = rr_userId r \<and> rr_revokedAt new = None \<and>
    rr_tokenHash new = hashRefreshToken S (ad_refreshToken dto) \<and> users w' = users w \<and>
    (\<forall>E2 ip2 ua2. \<exists>e w2. RefreshAccessToken_execute E2 S presented ip2 ua2 w' = (Inl e, w2) \<and>
      (faultless E2 \<longrightarrow> e = InvalidRefreshTokenException \<and>
        (\<forall>x \<in> set (refreshTokens w2). rr_family x = rr_family r \<longrightarrow> rr_revokedAt x \<noteq> None)))"
proof (rule Refresh_Inr [OF ok run])
  fix r v n8
  let ?w = "w\<lparr>ticks := n8\<rparr>"
  assume r: "r \<in> set (refreshTokens w)" "rr_tokenHash r = hashRefreshToken S presented" "rr_revokedAt r = None"
    and uid: "u_id v = rr_userId r" and rotated: "rotate E S ip ua (RefreshTokenMapper_toDomain r) v ?w = (Inr dto, w')"
  obtain t3 new n where w': "w' = ?w\<lparr>refreshTokens := map (\<lambda>x. if rr_id x = rr_id r
     then r\<lparr>rr_revokedAt := Some t3, rr_replacedByTokenId := Some (rr_id new)\<rparr> else x) (refreshTokens ?w) @ [new],
     ticks := n\<rparr>"
    and new: "rr_family new = rr_family r" "rr_userId new = u_id v" "rr_revokedAt new = None"
     "rr_tokenHash new = hashRefreshToken S (ad_refreshToken dto)"
    by (rule rotate_Inr [OF rotated]) (use r(1) fresh in auto)
  let ?old = "r\<lparr>rr_revokedAt := Some t3, rr_replacedByTokenId := Some (rr_id new)\<rparr>"
  have tokens: "refreshTokens w' = map (\<lambda>x. if rr_id x = rr_id r then ?old else x) (refreshTokens w) @ [new]"
    "users w' = users w" using w' by simp_all
  have ok': "identity_ok w'" using preserves_step [OF Refresh_identity ok run] .
  have old: "?old \<in> set (refreshTokens w')" using r(1) unfolding tokens(1) by force
  then have look: "List.find (\<lambda>x. rr_tokenHash x = hashRefreshToken S presented) (refreshTokens w') = Some ?old"
    using find_key [of rr_tokenHash "refreshTokens w'" ?old] ok' r(2) by (simp add: identity_ok_def)
  have reuse: "\<exists>e w2. RefreshAccessToken_execute E2 S presented ip2 ua2 w' = (Inl e, w2) \<and>
    (faultless E2 \<longrightarrow> e = InvalidRefreshTokenException \<and>
      (\<forall>x \<in> set (refreshTokens w2). rr_family x = rr_family r \<longrightarrow> rr_revokedAt x \<noteq> None))" for E2 ip2 ua2
    by (rule reused_token_refused [OF look]) simp_all
  show ?thesis
    using r tokens new uid reuse by (intro exI [of _ r] exI [of _ new] exI [of _ t3]) simp
qed


section \<open>Passwords\<close>

text \<open>Saving a loaded user rewrites the row it was loaded from, and no other.\<close>

lemma user_save_loaded:
  assumes "user_save E u w = (Inr v, w')" and "r \<in> set (users w)" and "ur_id r = u_id u"
  shows "w' = w\<lparr>users := map (\<lambda>x. if ur_id x = ur_id r then UserMapper_toPersistence u else x) (users w),
    ticks := Suc (ticks w)\<rparr>"
  using user_save_Inr [OF assms(1)] assms(2,3) by (simp add: image_iff) (metis assms(3))

lemma UserMapper_toDomain_fields:
  "UserMapper_toDomain r = Inr u \<Longrightarrow> u_id u = ur_id r \<and> hash_value (u_passwordHash u) = ur_passwordHash r \<and>
    u_role u = ur_role r \<and> u_status u = ur_status r \<and> u_failedLoginAttempts u = ur_failedLoginAttempts r \<and>
    u_lockedUntil u = ur_lockedUntil r \<and> u_events u = []"
  by (auto simp: UserMapper_toDomain_def bindE_eq_Inr HashedPassword_fromHash_def split: if_splits)

text \<open>
  A change of password that returns was made with the right current password and a new one of at
  least ten characters: the user's row gets a hash of the new password and keeps its role and status,
  other users are untouched, and no refresh token of the user is left active while other users'
  tokens are unchanged.
\<close>

theorem change_password_effect:
  assumes ok: "identity_ok w" and run: "ChangePassword_execute E S i current new w = (Inr u, w')"
  shows "\<exists>r r'. r \<in> set (users w) \<and> ur_id r = i \<and> bcryptCompare S current (ur_passwordHash r) \<and>
    10 \<le> length new \<and> users w' = map (\<lambda>x. if ur_id x = i then r' else x) (users w) \<and>
    (\<exists>n. ur_passwordHash r' = bcryptHash S n new) \<and> ur_id r' = i \<and> ur_role r' = ur_role r \<and> ur_status r' = ur_status r \<and>
    filter (\<lambda>k. rr_userId k = i \<and> rr_revokedAt k = None) (refreshTokens w') = [] \<and>
    filter (\<lambda>k. rr_userId k \<noteq> i) (refreshTokens w') = filter (\<lambda>k. rr_userId k \<noteq> i) (refreshTokens w)"
  using run [unfolded ChangePassword_execute_def Let_def revokeAllForUser_def]
proof (elim bindM_InrE)
  fix found :: "user option" and usr matches and u1 :: unit and plain raw hashed t and u2 u3 :: unit
    and w1 w2 w3 w4 w5 w6 w7 w8 w9 w10
  assume s: "user_findById E i w = (Inr found, w1)"
    "required found (NotFoundException ''User not found'') w1 = (Inr usr, w2)"
    "passwordHash_compare S current (hash_value (u_passwordHash usr)) w2 = (Inr matches :: exn + bool, w3)"
    "guardM matches InvalidCredentialsException w3 = (Inr u1, w4)"
    "liftE (PlainPassword_create new) w4 = (Inr plain, w5)"
    "passwordHash_hash S (plain_value plain) w5 = (Inr raw :: exn + string, w6)"
    "liftE (HashedPassword_fromHash raw) w6 = (Inr hashed, w7)"
    "now E w7 = (Inr t :: exn + int, w8)"
    "user_save E (changePassword t hashed usr) w8 = (Inr u2, w9)"
    "revoke_where E (\<lambda>r. rr_userId r = u_id (changePassword t hashed usr)) w9 = (Inr u3, w10)"
    "publishAll (u_events (changePassword t hashed usr)) w10 = (Inr u, w')"
  have f: "found = Some usr" "w2 = w1" using step_Inr(1) [OF s(2)] by auto
  obtain r where r: "r \<in> set (users w)" "ur_id r = i" "UserMapper_toDomain r = Inr usr"
    and w1: "w1 = w\<lparr>ticks := Suc (ticks w)\<rparr>"
    using s(1) ok unfolding f(1) by (rule user_findById_Inr)
  note row = UserMapper_toDomain_fields [OF r(3)]
  have m: "matches = bcryptCompare S current (ur_passwordHash r)" "w3 = w2"
    using s(3) row by (auto simp: passwordHash_compare_def comp_simps)
  have g: "matches" "w4 = w3" using step_Inr(2) [OF s(4)] by auto
  have p: "plain_value plain = new" "10 \<le> length new" "w5 = w4"
    using step_Inr(3) [OF s(5)] by (auto simp: PlainPassword_create_def split: if_splits)
  obtain n where h: "raw = bcryptHash S n new" and w6: "w6 = w5\<lparr>ticks := Suc (ticks w5)\<rparr>"
    using s(6) p(1) by (auto simp: passwordHash_hash_def draw_def)
  have k: "hash_value hashed = raw" "w7 = w6"
    using step_Inr(3) [OF s(7)] by (auto simp: HashedPassword_fromHash_def split: if_splits)
  obtain n8 where w8: "w8 = w\<lparr>ticks := n8\<rparr>" using now_Inr [OF s(8)] k(2) w6 p(3) g(2) m(2) f(2) w1 by simp
  let ?v = "changePassword t hashed usr"
  have v: "u_id ?v = i" "u_role ?v = ur_role r" "u_status ?v = ur_status r" "u_passwordHash ?v = hashed"
    using row r(2) by (simp_all add: changePassword_def user_addDomainEvent_def)
  have w9: "users w9 = map (\<lambda>x. if ur_id x = i then UserMapper_toPersistence ?v else x) (users w)"
    "refreshTokens w9 = refreshTokens w"
    using user_save_loaded [OF s(9), of r] r(1,2) v(1) w8 by simp_all
  have w': "users w' = users w9" "refreshTokens w' = revoke_rows (\<lambda>r. rr_userId r = i) (nowMs E (ticks w9)) (refreshTokens w)"
    using publishAll_Inr [OF s(11)] revoke_where_Inr [OF s(10)] w9(2) v(1) by simp_all
  have tokens: "filter (\<lambda>k. rr_userId k = i \<and> rr_revokedAt k = None) (revoke_rows (\<lambda>r. rr_userId r = i) t ts) = []"
    "filter (\<lambda>k. rr_userId k \<noteq> i) (revoke_rows (\<lambda>r. rr_userId r = i) t ts) = filter (\<lambda>k. rr_userId k \<noteq> i) ts" for t ts
    by (induction ts) (auto simp: revoke_rows_def)
  have r': "ur_passwordHash (UserMapper_toPersistence ?v) = bcryptHash S n new" "ur_id (UserMapper_toPersistence ?v) = i"
    "ur_role (UserMapper_toPersistence ?v) = ur_role r" "ur_status (UserMapper_toPersistence ?v) = ur_status r"
    using v k h by (simp_all add: UserMapper_toPersistence_def)
  show ?thesis
    using r(1,2) m g p(2) w' w9(1) tokens r' by (intro exI [of _ r] exI [of _ "UserMapper_toPersistence ?v"]) auto
qed


lemma persistence_id [simp]: "ur_id (UserMapper_toPersistence u) = u_id u"
  by (simp add: UserMapper_toPersistence_def)

lemma find_user_by_email:
  assumes E: "faultless E" and ok: "identity_ok w"
    and r: "r \<in> set (users w)" "ur_email r = email_value e" "UserMapper_toDomain r = Inr u"
  shows "user_findByEmail E e w = (Inr (Some u), w\<lparr>ticks := Suc (ticks w)\<rparr>)"
proof -
  have "List.find (\<lambda>r. ur_email r = email_value e) (users w) = Some r"
    using find_key [of ur_email "users w" r] ok r(1,2) by (simp add: identity_ok_def)
  with E r(3) show ?thesis by (simp add: user_findByEmail_def bindM_def comp_simps)
qed

text \<open>Saving the changed copy of a stored user cannot clash with another row.\<close>

lemma user_save_faultless:
  assumes E: "faultless E" and ok: "identity_ok w" and r: "r \<in> set (users w)" "ur_id r = u_id u"
    "ur_email r = email_value (u_email u)" "ur_phoneNumber r = phone_value (u_phoneNumber u)"
  shows "user_save E u w = (Inr (), w\<lparr>users := map (\<lambda>x. if ur_id x = ur_id r then UserMapper_toPersistence u else x) (users w),
    ticks := Suc (ticks w)\<rparr>)"
proof -
  have other: "x = r" if "x \<in> set (users w)" "ur_email x = ur_email r \<or> ur_phoneNumber x = ur_phoneNumber r" for x
    using that ok r(1) by (auto simp: identity_ok_def distinct_map inj_on_def)
  have "upsert_row ur_id user_clash (UserMapper_toPersistence u) (users w) =
      Inr (map (\<lambda>x. if ur_id x = ur_id r then UserMapper_toPersistence u else x) (users w))"
  proof -
    have no: "\<not> list_ex (\<lambda>x. ur_id x \<noteq> u_id u \<and> user_clash (UserMapper_toPersistence u) x) (users w)"
      using other r(2-4) by (auto simp: list_ex_iff user_clash_def UserMapper_toPersistence_def)
    have "list_ex (\<lambda>x. ur_id x = u_id u) (users w)" using r(1,2) by (auto simp: list_ex_iff)
    with no show ?thesis by (simp add: upsert_row_def persistence_id r(2))
  qed
  with E show ?thesis by (simp add: user_save_def insert_into_def comp_simps)
qed

text \<open>
  A wrong password is counted before it is refused: where the database answers, a login with a
  wrong password for a user who may attempt one fails with the same error as an unknown address, and
  the stored user is the loaded one with one failed login recorded, so that the fifth locks it.
\<close>

theorem wrong_password_counted:
  assumes E: "faultless E" and ok: "identity_ok w" and e: "Email_create address = Inr e"
    and r: "r \<in> set (users w)" "ur_email r = email_value e" "ur_phoneNumber r = phone_value (u_phoneNumber u)"
      "UserMapper_toDomain r = Inr u"
    and can: "assertCanAttemptLogin (nowMs E (Suc (ticks w))) u = Inr v"
    and wrong: "\<not> bcryptCompare S password (ur_passwordHash r)"
  shows "\<exists>w' t. Login_execute E S address password ip agent w = (Inl InvalidCredentialsException, w') \<and>
    users w' = map (\<lambda>x. if ur_id x = ur_id r then UserMapper_toPersistence (recordFailedLogin t ip v) else x) (users w) \<and>
    refreshTokens w' = refreshTokens w"
proof -
  let ?w = "w\<lparr>ticks := Suc (Suc (Suc (ticks w)))\<rparr>" let ?v = "recordFailedLogin (nowMs E (Suc (Suc (ticks w)))) ip v"
  note row = UserMapper_toDomain_fields [OF r(4)] and same = assertCanAttemptLogin_same [OF can]
  have em: "u_email u = e"
    using r(2,4) e Email_create_again by (auto simp: UserMapper_toDomain_def bindE_eq_Inr)
  have ph: "u_phoneNumber v = u_phoneNumber u" using can by (auto simp: assertCanAttemptLogin_def split: option.splits if_splits)
  have "user_save E ?v ?w = (Inr (), ?w\<lparr>users := map (\<lambda>x. if ur_id x = ur_id r then UserMapper_toPersistence ?v else x) (users w),
    ticks := Suc (ticks ?w)\<rparr>)"
    using user_save_faultless [OF E, of ?w r ?v] ok r row same ph em by (simp add: user_op_defs)
  then have save: "loginFailed E ip v (w\<lparr>ticks := Suc (Suc (ticks w))\<rparr>) = (Inl InvalidCredentialsException,
     w\<lparr>users := map (\<lambda>x. if ur_id x = ur_id r then UserMapper_toPersistence ?v else x) (users w),
       ticks := Suc (Suc (Suc (Suc (ticks w)))), published := published w @ u_events ?v\<rparr>)"
    by (simp add: loginFailed_def bindM_def comp_simps Let_def throwM_def)
  with find_user_by_email [OF E ok r(1,2,4)] wrong e can row same
  have "Login_execute E S address password ip agent w = (Inl InvalidCredentialsException,
     w\<lparr>users := map (\<lambda>x. if ur_id x = ur_id r then UserMapper_toPersistence ?v else x) (users w),
       ticks := Suc (Suc (Suc (Suc (ticks w)))), published := published w @ u_events ?v\<rparr>)"
    by (simp add: Login_execute_def bindM_def comp_simps passwordHash_compare_def)
  then show ?thesis
    by - (rule exI, rule exI [of _ "nowMs E (Suc (Suc (ticks w)))"], intro conjI, assumption, simp_all)
qed

lemma issue_new_Inr:
  assumes "RefreshToken_issue E i h fam x ip ua w = (Inr k, w')"
  shows "rt_id k = newUuid E (ticks w) \<and> rt_userId k = i \<and> rt_tokenHash k = h \<and> rt_expiresAt k = x \<and>
    rt_revokedAt k = None \<and> (\<exists>n. w' = w\<lparr>ticks := n\<rparr>)"
  using assms by (cases fam) (auto simp: RefreshToken_issue_def bindM_eq_Inr comp_simps)

text \<open>The part of a login behind the comparison of the password.\<close>

lemma loginSucceeded_Inr:
  assumes fresh: "\<And>n. newUuid E n \<notin> rr_id ` set (refreshTokens w)" and r: "r \<in> set (users w)" "ur_id r = u_id v"
    and run: "loginSucceeded E S ip agent v w = (Inr dto, w')"
  obtains t1 new where
    "users w' = map (\<lambda>x. if ur_id x = ur_id r then UserMapper_toPersistence (recordSuccessfulLogin t1 ip agent v) else x) (users w)"
    "refreshTokens w' = refreshTokens w @ [new]" "rr_userId new = ur_id r" "rr_revokedAt new = None"
    "rr_tokenHash new = hashRefreshToken S (ad_refreshToken dto)" "au_id (ad_user dto) = ur_id r"
  using run [unfolded loginSucceeded_def Let_def]
proof (elim bindM_InrE)
  fix t1 p and u1 :: unit and w7 w8 w9
  let ?v = "recordSuccessfulLogin t1 ip agent v"
  assume q: "now E w = (Inr t1 :: exn + int, w7)" "user_save E ?v w7 = (Inr u1, w8)"
    "signAccessToken S (u_id ?v, email_value (u_email ?v), u_role ?v) w8 = (Inr p, w9)"
    and rest: "(case p of (accessToken, expiresIn) \<Rightarrow>
      bindM (generateOpaqueRefreshToken E) (\<lambda>rawRefreshToken.
      bindM (now E) (\<lambda>t2.
      bindM (RefreshToken_issue E (u_id ?v) (hashRefreshToken S rawRefreshToken) None
               (t2 + REFRESH_TOKEN_TTL_MS) ip agent) (\<lambda>refreshToken.
      bindM (token_save E refreshToken) (\<lambda>_.
      bindM (publishAll (u_events ?v)) (\<lambda>_.
      returnM \<lparr>ad_accessToken = accessToken, ad_refreshToken = rawRefreshToken,
               ad_accessTokenExpiresIn = expiresIn, ad_user = authUser ?v\<rparr>)))))) w9 = (Inr dto, w')"
  have vid: "u_id ?v = ur_id r" using r(2) by (simp add: user_op_defs)
  have w8: "w8 = w\<lparr>users := map (\<lambda>x. if ur_id x = ur_id r then UserMapper_toPersistence ?v else x) (users w),
      ticks := Suc (ticks w7)\<rparr>"
    using user_save_loaded [OF q(2), of r] r(1) vid now_Inr [OF q(1)] by simp
  obtain n9 where w9: "w9 = w8\<lparr>ticks := n9\<rparr>" using readsD [OF reads_auth(1) q(3)] by blast
  obtain acc ex where p: "p = (acc, ex)" by fastforce
  from rest [unfolded p split_conv] show thesis
  proof (elim bindM_InrE)
    fix raw t2 k and u2 u3 :: unit and w10 w11 w12 w13 w14
    assume z: "generateOpaqueRefreshToken E w9 = (Inr raw :: exn + string, w10)" "now E w10 = (Inr t2 :: exn + int, w11)"
      "RefreshToken_issue E (u_id ?v) (hashRefreshToken S raw) None (t2 + REFRESH_TOKEN_TTL_MS) ip agent w11 =
        (Inr k :: exn + refreshToken, w12)"
      "token_save E k w12 = (Inr u2, w13)" "publishAll (u_events ?v) w13 = (Inr u3 :: exn + unit, w14)"
      "returnM \<lparr>ad_accessToken = acc, ad_refreshToken = raw,
               ad_accessTokenExpiresIn = ex, ad_user = authUser ?v\<rparr> w14 = (Inr dto, w')"
    obtain n10 where w10: "w10 = w9\<lparr>ticks := n10\<rparr>" using readsD [OF reads_auth(4) z(1)] by blast
    note k = issue_new_Inr [OF z(3)]
    obtain n12 where w12: "w12 = w9\<lparr>ticks := n12\<rparr>" using k now_Inr [OF z(2)] w10 by auto
    have rows: "refreshTokens w12 = refreshTokens w" using w12 w9 w8 by simp
    have "rt_id k \<notin> rr_id ` set (refreshTokens w12)" using k fresh rows by simp
    with token_save_Inr [OF z(4)] have w13: "refreshTokens w13 = refreshTokens w @ [RefreshTokenMapper_toPersistence k]"
      "users w13 = users w8" using rows w12 w9 by simp_all
    have dto: "w' = w14" "dto = \<lparr>ad_accessToken = acc, ad_refreshToken = raw,
               ad_accessTokenExpiresIn = ex, ad_user = authUser ?v\<rparr>" using z(6) by (auto simp: returnM_def)
    show thesis
      by (rule that [of t1 "RefreshTokenMapper_toPersistence k"])
        (use dto publishAll_Inr [OF z(5)] w13 w8 k vid in \<open>simp_all add: RefreshTokenMapper_toPersistence_def authUser_def\<close>)
  qed
qed

text \<open>
  C15. A login that returns names a stored user by the given address, the password matched the stored
  hash, and the user could attempt a login at the time it was looked up; the stored user afterwards has no failed
  attempts and no lockout, and the one new refresh token is an unrevoked token of this user, stored
  under its hash; other users and tokens are untouched.
\<close>

theorem login_effect:
  assumes ok: "identity_ok w" and fresh: "\<forall>n. newUuid E n \<notin> rr_id ` set (refreshTokens w)"
    and run: "Login_execute E S address password ip agent w = (Inr dto, w')"
  shows "\<exists>e r u v r' new. Email_create address = Inr e \<and> r \<in> set (users w) \<and> ur_email r = email_value e \<and>
    UserMapper_toDomain r = Inr u \<and> assertCanAttemptLogin (nowMs E (Suc (ticks w))) u = Inr v \<and>
    bcryptCompare S password (ur_passwordHash r) \<and>
    users w' = map (\<lambda>x. if ur_id x = ur_id r then r' else x) (users w) \<and> ur_id r' = ur_id r \<and>
    ur_failedLoginAttempts r' = 0 \<and> ur_lockedUntil r' = None \<and> ur_status r' = u_status v \<and>
    refreshTokens w' = refreshTokens w @ [new] \<and> rr_userId new = ur_id r \<and> rr_revokedAt new = None \<and>
    rr_tokenHash new = hashRefreshToken S (ad_refreshToken dto) \<and> au_id (ad_user dto) = ur_id r"
  using run [unfolded Login_execute_def]
proof (elim bindM_InrE)
  fix e found usr t v matches and w1 w2 w3 w4 w5 w6
  assume s: "liftE (Email_create address) w = (Inr e, w1)"
    "user_findByEmail E e w1 = (Inr found, w2)"
    "required found InvalidCredentialsException w2 = (Inr usr, w3)"
    "now E w3 = (Inr t :: exn + int, w4)"
    "liftE (assertCanAttemptLogin t usr) w4 = (Inr v, w5)"
    "passwordHash_compare S password (hash_value (u_passwordHash v)) w5 = (Inr matches :: exn + bool, w6)"
    and go: "(if \<not> matches then loginFailed E ip v else loginSucceeded E S ip agent v) w6 = (Inr dto, w')"
  have e: "Email_create address = Inr e" "w1 = w" using step_Inr(3) [OF s(1)] by auto
  have f: "found = Some usr" "w3 = w2" using step_Inr(1) [OF s(3)] by auto
  obtain r where r: "r \<in> set (users w)" "ur_email r = email_value e" "UserMapper_toDomain r = Inr usr"
    and w2: "w2 = w\<lparr>ticks := Suc (ticks w)\<rparr>"
    using s(2) unfolding f(1) e(2) by (rule user_findByEmail_Inr)
  note row = UserMapper_toDomain_fields [OF r(3)]
  have "t = nowMs E (Suc (ticks w))" using now_Inr [OF s(4)] f(2) w2 by simp
  with step_Inr(3) [OF s(5)] have can: "assertCanAttemptLogin (nowMs E (Suc (ticks w))) usr = Inr v" "w5 = w4" by simp_all
  note same = assertCanAttemptLogin_same [OF can(1)]
  have m: "matches = bcryptCompare S password (ur_passwordHash r)" "w6 = w5"
    using s(6) row same by (auto simp: passwordHash_compare_def comp_simps)
  obtain n6 where w6: "w6 = w\<lparr>ticks := n6\<rparr>" using m(2) can(2) now_Inr [OF s(4)] f(2) w2 by simp
  have matched: "matches"
  proof (rule ccontr)
    assume "\<not> matches"
    with go show False
      by (auto simp: loginFailed_def Let_def bindM_eq_Inr throwM_def)
  qed
  with go have went: "loginSucceeded E S ip agent v w6 = (Inr dto, w')" by simp
  have "ur_id r = u_id v" using row same by simp
  from loginSucceeded_Inr [OF _ _ this went, unfolded w6] fresh r(1) obtain t1 new where
    new: "users w' = map (\<lambda>x. if ur_id x = ur_id r then UserMapper_toPersistence (recordSuccessfulLogin t1 ip agent v) else x) (users w)"
      "refreshTokens w' = refreshTokens w @ [new]" "rr_userId new = ur_id r" "rr_revokedAt new = None"
      "rr_tokenHash new = hashRefreshToken S (ad_refreshToken dto)" "au_id (ad_user dto) = ur_id r" by auto
  let ?r' = "UserMapper_toPersistence (recordSuccessfulLogin t1 ip agent v)"
  have "u_status v \<noteq> US_LOCKED"
    using can(1) by (auto simp: assertCanAttemptLogin_def split: option.splits if_splits)
  then have r': "ur_id ?r' = ur_id r" "ur_failedLoginAttempts ?r' = 0" "ur_lockedUntil ?r' = None" "ur_status ?r' = u_status v"
    using row same by (simp_all add: UserMapper_toPersistence_def user_op_defs)
  show ?thesis
    using e(1) r can(1) m(1) matched new r'
    by (intro exI [of _ e] exI [of _ r] exI [of _ usr] exI [of _ v] exI [of _ ?r'] exI [of _ new] conjI) simp_all
qed

section \<open>Examples\<close>

definition exampleSecurity :: security where
  "exampleSecurity = \<lparr>bcryptHash = (\<lambda>n s. ''$'' @ s), bcryptCompare = (\<lambda>s h. h = ''$'' @ s),
     jwtSign = (\<lambda>n p e. Inr (''jwt'' @ nat_str n)), jwtVerify = (\<lambda>n t. Inl (UnauthorizedException ''not signed'')),
     sha256Hex = (\<lambda>s. ''#'' @ s), accessExpiresIn = None\<rparr>"

definition exampleIdentityWorld :: world where
  "exampleIdentityWorld = emptyWorld\<lparr>
     users := [(UserMapper_toPersistence exampleUser)\<lparr>ur_passwordHash := ''$correct horse''\<rparr>],
     refreshTokens := [\<lparr>rr_id = ''t1'', rr_userId = ''u1'', rr_tokenHash = ''#first'', rr_family = ''f1'',
       rr_expiresAt = 1000000, rr_revokedAt = None, rr_replacedByTokenId = None, rr_ipAddress = None,
       rr_userAgent = None, rr_createdAt = 5\<rparr>]\<rparr>"

lemma exampleIdentityWorld_ok: "identity_ok exampleIdentityWorld"
proof -
  let ?u = "exampleUser\<lparr>u_passwordHash := HashedPassword ''$correct horse''\<rparr>"
  have "user_ok ?u" by code_simp
  from user_mapper [OF this]
  have "\<exists>u. UserMapper_toDomain ((UserMapper_toPersistence exampleUser)\<lparr>ur_passwordHash := ''$correct horse''\<rparr>) = Inr u"
    by (simp add: UserMapper_toPersistence_def)
  then show ?thesis by (simp add: identity_ok_def exampleIdentityWorld_def emptyWorld_def)
qed

lemma exampleEnv_fresh: "newUuid exampleEnv n \<noteq> [] \<and> newUuid exampleEnv n \<notin> rr_id ` set (refreshTokens exampleIdentityWorld)"
  by (simp add: exampleEnv_def exampleIdentityWorld_def)

theorem identity_tables_invariant_witness:
  "identity_ok (foldl (\<lambda>w (E, S, c). run_auth E S ''035'' c w) exampleIdentityWorld
     [(exampleEnv, exampleSecurity, Login ''ada@kudi.ng'' ''correct horse'' None None),
      (exampleEnv, exampleSecurity, Logout ''first'')])"
  using exampleIdentityWorld_ok by (rule identity_tables_invariant)

theorem refresh_token_single_use_witness:
  "\<exists>dto w' r new t. RefreshAccessToken_execute exampleEnv exampleSecurity ''first'' None None exampleIdentityWorld = (Inr dto, w') \<and>
     refreshTokens w' = map (\<lambda>x. if rr_id x = rr_id r
       then r\<lparr>rr_revokedAt := Some t, rr_replacedByTokenId := Some (rr_id new)\<rparr> else x)
         (refreshTokens exampleIdentityWorld) @ [new] \<and> rr_family new = rr_family r"
proof -
  have "case RefreshAccessToken_execute exampleEnv exampleSecurity ''first'' None None exampleIdentityWorld of
      (Inr dto, w') \<Rightarrow> True | _ \<Rightarrow> False" by code_simp
  then obtain dto w' where run:
    "RefreshAccessToken_execute exampleEnv exampleSecurity ''first'' None None exampleIdentityWorld = (Inr dto, w')"
    by (auto split: prod.splits sum.splits)
  from refresh_token_single_use [OF exampleIdentityWorld_ok _ this] exampleEnv_fresh run show ?thesis by blast
qed

theorem change_password_effect_witness:
  "\<exists>u w'. ChangePassword_execute exampleEnv exampleSecurity ''u1'' ''correct horse'' ''battery staple'' exampleIdentityWorld = (Inr u, w') \<and>
     filter (\<lambda>k. rr_userId k = ''u1'' \<and> rr_revokedAt k = None) (refreshTokens w') = []"
proof -
  have "case ChangePassword_execute exampleEnv exampleSecurity ''u1'' ''correct horse'' ''battery staple'' exampleIdentityWorld of
      (Inr u, w') \<Rightarrow> True | _ \<Rightarrow> False" by code_simp
  then obtain u w' where run:
    "ChangePassword_execute exampleEnv exampleSecurity ''u1'' ''correct horse'' ''battery staple'' exampleIdentityWorld = (Inr u, w')"
    by (auto split: prod.splits sum.splits)
  from change_password_effect [OF exampleIdentityWorld_ok this] run show ?thesis by blast
qed

theorem login_effect_witness:
  "\<exists>dto w' new. Login_execute exampleEnv exampleSecurity ''Ada@Kudi.ng'' ''correct horse'' None None exampleIdentityWorld = (Inr dto, w') \<and>
     refreshTokens w' = refreshTokens exampleIdentityWorld @ [new]"
proof -
  have "case Login_execute exampleEnv exampleSecurity ''Ada@Kudi.ng'' ''correct horse'' None None exampleIdentityWorld of
      (Inr dto, w') \<Rightarrow> True | _ \<Rightarrow> False" by code_simp
  then obtain dto w' where run:
    "Login_execute exampleEnv exampleSecurity ''Ada@Kudi.ng'' ''correct horse'' None None exampleIdentityWorld = (Inr dto, w')"
    by (auto split: prod.splits sum.splits)
  from login_effect [OF exampleIdentityWorld_ok _ this] exampleEnv_fresh run show ?thesis by blast
qed

theorem wrong_password_counted_witness:
  "\<exists>w'. Login_execute exampleEnv exampleSecurity ''ada@kudi.ng'' ''guess'' None None exampleIdentityWorld =
     (Inl InvalidCredentialsException, w') \<and> refreshTokens w' = refreshTokens exampleIdentityWorld"
proof -
  let ?r = "(UserMapper_toPersistence exampleUser)\<lparr>ur_passwordHash := ''$correct horse''\<rparr>"
  let ?u = "exampleUser\<lparr>u_passwordHash := HashedPassword ''$correct horse'', u_events := []\<rparr>"
  have "Email_create ''ada@kudi.ng'' = Inr (Email ''ada@kudi.ng'')" by code_simp
  moreover have "?r \<in> set (users exampleIdentityWorld)" by (simp add: exampleIdentityWorld_def)
  moreover have "ur_email ?r = email_value (Email ''ada@kudi.ng'')" "ur_phoneNumber ?r = phone_value (u_phoneNumber ?u)"
    "UserMapper_toDomain ?r = Inr ?u" "assertCanAttemptLogin (nowMs exampleEnv (Suc (ticks exampleIdentityWorld))) ?u = Inr ?u"
    "\<not> bcryptCompare exampleSecurity ''guess'' (ur_passwordHash ?r)" by code_simp+
  ultimately show ?thesis
    using wrong_password_counted [OF exampleEnv_faultless exampleIdentityWorld_ok,
      of "''ada@kudi.ng''" "Email ''ada@kudi.ng''" ?r ?u ?u exampleSecurity "''guess''" None None] by blast
qed


section \<open>Who can log in does\<close>

lemma token_save_fresh:
  assumes "faultless E" and "rt_id k \<notin> rr_id ` set (refreshTokens w)"
    and "rt_tokenHash k \<notin> rr_tokenHash ` set (refreshTokens w)"
  shows "token_save E k w =
    (Inr (), w\<lparr>refreshTokens := refreshTokens w @ [RefreshTokenMapper_toPersistence k], ticks := Suc (ticks w)\<rparr>)"
proof -
  have "upsert_row rr_id (\<lambda>a b. rr_tokenHash a = rr_tokenHash b) (RefreshTokenMapper_toPersistence k) (refreshTokens w) =
      Inr (refreshTokens w @ [RefreshTokenMapper_toPersistence k])"
    using assms(2,3) by (auto simp: upsert_row_def list_ex_iff RefreshTokenMapper_toPersistence_def image_iff)
  with assms(1) show ?thesis by (simp add: token_save_def insert_into_def comp_simps)
qed

lemma loginSucceeded_returns:
  assumes E: "faultless E" and ok: "identity_ok w"
    and r: "r \<in> set (users w)" "ur_id r = u_id u" "ur_email r = email_value (u_email u)"
      "ur_phoneNumber r = phone_value (u_phoneNumber u)"
    and signs: "\<And>n p x. \<exists>token. jwtSign S n p x = Inr token"
    and fresh: "\<And>n. newUuid E n \<notin> rr_id ` set (refreshTokens w)"
      "\<And>n. sha256Hex S (randomHex E n) \<notin> rr_tokenHash ` set (refreshTokens w)"
  shows "\<exists>dto w' t. loginSucceeded E S ip agent u w = (Inr dto, w') \<and> ad_user dto = authUser (recordSuccessfulLogin t ip agent u)"
proof -
  let ?u = "recordSuccessfulLogin (nowMs E (ticks w)) ip agent u" and ?n = "ticks w"
  let ?ws = "\<lambda>n. w\<lparr>users := map (\<lambda>x. if ur_id x = ur_id r then UserMapper_toPersistence ?u else x) (users w), ticks := n\<rparr>"
  have u: "u_id ?u = u_id u" "u_email ?u = u_email u" "u_phoneNumber ?u = u_phoneNumber u" by (simp_all add: user_op_defs)
  have "identity_ok (w\<lparr>ticks := Suc ?n\<rparr>)" using ok by (simp add: identity_ok_def)
  from user_save_faultless [OF E this, of r ?u] r u
  have save: "user_save E ?u (w\<lparr>ticks := Suc ?n\<rparr>) = (Inr (), ?ws (Suc (Suc ?n)))" by simp
  obtain access where sign: "jwtSign S (Suc (Suc ?n)) (u_id ?u, email_value (u_email ?u), u_role ?u)
      (case accessExpiresIn S of None \<Rightarrow> ''15m'' | Some e \<Rightarrow> e) = Inr access" using signs by blast
  have token: "token_save E k (?ws m) = (Inr (), (?ws m)\<lparr>refreshTokens := refreshTokens w @ [RefreshTokenMapper_toPersistence k], ticks := Suc m\<rparr>)"
    if "rt_id k = newUuid E i" "rt_tokenHash k = sha256Hex S (randomHex E j)" for k i j m
    using token_save_fresh [OF E, of k "?ws m"] fresh that by simp
  have "\<exists>dto w'. loginSucceeded E S ip agent u w = (Inr dto, w') \<and> ad_user dto = authUser ?u"
    using save sign
    by (simp add: loginSucceeded_def bindM_def comp_simps Let_def signAccessToken_def draw_def generateOpaqueRefreshToken_def
        RefreshToken_issue_def hashRefreshToken_def token [where i = "Suc (Suc (Suc (Suc (Suc ?n))))" and j = "Suc (Suc (Suc ?n))"])
  then show ?thesis by blast
qed

text \<open>
  C25. A lockout ends. Where the database answers, signing works and the drawn identifiers and tokens
  are new, a locked user whose time is over gets in with the right password: the login returns, and
  the user it answers with is ACTIVE.
\<close>

theorem lockout_ends:
  assumes E: "faultless E" and ok: "identity_ok w" and e: "Email_create address = Inr e"
    and r: "r \<in> set (users w)" "ur_email r = email_value e" "ur_phoneNumber r = phone_value (u_phoneNumber u)"
      "UserMapper_toDomain r = Inr u"
    and locked: "u_status u = US_LOCKED" "u_lockedUntil u = Some until" "until \<le> nowMs E (Suc (ticks w))"
    and right: "bcryptCompare S password (ur_passwordHash r)"
    and signs: "\<And>n p x. \<exists>token. jwtSign S n p x = Inr token"
    and fresh: "\<And>n. newUuid E n \<notin> rr_id ` set (refreshTokens w)"
      "\<And>n. sha256Hex S (randomHex E n) \<notin> rr_tokenHash ` set (refreshTokens w)"
  shows "\<exists>dto w'. Login_execute E S address password ip agent w = (Inr dto, w') \<and>
    au_id (ad_user dto) = ur_id r \<and> au_status (ad_user dto) = ''ACTIVE''"
proof -
  let ?v = "u\<lparr>u_status := US_ACTIVE, u_failedLoginAttempts := 0, u_lockedUntil := None, u_updatedAt := nowMs E (Suc (ticks w))\<rparr>"
  have can: "assertCanAttemptLogin (nowMs E (Suc (ticks w))) u = Inr ?v"
    using locked by (simp add: assertCanAttemptLogin_def)
  note row = UserMapper_toDomain_fields [OF r(4)]
  have em: "u_email u = e"
    using r(2,4) e Email_create_again by (auto simp: UserMapper_toDomain_def bindE_eq_Inr)
  let ?w = "w\<lparr>ticks := Suc (Suc (ticks w))\<rparr>"
  have ok': "identity_ok ?w" using ok by (simp add: identity_ok_def)
  obtain dto w' t where run: "loginSucceeded E S ip agent ?v ?w = (Inr dto, w')"
      "ad_user dto = authUser (recordSuccessfulLogin t ip agent ?v)"
    using loginSucceeded_returns [OF E ok', of r ?v S ip agent] r row em signs fresh by auto
  have "Login_execute E S address password ip agent w = (Inr dto, w')"
    using find_user_by_email [OF E ok r(1,2,4)] e can row right run(1)
    by (simp add: Login_execute_def bindM_def comp_simps passwordHash_compare_def)
  with run(2) row show ?thesis by (simp add: authUser_def user_op_defs)
qed


text \<open>The user of the example after five wrong passwords, at a time when the lockout is over.\<close>

theorem lockout_ends_witness:
  "\<exists>dto w'. Login_execute exampleEnv exampleSecurity ''ada@kudi.ng'' ''correct horse'' None None
       (exampleIdentityWorld\<lparr>users := [(UserMapper_toPersistence exampleUser)\<lparr>ur_passwordHash := ''$correct horse'',
          ur_status := US_LOCKED, ur_failedLoginAttempts := 5, ur_lockedUntil := Some 0\<rparr>]\<rparr>) = (Inr dto, w') \<and>
     au_status (ad_user dto) = ''ACTIVE''"
proof -
  let ?r = "(UserMapper_toPersistence exampleUser)\<lparr>ur_passwordHash := ''$correct horse'', ur_status := US_LOCKED,
    ur_failedLoginAttempts := 5, ur_lockedUntil := Some 0\<rparr>"
  let ?u = "exampleUser\<lparr>u_passwordHash := HashedPassword ''$correct horse'', u_status := US_LOCKED,
    u_failedLoginAttempts := 5, u_lockedUntil := Some 0, u_events := []\<rparr>"
  let ?w = "exampleIdentityWorld\<lparr>users := [?r]\<rparr>"
  have facts: "Email_create ''ada@kudi.ng'' = Inr (Email ''ada@kudi.ng'')" "ur_email ?r = email_value (Email ''ada@kudi.ng'')"
    "ur_phoneNumber ?r = phone_value (u_phoneNumber ?u)" "UserMapper_toDomain ?r = Inr ?u" "u_status ?u = US_LOCKED"
    "u_lockedUntil ?u = Some 0" "0 \<le> nowMs exampleEnv (Suc (ticks ?w))"
    "bcryptCompare exampleSecurity ''correct horse'' (ur_passwordHash ?r)" by code_simp+
  have ok: "identity_ok ?w"
    using facts(4) by (auto simp: identity_ok_def exampleIdentityWorld_def)
  have signs: "\<exists>token. jwtSign exampleSecurity n p x = Inr token" for n p x by (simp add: exampleSecurity_def)
  have fresh: "newUuid exampleEnv n \<notin> rr_id ` set (refreshTokens ?w)"
    "sha256Hex exampleSecurity (randomHex exampleEnv n) \<notin> rr_tokenHash ` set (refreshTokens ?w)" for n
    using exampleEnv_fresh by (auto simp: exampleIdentityWorld_def exampleSecurity_def exampleEnv_def)
  show ?thesis
    using lockout_ends [OF exampleEnv_faultless ok facts(1) _ facts(2-8) signs fresh, where ip = None and agent = None]
    by fastforce
qed

end
