(* ===== verification/KycServices.thy ===== *)
theory KycServices
  imports Kyc Users AccountOps
begin

text \<open>
  The compliance services and command handlers (\<^verbatim>\<open>modules/compliance/application\<close> and
  \<^verbatim>\<open>infrastructure\<close>): the audit log, the screening against the sanctions list, the
  identity-verification provider behind Flutterwave, the verification commands of customers and
  staff, and the queries.
\<close>

section \<open>The audit log\<close>

record kycAuditLogEntry =
  ka_id :: string
  ka_userId :: string
  ka_kycProfileId :: string
  ka_eventType :: kycAuditEventType
  ka_verificationType :: "verificationType option"
  ka_outcome :: "kycAuditOutcome option"
  ka_failureReason :: "string option"
  ka_previousTier :: "kycTier option"
  ka_newTier :: "kycTier option"
  ka_performedByUserId :: "string option"
  ka_notes :: "string option"
  ka_createdAt :: int

text \<open>The factories take the random identifier first.\<close>

definition forVerificationAttempt ::
  "string \<Rightarrow> string \<Rightarrow> string \<Rightarrow> verificationType \<Rightarrow> kycAuditOutcome \<Rightarrow> string option \<Rightarrow> int \<Rightarrow> string option \<Rightarrow>
   string option \<Rightarrow> kycAuditLogEntry" where
  "forVerificationAttempt newId userId kycProfileId verificationType outcome failureReason occurred
     performedByUserId notes =
     \<lparr>ka_id = newId, ka_userId = userId, ka_kycProfileId = kycProfileId,
      ka_eventType = AE_VERIFICATION_ATTEMPT, ka_verificationType = Some verificationType,
      ka_outcome = Some outcome, ka_failureReason = failureReason, ka_previousTier = None,
      ka_newTier = None, ka_performedByUserId = performedByUserId, ka_notes = notes,
      ka_createdAt = occurred\<rparr>"

definition forTierChange ::
  "string \<Rightarrow> string \<Rightarrow> string \<Rightarrow> kycTier \<Rightarrow> kycTier \<Rightarrow> int \<Rightarrow> kycAuditLogEntry" where
  "forTierChange newId userId kycProfileId previousTier newTier occurred =
     \<lparr>ka_id = newId, ka_userId = userId, ka_kycProfileId = kycProfileId, ka_eventType = AE_TIER_CHANGE,
      ka_verificationType = None, ka_outcome = None, ka_failureReason = None,
      ka_previousTier = Some previousTier, ka_newTier = Some newTier, ka_performedByUserId = None,
      ka_notes = None, ka_createdAt = occurred\<rparr>"

definition forSanctionsScreening ::
  "string \<Rightarrow> string \<Rightarrow> string \<Rightarrow> kycAuditOutcome \<Rightarrow> string option \<Rightarrow> int \<Rightarrow> string option \<Rightarrow> kycAuditLogEntry" where
  "forSanctionsScreening newId userId kycProfileId outcome notes occurred performedByUserId =
     \<lparr>ka_id = newId, ka_userId = userId, ka_kycProfileId = kycProfileId,
      ka_eventType = AE_SANCTIONS_SCREENING, ka_verificationType = None, ka_outcome = Some outcome,
      ka_failureReason = None, ka_previousTier = None, ka_newTier = None,
      ka_performedByUserId = performedByUserId, ka_notes = notes, ka_createdAt = occurred\<rparr>"

definition KycAuditLogMapper_toDomain :: "kyc_audit_row \<Rightarrow> kycAuditLogEntry" where
  "KycAuditLogMapper_toDomain r =
     \<lparr>ka_id = kar_id r, ka_userId = kar_userId r, ka_kycProfileId = kar_kycProfileId r,
      ka_eventType = kar_eventType r, ka_verificationType = kar_verificationType r,
      ka_outcome = kar_outcome r, ka_failureReason = kar_failureReason r,
      ka_previousTier = kar_previousTier r, ka_newTier = kar_newTier r,
      ka_performedByUserId = kar_performedByUserId r, ka_notes = kar_notes r,
      ka_createdAt = kar_createdAt r\<rparr>"

definition KycAuditLogMapper_toPersistence :: "kycAuditLogEntry \<Rightarrow> kyc_audit_row" where
  "KycAuditLogMapper_toPersistence e =
     \<lparr>kar_id = ka_id e, kar_userId = ka_userId e, kar_kycProfileId = ka_kycProfileId e,
      kar_eventType = ka_eventType e, kar_verificationType = ka_verificationType e,
      kar_outcome = ka_outcome e, kar_failureReason = ka_failureReason e,
      kar_previousTier = ka_previousTier e, kar_newTier = ka_newTier e,
      kar_performedByUserId = ka_performedByUserId e, kar_notes = ka_notes e,
      kar_createdAt = ka_createdAt e\<rparr>"

definition audit_save :: "env \<Rightarrow> kycAuditLogEntry \<Rightarrow> unit action" where
  "audit_save E entry =
     insert_into E kycAuditLog (\<lambda>t w. w\<lparr>kycAuditLog := t\<rparr>)
       (create_row (\<lambda>r. True) (\<lambda>a b. kar_id a = kar_id b) (KycAuditLogMapper_toPersistence entry))"

definition audit_findByUserId :: "env \<Rightarrow> string \<Rightarrow> kycAuditLogEntry list action" where
  "audit_findByUserId E userId =
     bindM (query E (\<lambda>w. sort_key kar_createdAt (filter (\<lambda>r. kar_userId r = userId) (kycAuditLog w)))) (\<lambda>records.
     returnM (map KycAuditLogMapper_toDomain records))"

section \<open>The recorder\<close>

definition recordVerificationAttempt ::
  "env \<Rightarrow> string \<Rightarrow> string \<Rightarrow> verificationType \<Rightarrow> kycAuditOutcome \<Rightarrow> string option \<Rightarrow> int \<Rightarrow> unit action" where
  "recordVerificationAttempt E userId kycProfileId type outcome failureReason occurred =
     bindM (uuid E) (\<lambda>i.
     audit_save E (forVerificationAttempt i userId kycProfileId type outcome failureReason occurred None None))"

definition recordTierChange :: "env \<Rightarrow> string \<Rightarrow> string \<Rightarrow> kycTier \<Rightarrow> int \<Rightarrow> unit action" where
  "recordTierChange E userId kycProfileId newTier occurred =
     (let previousTier = (if newTier = TIER_3 then TIER_2 else TIER_1)
      in bindM (uuid E) (\<lambda>i. audit_save E (forTierChange i userId kycProfileId previousTier newTier occurred)))"

definition recordEvent :: "env \<Rightarrow> domain_event \<Rightarrow> unit action" where
  "recordEvent E event =
     (case body event of
        VerificationPassedEvent profileId userId type \<Rightarrow>
          recordVerificationAttempt E userId profileId type AO_PASSED None (occurredAt event)
      | VerificationFailedEvent profileId userId type reason \<Rightarrow>
          recordVerificationAttempt E userId profileId type AO_FAILED (Some reason) (occurredAt event)
      | KycTierUpgradedEvent profileId userId newTier \<Rightarrow>
          recordTierChange E userId profileId newTier (occurredAt event)
      | _ \<Rightarrow> returnM ())"

fun recordDomainEvents :: "env \<Rightarrow> domain_event list \<Rightarrow> unit action" where
  "recordDomainEvents E [] = returnM ()"
| "recordDomainEvents E (event # events) =
     bindM (recordEvent E event) (\<lambda>_. recordDomainEvents E events)"

section \<open>Screening against the sanctions list\<close>

text \<open>What is not a letter, white space, an apostrophe or a hyphen becomes a space.\<close>

definition name_char :: "char \<Rightarrow> char" where
  "name_char c = (if is_upper c \<or> is_space c \<or> c = CHR 0x27 \<or> c = CHR ''-'' then c else CHR '' '')"

definition normalizeToTokens :: "string \<Rightarrow> string list" where
  "normalizeToTokens name =
     filter (\<lambda>token. length token \<ge> 2) (map trim (split_spaces (map name_char (toUpperCase name))))"

definition candidateIsSubsetOfEntry :: "string list \<Rightarrow> string list \<Rightarrow> bool" where
  "candidateIsSubsetOfEntry candidateTokens entryTokens \<longleftrightarrow>
     list_all (\<lambda>token. token \<in> set entryTokens) candidateTokens"

definition findAllIndividuals :: "env \<Rightarrow> sanctions_row list action" where
  "findAllIndividuals E = query E sanctionsList"

record screeningMatch =
  sm_entryId :: string
  sm_fullName :: string
  sm_program :: "string option"

definition screeningMatches :: "string list \<Rightarrow> sanctions_row list \<Rightarrow> screeningMatch list" where
  "screeningMatches candidateTokens entries =
     map (\<lambda>e. \<lparr>sm_entryId = sr_id e, sm_fullName = sr_fullName e, sm_program = sr_program e\<rparr>)
       (filter (\<lambda>e. candidateIsSubsetOfEntry candidateTokens (normalizeToTokens (sr_fullName e))) entries)"

text \<open>\<open>matched\<close> is that there is a match.\<close>

definition screen :: "env \<Rightarrow> string \<Rightarrow> screeningMatch list action" where
  "screen E fullName =
     (let candidateTokens = normalizeToTokens fullName
      in if length candidateTokens < 2 then returnM []
         else bindM (findAllIndividuals E) (\<lambda>entries. returnM (screeningMatches candidateTokens entries)))"

definition matchText :: "screeningMatch \<Rightarrow> string" where
  "matchText m =
     sm_fullName m @
     (case sm_program m of Some p \<Rightarrow> if p \<noteq> [] then '' ('' @ p @ '')'' else [] | None \<Rightarrow> [])"

text \<open>The profile as the screening leaves it.\<close>

definition screenAndFlag :: "env \<Rightarrow> kycProfile \<Rightarrow> string \<Rightarrow> kycProfile action" where
  "screenAndFlag E profile fullName =
     bindM (screen E fullName) (\<lambda>matches.
     if matches = [] then
       bindM (now E) (\<lambda>t.
       bindM (uuid E) (\<lambda>i.
       bindM (audit_save E (forSanctionsScreening i (kp_userId profile) (kp_id profile) AO_PASSED None t None)) (\<lambda>_.
       returnM profile)))
     else
       let matchSummary = join ''; '' (map matchText matches)
       in bindM (now E) (\<lambda>t.
          let profile' = flagForSanctionsReview t matchSummary profile
          in bindM (kycProfile_save E profile') (\<lambda>_.
             let (events, profile'') = kyc_pullDomainEvents profile'
             in bindM (now E) (\<lambda>t2.
                bindM (uuid E) (\<lambda>i.
                bindM (audit_save E (forSanctionsScreening i (kp_userId profile'') (kp_id profile'') AO_FAILED
                         (Some (''Candidate match(es): '' @ matchSummary)) t2 None)) (\<lambda>_.
                bindM (publishAll events) (\<lambda>_.
                returnM profile'')))))))"


section \<open>The identity-verification provider\<close>

text \<open>Of the answers' data, the fields the code reads; the same for BVN and NIN.\<close>

record verificationData =
  vd_first_name :: string
  vd_middle_name :: "string option"
  vd_last_name :: string

record verificationResponse =
  vr_success :: bool
  vr_message :: string
  vr_data :: "verificationData option"

text \<open>
  The HTTP library is a parameter: for the number of the use, the URL and the authorization header,
  the answer or an error. The adapter turns any error into one exception.
\<close>

record verificationHttp =
  httpGet :: "nat \<Rightarrow> string \<Rightarrow> string \<Rightarrow> string + verificationResponse"
  flutterwaveBaseUrl :: string
  flutterwaveSecretKey :: string

definition verification_get :: "verificationHttp \<Rightarrow> string \<Rightarrow> verificationResponse action" where
  "verification_get H path =
     bindM (draw (\<lambda>n. httpGet H n (flutterwaveBaseUrl H @ path) (''Bearer '' @ flutterwaveSecretKey H))) (\<lambda>answer.
     case answer of
       Inl e \<Rightarrow> throwM (ServiceUnavailableException ''Verification provider is currently unavailable'')
     | Inr data \<Rightarrow> returnM data)"

definition resolveBvn :: "verificationHttp \<Rightarrow> string \<Rightarrow> verificationResponse action" where
  "resolveBvn H b = verification_get H (''/kyc/bvns/'' @ b)"

definition resolveNin :: "verificationHttp \<Rightarrow> string \<Rightarrow> verificationResponse action" where
  "resolveNin H n = verification_get H (''/kyc/nin/'' @ n)"

definition normalizeName :: "string \<Rightarrow> string" where
  "normalizeName v = toLowerCase (trim v)"

definition namesMatch :: "verificationData \<Rightarrow> string \<Rightarrow> string \<Rightarrow> bool" where
  "namesMatch data expectedFirstName expectedLastName \<longleftrightarrow>
     normalizeName (vd_first_name data) = normalizeName expectedFirstName \<and>
     normalizeName (vd_last_name data) = normalizeName expectedLastName"

definition verifiedName :: "verificationData \<Rightarrow> string" where
  "verifiedName data =
     join '' '' (filter (\<lambda>s. s \<noteq> [])
       [vd_first_name data, (case vd_middle_name data of None \<Rightarrow> [] | Some m \<Rightarrow> m), vd_last_name data])"

record verificationResult =
  matched :: bool
  verifiedFullName :: "string option"

definition verificationOutcome :: "string \<Rightarrow> string \<Rightarrow> verificationResponse \<Rightarrow> exn + verificationResult" where
  "verificationOutcome expectedFirstName expectedLastName response =
     (case vr_data response of
        None \<Rightarrow> Inl (VerificationProviderException (vr_message response))
      | Some data \<Rightarrow>
          if \<not> vr_success response then Inl (VerificationProviderException (vr_message response))
          else (let m = namesMatch data expectedFirstName expectedLastName
                in Inr \<lparr>matched = m, verifiedFullName = (if m then Some (verifiedName data) else None)\<rparr>))"

definition verifyBvn :: "verificationHttp \<Rightarrow> string \<Rightarrow> string \<Rightarrow> string \<Rightarrow> verificationResult action" where
  "verifyBvn H b expectedFirstName expectedLastName =
     bindM (resolveBvn H b) (\<lambda>response. liftE (verificationOutcome expectedFirstName expectedLastName response))"

definition verifyNin :: "verificationHttp \<Rightarrow> string \<Rightarrow> string \<Rightarrow> string \<Rightarrow> verificationResult action" where
  "verifyNin H n expectedFirstName expectedLastName =
     bindM (resolveNin H n) (\<lambda>response. liftE (verificationOutcome expectedFirstName expectedLastName response))"

text \<open>HMAC-SHA256 is a parameter; the key is the configured one.\<close>

record hasher =
  hmacSha256Hex :: "string \<Rightarrow> string \<Rightarrow> string"
  identifierHmacKey :: "string option"

definition identifier_hash :: "hasher \<Rightarrow> string \<Rightarrow> exn + string" where
  "identifier_hash K v =
     (case identifierHmacKey K of
        Some key \<Rightarrow>
          if length key < 32
          then Inl (InternalServerErrorException
                 ''KYC_IDENTIFIER_HMAC_KEY must be configured and at least 32 characters'')
          else Inr (hmacSha256Hex K key v)
      | None \<Rightarrow> Inl (InternalServerErrorException
                 ''KYC_IDENTIFIER_HMAC_KEY must be configured and at least 32 characters''))"

section \<open>Responses\<close>

record kycStatusResponse =
  ks_userId :: string
  ks_tier :: string
  ks_bvnVerified :: bool
  ks_bvnVerifiedAt :: "string option"
  ks_bvnMasked :: "string option"
  ks_ninVerified :: bool
  ks_ninVerifiedAt :: "string option"
  ks_ninMasked :: "string option"

definition KycStatusResponseDto_fromDomain :: "kycProfile \<Rightarrow> kycStatusResponse" where
  "KycStatusResponseDto_fromDomain p =
     \<lparr>ks_userId = kp_userId p, ks_tier = kycTier_str (kp_tier p),
      ks_bvnVerified = (kp_bvnVerifiedAt p \<noteq> None),
      ks_bvnVerifiedAt = map_option toISOString (kp_bvnVerifiedAt p), ks_bvnMasked = kp_bvnMasked p,
      ks_ninVerified = (kp_ninVerifiedAt p \<noteq> None),
      ks_ninVerifiedAt = map_option toISOString (kp_ninVerifiedAt p), ks_ninMasked = kp_ninMasked p\<rparr>"

record flaggedProfileResponse =
  fr_userId :: string
  fr_tier :: string
  fr_flaggedAt :: string

text \<open>The flag's date is dereferenced without a check: a null there is a \<open>TypeError\<close>.\<close>

definition FlaggedSanctionsProfileResponseDto_fromDomain :: "kycProfile \<Rightarrow> exn + flaggedProfileResponse" where
  "FlaggedSanctionsProfileResponseDto_fromDomain p =
     (case kp_sanctionsFlaggedAt p of
        None \<Rightarrow> Inl (OtherError ''Cannot read properties of null (reading 'toISOString')'')
      | Some t \<Rightarrow> Inr \<lparr>fr_userId = kp_userId p, fr_tier = kycTier_str (kp_tier p), fr_flaggedAt = toISOString t\<rparr>)"

record auditEntryResponse =
  ar_eventType :: string
  ar_verificationType :: "string option"
  ar_outcome :: "string option"
  ar_failureReason :: "string option"
  ar_previousTier :: "string option"
  ar_newTier :: "string option"
  ar_occurredAt :: string

definition KycAuditLogEntryResponseDto_fromDomain :: "kycAuditLogEntry \<Rightarrow> auditEntryResponse" where
  "KycAuditLogEntryResponseDto_fromDomain e =
     \<lparr>ar_eventType = kycAuditEventType_str (ka_eventType e),
      ar_verificationType = map_option verificationType_str (ka_verificationType e),
      ar_outcome = map_option kycAuditOutcome_str (ka_outcome e), ar_failureReason = ka_failureReason e,
      ar_previousTier = map_option kycTier_str (ka_previousTier e),
      ar_newTier = map_option kycTier_str (ka_newTier e), ar_occurredAt = toISOString (ka_createdAt e)\<rparr>"

section \<open>Verification by the customer\<close>

text \<open>User and profile of a command; a missing user counts as a missing profile.\<close>

definition loadUserAndProfile :: "env \<Rightarrow> string \<Rightarrow> (user \<times> kycProfile) action" where
  "loadUserAndProfile E userId =
     bindM (user_findById E userId) (\<lambda>foundUser.
     bindM (required foundUser (KycProfileNotFoundException userId)) (\<lambda>user.
     bindM (kycProfile_findByUserId E userId) (\<lambda>foundProfile.
     bindM (required foundProfile (KycProfileNotFoundException userId)) (\<lambda>profile.
     returnM (user, profile)))))"

text \<open>
  The provider's name, or the one the user registered with. The same three steps follow a changed
  profile: store it, record its events in the audit log, publish them.
\<close>

definition screenedName :: "user \<Rightarrow> verificationResult \<Rightarrow> string" where
  "screenedName user result =
     (case verifiedFullName result of Some n \<Rightarrow> n | None \<Rightarrow> u_firstName user @ '' '' @ u_lastName user)"

definition storeAndAudit :: "env \<Rightarrow> kycProfile \<Rightarrow> kycProfile action" where
  "storeAndAudit E profile =
     bindM (kycProfile_save E profile) (\<lambda>_.
     let (events, profile') = kyc_pullDomainEvents profile
     in bindM (recordDomainEvents E events) (\<lambda>_.
        bindM (publishAll events) (\<lambda>_.
        returnM profile')))"

definition verificationMismatch :: "env \<Rightarrow> verificationType \<Rightarrow> kycProfile \<Rightarrow> 'a action" where
  "verificationMismatch E type profile =
     bindM (now E) (\<lambda>t.
     bindM (storeAndAudit E (recordVerificationFailed t type ''Provider-returned name did not match'' profile)) (\<lambda>_.
     throwM IdentityMismatchException))"

definition SubmitBvnVerification_execute ::
  "env \<Rightarrow> verificationHttp \<Rightarrow> hasher \<Rightarrow> string \<Rightarrow> string \<Rightarrow> kycStatusResponse action" where
  "SubmitBvnVerification_execute E H K userId bvnText =
     bindM (loadUserAndProfile E userId) (\<lambda>(user, profile).
     bindM (liftE (Bvn_create bvnText)) (\<lambda>b.
     bindM (verifyBvn H (bvn_value b) (u_firstName user) (u_lastName user)) (\<lambda>result.
     if \<not> matched result then verificationMismatch E VT_BVN profile
     else
       bindM (liftE (identifier_hash K (bvn_value b))) (\<lambda>bvnHash.
       bindM (now E) (\<lambda>t.
       bindM (liftE (recordBvnVerified t bvnHash (Bvn_toMasked b) profile)) (\<lambda>verified.
       bindM (storeAndAudit E verified) (\<lambda>profile'.
       bindM (screenAndFlag E profile' (screenedName user result)) (\<lambda>profile''.
       returnM (KycStatusResponseDto_fromDomain profile''))))))))) "

definition SubmitNinVerification_execute ::
  "env \<Rightarrow> verificationHttp \<Rightarrow> hasher \<Rightarrow> string \<Rightarrow> string \<Rightarrow> kycStatusResponse action" where
  "SubmitNinVerification_execute E H K userId ninText =
     bindM (loadUserAndProfile E userId) (\<lambda>(user, profile).
     bindM (liftE (Nin_create ninText)) (\<lambda>n.
     bindM (verifyNin H (nin_value n) (u_firstName user) (u_lastName user)) (\<lambda>result.
     if \<not> matched result then verificationMismatch E VT_NIN profile
     else
       bindM (liftE (identifier_hash K (nin_value n))) (\<lambda>ninHash.
       bindM (now E) (\<lambda>t.
       bindM (liftE (recordNinVerified t ninHash (Nin_toMasked n) profile)) (\<lambda>verified.
       bindM (storeAndAudit E verified) (\<lambda>profile'.
       bindM (screenAndFlag E profile' (screenedName user result)) (\<lambda>profile''.
       returnM (KycStatusResponseDto_fromDomain profile''))))))))) "

section \<open>Verification by staff\<close>

definition overrideNotes :: "string \<Rightarrow> verificationResult \<Rightarrow> string" where
  "overrideNotes reason result =
     ''Manual override by staff. Reason: '' @ reason @ ''. Provider-returned name: '' @
     (case verifiedFullName result of Some n \<Rightarrow> n | None \<Rightarrow> ''unavailable'') @ ''.''"

definition isTierUpgrade :: "domain_event \<Rightarrow> bool" where
  "isTierUpgrade e = (case body e of KycTierUpgradedEvent p u t \<Rightarrow> True | _ \<Rightarrow> False)"

text \<open>What both overrides do with the verified profile.\<close>

definition finishOverride ::
  "env \<Rightarrow> verificationType \<Rightarrow> string \<Rightarrow> string \<Rightarrow> string \<Rightarrow> user \<Rightarrow> verificationResult \<Rightarrow> kycProfile \<Rightarrow>
   kycStatusResponse action" where
  "finishOverride E type staffUserId targetUserId reason targetUser result verified =
     bindM (kycProfile_save E verified) (\<lambda>_.
     let (events, profile) = kyc_pullDomainEvents verified
     in bindM (now E) (\<lambda>t.
        bindM (uuid E) (\<lambda>i.
        bindM (audit_save E (forVerificationAttempt i targetUserId (kp_id profile) type AO_PASSED None t
                 (Some staffUserId) (Some (overrideNotes reason result)))) (\<lambda>_.
        bindM (recordDomainEvents E (filter isTierUpgrade events)) (\<lambda>_.
        bindM (publishAll events) (\<lambda>_.
        bindM (screenAndFlag E profile (screenedName targetUser result)) (\<lambda>profile'.
        returnM (KycStatusResponseDto_fromDomain profile'))))))))"

definition ManuallyVerifyBvn_execute ::
  "env \<Rightarrow> verificationHttp \<Rightarrow> hasher \<Rightarrow> string \<Rightarrow> string \<Rightarrow> string \<Rightarrow> string \<Rightarrow> kycStatusResponse action" where
  "ManuallyVerifyBvn_execute E H K staffUserId targetUserId bvnText reason =
     bindM (loadUserAndProfile E targetUserId) (\<lambda>(targetUser, profile).
     bindM (liftE (Bvn_create bvnText)) (\<lambda>b.
     bindM (verifyBvn H (bvn_value b) (u_firstName targetUser) (u_lastName targetUser)) (\<lambda>result.
     bindM (liftE (identifier_hash K (bvn_value b))) (\<lambda>bvnHash.
     bindM (now E) (\<lambda>t.
     bindM (liftE (recordBvnVerified t bvnHash (Bvn_toMasked b) profile)) (\<lambda>verified.
     finishOverride E VT_BVN staffUserId targetUserId reason targetUser result verified))))))"

definition ManuallyVerifyNin_execute ::
  "env \<Rightarrow> verificationHttp \<Rightarrow> hasher \<Rightarrow> string \<Rightarrow> string \<Rightarrow> string \<Rightarrow> string \<Rightarrow> kycStatusResponse action" where
  "ManuallyVerifyNin_execute E H K staffUserId targetUserId ninText reason =
     bindM (loadUserAndProfile E targetUserId) (\<lambda>(targetUser, profile).
     bindM (liftE (Nin_create ninText)) (\<lambda>n.
     bindM (verifyNin H (nin_value n) (u_firstName targetUser) (u_lastName targetUser)) (\<lambda>result.
     bindM (liftE (identifier_hash K (nin_value n))) (\<lambda>ninHash.
     bindM (now E) (\<lambda>t.
     bindM (liftE (recordNinVerified t ninHash (Nin_toMasked n) profile)) (\<lambda>verified.
     finishOverride E VT_NIN staffUserId targetUserId reason targetUser result verified))))))"

definition ClearSanctionsFlag_execute :: "env \<Rightarrow> string \<Rightarrow> string \<Rightarrow> string \<Rightarrow> kycStatusResponse action" where
  "ClearSanctionsFlag_execute E staffUserId targetUserId reason =
     bindM (kycProfile_findByUserId E targetUserId) (\<lambda>found.
     bindM (required found (KycProfileNotFoundException targetUserId)) (\<lambda>profile.
     bindM (now E) (\<lambda>t.
     bindM (liftE (clearSanctionsFlag t staffUserId reason profile)) (\<lambda>cleared.
     bindM (kycProfile_save E cleared) (\<lambda>_.
     let (events, profile') = kyc_pullDomainEvents cleared
     in bindM (now E) (\<lambda>t2.
        bindM (uuid E) (\<lambda>i.
        bindM (audit_save E (forSanctionsScreening i targetUserId (kp_id profile') AO_PASSED
                 (Some (''Flag cleared by staff. Reason: '' @ reason @ ''.'')) t2 (Some staffUserId))) (\<lambda>_.
        bindM (publishAll events) (\<lambda>_.
        returnM (KycStatusResponseDto_fromDomain profile'))))))))))"

section \<open>Registration and queries\<close>

definition UserRegistered_handle :: "env \<Rightarrow> string \<Rightarrow> unit action" where
  "UserRegistered_handle E registeredUserId =
     bindM (now E) (\<lambda>t.
     bindM (uuid E) (\<lambda>newId.
     let profile = kyc_createDefault t newId registeredUserId
     in bindM (kycProfile_save E profile) (\<lambda>_. publishAll (kp_events profile))))"

definition GetMyKycStatus_execute :: "env \<Rightarrow> string \<Rightarrow> kycStatusResponse action" where
  "GetMyKycStatus_execute E userId =
     bindM (kycProfile_findByUserId E userId) (\<lambda>found.
     bindM (required found (KycProfileNotFoundException userId)) (\<lambda>profile.
     returnM (KycStatusResponseDto_fromDomain profile)))"

definition GetKycAuditHistory_execute :: "env \<Rightarrow> string \<Rightarrow> auditEntryResponse list action" where
  "GetKycAuditHistory_execute E userId =
     bindM (audit_findByUserId E userId) (\<lambda>entries.
     returnM (map KycAuditLogEntryResponseDto_fromDomain entries))"

definition GetFlaggedSanctionsProfiles_execute :: "env \<Rightarrow> flaggedProfileResponse list action" where
  "GetFlaggedSanctionsProfiles_execute E =
     bindM (findAllCurrentlyFlaggedForSanctions E) (\<lambda>profiles.
     liftE (mapThrow FlaggedSanctionsProfileResponseDto_fromDomain profiles))"


section \<open>Evolution of the compliance tables\<close>

text \<open>
  What the compliance tables of two moments say about each other: the rows keep their order, their
  identifiers and their users, each row is a later stage of the same profile, and the audit log has
  only grown.
\<close>

definition kyc_ok :: "world \<Rightarrow> bool" where
  "kyc_ok w \<longleftrightarrow> distinct (map kr_id (kycProfiles w)) \<and> distinct (map kr_userId (kycProfiles w)) \<and>
     list_all (\<lambda>r. kyc_inv (KycProfileMapper_toDomain r)) (kycProfiles w)"

definition row_later :: "kyc_profile_row \<Rightarrow> kyc_profile_row \<Rightarrow> bool" where
  "row_later r s \<longleftrightarrow> kyc_steps (KycProfileMapper_toDomain r) (KycProfileMapper_toDomain s)"

definition kyc_later :: "world \<Rightarrow> world \<Rightarrow> bool" where
  "kyc_later w w' \<longleftrightarrow> kyc_ok w' \<and>
     length (kycProfiles w) \<le> length (kycProfiles w') \<and>
     list_all2 row_later (kycProfiles w) (take (length (kycProfiles w)) (kycProfiles w')) \<and>
     (\<exists>l. kycAuditLog w' = kycAuditLog w @ l)"

lemma kyc_steps_trans: "kyc_steps p q \<Longrightarrow> kyc_steps q r \<Longrightarrow> kyc_steps p r"
  by (rotate_tac, induction rule: kyc_steps.induct) (auto intro: kyc_steps.step)

lemma row_later_refl: "row_later r r"
  by (simp add: row_later_def kyc_steps.refl)

lemma row_later_trans: "row_later r s \<Longrightarrow> row_later s t \<Longrightarrow> row_later r t"
  unfolding row_later_def by (rule kyc_steps_trans)

lemma row_later_same: "row_later r s \<Longrightarrow> kr_id s = kr_id r \<and> kr_userId s = kr_userId r \<and> kr_tier r \<le> kr_tier s \<and>
    kr_version r \<le> kr_version s"
  unfolding row_later_def by (drule kyc_steps_mono) simp

lemma kyc_later_refl: "kyc_ok w \<Longrightarrow> kyc_later w w"
  by (simp add: kyc_later_def list_all2_refl row_later_refl)

lemma kyc_later_trans:
  assumes "kyc_later w w1" and "kyc_later w1 w2"
  shows "kyc_later w w2"
proof -
  let ?n = "length (kycProfiles w)" and ?m = "length (kycProfiles w1)"
  have n: "?n \<le> ?m" "?m \<le> length (kycProfiles w2)" using assms by (simp_all add: kyc_later_def)
  have "list_all2 row_later (take ?n (kycProfiles w1)) (take ?n (take ?m (kycProfiles w2)))"
    using assms(2) by (intro list_all2_takeI) (simp add: kyc_later_def)
  then have "list_all2 row_later (take ?n (kycProfiles w1)) (take ?n (kycProfiles w2))"
    using n(1) by (simp add: min_absorb1)
  with assms n row_later_trans show ?thesis
    by (auto simp: kyc_later_def intro: list_all2_trans)
qed

lemma kyc_later_quiet:
  "kyc_later w v \<Longrightarrow> kycProfiles v' = kycProfiles v \<Longrightarrow> \<exists>l. kycAuditLog v' = kycAuditLog v @ l \<Longrightarrow> kyc_later w v'"
  by (auto simp: kyc_later_def kyc_ok_def)

text \<open>A profile in hand that is a later stage of a stored one.\<close>

definition in_hand :: "kycProfile \<Rightarrow> world \<Rightarrow> bool" where
  "in_hand p v \<longleftrightarrow> (\<exists>r \<in> set (kycProfiles v). kyc_steps (KycProfileMapper_toDomain r) p)"

lemma in_hand_step: "in_hand p v \<Longrightarrow> kyc_step p q \<Longrightarrow> in_hand q v"
  unfolding in_hand_def by (blast intro: kyc_steps.step)

lemma saved_later:
  assumes later: "kyc_later w v" and hand: "in_hand p v"
    and can: "can_save kyc_clash kr_id kr_version (KycProfileMapper_toPersistence p) (kycProfiles v)"
    and new: "kycProfiles v' = saved_row kr_id kr_version (KycProfileMapper_toPersistence p) (kycProfiles v)"
    and audit: "kycAuditLog v' = kycAuditLog v"
  shows "kyc_later w v' \<and> in_hand (p\<lparr>kp_events := []\<rparr>) v'"
proof -
  let ?d = "KycProfileMapper_toPersistence p"
  obtain r where r: "r \<in> set (kycProfiles v)" and steps: "kyc_steps (KycProfileMapper_toDomain r) p"
    using hand by (auto simp: in_hand_def)
  have ok: "kyc_ok v" using later by (simp add: kyc_later_def)
  have ids: "kp_id p = kr_id r" "kp_userId p = kr_userId r" using kyc_steps_mono [OF steps] by auto
  have pos: "kp_version p > 0"
  proof (rule ccontr)
    assume "\<not> kp_version p > 0"
    with can have "\<not> list_ex (kyc_clash ?d) (kycProfiles v)" by (simp add: can_save_def)
    with r ids show False by (auto simp: list_ex_iff kyc_clash_def)
  qed
  have rd: "row_later r ?d" unfolding row_later_def row_simps
    by (rule kyc_steps.step [OF steps]) (use kyc_step.pull [of p] in \<open>simp add: kyc_pullDomainEvents_def\<close>)
  have only: "x = r" if "x \<in> set (kycProfiles v)" "kr_id x = kr_id r" for x
    using that r ok by (auto simp: kyc_ok_def distinct_map inj_on_def)
  have table: "kycProfiles v' = map (\<lambda>x. if x = r \<and> kr_version r = kp_version p - 1 then ?d else x) (kycProfiles v)"
    using pos only by (auto simp: new saved_row_def ids)
  have ver: "kr_version r = kp_version p - 1"
    using can pos only by (auto simp: can_save_def ids)
  have keys: "map kr_id (kycProfiles v') = map kr_id (kycProfiles v)" "map kr_userId (kycProfiles v') = map kr_userId (kycProfiles v)"
    unfolding table by (auto simp: ids)
  have inv: "kyc_inv (KycProfileMapper_toDomain ?d)"
    using kyc_steps_inv [OF rd [unfolded row_later_def]] ok r by (simp add: kyc_ok_def list_all_iff)
  have "list_all (\<lambda>r. kyc_inv (KycProfileMapper_toDomain r)) (kycProfiles v')"
    using ok inv by (auto simp: kyc_ok_def list_all_iff table)
  with ok have "kyc_ok v'" unfolding kyc_ok_def keys by blast
  moreover have "list_all2 row_later (kycProfiles v) (kycProfiles v')"
    unfolding table using rd row_later_refl by (auto simp: list_all2_map2 intro!: list_all2_refl)
  ultimately have "kyc_later v v'" using audit table by (simp add: kyc_later_def)
  moreover have "?d \<in> set (kycProfiles v')" using r ver by (auto simp: table)
  then have "in_hand (p\<lparr>kp_events := []\<rparr>) v'"
    unfolding in_hand_def by (intro bexI [of _ ?d]) (simp_all add: row_simps kyc_steps.refl)
  ultimately show ?thesis using kyc_later_trans [OF later] by blast
qed

section \<open>Triples for the commands\<close>

text \<open>
  The commands are followed with triples: \<open>kyc_later w\<close> holds all along, also where they throw, and
  \<open>in_hand p\<close> while a profile is being worked on.
\<close>

definition holding :: "world \<Rightarrow> kycProfile \<Rightarrow> world \<Rightarrow> bool" where
  "holding w p v \<longleftrightarrow> kyc_later w v \<and> in_hand p v"

abbreviation (input) throws_later :: "world \<Rightarrow> exn \<Rightarrow> world \<Rightarrow> bool" where
  "throws_later w e v \<equiv> kyc_later w v"

definition kyc_frame :: "(world, exn, 'a) comp \<Rightarrow> bool" where
  "kyc_frame m \<longleftrightarrow> (\<forall>v. kycProfiles (snd (m v)) = kycProfiles v \<and> (\<exists>l. kycAuditLog (snd (m v)) = kycAuditLog v @ l))"

lemma frame_triple:
  assumes "kyc_frame m"
  shows "triple (kyc_later w) m (\<lambda>_. kyc_later w) (throws_later w)"
    and "triple (holding w p) m (\<lambda>_. holding w p) (throws_later w)"
proof -
  have step: "kycProfiles v' = kycProfiles v \<and> (\<exists>l. kycAuditLog v' = kycAuditLog v @ l)" if "m v = (r, v')" for v r v'
    using assms that unfolding kyc_frame_def by (metis snd_conv)
  show "triple (kyc_later w) m (\<lambda>_. kyc_later w) (throws_later w)"
    unfolding triple_def by (auto split: prod.split sum.split dest!: step intro: kyc_later_quiet)
  show "triple (holding w p) m (\<lambda>_. holding w p) (throws_later w)"
    unfolding triple_def holding_def in_hand_def
    by (auto split: prod.split sum.split dest!: step intro: kyc_later_quiet)
qed

lemma frame_reads:
  assumes "reads m"
  shows "kyc_frame m"
  unfolding kyc_frame_def
proof
  fix v
  obtain n where "snd (m v) = v\<lparr>ticks := n\<rparr>" using assms unfolding reads_def by blast
  then show "kycProfiles (snd (m v)) = kycProfiles v \<and> (\<exists>l. kycAuditLog (snd (m v)) = kycAuditLog v @ l)" by simp
qed

lemma frame_bindM [intro]:
  assumes "kyc_frame m" and "\<And>x. kyc_frame (f x)"
  shows "kyc_frame (bindM m f)"
  unfolding kyc_frame_def
proof
  fix v
  obtain r u where m: "m v = (r, u)" by fastforce
  have u: "kycProfiles u = kycProfiles v" "\<exists>l. kycAuditLog u = kycAuditLog v @ l"
    using assms(1) m unfolding kyc_frame_def by (metis snd_conv)+
  show "kycProfiles (snd (bindM m f v)) = kycProfiles v \<and> (\<exists>l. kycAuditLog (snd (bindM m f v)) = kycAuditLog v @ l)"
  proof (cases r)
    case (Inl e)
    with m u show ?thesis by (simp add: bindM_def)
  next
    case (Inr x)
    from assms(2) [of x] have "kycProfiles (snd (f x u)) = kycProfiles u" "\<exists>l. kycAuditLog (snd (f x u)) = kycAuditLog u @ l"
      unfolding kyc_frame_def by blast+
    with Inr m u show ?thesis by (auto simp: bindM_def)
  qed
qed

lemma frame_publishAll: "kyc_frame (publishAll evs)"
  by (simp add: kyc_frame_def publishAll_apply)

lemma frame_audit_save: "kyc_frame (audit_save E a)"
  unfolding kyc_frame_def audit_save_def insert_into_def
  by (simp add: db_def create_row_def comp_simps Let_def split: fault.split)

lemma frame_recordEvent: "kyc_frame (recordEvent E e)"
  unfolding recordEvent_def recordVerificationAttempt_def recordTierChange_def Let_def
  by (auto split: event.split intro: frame_audit_save frame_reads reads_rules)

lemma frame_recordDomainEvents: "kyc_frame (recordDomainEvents E es)"
  by (induction es) (auto intro: frame_recordEvent frame_reads reads_rules)

lemma reads_kyc [reads_rules]:
  "reads (loadUserAndProfile E u)" "reads (verifyBvn H b first name)" "reads (verifyNin H b first name)" "reads (screen E n)"
  unfolding loadUserAndProfile_def user_findById_def kycProfile_findByUserId_def verifyBvn_def verifyNin_def resolveBvn_def
    resolveNin_def verification_get_def screen_def findAllIndividuals_def Let_def
  by (intro reads_rules)+

lemma kycProfile_save_triple:
  "triple (holding w p) (kycProfile_save E p) (\<lambda>_. holding w (snd (kyc_pullDomainEvents p))) (throws_later w)"
  unfolding triple_def
proof (intro allI impI)
  fix v assume h: "holding w p v"
  obtain r v' where run: "kycProfile_save E p v = (r, v')" by fastforce
  have audit: "kycAuditLog v' = kycAuditLog v"
  proof -
    have "preserves (\<lambda>x. kycAuditLog x = kycAuditLog v) (kycProfile_save E p)"
      unfolding kycProfile_save_def by (rule preserves_saveVersioned) (simp_all add: tick_free_def)
    from preserves_step [OF this _ run] show ?thesis by simp
  qed
  from saveVersioned_state' [OF _ _ run [unfolded kycProfile_save_def]]
  have cases: "kycProfiles v' = kycProfiles v \<or>
      can_save kyc_clash kr_id kr_version (KycProfileMapper_toPersistence p) (kycProfiles v) \<and>
      kycProfiles v' = saved_row kr_id kr_version (KycProfileMapper_toPersistence p) (kycProfiles v)" by simp
  show "case kycProfile_save E p v of (Inl e, v') \<Rightarrow> kyc_later w v'
      | (Inr x, v') \<Rightarrow> holding w (snd (kyc_pullDomainEvents p)) v'"
  proof (cases r)
    case (Inl e)
    have "kyc_later w v'"
      using cases h saved_later [of w v p v'] audit kyc_later_quiet [of w v v'] by (auto simp: holding_def)
    with run Inl show ?thesis by simp
  next
    case (Inr u)
    from saveVersioned_Inr' [OF run [unfolded kycProfile_save_def Inr]]
    have "can_save kyc_clash kr_id kr_version (KycProfileMapper_toPersistence p) (kycProfiles v)"
      "kycProfiles v' = saved_row kr_id kr_version (KycProfileMapper_toPersistence p) (kycProfiles v)" by simp_all
    with h saved_later [of w v p v'] audit run Inr show ?thesis by (simp add: holding_def kyc_pullDomainEvents_def)
  qed
qed

lemmas framed = frame_triple [OF frame_reads] frame_triple [OF frame_publishAll] frame_triple [OF frame_audit_save]
  frame_triple [OF frame_recordDomainEvents]

lemma holding_step: "holding w p v \<Longrightarrow> kyc_step p q \<Longrightarrow> holding w q v"
  unfolding holding_def by (blast intro: in_hand_step)

lemma holding_later: "holding w p v \<Longrightarrow> kyc_later w v"
  by (simp add: holding_def)

lemma returnM_holding: "triple (holding w p) (returnM q) (\<lambda>_. kyc_later w) (throws_later w)"
  by (simp add: triple_def comp_simps holding_def)

lemma returnM_self: "triple (holding w p) (returnM p) (holding w) (throws_later w)"
  by (simp add: triple_def comp_simps)

lemma throwM_holding: "triple (holding w p) (throwM e) Q (throws_later w)"
  by (simp add: triple_def comp_simps holding_def)

lemma liftE_holding:
  assumes "\<And>q. r = Inr q \<Longrightarrow> kyc_step p q"
  shows "triple (holding w p) (liftE r) (holding w) (throws_later w)"
  using assms by (cases r) (auto simp: triple_def comp_simps holding_later intro: holding_step)

lemma load_triple: "triple (kyc_later w) (loadUserAndProfile E i) (\<lambda>(u, p). holding w p) (throws_later w)"
proof -
  have "holding w p v'" if h: "kyc_later w v" "loadUserAndProfile E i v = (Inr (u, p), v')" for u p v v'
  proof -
    obtain n where v': "v' = v\<lparr>ticks := n\<rparr>" using readsD [OF reads_kyc(1) h(2)] by blast
    from h(2) obtain r x m where "r \<in> set (kycProfiles x)" "v' = x\<lparr>ticks := m\<rparr>" "p = KycProfileMapper_toDomain r"
      unfolding loadUserAndProfile_def
      by (elim bindM_InrE)
        (auto simp: kycProfile_findByUserId_def bindM_eq_Inr comp_simps dest!: query_eq_Inr step_Inr(1) find_Some_set)
    then have "r \<in> set (kycProfiles v')" "p = KycProfileMapper_toDomain r" by simp_all
    then show ?thesis using h(1) by (auto simp: holding_def in_hand_def v' kyc_later_def kyc_ok_def intro: kyc_steps.refl)
  qed
  moreover have "kyc_later w v'" if h: "kyc_later w v" "loadUserAndProfile E i v = (Inl e, v')" for e v v'
    using readsD [OF reads_kyc(1) h(2)] h(1) by (auto simp: kyc_later_def kyc_ok_def)
  ultimately show ?thesis by (auto simp: triple_def split: prod.split sum.split)
qed

lemma storeAndAudit_triple: "triple (holding w p) (storeAndAudit E p) (holding w) (throws_later w)"
  unfolding storeAndAudit_def kyc_pullDomainEvents_def Let_def prod.case
  by (rule triple_bindM [OF kycProfile_save_triple] triple_bindM [OF framed(8)] triple_bindM [OF framed(4)])+
    (simp add: kyc_pullDomainEvents_def returnM_self)

lemma screenAndFlag_triple: "triple (holding w p) (screenAndFlag E p n) (holding w) (throws_later w)"
proof -
  have flag: "triple (holding w p) (kycProfile_save E (flagForSanctionsReview t s p))
      (\<lambda>_. holding w (snd (kyc_pullDomainEvents (flagForSanctionsReview t s p)))) (throws_later w)" for t s
    by (rule triple_weaken [OF kycProfile_save_triple [of w "flagForSanctionsReview t s p"]])
      (auto intro: holding_step kyc_step.flag)
  show ?thesis
    unfolding screenAndFlag_def
  proof (rule triple_bindM [OF framed(2) [OF reads_kyc(4)]], goal_cases)
    case (1 matches)
    show ?case
    proof (cases "matches = []")
      case True
      then show ?thesis
        by simp (intro triple_bindM [OF framed(2)] triple_bindM [OF framed(6)] reads_rules returnM_self)
    next
      case False
      then show ?thesis
        unfolding Let_def kyc_pullDomainEvents_def prod.case if_not_P [OF False]
        by (intro triple_bindM [OF framed(2) [OF reads_draw(2)]] triple_bindM [OF flag [unfolded kyc_pullDomainEvents_def snd_conv]]
            triple_bindM [OF framed(2) [OF reads_draw(3)]] triple_bindM [OF framed(6)] triple_bindM [OF framed(4)] returnM_self)
    qed
  qed
qed

lemma case_prod_triple:
  "(\<And>x y. z = (x, y) \<Longrightarrow> triple (P x y) (f x y) Q R) \<Longrightarrow> triple (case z of (x, y) \<Rightarrow> P x y) (case z of (x, y) \<Rightarrow> f x y) Q R"
  by (cases z) simp

lemma mismatch_triple: "triple (holding w p) (verificationMismatch E type p) Q (throws_later w)"
proof -
  have "triple (holding w p) (storeAndAudit E (recordVerificationFailed t type s p))
      (\<lambda>q. holding w q) (throws_later w)" for t s
    by (rule triple_weaken [OF storeAndAudit_triple]) (auto intro: holding_step kyc_step.failed)
  then show ?thesis
    unfolding verificationMismatch_def
    by (intro triple_bindM [OF framed(2) [OF reads_draw(2)]]) (rule triple_bindM, assumption, rule throwM_holding)
qed

lemma verified_triple:
  assumes "\<And>q. r = Inr q \<Longrightarrow> kyc_step p q"
  shows "triple (holding w p) (bindM (liftE r) (\<lambda>verified.
       bindM (storeAndAudit E verified) (\<lambda>profile'.
       bindM (screenAndFlag E profile' n) (\<lambda>profile''.
       returnM (KycStatusResponseDto_fromDomain profile''))))) (\<lambda>_. kyc_later w) (throws_later w)"
  by (intro triple_bindM [OF liftE_holding [OF assms]] triple_bindM [OF storeAndAudit_triple]
      triple_bindM [OF screenAndFlag_triple] returnM_holding)

lemma triple_if: "triple P m Q R \<Longrightarrow> triple P m' Q R \<Longrightarrow> triple P (if b then m else m') Q R"
  by simp

lemma Submit_triple:
  "triple (kyc_later w) (SubmitBvnVerification_execute E H K i b) (\<lambda>_. kyc_later w) (throws_later w)"
  "triple (kyc_later w) (SubmitNinVerification_execute E H K i n) (\<lambda>_. kyc_later w) (throws_later w)"
  unfolding SubmitBvnVerification_execute_def SubmitNinVerification_execute_def
  by (intro triple_bindM [OF load_triple] case_prod_triple triple_if mismatch_triple verified_triple
      triple_bindM [OF framed(2) [OF reads_pure(3)]] triple_bindM [OF framed(2) [OF reads_kyc(2)]]
      triple_bindM [OF framed(2) [OF reads_kyc(3)]] triple_bindM [OF framed(2) [OF reads_draw(2)]];
      blast intro: kyc_step.bvn kyc_step.nin)+

lemma finishOverride_triple:
  "triple (holding w p) (finishOverride E type staff i reason u result p) (\<lambda>_. kyc_later w) (throws_later w)"
  unfolding finishOverride_def kyc_pullDomainEvents_def Let_def prod.case
  by (intro triple_bindM [OF kycProfile_save_triple [unfolded kyc_pullDomainEvents_def snd_conv]]
      triple_bindM [OF framed(2) [OF reads_draw(2)]] triple_bindM [OF framed(2) [OF reads_draw(3)]]
      triple_bindM [OF framed(6)] triple_bindM [OF framed(8)] triple_bindM [OF framed(4)]
      triple_bindM [OF screenAndFlag_triple] returnM_holding)

lemma Manual_triple:
  "triple (kyc_later w) (ManuallyVerifyBvn_execute E H K staff i b reason) (\<lambda>_. kyc_later w) (throws_later w)"
  "triple (kyc_later w) (ManuallyVerifyNin_execute E H K staff i n reason) (\<lambda>_. kyc_later w) (throws_later w)"
  unfolding ManuallyVerifyBvn_execute_def ManuallyVerifyNin_execute_def
  by (intro triple_bindM [OF load_triple] case_prod_triple triple_bindM [OF framed(2) [OF reads_pure(3)]]
      triple_bindM [OF framed(2) [OF reads_kyc(2)]] triple_bindM [OF framed(2) [OF reads_kyc(3)]]
      triple_bindM [OF framed(2) [OF reads_draw(2)]] triple_bindM [OF liftE_holding] finishOverride_triple;
      blast intro: kyc_step.bvn kyc_step.nin)+

lemma find_triple: "triple (kyc_later w) (kycProfile_findByUserId E i)
    (\<lambda>found v. kyc_later w v \<and> (\<forall>p. found = Some p \<longrightarrow> holding w p v)) (throws_later w)"
proof -
  have "holding w p v'" if h: "kyc_later w v" "kycProfile_findByUserId E i v = (Inr (Some p), v')" for p v v'
  proof -
    from h(2) obtain r where r: "r \<in> set (kycProfiles v)" "v' = v\<lparr>ticks := Suc (ticks v)\<rparr>" "p = KycProfileMapper_toDomain r"
      by (auto simp: kycProfile_findByUserId_def bindM_eq_Inr comp_simps dest!: query_eq_Inr find_Some_set)
    with h(1) kyc_later_quiet [of w v v'] show ?thesis
      by (auto simp: holding_def in_hand_def intro: kyc_steps.refl)
  qed
  moreover have "kyc_later w v'" if h: "kyc_later w v" "kycProfile_findByUserId E i v = (r, v')" for r v v'
  proof -
    have "reads (kycProfile_findByUserId E i)" unfolding kycProfile_findByUserId_def by (intro reads_rules)
    from readsD [OF this h(2)] h(1) kyc_later_quiet [of w v v'] show ?thesis by auto
  qed
  ultimately show ?thesis by (auto simp: triple_def split: prod.split sum.split)
qed

lemma Clear_triple:
  "triple (kyc_later w) (ClearSanctionsFlag_execute E staff i reason) (\<lambda>_. kyc_later w) (throws_later w)"
proof -
  have get: "triple (\<lambda>v. kyc_later w v \<and> (\<forall>p. found = Some p \<longrightarrow> holding w p v)) (required found e) (holding w) (throws_later w)"
    for found e by (cases found) (simp_all add: triple_def comp_simps)
  show ?thesis
    unfolding ClearSanctionsFlag_execute_def kyc_pullDomainEvents_def Let_def prod.case
    by (intro triple_bindM [OF find_triple] triple_bindM [OF get] triple_bindM [OF liftE_holding] kyc_step.unflag
        triple_bindM [OF kycProfile_save_triple [unfolded kyc_pullDomainEvents_def snd_conv]]
        triple_bindM [OF framed(2) [OF reads_draw(2)]] triple_bindM [OF framed(2) [OF reads_draw(3)]]
        triple_bindM [OF framed(6)] triple_bindM [OF framed(4)] returnM_holding)
qed

text \<open>The profile of a new user comes last.\<close>

lemma created_later:
  assumes later: "kyc_later w v"
    and p: "p = kyc_createDefault t i u"
    and can: "can_save kyc_clash kr_id kr_version (KycProfileMapper_toPersistence p) (kycProfiles v)"
    and new: "kycProfiles v' = saved_row kr_id kr_version (KycProfileMapper_toPersistence p) (kycProfiles v)"
    and audit: "kycAuditLog v' = kycAuditLog v"
  shows "kyc_later w v'"
proof -
  let ?d = "KycProfileMapper_toPersistence p"
  have ver: "kp_version p = 0" by (simp add: p kyc_createDefault_def kyc_addDomainEvent_def)
  have ok: "kyc_ok v" using later by (simp add: kyc_later_def)
  have table: "kycProfiles v' = kycProfiles v @ [?d]" using new ver by (simp add: saved_row_def)
  have fresh: "\<forall>r \<in> set (kycProfiles v). kr_id r \<noteq> kr_id ?d \<and> kr_userId r \<noteq> kr_userId ?d"
    using can ver by (auto simp: can_save_def list_ex_iff kyc_clash_def)
  have "kyc_inv (KycProfileMapper_toDomain ?d)"
    using kyc_createDefault_inv [of t i u] by (simp add: row_simps p kyc_inv_def)
  with ok fresh have "kyc_ok v'" by (auto simp: kyc_ok_def table)
  then have "kyc_later v v'"
    using audit by (simp add: kyc_later_def table list_all2_refl row_later_refl)
  with later show ?thesis by (rule kyc_later_trans)
qed

lemma Registered_triple: "triple (kyc_later w) (UserRegistered_handle E i) (\<lambda>_. kyc_later w) (throws_later w)"
proof -
  have save: "triple (kyc_later w) (kycProfile_save E (kyc_createDefault t newId i)) (\<lambda>_. kyc_later w) (throws_later w)" for t newId
    unfolding triple_def
  proof (intro allI impI)
    fix v assume h: "kyc_later w v"
    let ?p = "kyc_createDefault t newId i"
    obtain r v' where run: "kycProfile_save E ?p v = (r, v')" by fastforce
    have "preserves (\<lambda>x. kycAuditLog x = kycAuditLog v) (kycProfile_save E ?p)"
      unfolding kycProfile_save_def by (rule preserves_saveVersioned) (simp_all add: tick_free_def)
    from preserves_step [OF this _ run] have audit: "kycAuditLog v' = kycAuditLog v" by simp
    from saveVersioned_state' [OF _ _ run [unfolded kycProfile_save_def]]
    have "kycProfiles v' = kycProfiles v \<or>
        can_save kyc_clash kr_id kr_version (KycProfileMapper_toPersistence ?p) (kycProfiles v) \<and>
        kycProfiles v' = saved_row kr_id kr_version (KycProfileMapper_toPersistence ?p) (kycProfiles v)" by simp
    then have "kyc_later w v'"
      using h created_later [OF h HOL.refl] audit kyc_later_quiet [of w v v'] by auto
    then show "case kycProfile_save E ?p v of (Inl e, v') \<Rightarrow> kyc_later w v' | (Inr x, v') \<Rightarrow> kyc_later w v'"
      by (simp add: run split: sum.split)
  qed
  show ?thesis
    unfolding UserRegistered_handle_def Let_def
    by (intro triple_bindM [OF framed(1) [OF reads_draw(2)]] triple_bindM [OF framed(1) [OF reads_draw(3)]]
        triple_bindM [OF save] framed(3))
qed

text \<open>The commands and the event handler of the module.\<close>

datatype kyc_command =
    SubmitBvn string string
  | SubmitNin string string
  | OverrideBvn string string string string
  | OverrideNin string string string string
  | ClearFlag string string string
  | Registered string

fun run_kyc :: "env \<Rightarrow> verificationHttp \<Rightarrow> hasher \<Rightarrow> kyc_command \<Rightarrow> world \<Rightarrow> world" where
  "run_kyc E H K (SubmitBvn i b) w = snd (SubmitBvnVerification_execute E H K i b w)"
| "run_kyc E H K (SubmitNin i n) w = snd (SubmitNinVerification_execute E H K i n w)"
| "run_kyc E H K (OverrideBvn staff i b reason) w = snd (ManuallyVerifyBvn_execute E H K staff i b reason w)"
| "run_kyc E H K (OverrideNin staff i n reason) w = snd (ManuallyVerifyNin_execute E H K staff i n reason w)"
| "run_kyc E H K (ClearFlag staff i reason) w = snd (ClearSanctionsFlag_execute E staff i reason w)"
| "run_kyc E H K (Registered i) w = snd (UserRegistered_handle E i w)"

lemma triple_later:
  "triple (kyc_later w) m (\<lambda>_. kyc_later w) (throws_later w) \<Longrightarrow> kyc_later w v \<Longrightarrow> kyc_later w (snd (m v))"
  by (cases "m v"; cases "fst (m v)") (auto simp: triple_def dest!: spec [of _ v])

lemma run_kyc_later: "kyc_later w v \<Longrightarrow> kyc_later w (run_kyc E H K c v)"
  by (cases c) (simp_all add: triple_later Submit_triple Manual_triple Clear_triple Registered_triple)

text \<open>
  C30. Whatever sequence of submissions, overrides, cleared flags and registrations runs, with whatever
  answers of the provider and whatever failures of the database: profile identifiers and users stay
  unique, every stored tier stays backed by its verifications, every stored profile is a later stage
  of the one stored before it (its tier and version never go down, its user never changes), and the
  audit log is only appended to.
\<close>

theorem kyc_database_evolution:
  assumes "kyc_ok w"
  shows "kyc_later w (foldl (\<lambda>v (E, H, K, c). run_kyc E H K c v) w cs)"
proof -
  have "kyc_later w (foldl (\<lambda>v (E, H, K, c). run_kyc E H K c v) v cs)" if "kyc_later w v" for v
    using that
  proof (induction cs arbitrary: v)
    case (Cons c cs)
    obtain E H K d where c: "c = (E, H, K, d)" by (metis prod.exhaust)
    with Cons.IH [OF run_kyc_later [OF Cons.prems]] show ?case by simp
  qed simp
  with kyc_later_refl [OF assms] show ?thesis by blast
qed


section \<open>What screening and verification do\<close>

text \<open>A name is on the list when it has two tokens and an entry contains them all, in any order.\<close>

definition listed :: "sanctions_row list \<Rightarrow> string \<Rightarrow> bool" where
  "listed entries name \<longleftrightarrow> 2 \<le> length (normalizeToTokens name) \<and>
     list_ex (\<lambda>e. set (normalizeToTokens name) \<subseteq> set (normalizeToTokens (sr_fullName e))) entries"

lemma screeningMatches_empty:
  "screeningMatches ts entries = [] \<longleftrightarrow> \<not> list_ex (\<lambda>e. set ts \<subseteq> set (normalizeToTokens (sr_fullName e))) entries"
  by (auto simp: screeningMatches_def filter_empty_conv candidateIsSubsetOfEntry_def list_all_iff list_ex_iff)

lemma screen_Inr:
  assumes "screen E name w = (Inr ms, w')"
  shows "(ms = [] \<longleftrightarrow> \<not> listed (sanctionsList w) name) \<and> (\<exists>n. w' = w\<lparr>ticks := n\<rparr>)"
proof -
  obtain n where n: "w' = w\<lparr>ticks := n\<rparr>" using readsD [OF reads_kyc(4) assms] by blast
  have "ms = [] \<longleftrightarrow> \<not> listed (sanctionsList w) name"
    using assms
    by (auto simp: screen_def Let_def findAllIndividuals_def listed_def bindM_eq_Inr comp_simps screeningMatches_empty
        dest!: query_eq_Inr split: if_splits)
  with n show ?thesis by blast
qed

lemma audit_save_Inr [step_dests]:
  "audit_save E a w = (Inr u, w') \<Longrightarrow>
    w' = w\<lparr>kycAuditLog := kycAuditLog w @ [KycAuditLogMapper_toPersistence a], ticks := Suc (ticks w)\<rparr>"
  unfolding audit_save_def by (erule insert_into_Inr) (auto simp: create_row_Inr)

lemma kycProfile_save_Inr:
  assumes "kycProfile_save E p w = (Inr u, w')"
  shows "can_save kyc_clash kr_id kr_version (KycProfileMapper_toPersistence p) (kycProfiles w) \<and>
    w' = w\<lparr>kycProfiles := saved_row kr_id kr_version (KycProfileMapper_toPersistence p) (kycProfiles w), ticks := Suc (ticks w)\<rparr>"
  using saveVersioned_Inr' [OF assms [unfolded kycProfile_save_def]] by simp

lemma kycProfile_save_stored:
  assumes "kyc_table_ok w" and "kycProfile_save E p w = (Inr u, w')"
  shows "kyc_stored w' (kp_id p) = Some (p\<lparr>kp_events := []\<rparr>) \<and> kyc_table_ok w'"
  using kycProfile_save_Inr [OF assms(2)] assms(1)
    saved_row_find [of kr_id "kycProfiles w" kyc_clash kr_version "KycProfileMapper_toPersistence p"]
    saved_row_distinct [of kr_id "kycProfiles w" kyc_clash kr_version "KycProfileMapper_toPersistence p"]
  by (simp add: kyc_stored_def kyc_table_ok_def row_simps kyc_clash_def)

text \<open>A profile that is stored as it is cannot be saved again: its version has not moved.\<close>

lemma resave_conflict:
  assumes "kyc_table_ok w" and "kyc_stored w (kp_id p) = Some (p\<lparr>kp_events := []\<rparr>)"
  shows "\<not> can_save kyc_clash kr_id kr_version (KycProfileMapper_toPersistence p) (kycProfiles w)"
proof
  assume "can_save kyc_clash kr_id kr_version (KycProfileMapper_toPersistence p) (kycProfiles w)"
  from saved_row_previous [OF _ this] assms show False
    by (auto simp: kyc_stored_def kyc_table_ok_def kyc_clash_def split: if_splits
        dest: arg_cong [of _ _ kp_version])
qed

text \<open>The part of the screening of a listed name behind the match.\<close>

lemma opened_flag:
  fixes ms :: "screeningMatch list" and p :: kycProfile
  defines "flagged \<equiv> \<lambda>t. flagForSanctionsReview t (join ''; '' (map matchText ms)) p"
  assumes ok: "kyc_table_ok w" and stored: "kyc_stored w (kp_id p) = Some (p\<lparr>kp_events := []\<rparr>)"
    and save: "kycProfile_save E (flagged t) w = (Inr u1, w1)" and draws: "now E w1 = (Inr t2 :: exn + int, w2)"
      "uuid E w2 = (Inr i :: exn + string, w3)"
    and audit: "audit_save E (forSanctionsScreening i (kp_userId ((flagged t)\<lparr>kp_events := []\<rparr>))
      (kp_id ((flagged t)\<lparr>kp_events := []\<rparr>)) AO_FAILED reason t2 None) w3 = (Inr u2, w4)"
    and pub: "publishAll evs w4 = (Inr u3 :: exn + unit, w')"
  shows "\<not> isSanctionsFlagOpen p \<and> isSanctionsFlagOpen ((flagged t)\<lparr>kp_events := []\<rparr>) \<and>
    kyc_stored w' (kp_id p) = Some ((flagged t)\<lparr>kp_events := []\<rparr>) \<and> same_verification p ((flagged t)\<lparr>kp_events := []\<rparr>) \<and>
    (\<exists>a. kycAuditLog w' = kycAuditLog w @ [a] \<and> kar_userId a = kp_userId p \<and> kar_eventType a = AE_SANCTIONS_SCREENING \<and>
       kar_outcome a = Some AO_FAILED \<and> kar_newTier a = None)"
proof -
  have closed: "\<not> isSanctionsFlagOpen p"
  proof
    assume "isSanctionsFlagOpen p"
    then have "flagged t = p" by (simp add: flagForSanctionsReview_def flagged_def)
    with save kycProfile_save_Inr [of E p w u1 w1] resave_conflict [OF ok stored] show False by simp
  qed
  have same: "same_verification p (flagged t)" unfolding flagged_def by (rule flagForSanctionsReview_same)
  note later = audit_save_Inr [OF audit] now_Inr [OF draws(1)] uuid_Inr [OF draws(2)] publishAll_Inr [OF pub]
  have st: "kyc_stored w1 (kp_id p) = Some ((flagged t)\<lparr>kp_events := []\<rparr>)" and log: "kycAuditLog w1 = kycAuditLog w"
    using kycProfile_save_stored [OF ok save] kycProfile_save_Inr [OF save] same by (simp_all add: same_verification_def)
  have "isSanctionsFlagOpen ((flagged t)\<lparr>kp_events := []\<rparr>)"
    using closed by (simp add: isSanctionsFlagOpen_def flagForSanctionsReview_def flagged_def kyc_addDomainEvent_def kyc_touch_def)
  moreover have "kyc_stored w' (kp_id p) = Some ((flagged t)\<lparr>kp_events := []\<rparr>)"
    using st later by (simp add: kyc_stored_def)
  moreover have "same_verification p ((flagged t)\<lparr>kp_events := []\<rparr>)" using same by (simp add: same_verification_def)
  moreover have "\<exists>a. kycAuditLog w' = kycAuditLog w @ [a] \<and> kar_userId a = kp_userId p \<and>
      kar_eventType a = AE_SANCTIONS_SCREENING \<and> kar_outcome a = Some AO_FAILED \<and> kar_newTier a = None"
    using later log same by (simp add: forSanctionsScreening_def KycAuditLogMapper_toPersistence_def same_verification_def)
  ultimately show ?thesis using closed by blast
qed

lemma screenAndFlag_Inr:
  assumes ok: "kyc_table_ok w" and stored: "kyc_stored w (kp_id p) = Some (p\<lparr>kp_events := []\<rparr>)"
    and run: "screenAndFlag E p name w = (Inr q, w')"
  shows "(if listed (sanctionsList w) name
     then \<not> isSanctionsFlagOpen p \<and> isSanctionsFlagOpen q \<and> kyc_stored w' (kp_id p) = Some q
     else q = p \<and> kycProfiles w' = kycProfiles w) \<and> same_verification p q \<and>
    (\<exists>a. kycAuditLog w' = kycAuditLog w @ [a] \<and> kar_userId a = kp_userId p \<and> kar_eventType a = AE_SANCTIONS_SCREENING \<and>
       kar_outcome a = Some (if listed (sanctionsList w) name then AO_FAILED else AO_PASSED) \<and> kar_newTier a = None)"
  using run [unfolded screenAndFlag_def]
proof (elim bindM_InrE)
  fix ms w1
  assume s: "screen E name w = (Inr ms, w1)"
    and go: "(if ms = [] then bindM (now E) (\<lambda>t. bindM (uuid E) (\<lambda>i.
       bindM (audit_save E (forSanctionsScreening i (kp_userId p) (kp_id p) AO_PASSED None t None)) (\<lambda>_. returnM p)))
     else let matchSummary = join ''; '' (map matchText ms)
       in bindM (now E) (\<lambda>t. let profile' = flagForSanctionsReview t matchSummary p
          in bindM (kycProfile_save E profile') (\<lambda>_.
             let (events, profile'') = kyc_pullDomainEvents profile'
             in bindM (now E) (\<lambda>t2. bindM (uuid E) (\<lambda>i.
                bindM (audit_save E (forSanctionsScreening i (kp_userId profile'') (kp_id profile'') AO_FAILED
                         (Some (''Candidate match(es): '' @ matchSummary)) t2 None)) (\<lambda>_.
                bindM (publishAll events) (\<lambda>_. returnM profile''))))))) w1 = (Inr q, w')"
  obtain n where w1: "w1 = w\<lparr>ticks := n\<rparr>" and ms: "ms = [] \<longleftrightarrow> \<not> listed (sanctionsList w) name"
    using screen_Inr [OF s] by blast
  show ?thesis
  proof (cases "ms = []")
    case True
    with go w1 ms stored show ?thesis
      by (auto simp: bindM_eq_Inr comp_simps forSanctionsScreening_def KycAuditLogMapper_toPersistence_def
          same_verification_def dest!: audit_save_Inr)
  next
    case False
    from go [unfolded if_not_P [OF False] Let_def kyc_pullDomainEvents_def prod.case] show ?thesis
    proof (elim bindM_InrE)
      fix t t2 i and u1 u2 u3 :: unit and w2 w3 w4 w5 w6 w7
      let ?flagged = "flagForSanctionsReview t (join ''; '' (map matchText ms)) p"
      assume z: "now E w1 = (Inr t :: exn + int, w2)" "kycProfile_save E ?flagged w2 = (Inr u1, w3)"
        "now E w3 = (Inr t2 :: exn + int, w4)" "uuid E w4 = (Inr i :: exn + string, w5)"
        "audit_save E (forSanctionsScreening i (kp_userId (?flagged\<lparr>kp_events := []\<rparr>)) (kp_id (?flagged\<lparr>kp_events := []\<rparr>))
           AO_FAILED (Some (''Candidate match(es): '' @ join ''; '' (map matchText ms))) t2 None) w5 = (Inr u2, w6)"
        "publishAll (kp_events ?flagged) w6 = (Inr u3 :: exn + unit, w7)"
        "returnM (?flagged\<lparr>kp_events := []\<rparr>) w7 = (Inr q, w')"
      have w2: "kycProfiles w2 = kycProfiles w" "kycAuditLog w2 = kycAuditLog w" using now_Inr [OF z(1)] w1 by simp_all
      have "kyc_table_ok w2" "kyc_stored w2 (kp_id p) = Some (p\<lparr>kp_events := []\<rparr>)"
        using ok stored w2(1) by (simp_all add: kyc_table_ok_def kyc_stored_def)
      from opened_flag [OF this z(2-6)] z(7) w2(2) ms False show ?thesis by (simp add: returnM_def)
    qed
  qed
qed

text \<open>
  C32. Screening that returns decides by the list alone. A listed name opens the flag of a profile on
  which it was not open, stores the profile and logs a failed screening; any other name leaves profile
  and table as they are and logs a passed one. Verification data and tier are never touched.
\<close>

theorem screening_effect:
  assumes ok: "kyc_table_ok w" and stored: "kyc_stored w (kp_id p) = Some (p\<lparr>kp_events := []\<rparr>)"
    and run: "screenAndFlag E p name w = (Inr q, w')"
  shows "(if listed (sanctionsList w) name
     then \<not> isSanctionsFlagOpen p \<and> isSanctionsFlagOpen q \<and> kyc_stored w' (kp_id p) = Some q
     else q = p \<and> kycProfiles w' = kycProfiles w) \<and> same_verification p q \<and>
    (\<exists>a. kycAuditLog w' = kycAuditLog w @ [a] \<and> kar_userId a = kp_userId p \<and> kar_eventType a = AE_SANCTIONS_SCREENING \<and>
       kar_outcome a = Some (if listed (sanctionsList w) name then AO_FAILED else AO_PASSED) \<and> kar_newTier a = None)"
  using assms by (rule screenAndFlag_Inr)

text \<open>
  Screening a customer again while the flag of an earlier screening is still open cannot succeed:
  the flag is left as it is, so the unchanged profile is saved under a version that has not moved,
  which the store takes for a concurrent change. The verification that led here stays stored, no
  screening is logged, and the customer gets the error.
\<close>

theorem open_flag_rescreen_fails:
  assumes ok: "kyc_table_ok w" and stored: "kyc_stored w (kp_id p) = Some (p\<lparr>kp_events := []\<rparr>)"
    and flag: "isSanctionsFlagOpen p" and name: "listed (sanctionsList w) name"
  shows "\<exists>e w'. screenAndFlag E p name w = (Inl e, w') \<and> kyc_stored w' (kp_id p) = Some (p\<lparr>kp_events := []\<rparr>) \<and>
    kycAuditLog w' = kycAuditLog w"
proof -
  obtain r w1 where s: "screen E name w = (r, w1)" by fastforce
  obtain n where w1: "w1 = w\<lparr>ticks := n\<rparr>" using readsD [OF reads_kyc(4) s] by blast
  show ?thesis
  proof (cases r)
    case (Inl e)
    with s w1 stored show ?thesis by (simp add: screenAndFlag_def bindM_def kyc_stored_def)
  next
    case (Inr ms)
    then have ms: "ms \<noteq> []" using screen_Inr s name by blast
    have same: "flagForSanctionsReview t m p = p" for t m using flag by (simp add: flagForSanctionsReview_def)
    let ?w = "w1\<lparr>ticks := Suc (ticks w1)\<rparr>"
    obtain z w2 where save: "kycProfile_save E p ?w = (z, w2)" by fastforce
    have tab: "kyc_table_ok ?w" "kyc_stored ?w (kp_id p) = Some (p\<lparr>kp_events := []\<rparr>)"
      using ok stored w1 by (simp_all add: kyc_table_ok_def kyc_stored_def)
    note no = resave_conflict [OF tab]
    have "z = Inr u \<Longrightarrow> False" for u using kycProfile_save_Inr [of E p ?w u w2] save no by simp
    then obtain e where z: "z = Inl e" by (cases z) auto
    have "preserves (\<lambda>x. kycAuditLog x = kycAuditLog w) (kycProfile_save E p)"
      unfolding kycProfile_save_def by (rule preserves_saveVersioned) (simp_all add: tick_free_def)
    from preserves_step [OF this _ save] have audit: "kycAuditLog w2 = kycAuditLog w" using w1 by simp
    have "kycProfiles w2 = kycProfiles ?w"
      using saveVersioned_state' [OF _ _ save [unfolded kycProfile_save_def]] no by simp
    then have st: "kyc_stored w2 (kp_id p) = Some (p\<lparr>kp_events := []\<rparr>)" using tab(2) by (simp add: kyc_stored_def)
    have "screenAndFlag E p name w = (Inl e, w2)"
      using s Inr ms save z
      by (simp add: screenAndFlag_def Let_def same bindM_def now_apply)
    with audit st show ?thesis by blast
  qed
qed

section \<open>What a submission does\<close>

text \<open>What the recorder writes about an event.\<close>

fun audit_summary :: "event \<Rightarrow> (kycAuditEventType \<times> kycAuditOutcome option \<times> kycTier option) list" where
  "audit_summary (VerificationPassedEvent i u type) = [(AE_VERIFICATION_ATTEMPT, Some AO_PASSED, None)]"
| "audit_summary (VerificationFailedEvent i u type reason) = [(AE_VERIFICATION_ATTEMPT, Some AO_FAILED, None)]"
| "audit_summary (KycTierUpgradedEvent i u tier) = [(AE_TIER_CHANGE, None, Some tier)]"
| "audit_summary e = []"

definition row_summary :: "kyc_audit_row \<Rightarrow> kycAuditEventType \<times> kycAuditOutcome option \<times> kycTier option" where
  "row_summary a = (kar_eventType a, kar_outcome a, kar_newTier a)"

lemma appended_row:
  assumes "bindM (uuid E) (\<lambda>i. audit_save E (f i)) w = (Inr u, w')"
    and "\<And>i. row_summary (KycAuditLogMapper_toPersistence (f i)) = s"
  shows "\<exists>l n. w' = w\<lparr>kycAuditLog := kycAuditLog w @ l, ticks := n\<rparr> \<and> map row_summary l = [s]"
proof -
  from assms(1) obtain i n where "w' = w\<lparr>kycAuditLog := kycAuditLog w @ [KycAuditLogMapper_toPersistence (f i)], ticks := n\<rparr>"
    by (auto simp: bindM_eq_Inr comp_simps dest!: audit_save_Inr)
  with assms(2) show ?thesis by (intro exI [of _ "[KycAuditLogMapper_toPersistence (f i)]"]) auto
qed

lemmas row_summary_defs = row_summary_def forVerificationAttempt_def forTierChange_def KycAuditLogMapper_toPersistence_def

lemma appended_none:
  assumes "returnM () w = (Inr u, w')"
  shows "\<exists>l n. w' = w\<lparr>kycAuditLog := kycAuditLog w @ l, ticks := n\<rparr> \<and> map row_summary l = []"
  using assms by (intro exI [of _ "[]"] exI [of _ "ticks w"]) (simp add: comp_simps)

lemma recordEvent_Inr:
  assumes "recordEvent E e w = (Inr u, w')"
  shows "\<exists>l n. w' = w\<lparr>kycAuditLog := kycAuditLog w @ l, ticks := n\<rparr> \<and> map row_summary l = audit_summary (body e)"
  using assms
  by (cases "body e"; simp only: recordEvent_def recordVerificationAttempt_def recordTierChange_def Let_def
        event.case audit_summary.simps)
    (erule appended_none | (erule appended_row; simp add: row_summary_defs))+

lemma recordDomainEvents_Inr:
  assumes "recordDomainEvents E es w = (Inr u, w')"
  shows "\<exists>l n. w' = w\<lparr>kycAuditLog := kycAuditLog w @ l, ticks := n\<rparr> \<and>
    map row_summary l = concat (map (audit_summary \<circ> body) es)"
  using assms
proof (induction es arbitrary: w)
  case Nil
  then show ?case by (auto simp: comp_simps intro: exI [of _ "[]"] exI [of _ "ticks w"])
next
  case (Cons e es)
  from Cons.prems obtain u1 w1 where s: "recordEvent E e w = (Inr u1, w1)" "recordDomainEvents E es w1 = (Inr u, w')"
    by (auto simp: bindM_eq_Inr)
  from recordEvent_Inr [OF s(1)] Cons.IH [OF s(2)] show ?case by fastforce
qed

lemma storeAndAudit_Inr:
  assumes ok: "kyc_table_ok w" and run: "storeAndAudit E q w = (Inr p, w')"
  shows "p = q\<lparr>kp_events := []\<rparr> \<and> kyc_table_ok w' \<and> kyc_stored w' (kp_id q) = Some p \<and>
    sanctionsList w' = sanctionsList w \<and>
    (\<exists>l. kycAuditLog w' = kycAuditLog w @ l \<and> map row_summary l = concat (map (audit_summary \<circ> body) (kp_events q)))"
  using run [unfolded storeAndAudit_def kyc_pullDomainEvents_def Let_def prod.case]
proof (elim bindM_InrE)
  fix u1 u2 u3 :: unit and w1 w2 w3
  assume s: "kycProfile_save E q w = (Inr u1, w1)" "recordDomainEvents E (kp_events q) w1 = (Inr u2, w2)"
    "publishAll (kp_events q) w2 = (Inr u3 :: exn + unit, w3)" "returnM (q\<lparr>kp_events := []\<rparr>) w3 = (Inr p, w')"
  from recordDomainEvents_Inr [OF s(2)] obtain l n where
    w2: "w2 = w1\<lparr>kycAuditLog := kycAuditLog w1 @ l, ticks := n\<rparr>" and
    l: "map row_summary l = concat (map (audit_summary \<circ> body) (kp_events q))" by blast
  show ?thesis
    using kycProfile_save_stored [OF ok s(1)] kycProfile_save_Inr [OF s(1)] w2 l publishAll_Inr [OF s(3)] s(4)
    by (auto simp: returnM_def kyc_stored_def kyc_table_ok_def)
qed

text \<open>The common end of the two submissions.\<close>

lemma verified_Inr:
  assumes ok: "kyc_table_ok w" and run: "bindM (storeAndAudit E v) (\<lambda>profile'.
       bindM (screenAndFlag E profile' name) (\<lambda>profile''.
       returnM (KycStatusResponseDto_fromDomain profile''))) w = (Inr s, w')"
  shows "\<exists>q l a. kyc_stored w' (kp_id v) = Some q \<and> s = KycStatusResponseDto_fromDomain q \<and> same_verification v q \<and>
    isSanctionsFlagOpen q = (isSanctionsFlagOpen v \<or> listed (sanctionsList w) name) \<and>
    kycAuditLog w' = kycAuditLog w @ l @ [a] \<and>
    map row_summary l = concat (map (audit_summary \<circ> body) (kp_events v)) \<and>
    row_summary a = (AE_SANCTIONS_SCREENING, Some (if listed (sanctionsList w) name then AO_FAILED else AO_PASSED), None)"
  using run
proof (elim bindM_InrE)
  fix p w1 q w2
  assume s: "storeAndAudit E v w = (Inr p, w1)" "screenAndFlag E p name w1 = (Inr q, w2)"
    "returnM (KycStatusResponseDto_fromDomain q) w2 = (Inr s, w')"
  from storeAndAudit_Inr [OF ok s(1)] obtain l where
    p: "p = v\<lparr>kp_events := []\<rparr>" and w1: "kyc_table_ok w1" "kyc_stored w1 (kp_id v) = Some p"
      "sanctionsList w1 = sanctionsList w" and
    l: "kycAuditLog w1 = kycAuditLog w @ l" "map row_summary l = concat (map (audit_summary \<circ> body) (kp_events v))" by blast
  have "kyc_stored w1 (kp_id p) = Some (p\<lparr>kp_events := []\<rparr>)" using w1(2) p by simp
  note eff = screenAndFlag_Inr [OF w1(1) this s(2), unfolded w1(3)]
  from eff obtain a where a: "kycAuditLog w2 = kycAuditLog w1 @ [a]"
    "row_summary a = (AE_SANCTIONS_SCREENING, Some (if listed (sanctionsList w) name then AO_FAILED else AO_PASSED), None)"
    by (auto simp: row_summary_def)
  have fin: "w' = w2" "s = KycStatusResponseDto_fromDomain q" using s(3) by (simp_all add: returnM_def)
  have st: "kyc_stored w2 (kp_id v) = Some q"
    using eff w1(2) p by (auto simp: kyc_stored_def split: if_splits)
  have open': "isSanctionsFlagOpen q = (isSanctionsFlagOpen v \<or> listed (sanctionsList w) name)"
    using eff p by (auto simp: isSanctionsFlagOpen_def split: if_splits)
  have same: "same_verification v q" using eff p by (simp add: same_verification_def)
  show ?thesis using st same open' l a fin by (intro exI [of _ q] exI [of _ l] exI [of _ a]) simp
qed

lemma loadUserAndProfile_Inr:
  assumes "loadUserAndProfile E i w = (Inr (u, p), w')"
  shows "\<exists>r k n. List.find (\<lambda>r. ur_id r = i) (users w) = Some r \<and> UserMapper_toDomain r = Inr u \<and>
    List.find (\<lambda>r. kr_userId r = i) (kycProfiles w) = Some k \<and> p = KycProfileMapper_toDomain k \<and> w' = w\<lparr>ticks := n\<rparr>"
proof -
  have some: "user_toDomainOrNull y = Inr (Some u) \<Longrightarrow> \<exists>r. y = Some r \<and> UserMapper_toDomain r = Inr u" for y
    by (cases y) (auto simp: bindE_eq_Inr)
  from assms show ?thesis
    by (auto simp: loadUserAndProfile_def user_findById_def kycProfile_findByUserId_def bindM_eq_Inr comp_simps
        dest!: query_eq_Inr step_Inr(1) some)
qed

text \<open>The provider's answer to a lookup: an error-free request whose data the names are compared with.\<close>

definition provider_data :: "verificationHttp \<Rightarrow> string \<Rightarrow> verificationData \<Rightarrow> bool" where
  "provider_data H path d \<longleftrightarrow> (\<exists>n msg. httpGet H n (flutterwaveBaseUrl H @ path) (''Bearer '' @ flutterwaveSecretKey H) =
     Inr \<lparr>vr_success = True, vr_message = msg, vr_data = Some d\<rparr>)"

lemma lookup_Inr:
  assumes "bindM (verification_get H path) (\<lambda>response. liftE (verificationOutcome first name response)) w = (Inr res, w')"
  shows "\<exists>d n. provider_data H path d \<and> matched res = namesMatch d first name \<and>
    verifiedFullName res = (if matched res then Some (verifiedName d) else None) \<and> w' = w\<lparr>ticks := n\<rparr>"
proof -
  from assms obtain n resp where "httpGet H n (flutterwaveBaseUrl H @ path) (''Bearer '' @ flutterwaveSecretKey H) = Inr resp"
    "verificationOutcome first name resp = Inr res" "w' = w\<lparr>ticks := Suc (ticks w)\<rparr>"
    by (auto simp: verification_get_def bindM_eq_Inr draw_def comp_simps split: sum.splits)
  moreover then obtain d where "vr_success resp" "vr_data resp = Some d"
    "res = \<lparr>matched = namesMatch d first name,
       verifiedFullName = (if namesMatch d first name then Some (verifiedName d) else None)\<rparr>"
    by (auto simp: verificationOutcome_def Let_def split: option.splits if_splits)
  ultimately show ?thesis
    unfolding provider_data_def by (intro exI [of _ d] exI [of _ "Suc (ticks w)"] conjI exI [of _ n] exI [of _ "vr_message resp"]) simp_all
qed

lemma mismatch_never_returns: "verificationMismatch E type p w \<noteq> (Inr s, w')"
  by (simp add: verificationMismatch_def bindM_eq_Inr comp_simps)

text \<open>The same course of events for both numbers.\<close>

text \<open>The steps of a submission that returns, up to the recording of the verification.\<close>

lemma submission_steps:
  assumes run: "bindM (loadUserAndProfile E i) (\<lambda>(user, profile).
     bindM (liftE (create text)) (\<lambda>b.
     bindM (verify b (u_firstName user) (u_lastName user)) (\<lambda>result.
     if \<not> matched result then verificationMismatch E type profile
     else
       bindM (liftE (identifier_hash K (val b))) (\<lambda>h.
       bindM (now E) (\<lambda>t.
       bindM (liftE (rec t h (masked b) profile)) (\<lambda>verified.
       bindM (storeAndAudit E verified) (\<lambda>profile'.
       bindM (screenAndFlag E profile' (screenedName user result)) (\<lambda>profile''.
       returnM (KycStatusResponseDto_fromDomain profile''))))))))) w = (Inr s, w')"
    and verify: "\<And>b first name w res w'. verify b first name w = (Inr res, w') \<Longrightarrow>
      \<exists>d n. provider_data H (path b) d \<and> matched res = namesMatch d first name \<and>
        verifiedFullName res = (if matched res then Some (verifiedName d) else None) \<and> w' = w\<lparr>ticks := n\<rparr>"
  obtains r u k b d t key v n where
    "List.find (\<lambda>r. ur_id r = i) (users w) = Some r" "UserMapper_toDomain r = Inr u"
    "List.find (\<lambda>r. kr_userId r = i) (kycProfiles w) = Some k"
    "create text = Inr b" "provider_data H (path b) d" "namesMatch d (u_firstName u) (u_lastName u)"
    "identifierHmacKey K = Some key" "32 \<le> length key"
    "rec t (hmacSha256Hex K key (val b)) (masked b) (KycProfileMapper_toDomain k) = Inr v"
    "bindM (storeAndAudit E v) (\<lambda>profile'.
       bindM (screenAndFlag E profile' (verifiedName d)) (\<lambda>profile''.
       returnM (KycStatusResponseDto_fromDomain profile''))) (w\<lparr>ticks := n\<rparr>) = (Inr s, w')"
  using run
proof (elim bindM_InrE)
  fix up w1
  assume load: "loadUserAndProfile E i w = (Inr up, w1)"
    and rest: "(case up of (user, profile) \<Rightarrow>
     bindM (liftE (create text)) (\<lambda>b.
     bindM (verify b (u_firstName user) (u_lastName user)) (\<lambda>result.
     if \<not> matched result then verificationMismatch E type profile
     else
       bindM (liftE (identifier_hash K (val b))) (\<lambda>h.
       bindM (now E) (\<lambda>t.
       bindM (liftE (rec t h (masked b) profile)) (\<lambda>verified.
       bindM (storeAndAudit E verified) (\<lambda>profile'.
       bindM (screenAndFlag E profile' (screenedName user result)) (\<lambda>profile''.
       returnM (KycStatusResponseDto_fromDomain profile''))))))))) w1 = (Inr s, w')"
  obtain u p where up: "up = (u, p)" by fastforce
  from loadUserAndProfile_Inr [OF load [unfolded up]] obtain r k n1 where
    r: "List.find (\<lambda>r. ur_id r = i) (users w) = Some r" "UserMapper_toDomain r = Inr u"
    and k: "List.find (\<lambda>r. kr_userId r = i) (kycProfiles w) = Some k" "p = KycProfileMapper_toDomain k"
    and w1: "w1 = w\<lparr>ticks := n1\<rparr>" by blast
  from rest [unfolded up prod.case] obtain b w2 res w3 where
    b: "liftE (create text) w1 = (Inr b, w2)" and
    res: "verify b (u_firstName u) (u_lastName u) w2 = (Inr res, w3)" and
    go: "(if \<not> matched res then verificationMismatch E type p
     else
       bindM (liftE (identifier_hash K (val b))) (\<lambda>h.
       bindM (now E) (\<lambda>t.
       bindM (liftE (rec t h (masked b) p)) (\<lambda>verified.
       bindM (storeAndAudit E verified) (\<lambda>profile'.
       bindM (screenAndFlag E profile' (screenedName u res)) (\<lambda>profile''.
       returnM (KycStatusResponseDto_fromDomain profile''))))))) w3 = (Inr s, w')"
    by (elim bindM_InrE) (rule that; assumption)
  have b': "create text = Inr b" "w2 = w1" using step_Inr(3) [OF b] by auto
  from verify [OF res] obtain d n3 where d: "provider_data H (path b) d"
    "matched res = namesMatch d (u_firstName u) (u_lastName u)"
    "verifiedFullName res = (if matched res then Some (verifiedName d) else None)" and w3: "w3 = w2\<lparr>ticks := n3\<rparr>" by blast
  have m: "matched res"
    using go mismatch_never_returns [of E type p w3 s w'] by (auto split: if_splits)
  then have name: "screenedName u res = verifiedName d" using d(3) by (simp add: screenedName_def)
  from go m obtain h w4 t w5 v w6 where
    h: "liftE (identifier_hash K (val b)) w3 = (Inr h, w4)" and t: "now E w4 = (Inr t :: exn + int, w5)" and
    v: "liftE (rec t h (masked b) p) w5 = (Inr v, w6)" and
    fin: "bindM (storeAndAudit E v) (\<lambda>profile'.
       bindM (screenAndFlag E profile' (screenedName u res)) (\<lambda>profile''.
       returnM (KycStatusResponseDto_fromDomain profile''))) w6 = (Inr s, w')"
    unfolding if_not_P [of "\<not> matched res"] not_not
    by simp (erule bindM_InrE, erule bindM_InrE, erule bindM_InrE, rule that; assumption)
  obtain key where key: "identifierHmacKey K = Some key" "32 \<le> length key" "h = hmacSha256Hex K key (val b)"
    using step_Inr(3) [OF h] by (auto simp: identifier_hash_def split: option.splits if_splits)
  obtain n6 where w6: "w6 = w\<lparr>ticks := n6\<rparr>"
    using step_Inr(3) [OF h] now_Inr [OF t] step_Inr(3) [OF v] w3 b'(2) w1 by simp
  have v': "rec t h (masked b) p = Inr v" using step_Inr(3) [OF v] by simp
  show thesis
    by (rule that [of r u k b d key t v n6])
      (use r k b' d m key v' fin in \<open>simp_all add: name w6\<close>)
qed

lemma submission_Inr:
  assumes ok: "kyc_table_ok w"
    and run: "bindM (loadUserAndProfile E i) (\<lambda>(user, profile).
     bindM (liftE (create text)) (\<lambda>b.
     bindM (verify b (u_firstName user) (u_lastName user)) (\<lambda>result.
     if \<not> matched result then verificationMismatch E type profile
     else
       bindM (liftE (identifier_hash K (val b))) (\<lambda>h.
       bindM (now E) (\<lambda>t.
       bindM (liftE (rec t h (masked b) profile)) (\<lambda>verified.
       bindM (storeAndAudit E verified) (\<lambda>profile'.
       bindM (screenAndFlag E profile' (screenedName user result)) (\<lambda>profile''.
       returnM (KycStatusResponseDto_fromDomain profile''))))))))) w = (Inr s, w')"
    and verify: "\<And>b first name w res w'. verify b first name w = (Inr res, w') \<Longrightarrow>
      \<exists>d n. provider_data H (path b) d \<and> matched res = namesMatch d first name \<and>
        verifiedFullName res = (if matched res then Some (verifiedName d) else None) \<and> w' = w\<lparr>ticks := n\<rparr>"
    and rec: "\<And>t h m p v. rec t h m p = Inr v \<Longrightarrow> kp_id v = kp_id p \<and> kp_sanctionsFlaggedAt v = kp_sanctionsFlaggedAt p \<and>
      kp_sanctionsClearedAt v = kp_sanctionsClearedAt p"
  obtains r u k b d t key v q l a where
    "List.find (\<lambda>r. ur_id r = i) (users w) = Some r" "UserMapper_toDomain r = Inr u"
    "List.find (\<lambda>r. kr_userId r = i) (kycProfiles w) = Some k"
    "create text = Inr b" "provider_data H (path b) d" "namesMatch d (u_firstName u) (u_lastName u)"
    "identifierHmacKey K = Some key" "32 \<le> length key"
    "rec t (hmacSha256Hex K key (val b)) (masked b) (KycProfileMapper_toDomain k) = Inr v"
    "kyc_stored w' (kr_id k) = Some q" "same_verification v q" "s = KycStatusResponseDto_fromDomain q"
    "isSanctionsFlagOpen q = (isSanctionsFlagOpen (KycProfileMapper_toDomain k) \<or> listed (sanctionsList w) (verifiedName d))"
    "kycAuditLog w' = kycAuditLog w @ l @ [a]" "map row_summary l = concat (map (audit_summary \<circ> body) (kp_events v))"
    "row_summary a = (AE_SANCTIONS_SCREENING,
       Some (if listed (sanctionsList w) (verifiedName d) then AO_FAILED else AO_PASSED), None)"
proof (rule submission_steps [where create = create and verify = verify and rec = rec and val = val and masked = masked
      and path = path, OF run], erule verify)
  fix r u k b d t key v n
  assume st: "List.find (\<lambda>r. ur_id r = i) (users w) = Some r" "UserMapper_toDomain r = Inr u"
    "List.find (\<lambda>r. kr_userId r = i) (kycProfiles w) = Some k"
    "create text = Inr b" "provider_data H (path b) d" "namesMatch d (u_firstName u) (u_lastName u)"
    "identifierHmacKey K = Some key" "32 \<le> length key"
    and v: "rec t (hmacSha256Hex K key (val b)) (masked b) (KycProfileMapper_toDomain k) = Inr v"
    and fin: "bindM (storeAndAudit E v) (\<lambda>profile'.
       bindM (screenAndFlag E profile' (verifiedName d)) (\<lambda>profile''.
       returnM (KycStatusResponseDto_fromDomain profile''))) (w\<lparr>ticks := n\<rparr>) = (Inr s, w')"
  have "kyc_table_ok (w\<lparr>ticks := n\<rparr>)" using ok by (simp add: kyc_table_ok_def)
  from verified_Inr [OF this fin] obtain q l a where
    q: "kyc_stored w' (kp_id v) = Some q" "s = KycStatusResponseDto_fromDomain q" "same_verification v q"
      "isSanctionsFlagOpen q = (isSanctionsFlagOpen v \<or> listed (sanctionsList w) (verifiedName d))"
      "kycAuditLog w' = kycAuditLog w @ l @ [a]" "map row_summary l = concat (map (audit_summary \<circ> body) (kp_events v))"
      "row_summary a = (AE_SANCTIONS_SCREENING,
        Some (if listed (sanctionsList w) (verifiedName d) then AO_FAILED else AO_PASSED), None)" by auto
  show thesis
    by (rule that [OF st v]) (use q rec [OF v] in \<open>simp_all add: isSanctionsFlagOpen_def\<close>)
qed

text \<open>
  C31. A BVN submission that returns has checked what it claims: the number has eleven digits, the
  provider's data for it carry the registered first and last name of the user, and the BVN was not
  verified before. The stored profile then has the keyed hash and the masked number, tier 2 if it was
  1 and its old tier otherwise, and an open flag if it had one or the provider's name is listed; the
  log gained the passed attempt, the tier change if there was one, and the screening.
\<close>

theorem bvn_submission_effect:
  assumes ok: "kyc_table_ok w" and run: "SubmitBvnVerification_execute E H K i text w = (Inr s, w')"
  shows "\<exists>r u k d key q l a.
    List.find (\<lambda>r. ur_id r = i) (users w) = Some r \<and> UserMapper_toDomain r = Inr u \<and>
    List.find (\<lambda>r. kr_userId r = i) (kycProfiles w) = Some k \<and> kr_bvnVerifiedAt k = None \<and>
    matches_digits 11 text \<and> provider_data H (''/kyc/bvns/'' @ text) d \<and>
    namesMatch d (u_firstName u) (u_lastName u) \<and>
    identifierHmacKey K = Some key \<and> 32 \<le> length key \<and>
    kyc_stored w' (kr_id k) = Some q \<and> s = KycStatusResponseDto_fromDomain q \<and>
    kp_bvnVerifiedAt q \<noteq> None \<and> kp_bvnHash q = Some (hmacSha256Hex K key text) \<and>
    kp_bvnMasked q = Some (''*******'' @ drop 7 text) \<and> kp_ninVerifiedAt q = kr_ninVerifiedAt k \<and>
    kp_tier q = (if kr_tier k = TIER_1 then TIER_2 else kr_tier k) \<and>
    isSanctionsFlagOpen q = (isSanctionsFlagOpen (KycProfileMapper_toDomain k) \<or> listed (sanctionsList w) (verifiedName d)) \<and>
    kycAuditLog w' = kycAuditLog w @ l @ [a] \<and>
    map row_summary l = (AE_VERIFICATION_ATTEMPT, Some AO_PASSED, None) #
      (if kr_tier k = TIER_1 then [(AE_TIER_CHANGE, None, Some TIER_2)] else []) \<and>
    row_summary a = (AE_SANCTIONS_SCREENING,
      Some (if listed (sanctionsList w) (verifiedName d) then AO_FAILED else AO_PASSED), None)"
proof (rule submission_Inr [where create = Bvn_create and verify = "\<lambda>b. verifyBvn H (bvn_value b)" and
      rec = recordBvnVerified and masked = Bvn_toMasked and val = bvn_value and type = VT_BVN and
      path = "\<lambda>b. ''/kyc/bvns/'' @ bvn_value b", OF ok run [unfolded SubmitBvnVerification_execute_def]])
  show "verifyBvn H (bvn_value b) first name v = (Inr res, v') \<Longrightarrow>
      \<exists>d n. provider_data H (''/kyc/bvns/'' @ bvn_value b) d \<and> matched res = namesMatch d first name \<and>
        verifiedFullName res = (if matched res then Some (verifiedName d) else None) \<and> v' = v\<lparr>ticks := n\<rparr>" for b first name v res v'
    unfolding verifyBvn_def resolveBvn_def by (rule lookup_Inr)
  show "recordBvnVerified t h m p = Inr v \<Longrightarrow> kp_id v = kp_id p \<and> kp_sanctionsFlaggedAt v = kp_sanctionsFlaggedAt p \<and>
      kp_sanctionsClearedAt v = kp_sanctionsClearedAt p" for t h m p v
    by (drule recordBvnVerified_fields) simp
next
  fix r u k b d t key v q l a
  assume f: "List.find (\<lambda>r. ur_id r = i) (users w) = Some r" "UserMapper_toDomain r = Inr u"
    "List.find (\<lambda>r. kr_userId r = i) (kycProfiles w) = Some k" "Bvn_create text = Inr b"
    "provider_data H (''/kyc/bvns/'' @ bvn_value b) d" "namesMatch d (u_firstName u) (u_lastName u)"
    "identifierHmacKey K = Some key" "32 \<le> length key"
    "recordBvnVerified t (hmacSha256Hex K key (bvn_value b)) (Bvn_toMasked b) (KycProfileMapper_toDomain k) = Inr v"
    "kyc_stored w' (kr_id k) = Some q" "same_verification v q" "s = KycStatusResponseDto_fromDomain q"
    "isSanctionsFlagOpen q = (isSanctionsFlagOpen (KycProfileMapper_toDomain k) \<or> listed (sanctionsList w) (verifiedName d))"
    "kycAuditLog w' = kycAuditLog w @ l @ [a]" "map row_summary l = concat (map (audit_summary \<circ> body) (kp_events v))"
    "row_summary a = (AE_SANCTIONS_SCREENING,
       Some (if listed (sanctionsList w) (verifiedName d) then AO_FAILED else AO_PASSED), None)"
  have b: "bvn_value b = text" "matches_digits 11 text" "Bvn_toMasked b = ''*******'' @ drop 7 text"
    using f(4) by (auto simp: Bvn_create_def Bvn_toMasked_def slice_last_def matches_digits_def split: if_splits)
  note v = recordBvnVerified_fields [OF f(9), unfolded b]
  have "kp_bvnVerifiedAt (KycProfileMapper_toDomain k) = kr_bvnVerifiedAt k"
    "kp_ninVerifiedAt (KycProfileMapper_toDomain k) = kr_ninVerifiedAt k" by (simp_all add: KycProfileMapper_toDomain_def)
  with v f(11) have q: "kr_bvnVerifiedAt k = None" "kp_bvnVerifiedAt q \<noteq> None" "kp_bvnHash q = Some (hmacSha256Hex K key text)"
    "kp_bvnMasked q = Some (''*******'' @ drop 7 text)" "kp_ninVerifiedAt q = kr_ninVerifiedAt k"
    "kp_tier q = (if kr_tier k = TIER_1 then TIER_2 else kr_tier k)" by (simp_all add: same_verification_def)
  have "kp_events v = domainEvent t (VerificationPassedEvent (kr_id k) (kr_userId k) VT_BVN) #
      (if kr_tier k = TIER_1 then [domainEvent t (KycTierUpgradedEvent (kr_id k) (kr_userId k) TIER_2)] else [])"
    using f(9) q(1) by (auto simp: kyc_ops KycProfileMapper_toDomain_def split: if_splits)
  then have l: "map row_summary l = (AE_VERIFICATION_ATTEMPT, Some AO_PASSED, None) #
      (if kr_tier k = TIER_1 then [(AE_TIER_CHANGE, None, Some TIER_2)] else [])"
    using f(15) by (simp add: domainEvent_def)
  show ?thesis
    by (rule exI [of _ r], rule exI [of _ u], rule exI [of _ k], rule exI [of _ d], rule exI [of _ key], rule exI [of _ q],
        rule exI [of _ l], rule exI [of _ a], intro conjI) (fact f(1,2,3,6,7,8,10,12,13,14,16) q l b(2) f(5) [unfolded b])+
qed

text \<open>
  The same for a NIN submission that returns, with the NIN's own fields; here the tier goes up
  only from 2, and only where the BVN is verified.
\<close>

theorem nin_submission_effect:
  assumes ok: "kyc_table_ok w" and run: "SubmitNinVerification_execute E H K i text w = (Inr s, w')"
  shows "\<exists>r u k d key q l a.
    List.find (\<lambda>r. ur_id r = i) (users w) = Some r \<and> UserMapper_toDomain r = Inr u \<and>
    List.find (\<lambda>r. kr_userId r = i) (kycProfiles w) = Some k \<and> kr_ninVerifiedAt k = None \<and>
    matches_digits 11 text \<and> provider_data H (''/kyc/nin/'' @ text) d \<and>
    namesMatch d (u_firstName u) (u_lastName u) \<and>
    identifierHmacKey K = Some key \<and> 32 \<le> length key \<and>
    kyc_stored w' (kr_id k) = Some q \<and> s = KycStatusResponseDto_fromDomain q \<and>
    kp_ninVerifiedAt q \<noteq> None \<and> kp_ninHash q = Some (hmacSha256Hex K key text) \<and>
    kp_ninMasked q = Some (''*******'' @ drop 7 text) \<and> kp_bvnVerifiedAt q = kr_bvnVerifiedAt k \<and>
    kp_tier q = (if kr_tier k = TIER_2 \<and> kr_bvnVerifiedAt k \<noteq> None then TIER_3 else kr_tier k) \<and>
    isSanctionsFlagOpen q = (isSanctionsFlagOpen (KycProfileMapper_toDomain k) \<or> listed (sanctionsList w) (verifiedName d)) \<and>
    kycAuditLog w' = kycAuditLog w @ l @ [a] \<and>
    map row_summary l = (AE_VERIFICATION_ATTEMPT, Some AO_PASSED, None) #
      (if kr_tier k = TIER_2 \<and> kr_bvnVerifiedAt k \<noteq> None then [(AE_TIER_CHANGE, None, Some TIER_3)] else []) \<and>
    row_summary a = (AE_SANCTIONS_SCREENING,
      Some (if listed (sanctionsList w) (verifiedName d) then AO_FAILED else AO_PASSED), None)"
proof (rule submission_Inr [where create = Nin_create and verify = "\<lambda>b. verifyNin H (nin_value b)" and
      rec = recordNinVerified and masked = Nin_toMasked and val = nin_value and type = VT_NIN and
      path = "\<lambda>b. ''/kyc/nin/'' @ nin_value b", OF ok run [unfolded SubmitNinVerification_execute_def]])
  show "verifyNin H (nin_value b) first name v = (Inr res, v') \<Longrightarrow>
      \<exists>d n. provider_data H (''/kyc/nin/'' @ nin_value b) d \<and> matched res = namesMatch d first name \<and>
        verifiedFullName res = (if matched res then Some (verifiedName d) else None) \<and> v' = v\<lparr>ticks := n\<rparr>" for b first name v res v'
    unfolding verifyNin_def resolveNin_def by (rule lookup_Inr)
  show "recordNinVerified t h m p = Inr v \<Longrightarrow> kp_id v = kp_id p \<and> kp_sanctionsFlaggedAt v = kp_sanctionsFlaggedAt p \<and>
      kp_sanctionsClearedAt v = kp_sanctionsClearedAt p" for t h m p v
    by (drule recordNinVerified_fields) simp
next
  fix r u k b d t key v q l a
  assume f: "List.find (\<lambda>r. ur_id r = i) (users w) = Some r" "UserMapper_toDomain r = Inr u"
    "List.find (\<lambda>r. kr_userId r = i) (kycProfiles w) = Some k" "Nin_create text = Inr b"
    "provider_data H (''/kyc/nin/'' @ nin_value b) d" "namesMatch d (u_firstName u) (u_lastName u)"
    "identifierHmacKey K = Some key" "32 \<le> length key"
    "recordNinVerified t (hmacSha256Hex K key (nin_value b)) (Nin_toMasked b) (KycProfileMapper_toDomain k) = Inr v"
    "kyc_stored w' (kr_id k) = Some q" "same_verification v q" "s = KycStatusResponseDto_fromDomain q"
    "isSanctionsFlagOpen q = (isSanctionsFlagOpen (KycProfileMapper_toDomain k) \<or> listed (sanctionsList w) (verifiedName d))"
    "kycAuditLog w' = kycAuditLog w @ l @ [a]" "map row_summary l = concat (map (audit_summary \<circ> body) (kp_events v))"
    "row_summary a = (AE_SANCTIONS_SCREENING,
       Some (if listed (sanctionsList w) (verifiedName d) then AO_FAILED else AO_PASSED), None)"
  have b: "nin_value b = text" "matches_digits 11 text" "Nin_toMasked b = ''*******'' @ drop 7 text"
    using f(4) by (auto simp: Nin_create_def Nin_toMasked_def slice_last_def matches_digits_def split: if_splits)
  note v = recordNinVerified_fields [OF f(9), unfolded b]
  have "kp_bvnVerifiedAt (KycProfileMapper_toDomain k) = kr_bvnVerifiedAt k"
    "kp_ninVerifiedAt (KycProfileMapper_toDomain k) = kr_ninVerifiedAt k" by (simp_all add: KycProfileMapper_toDomain_def)
  with v f(11) have q: "kr_ninVerifiedAt k = None" "kp_ninVerifiedAt q \<noteq> None" "kp_ninHash q = Some (hmacSha256Hex K key text)"
    "kp_ninMasked q = Some (''*******'' @ drop 7 text)" "kp_bvnVerifiedAt q = kr_bvnVerifiedAt k"
    "kp_tier q = (if kr_tier k = TIER_2 \<and> kr_bvnVerifiedAt k \<noteq> None then TIER_3 else kr_tier k)"
    by (simp_all add: same_verification_def)
  have "kp_events v = domainEvent t (VerificationPassedEvent (kr_id k) (kr_userId k) VT_NIN) #
      (if kr_tier k = TIER_2 \<and> kr_bvnVerifiedAt k \<noteq> None then [domainEvent t (KycTierUpgradedEvent (kr_id k) (kr_userId k) TIER_3)] else [])"
    using f(9) q(1) by (auto simp: kyc_ops KycProfileMapper_toDomain_def split: if_splits)
  then have l: "map row_summary l = (AE_VERIFICATION_ATTEMPT, Some AO_PASSED, None) #
      (if kr_tier k = TIER_2 \<and> kr_bvnVerifiedAt k \<noteq> None then [(AE_TIER_CHANGE, None, Some TIER_3)] else [])"
    using f(15) by (simp add: domainEvent_def)
  show ?thesis
    by (rule exI [of _ r], rule exI [of _ u], rule exI [of _ k], rule exI [of _ d], rule exI [of _ key], rule exI [of _ q],
        rule exI [of _ l], rule exI [of _ a], intro conjI) (fact f(1,2,3,6,7,8,10,12,13,14,16) q l b(2) f(5) [unfolded b])+
qed


section \<open>Examples\<close>

text \<open>
  The provider answers every lookup with one name; the list has one entry; the user Ada Obi has a
  fresh profile.
\<close>

definition exampleHttp :: "string \<Rightarrow> string \<Rightarrow> verificationHttp" where
  "exampleHttp given surname = \<lparr>httpGet = (\<lambda>n url auth. Inr \<lparr>vr_success = True, vr_message = ''ok'',
       vr_data = Some \<lparr>vd_first_name = given, vd_middle_name = None, vd_last_name = surname\<rparr>\<rparr>),
     flutterwaveBaseUrl = ''https://api.flutterwave.com/v3'', flutterwaveSecretKey = ''sk''\<rparr>"

definition exampleHasher :: hasher where
  "exampleHasher = \<lparr>hmacSha256Hex = (\<lambda>k s. ''#'' @ s), identifierHmacKey = Some ''0123456789abcdef0123456789abcdef''\<rparr>"

definition exampleProfile :: kycProfile where
  "exampleProfile = (kyc_createDefault 3 ''p1'' ''u1'')\<lparr>kp_events := []\<rparr>"

definition exampleKycWorld :: "kycProfile \<Rightarrow> world" where
  "exampleKycWorld p = emptyWorld\<lparr>users := [UserMapper_toPersistence exampleUser],
     kycProfiles := [KycProfileMapper_toPersistence p],
     sanctionsList := [\<lparr>sr_id = ''s1'', sr_source = ''OFAC'', sr_externalId = ''1'', sr_fullName = ''OKAFOR, Dr. Musa'', sr_program = Some ''SDGT'', sr_remarks = None\<rparr>]\<rparr>"

lemma exampleKycWorld_ok: "kyc_inv p \<Longrightarrow> kyc_ok (exampleKycWorld p)" "kyc_table_ok (exampleKycWorld p)"
  "kp_events p = [] \<Longrightarrow> kyc_stored (exampleKycWorld p) (kp_id p) = Some p"
  by (simp_all add: exampleKycWorld_def kyc_ok_def kyc_table_ok_def kyc_stored_def kyc_inv_def
      KycProfileMapper_toPersistence_def KycProfileMapper_toDomain_def)

theorem kyc_database_evolution_witness:
  "kyc_later (exampleKycWorld exampleProfile)
     (foldl (\<lambda>v (E, H, K, c). run_kyc E H K c v) (exampleKycWorld exampleProfile)
       [(exampleEnv, exampleHttp ''Ada'' ''Obi'', exampleHasher, SubmitBvn ''u1'' ''12345678901''),
        (exampleEnv, exampleHttp ''Musa'' ''Okafor'', exampleHasher, OverrideNin ''staff'' ''u1'' ''12345678901'' ''seen''),
        (exampleEnv, exampleHttp ''Ada'' ''Obi'', exampleHasher, Registered ''u2'')])"
proof (rule kyc_database_evolution)
  have "kyc_inv exampleProfile" by (simp add: exampleProfile_def kyc_inv_def kyc_createDefault_def kyc_addDomainEvent_def)
  then show "kyc_ok (exampleKycWorld exampleProfile)" by (rule exampleKycWorld_ok)
qed

theorem bvn_submission_effect_witness:
  "\<exists>s w' l a. SubmitBvnVerification_execute exampleEnv (exampleHttp ''ADA'' ''Obi '') exampleHasher ''u1'' ''12345678901''
       (exampleKycWorld exampleProfile) = (Inr s, w') \<and> kycAuditLog w' = l @ [a] \<and>
     map row_summary l = [(AE_VERIFICATION_ATTEMPT, Some AO_PASSED, None), (AE_TIER_CHANGE, None, Some TIER_2)]"
proof -
  let ?run = "SubmitBvnVerification_execute exampleEnv (exampleHttp ''ADA'' ''Obi '') exampleHasher ''u1'' ''12345678901''
       (exampleKycWorld exampleProfile)"
  have "case ?run of (Inr s, w') \<Rightarrow> True | _ \<Rightarrow> False" by code_simp
  then obtain s w' where run: "?run = (Inr s, w')" by (auto split: prod.splits sum.splits)
  have "kr_tier k = TIER_1" if "List.find (\<lambda>r. kr_userId r = ''u1'') (kycProfiles (exampleKycWorld exampleProfile)) = Some k" for k
    using that by (auto simp: exampleKycWorld_def exampleProfile_def kyc_createDefault_def kyc_addDomainEvent_def
        KycProfileMapper_toPersistence_def)
  moreover have "kycAuditLog (exampleKycWorld exampleProfile) = []" by (simp add: exampleKycWorld_def emptyWorld_def)
  ultimately show ?thesis
    using bvn_submission_effect [OF exampleKycWorld_ok(2) run] run by (elim exE conjE) auto
qed

definition bvnVerifiedProfile :: kycProfile where
  "bvnVerifiedProfile = exampleProfile\<lparr>kp_tier := TIER_2, kp_bvnVerifiedAt := Some 4, kp_bvnHash := Some ''#1'',
     kp_bvnMasked := Some ''*******1'', kp_version := 1\<rparr>"

theorem nin_submission_effect_witness:
  "\<exists>s w' q. SubmitNinVerification_execute exampleEnv (exampleHttp ''Ada'' ''Obi'') exampleHasher ''u1'' ''12345678901''
       (exampleKycWorld bvnVerifiedProfile) = (Inr s, w') \<and> kyc_stored w' ''p1'' = Some q \<and> kp_tier q = TIER_3"
proof -
  let ?run = "SubmitNinVerification_execute exampleEnv (exampleHttp ''Ada'' ''Obi'') exampleHasher ''u1'' ''12345678901''
       (exampleKycWorld bvnVerifiedProfile)"
  have "case ?run of (Inr s, w') \<Rightarrow> True | _ \<Rightarrow> False" by code_simp
  then obtain s w' where run: "?run = (Inr s, w')" by (auto split: prod.splits sum.splits)
  have "kr_tier k = TIER_2 \<and> kr_id k = ''p1'' \<and> kr_bvnVerifiedAt k \<noteq> None"
    if "List.find (\<lambda>r. kr_userId r = ''u1'') (kycProfiles (exampleKycWorld bvnVerifiedProfile)) = Some k" for k
    using that by (auto simp: exampleKycWorld_def bvnVerifiedProfile_def exampleProfile_def kyc_createDefault_def
        kyc_addDomainEvent_def KycProfileMapper_toPersistence_def)
  then show ?thesis
    using nin_submission_effect [OF exampleKycWorld_ok(2) run] run by (elim exE conjE) auto
qed

theorem screening_effect_witness:
  "\<exists>q w'. screenAndFlag exampleEnv bvnVerifiedProfile ''Musa Okafor'' (exampleKycWorld bvnVerifiedProfile) = (Inr q, w') \<and>
     isSanctionsFlagOpen q"
proof -
  let ?run = "screenAndFlag exampleEnv bvnVerifiedProfile ''Musa Okafor'' (exampleKycWorld bvnVerifiedProfile)"
  have "case ?run of (Inr s, w') \<Rightarrow> True | _ \<Rightarrow> False" by code_simp
  then obtain q w' where run: "?run = (Inr q, w')" by (auto split: prod.splits sum.splits)
  have "listed (sanctionsList (exampleKycWorld bvnVerifiedProfile)) ''Musa Okafor''" by code_simp
  moreover have "kp_events bvnVerifiedProfile = []" by (simp add: bvnVerifiedProfile_def exampleProfile_def)
  then have "kyc_stored (exampleKycWorld bvnVerifiedProfile) (kp_id bvnVerifiedProfile) = Some (bvnVerifiedProfile\<lparr>kp_events := []\<rparr>)"
    using exampleKycWorld_ok(3) [of bvnVerifiedProfile] by simp
  ultimately show ?thesis
    using screening_effect [OF exampleKycWorld_ok(2) _ run] run by auto
qed

definition flaggedProfile :: kycProfile where
  "flaggedProfile = bvnVerifiedProfile\<lparr>kp_sanctionsFlaggedAt := Some 9, kp_version := 2\<rparr>"

theorem open_flag_rescreen_fails_witness:
  "\<exists>e w'. screenAndFlag exampleEnv flaggedProfile ''Musa Okafor'' (exampleKycWorld flaggedProfile) = (Inl e, w') \<and>
     kycAuditLog w' = []"
proof -
  have "listed (sanctionsList (exampleKycWorld flaggedProfile)) ''Musa Okafor''" by code_simp
  moreover have "kp_events flaggedProfile = []" "isSanctionsFlagOpen flaggedProfile"
    by (simp_all add: flaggedProfile_def bvnVerifiedProfile_def exampleProfile_def kyc_createDefault_def
        kyc_addDomainEvent_def isSanctionsFlagOpen_def)
  moreover then have "kyc_stored (exampleKycWorld flaggedProfile) (kp_id flaggedProfile) = Some (flaggedProfile\<lparr>kp_events := []\<rparr>)"
    using exampleKycWorld_ok(3) [of flaggedProfile] by simp
  moreover have "kycAuditLog (exampleKycWorld flaggedProfile) = []" by (simp add: exampleKycWorld_def emptyWorld_def)
  ultimately show ?thesis
    using open_flag_rescreen_fails [OF exampleKycWorld_ok(2), of flaggedProfile] by fastforce
qed

text \<open>
  An override for a customer whose provider record names somebody else screens the name the
  customer registered with: here the provider says Musa Okafor, who is on the list, the staff member
  overrides for Ada Obi, and the BVN is verified at tier 2 with a passed screening and no flag. The
  same list flags the provider's name where it is screened.
\<close>

theorem override_screens_registered_name:
  "(case ManuallyVerifyBvn_execute exampleEnv (exampleHttp ''Musa'' ''Okafor'') exampleHasher ''staff'' ''u1'' ''12345678901''
       ''documents seen'' (exampleKycWorld exampleProfile) of
     (Inr s, w') \<Rightarrow> (case kyc_stored w' ''p1'' of
         Some q \<Rightarrow> kp_tier q = TIER_2 \<and> \<not> isSanctionsFlagOpen q | None \<Rightarrow> False) \<and>
       map row_summary (kycAuditLog w') = [(AE_VERIFICATION_ATTEMPT, Some AO_PASSED, None),
         (AE_TIER_CHANGE, None, Some TIER_2), (AE_SANCTIONS_SCREENING, Some AO_PASSED, None)]
   | _ \<Rightarrow> False) \<and>
   listed (sanctionsList (exampleKycWorld exampleProfile))
     (verifiedName \<lparr>vd_first_name = ''Musa'', vd_middle_name = None, vd_last_name = ''Okafor''\<rparr>)"
  by code_simp

text \<open>
  A failure between storing the verified profile and its audit rows cannot be made good: here the
  connection breaks at the first audit row of a submission, the request fails, and the profile is
  verified at tier 2 with an empty log and nothing published; the customer's retry, with everything
  working again, is refused because the verification has already passed.
\<close>

theorem unaudited_verification_stays:
  "case SubmitBvnVerification_execute (exampleEnv\<lparr>dbFault := (\<lambda>n. if n = 6 then FaultBefore else NoFault)\<rparr>)
       (exampleHttp ''Ada'' ''Obi'') exampleHasher ''u1'' ''12345678901'' (exampleKycWorld exampleProfile) of
     (r, w') \<Rightarrow> r = Inl connectionLost \<and> kycAuditLog w' = [] \<and> published w' = [] \<and>
       (case kyc_stored w' ''p1'' of Some q \<Rightarrow> kp_tier q = TIER_2 \<and> kp_bvnVerifiedAt q \<noteq> None | None \<Rightarrow> False) \<and>
       (case SubmitBvnVerification_execute exampleEnv (exampleHttp ''Ada'' ''Obi'') exampleHasher ''u1'' ''12345678901'' w' of
          (r2, w2) \<Rightarrow> r2 = Inl (VerificationAlreadyPassedException VT_BVN) \<and> kycAuditLog w2 = [])"
  by code_simp

end
