(* ===== verification/SanctionsSeed.thy ===== *)
theory SanctionsSeed
  imports KycServices
begin

text \<open>
  The seeding of the sanctions list (\<^verbatim>\<open>infrastructure/prisma/seed-sanctions-list.ts\<close>): the parser
  for comma-separated values, the selection of the columns, and the replacement of the stored list.
\<close>

section \<open>The parser\<close>

text \<open>
  The loop of \<open>parseCsv\<close>: whether it is inside of quotes, the field, the row and the rows so far, and
  the text from the index on.
\<close>

fun parseCsv_loop :: "bool \<Rightarrow> string \<Rightarrow> string list \<Rightarrow> string list list \<Rightarrow> string \<Rightarrow> string list list" where
  "parseCsv_loop inQuotes field row rows [] =
     (if field \<noteq> [] \<or> row \<noteq> [] then rows @ [row @ [field]] else rows)"
| "parseCsv_loop True field row rows (char # text) =
     (if char = CHR 0x22 then
        (case text of
           [] \<Rightarrow> parseCsv_loop False field row rows text
         | next_char # rest \<Rightarrow>
             if next_char = CHR 0x22 then parseCsv_loop True (field @ [CHR 0x22]) row rows rest
             else parseCsv_loop False field row rows text)
      else parseCsv_loop True (field @ [char]) row rows text)"
| "parseCsv_loop False field row rows (char # text) =
     (if char = CHR 0x22 then parseCsv_loop True field row rows text
      else if char = CHR '','' then parseCsv_loop False [] (row @ [field]) rows text
      else if char = CHR 0x0D then parseCsv_loop False field row rows text
      else if char = CHR 0x0A then parseCsv_loop False [] [] (rows @ [row @ [field]]) text
      else parseCsv_loop False (field @ [char]) row rows text)"

definition parseCsv :: "string \<Rightarrow> string list list" where
  "parseCsv text = parseCsv_loop False [] [] [] text"

section \<open>The entries\<close>

definition SOURCE :: string where
  "SOURCE = ''OFAC_SDN''"

text \<open>\<open>s || null\<close>\<close>

definition orNull :: "string \<Rightarrow> string option" where
  "orNull s = (if s = [] then None else Some s)"

definition isEntry :: "string list \<Rightarrow> bool" where
  "isEntry cols \<longleftrightarrow> length cols \<ge> 4 \<and> trim (cols ! 0) \<noteq> []"

definition toEntry :: "string \<Rightarrow> string list \<Rightarrow> sanctions_row" where
  "toEntry newId cols =
     \<lparr>sr_id = newId, sr_source = SOURCE, sr_externalId = trim (cols ! 0), sr_fullName = trim (cols ! 1),
      sr_program = orNull (trim (cols ! 2)), sr_remarks = orNull (trim (cols ! 3))\<rparr>"

text \<open>The random identifiers are the default of the column.\<close>

fun withIds :: "env \<Rightarrow> string list list \<Rightarrow> sanctions_row list action" where
  "withIds E [] = returnM []"
| "withIds E (cols # rest) =
     bindM (uuid E) (\<lambda>i. bindM (withIds E rest) (\<lambda>entries. returnM (toEntry i cols # entries)))"

section \<open>Replacing the list\<close>

text \<open>\<open>createMany\<close> is one statement: all rows or none.\<close>

fun create_rows :: "('r \<Rightarrow> 'r \<Rightarrow> bool) \<Rightarrow> 'r list \<Rightarrow> 'r list \<Rightarrow> exn + 'r list" where
  "create_rows clash [] t = Inr t"
| "create_rows clash (r # rs) t = bindE (create_row (\<lambda>r. True) clash r t) (create_rows clash rs)"

definition sanctions_clash :: "sanctions_row \<Rightarrow> sanctions_row \<Rightarrow> bool" where
  "sanctions_clash a b \<longleftrightarrow>
     sr_id a = sr_id b \<or> (sr_source a = sr_source b \<and> sr_externalId a = sr_externalId b)"

definition seedSanctionsList :: "env \<Rightarrow> string \<Rightarrow> unit action" where
  "seedSanctionsList E raw =
     (let rows = drop 1 (parseCsv raw)
      in bindM (update_in E sanctionsList (\<lambda>t w. w\<lparr>sanctionsList := t\<rparr>)
                  (\<lambda>t. (length (filter (\<lambda>r. sr_source r = SOURCE) t), delete_rows (\<lambda>r. sr_source r = SOURCE) t))) (\<lambda>_.
         bindM (withIds E (filter isEntry rows)) (\<lambda>entries.
         insert_into E sanctionsList (\<lambda>t w. w\<lparr>sanctionsList := t\<rparr>) (create_rows sanctions_clash entries))))"


section \<open>Reading back what a spreadsheet writes\<close>

text \<open>
  The usual way to write such a file: a field stands in quotes, with its own quotes doubled, or as it
  is where it has no quote, comma or line end; lines end in a line feed with or without a return.
\<close>

definition plain_field :: "string \<Rightarrow> bool" where
  "plain_field f \<longleftrightarrow> list_all (\<lambda>c. c \<noteq> CHR 0x22 \<and> c \<noteq> CHR '','' \<and> c \<noteq> CHR 0x0D \<and> c \<noteq> CHR 0x0A) f"

fun escape_quotes :: "string \<Rightarrow> string" where
  "escape_quotes [] = []"
| "escape_quotes (c # cs) = (if c = CHR 0x22 then CHR 0x22 # CHR 0x22 # escape_quotes cs else c # escape_quotes cs)"

fun print_field :: "bool \<times> string \<Rightarrow> string" where
  "print_field (quoted, f) = (if quoted then CHR 0x22 # escape_quotes f @ [CHR 0x22] else f)"

fun print_row :: "bool \<times> (bool \<times> string) list \<Rightarrow> string" where
  "print_row (crlf, fs) = join '','' (map print_field fs) @ (if crlf then [CHR 0x0D, CHR 0x0A] else [CHR 0x0A])"

definition print_csv :: "(bool \<times> (bool \<times> string) list) list \<Rightarrow> string" where
  "print_csv rows = concat (map print_row rows)"

definition printable :: "bool \<times> (bool \<times> string) list \<Rightarrow> bool" where
  "printable row \<longleftrightarrow> snd row \<noteq> [] \<and> list_all (\<lambda>(quoted, f). quoted \<or> plain_field f) (snd row)"

lemma loop_quoted:
  "rest \<noteq> [] \<Longrightarrow> hd rest \<noteq> CHR 0x22 \<Longrightarrow>
    parseCsv_loop True field row rows (escape_quotes f @ CHR 0x22 # rest) = parseCsv_loop False (field @ f) row rows rest"
  by (induction f arbitrary: field) (auto split: list.split)

lemma loop_plain:
  "plain_field f \<Longrightarrow> parseCsv_loop False field row rows (f @ rest) = parseCsv_loop False (field @ f) row rows rest"
  by (induction f arbitrary: field) (auto simp: plain_field_def)

lemma loop_field:
  assumes "quoted \<or> plain_field f" and "rest \<noteq> []" and "hd rest \<noteq> CHR 0x22"
  shows "parseCsv_loop False [] row rows (print_field (quoted, f) @ rest) = parseCsv_loop False f row rows rest"
  using assms by (cases quoted) (simp_all add: loop_quoted loop_plain)

lemma loop_row:
  assumes "fs \<noteq> []" and "list_all (\<lambda>(quoted, f). quoted \<or> plain_field f) fs"
  shows "parseCsv_loop False [] row rows (join '','' (map print_field fs) @ (if crlf then [CHR 0x0D, CHR 0x0A] else [CHR 0x0A]) @ rest) =
    parseCsv_loop False [] [] (rows @ [row @ map snd fs]) rest"
  using assms
proof (induction fs arbitrary: row)
  case (Cons x fs)
  obtain q f where x: "x = (q, f)" by fastforce
  with Cons.prems have q: "q \<or> plain_field f" by simp
  show ?case
  proof (cases fs)
    case Nil
    then show ?thesis using loop_field [OF q, of "(if crlf then [CHR 0x0D, CHR 0x0A] else [CHR 0x0A]) @ rest" row rows] x
      by (cases crlf) simp_all
  next
    case (Cons y ys)
    have "parseCsv_loop False [] row rows (print_field (q, f) @ '','' @ join '','' (map print_field fs) @
        (if crlf then [CHR 0x0D, CHR 0x0A] else [CHR 0x0A]) @ rest) =
      parseCsv_loop False [] (row @ [f]) rows (join '','' (map print_field fs) @
        (if crlf then [CHR 0x0D, CHR 0x0A] else [CHR 0x0A]) @ rest)"
      by (subst loop_field [OF q]) simp_all
    with Cons.IH [of "row @ [f]"] Cons.prems Cons x show ?thesis by simp
  qed
qed simp

lemma loop_rows:
  "list_all printable rs \<Longrightarrow> parseCsv_loop False [] [] rows (print_csv rs) = rows @ map (map snd \<circ> snd) rs"
proof (induction rs arbitrary: rows)
  case Nil
  then show ?case by (simp add: print_csv_def)
next
  case (Cons r rs)
  obtain crlf fs where r: "r = (crlf, fs)" by fastforce
  have "parseCsv_loop False [] [] rows (print_csv (r # rs)) = parseCsv_loop False [] [] (rows @ [map snd fs]) (print_csv rs)"
    using loop_row [of fs "[]" rows crlf "print_csv rs"] Cons.prems by (simp add: r printable_def print_csv_def)
  with Cons show ?case by (simp add: r)
qed

text \<open>
  C40. The parser reads back every table written the usual way, whichever fields are quoted and however
  the lines end: the same rows with the same fields, with their commas, quotes and line ends inside.
\<close>

theorem csv_roundtrip:
  assumes "list_all printable rows"
  shows "parseCsv (print_csv rows) = map (\<lambda>(crlf, fields). map snd fields) rows"
  using loop_rows [OF assms, of "[]"] by (simp add: parseCsv_def case_prod_beta' comp_def)

section \<open>What a seeding leaves\<close>

lemma withIds_Inr:
  "withIds E rows w = (Inr es, w') \<Longrightarrow>
    (\<exists>n. w' = w\<lparr>ticks := n\<rparr>) \<and> (\<exists>is. length is = length rows \<and> es = map2 toEntry is rows)"
proof (induction rows arbitrary: w es w')
  case Nil
  then show ?case by (auto simp: comp_simps intro: exI [of _ "ticks w"])
next
  case (Cons cols rows)
  from Cons.prems obtain es' w2 where s: "withIds E rows (w\<lparr>ticks := Suc (ticks w)\<rparr>) = (Inr es', w2)"
    "es = toEntry (newUuid E (ticks w)) cols # es'" "w' = w2"
    by (auto simp: bindM_eq_Inr comp_simps)
  from Cons.IH [OF s(1)] obtain n ids where "w2 = w\<lparr>ticks := n\<rparr>" "length ids = length rows" "es' = map2 toEntry ids rows" by auto
  with s show ?case by (intro conjI exI [of _ n] exI [of _ "newUuid E (ticks w) # ids"]) simp_all
qed

lemma withIds_returns: "\<exists>es w'. withIds E rows w = (Inr es, w')"
proof (induction rows arbitrary: w)
  case Nil
  show ?case by (simp add: comp_simps)
next
  case (Cons cols rows)
  from Cons.IH [of "w\<lparr>ticks := Suc (ticks w)\<rparr>"] obtain es w2
    where "withIds E rows (w\<lparr>ticks := Suc (ticks w)\<rparr>) = (Inr es, w2)" by blast
  then show ?case by (simp add: bindM_def comp_simps uuid_apply)
qed

lemma create_rows_Inr:
  "create_rows clash rs t = Inr t' \<Longrightarrow> t' = t @ rs \<and> (\<forall>r \<in> set rs. \<forall>x \<in> set t. \<not> clash r x) \<and>
    (\<forall>i < length rs. \<forall>j < i. \<not> clash (rs ! i) (rs ! j))"
proof (induction rs arbitrary: t)
  case (Cons r rs)
  then have c: "\<not> list_ex (clash r) t" "create_rows clash rs (t @ [r]) = Inr t'"
    by (auto simp: create_row_def split: if_splits)
  note IH = Cons.IH [OF c(2)]
  have "\<not> clash ((r # rs) ! i) ((r # rs) ! j)" if "i < length (r # rs)" "j < i" for i j
  proof (cases j)
    case 0
    with that obtain k where "i = Suc k" "k < length rs" by (cases i) auto
    with 0 IH nth_mem [of k rs] show ?thesis by auto
  next
    case (Suc j')
    with that obtain k where "i = Suc k" "k < length rs" "j' < k" by (cases i) auto
    with Suc IH show ?thesis by auto
  qed
  moreover have "t' = t @ r # rs" using IH by simp
  moreover have "\<forall>y \<in> set (r # rs). \<forall>x \<in> set t. \<not> clash y x" using IH c(1) by (auto simp: list_ex_iff)
  ultimately show ?case by blast
qed simp

text \<open>The rows of a file that become entries.\<close>

definition entry_rows :: "string \<Rightarrow> string list list" where
  "entry_rows raw = filter isEntry (drop 1 (parseCsv raw))"

lemma seed_Inr:
  assumes "seedSanctionsList E raw w = (Inr u, w')"
  shows "\<exists>ids n. length ids = length (entry_rows raw) \<and>
    w' = w\<lparr>sanctionsList := filter (\<lambda>r. sr_source r \<noteq> SOURCE) (sanctionsList w) @ map2 toEntry ids (entry_rows raw), ticks := n\<rparr>"
  using assms unfolding seedSanctionsList_def Let_def entry_rows_def [symmetric]
proof (elim bindM_InrE)
  fix k es w1 w2
  assume s: "update_in E sanctionsList (\<lambda>t w. w\<lparr>sanctionsList := t\<rparr>)
      (\<lambda>t. (length (filter (\<lambda>r. sr_source r = SOURCE) t), delete_rows (\<lambda>r. sr_source r = SOURCE) t)) w = (Inr k, w1)"
    "withIds E (entry_rows raw) w1 = (Inr es, w2)"
    "insert_into E sanctionsList (\<lambda>t w. w\<lparr>sanctionsList := t\<rparr>) (create_rows sanctions_clash es) w2 = (Inr u, w')"
  have w1: "w1 = w\<lparr>sanctionsList := filter (\<lambda>r. sr_source r \<noteq> SOURCE) (sanctionsList w), ticks := Suc (ticks w)\<rparr>"
    using s(1) by (auto simp: update_in_def delete_rows_def dest!: db_eq_Inr)
  from withIds_Inr [OF s(2)] obtain n ids where es: "length ids = length (entry_rows raw)" "es = map2 toEntry ids (entry_rows raw)"
    and w2: "w2 = w1\<lparr>ticks := n\<rparr>" by blast
  from s(3) obtain t where t: "create_rows sanctions_clash es (sanctionsList w2) = Inr t"
    "w' = (w2\<lparr>ticks := Suc (ticks w2)\<rparr>)\<lparr>sanctionsList := t\<rparr>" by (rule insert_into_Inr) simp_all
  with create_rows_Inr [OF t(1)] es w2 w1 show ?thesis by (intro exI [of _ ids] exI [of _ "Suc n"]) simp
qed

lemma listed_append:
  "listed (es @ fs) name \<longleftrightarrow> listed es name \<or> listed fs name"
  by (auto simp: listed_def)

text \<open>
  The list that screening uses is the file: after a seeding that returns, a name is listed exactly
  when its tokens, two or more, all occur in the name column of one of the file's rows (of those with
  four columns and an identifier), or it is listed by the entries of another source, which the seeding
  leaves alone. What an earlier file listed, and this one does not, is gone.
\<close>

theorem screening_follows_file:
  assumes "seedSanctionsList E raw w = (Inr u, w')"
  shows "listed (sanctionsList w') name \<longleftrightarrow>
    (2 \<le> length (normalizeToTokens name) \<and>
      list_ex (\<lambda>cols. isEntry cols \<and> set (normalizeToTokens name) \<subseteq> set (normalizeToTokens (trim (cols ! 1))))
        (drop 1 (parseCsv raw))) \<or>
    listed (filter (\<lambda>r. sr_source r \<noteq> SOURCE) (sanctionsList w)) name"
proof -
  from seed_Inr [OF assms] obtain ids n where len: "length ids = length (entry_rows raw)"
    and w': "sanctionsList w' = filter (\<lambda>r. sr_source r \<noteq> SOURCE) (sanctionsList w) @ map2 toEntry ids (entry_rows raw)"
    by auto
  have names: "list_ex (\<lambda>e. P (sr_fullName e)) (map2 toEntry ids rows) = list_ex (\<lambda>cols. P (trim (cols ! 1))) rows"
    if "length ids = length rows" for P ids rows
    using that by (induction ids rows rule: list_induct2) (simp_all add: toEntry_def)
  have sel: "list_ex P (entry_rows raw) = list_ex (\<lambda>cols. isEntry cols \<and> P cols) (drop 1 (parseCsv raw))" for P
    by (auto simp: entry_rows_def list_ex_iff)
  show ?thesis
    unfolding w' listed_append
    using names [OF len, of "\<lambda>s. set (normalizeToTokens name) \<subseteq> set (normalizeToTokens s)"]
    by (auto simp: listed_def sel)
qed

text \<open>
  Replacing the list is not one step: when two rows of the file have the same identifier, the
  seeding throws after it has deleted the old entries, and until the next one that succeeds nobody is
  matched against this source.
\<close>

theorem failed_seed_empties_list:
  assumes E: "faultless E" and dup: "\<not> distinct (map (\<lambda>cols. trim (cols ! 0)) (entry_rows raw))"
  shows "\<exists>w'. seedSanctionsList E raw w = (Inl uniqueViolation, w') \<and>
    sanctionsList w' = filter (\<lambda>r. sr_source r \<noteq> SOURCE) (sanctionsList w)"
proof -
  let ?f = "\<lambda>t. (length (filter (\<lambda>r. sr_source r = SOURCE) t), delete_rows (\<lambda>r. sr_source r = SOURCE) t)"
  let ?w1 = "w\<lparr>sanctionsList := filter (\<lambda>r. sr_source r \<noteq> SOURCE) (sanctionsList w), ticks := Suc (ticks w)\<rparr>"
  have del: "\<exists>k. update_in E sanctionsList (\<lambda>t w. w\<lparr>sanctionsList := t\<rparr>) ?f w = (Inr k, ?w1)"
    using E by (simp add: update_in_def comp_simps delete_rows_def)
  obtain es w2 where es: "withIds E (entry_rows raw) ?w1 = (Inr es, w2)" using withIds_returns by blast
  from withIds_Inr [OF es] obtain ids n where ids: "length ids = length (entry_rows raw)" "es = map2 toEntry ids (entry_rows raw)"
    and w2: "w2 = ?w1\<lparr>ticks := n\<rparr>" by blast
  obtain i j where ij: "i < length (entry_rows raw)" "j < i" "trim (entry_rows raw ! i ! 0) = trim (entry_rows raw ! j ! 0)"
    using dup by (auto simp: distinct_conv_nth) (metis nat_neq_iff)
  then have clash: "sanctions_clash (es ! i) (es ! j)" using ids by (simp add: sanctions_clash_def toEntry_def)
  have only: "create_row v c r t = Inl e \<Longrightarrow> e = uniqueViolation" if "v r" for v c and r :: sanctions_row and t e
    using that by (auto simp: create_row_def split: if_splits)
  have err: "create_rows c rs t = Inl e \<Longrightarrow> e = uniqueViolation" for c and rs :: "sanctions_row list" and t e
    by (induction rs arbitrary: t) (auto simp: create_row_def split: if_splits)
  have "create_rows sanctions_clash es (sanctionsList w2) = Inl uniqueViolation"
  proof (cases "create_rows sanctions_clash es (sanctionsList w2)")
    case (Inl e)
    with err show ?thesis by simp
  next
    case (Inr t)
    from create_rows_Inr [OF this] clash ij ids show ?thesis by auto
  qed
  then have "insert_into E sanctionsList (\<lambda>t w. w\<lparr>sanctionsList := t\<rparr>) (create_rows sanctions_clash es) w2 =
      (Inl uniqueViolation, w2\<lparr>ticks := Suc (ticks w2)\<rparr>)"
    using E by (simp add: insert_into_def comp_simps)
  with del es have "seedSanctionsList E raw w = (Inl uniqueViolation, w2\<lparr>ticks := Suc (ticks w2)\<rparr>)"
    unfolding seedSanctionsList_def Let_def entry_rows_def [symmetric] by (auto simp: bindM_def)
  then show ?thesis using w2 by simp
qed

section \<open>Examples\<close>

definition exampleFile :: string where
  "exampleFile = print_csv [(False, [(False, ''id''), (False, ''fullName''), (False, ''program''), (False, ''remarks'')]),
     (True, [(True, ''2676''), (True, ''OKAFOR, Dr. Musa''), (True, ''SDGT''), (True, ''alias Doc'')])]"

theorem csv_roundtrip_witness:
  "parseCsv (print_csv [(True, [(True, ''a,'' @ [CHR 0x22, CHR 0x0A]), (False, ''b'')])]) = [[''a,'' @ [CHR 0x22, CHR 0x0A], ''b'']]"
  by (subst csv_roundtrip) (simp_all add: printable_def plain_field_def)

theorem screening_follows_file_witness:
  "\<exists>w'. seedSanctionsList exampleEnv exampleFile emptyWorld = (Inr (), w') \<and> listed (sanctionsList w') ''Musa Okafor''"
proof -
  have "case seedSanctionsList exampleEnv exampleFile emptyWorld of (Inr u, w') \<Rightarrow> True | _ \<Rightarrow> False" by code_simp
  then obtain w' where run: "seedSanctionsList exampleEnv exampleFile emptyWorld = (Inr (), w')"
    by (auto split: prod.splits sum.splits)
  have "2 \<le> length (normalizeToTokens ''Musa Okafor'') \<and>
      list_ex (\<lambda>cols. isEntry cols \<and> set (normalizeToTokens ''Musa Okafor'') \<subseteq> set (normalizeToTokens (trim (cols ! 1))))
        (drop 1 (parseCsv exampleFile))" by code_simp
  with screening_follows_file [OF run] run show ?thesis by blast
qed

theorem failed_seed_empties_list_witness:
  "\<exists>w'. seedSanctionsList exampleEnv (exampleFile @ drop 28 exampleFile) (exampleKycWorld exampleProfile) =
      (Inl uniqueViolation, w') \<and> sanctionsList w' = filter (\<lambda>r. sr_source r \<noteq> SOURCE) (sanctionsList (exampleKycWorld exampleProfile))"
  by (rule failed_seed_empties_list) (simp, code_simp)

end
