(* ===== verification/Frames.thy ===== *)
theory Frames
  imports ExternalTransfer Auth KycServices
begin

text \<open>
  What a handler leaves alone, once for every predicate of the world: a predicate that does not look
  at the tables a module writes is kept by all handlers of the module. The hierarchy of locales says
  which tables a predicate is free of; the modules' handlers are lemmas in the locale of their tables.
\<close>

section \<open>Every module\<close>

lemma preserves_transaction:
  assumes "tick_free I" and "\<And>w w1. I w \<Longrightarrow> I (rollback w w1)" and "preserves I m"
  shows "preserves I (transaction E lost m)"
  unfolding preserves_def
proof (intro allI impI)
  fix w assume w: "I w"
  obtain r w1 where m: "m w = (r, w1)" by fastforce
  from preserves_step [OF assms(3) w m] have "I w1" .
  with w assms(1,2) m show "I (snd (transaction E lost m w))"
    by (cases r) (auto simp: transaction_def Let_def tick_free_def split: fault.split)
qed

lemma preserves_case_acquire:
  "preserves I h \<Longrightarrow> (\<And>i. preserves I (f i)) \<Longrightarrow> preserves I g \<Longrightarrow>
    preserves I (case a of ACQUIRED \<Rightarrow> h | COMPLETED i \<Rightarrow> f i | IN_PROGRESS \<Rightarrow> g)"
  by (cases a) simp_all

text \<open>
  Every module draws values, publishes events, claims keys, stores transfers or posts to the ledger; a
  predicate is framed when these do not matter to it.
\<close>

locale frame =
  fixes I :: "world \<Rightarrow> bool"
  assumes free_ticks [simp]: "I (w\<lparr>ticks := n\<rparr>) = I w"
    and free_published [simp]: "I (w\<lparr>published := e\<rparr>) = I w"
    and free_keys [simp]: "I (w\<lparr>idempotencyKeys := k\<rparr>) = I w"
    and free_transfers [simp]: "I (w\<lparr>transfers := t\<rparr>) = I w"
    and keeps_posting: "preserves I (ledger_post E posting)"
begin

lemma keeps_ticks [simp]: "tick_free I"
  by (simp add: tick_free_def)

lemma keeps_reading: "reads m \<Longrightarrow> preserves I m"
  by (rule reads_preserves) simp_all

lemma keeps_rollback [simp]: "I w \<Longrightarrow> I (rollback w w1)"
  by (simp add: rollback_def)

lemma keeps_basic:
  "preserves I (publishAll evs)" "preserves I (transfer_save E x)" "preserves I (transfer_create E r)"
  unfolding publishAll_def transfer_create_def
  by (intro preserves_transfer_save preserves_modifyM preserves_rules preserves_insert_into; simp)+

lemma keeps_acquire: "preserves I (tryAcquire E u s k)"
proof -
  have create: "preserves I (createKey E u s k)"
    unfolding createKey_def by (intro preserves_rules preserves_insert_into) (simp_all add: putKeys_def)
  have "preserves I (tryAcquireN n E u s k)" for n
    by (induction n) (auto intro!: preserves_rules create preserves_update_in simp: putKeys_def)
  then show ?thesis by (simp add: tryAcquire_def)
qed

lemma keeps_keys: "preserves I (markCompleted E u s k i)" "preserves I (release E u s k)"
  unfolding markCompleted_def release_def by (intro preserves_rules preserves_update_in; simp add: putKeys_def)+

lemma keeps_idempotent_run:
  assumes "preserves I m" and "\<And>i. preserves I (again i)"
  shows "preserves I (idempotent_run E u s key m again)"
  unfolding idempotent_run_def guard_run_def
  by (intro preserves_rules preserves_case_acquire keeps_acquire keeps_keys assms)

lemma keeps_rehydrate: "preserves I (rehydrateTransfer E i)"
  unfolding rehydrateTransfer_def transfer_findById_def by (intro preserves_rules) simp_all

lemma keeps_queries:
  "preserves I (GetUserProfile_execute E i)" "preserves I (GetUserById_execute E i)"
  "preserves I (ListMyAccounts_execute E i)" "preserves I (GetAccountById_execute E i u adm)"
  "preserves I (ListMyTransfers_execute E i)" "preserves I (GetTransferByReference_execute E ref u adm)"
  "preserves I (GetMyKycStatus_execute E i)" "preserves I (GetKycAuditHistory_execute E i)"
  "preserves I (GetFlaggedSanctionsProfiles_execute E)"
  unfolding GetUserProfile_execute_def GetUserById_execute_def ListMyAccounts_execute_def GetAccountById_execute_def
    ListMyTransfers_execute_def GetTransferByReference_execute_def GetMyKycStatus_execute_def GetKycAuditHistory_execute_def
    GetFlaggedSanctionsProfiles_execute_def account_findAllByUserId_def account_findById_def loadAccount_def
    transfer_findAllByUserId_def transfer_findByReference_def kycProfile_findByUserId_def audit_findByUserId_def
    findAllCurrentlyFlaggedForSanctions_def user_findById_def
  by (intro preserves_rules; simp)+

end

section \<open>Compliance\<close>

locale kyc_frame = frame +
  assumes free_profiles [simp]: "I (w\<lparr>kycProfiles := p\<rparr>) = I w"
    and free_audit [simp]: "I (w\<lparr>kycAuditLog := g\<rparr>) = I w"
begin

lemma keeps_kyc_saves: "preserves I (kycProfile_save E p)" "preserves I (audit_save E g)"
  unfolding kycProfile_save_def audit_save_def
  by (intro preserves_saveVersioned preserves_rules preserves_insert_into; simp)+

lemma keeps_recordDomainEvents: "preserves I (recordDomainEvents E es)"
proof (induction es)
  case (Cons e es)
  then show ?case
    by (cases "body e")
      (auto simp: recordEvent_def recordVerificationAttempt_def recordTierChange_def Let_def
        intro!: preserves_rules keeps_kyc_saves)
qed (simp add: preserves_rules)

lemma keeps_screenAndFlag: "preserves I (screenAndFlag E p name)"
  unfolding screenAndFlag_def kyc_pullDomainEvents_def Let_def prod.case
  by (intro preserves_rules keeps_kyc_saves keeps_basic keeps_reading [OF reads_kyc(4)]) simp_all

lemma keeps_storeAndAudit: "preserves I (storeAndAudit E p)"
  unfolding storeAndAudit_def kyc_pullDomainEvents_def Let_def prod.case
  by (intro preserves_rules keeps_kyc_saves keeps_basic keeps_recordDomainEvents)

lemma keeps_verificationMismatch: "preserves I (verificationMismatch E type p :: 'z action)"
  unfolding verificationMismatch_def by (intro preserves_rules keeps_storeAndAudit) simp_all

lemma keeps_finishOverride: "preserves I (finishOverride E type staff i reason u result p)"
  unfolding finishOverride_def kyc_pullDomainEvents_def Let_def prod.case
  by (intro preserves_rules keeps_kyc_saves keeps_basic keeps_recordDomainEvents keeps_screenAndFlag) simp_all

lemmas keeps_kyc_reads = reads_kyc(1-3) [THEN keeps_reading]

lemma keeps_compliance:
  "preserves I (SubmitBvnVerification_execute E H K i b)" "preserves I (SubmitNinVerification_execute E H K i n)"
  "preserves I (ManuallyVerifyBvn_execute E H K staff i b reason)"
  "preserves I (ManuallyVerifyNin_execute E H K staff i n reason)"
  "preserves I (ClearSanctionsFlag_execute E staff i reason)"
  unfolding SubmitBvnVerification_execute_def SubmitNinVerification_execute_def ManuallyVerifyBvn_execute_def
    ManuallyVerifyNin_execute_def ClearSanctionsFlag_execute_def kycProfile_findByUserId_def kyc_pullDomainEvents_def
    Let_def prod.case
  by (intro preserves_rules keeps_kyc_reads keeps_screenAndFlag keeps_storeAndAudit keeps_verificationMismatch
      keeps_finishOverride keeps_kyc_saves keeps_basic; simp)+

end

section \<open>Accounts and transfers\<close>

locale account_frame = frame +
  assumes free_accounts [simp]: "I (w\<lparr>accounts := a\<rparr>) = I w"
begin

lemma keeps_account_save: "preserves I (account_save E a)"
  unfolding account_save_def by (intro preserves_saveVersioned) simp_all

lemma keeps_accounts_module:
  "preserves I (OpenAccount_execute E bankCode u type c)"
  "preserves I (CreditAccount_execute E i amount c reference)"
  "preserves I (DebitAccount_execute E i amount c reference)"
  "preserves I (FreezeAccount_execute E i reason)"
  "preserves I (UnfreezeAccount_execute E i)"
  "preserves I (CloseAccount_execute E i)"
proof -
  have save: "preserves I (saveAndRespond E a)" for a
    unfolding saveAndRespond_def acc_pullDomainEvents_def Let_def prod.case
    by (intro preserves_rules keeps_account_save keeps_basic)
  show "preserves I (OpenAccount_execute E bankCode u type c)"
    unfolding OpenAccount_execute_def Let_def
    by (intro preserves_rules save keeps_reading [OF reads_nuban]) simp_all
  show "preserves I (CreditAccount_execute E i amount c reference)"
    "preserves I (DebitAccount_execute E i amount c reference)"
    "preserves I (FreezeAccount_execute E i reason)"
    "preserves I (UnfreezeAccount_execute E i)"
    "preserves I (CloseAccount_execute E i)"
    unfolding CreditAccount_execute_def DebitAccount_execute_def FreezeAccount_execute_def UnfreezeAccount_execute_def
      CloseAccount_execute_def
    by (intro preserves_rules save keeps_reading [OF reads_loadAccount] keeps_reading [OF reads_assertWithinLimit]; simp)+
qed

lemma keeps_internal_execute: "preserves I (internal_execute E u src dst a f n)"
proof -
  have move: "preserves I (moveMoney E ref u src dst a f n)" for ref a f n
    unfolding moveMoney_def saveAccountInTransaction_def Let_def
    by (intro preserves_rules keeps_posting preserves_update_in preserves_db keeps_reading [OF reads_assertWithinLimit])
      simp_all
  have callback: "preserves I (internalCallback E x u src dst a f n)" for x a f n
    unfolding internalCallback_def by (intro preserves_rules move keeps_basic) simp_all
  show ?thesis
    unfolding internal_execute_def internalFailed_def initiateInternal_def TransferReference_generate_def Let_def
    by (intro preserves_rules preserves_transaction callback keeps_basic preserves_draw) simp_all
qed

lemma keeps_internal: "preserves I (InitiateInternalTransfer_execute E u src dst amount narration key)"
proof -
  have "preserves I (initiateInternal_doExecute E u src dst amount narration)"
    unfolding initiateInternal_doExecute_def
    by (intro preserves_rules keeps_internal_execute keeps_basic keeps_reading [OF reads_assertWithinLimits]
        keeps_reading [OF reads_account_findById])
  then show ?thesis
    unfolding InitiateInternalTransfer_execute_def by (intro keeps_idempotent_run keeps_rehydrate)
qed

lemmas keeps_transfer_reads = reads_account_findById [THEN keeps_reading] reads_externalRequest [THEN keeps_reading]
  reads_initiatePayout [THEN keeps_reading] reads_transfer_find(2) [THEN keeps_reading]
  reads_initiateExternal [THEN keeps_reading]

lemma keeps_external: "preserves I (InitiateExternalTransfer_execute E client cb u i bank acc name amount narration key)"
proof -
  have "preserves I (initiateExternal_doExecute E client cb u i bank acc name amount narration)"
    unfolding initiateExternal_doExecute_def holdFunds_def attemptPayout_def payoutFailed_def compensate_def
      refund_def Let_def
    by (intro preserves_rules keeps_basic keeps_account_save keeps_posting keeps_transfer_reads) simp_all
  then show ?thesis
    unfolding InitiateExternalTransfer_execute_def by (intro keeps_idempotent_run keeps_rehydrate)
qed

lemma keeps_webhook: "preserves I (FlutterwaveWebhook_handle E secret hash payload)"
  unfolding FlutterwaveWebhook_handle_def ConfirmExternalTransfer_execute_def settleConfirmed_def reverseConfirmed_def
    refundConfirmed_def storeReversed_def refund_def Let_def
  by (intro preserves_rules keeps_basic keeps_account_save keeps_posting keeps_transfer_reads) simp_all

end

section \<open>Identity\<close>

locale identity_frame = frame +
  assumes free_users [simp]: "I (w\<lparr>users := u\<rparr>) = I w"
    and free_tokens [simp]: "I (w\<lparr>refreshTokens := k\<rparr>) = I w"
begin

lemma keeps_identity_writes:
  "preserves I (user_save E u)" "preserves I (token_save E k)" "preserves I (revoke_where E cond)"
  unfolding user_save_def token_save_def revoke_where_def
  by (intro preserves_rules preserves_insert_into preserves_update_in; simp)+

lemmas keeps_identity_reads = reads_user_find [THEN keeps_reading] reads_auth [THEN keeps_reading]
  reads_now_uuid [THEN keeps_reading] reads_issue [THEN keeps_reading]

lemma keeps_sessions:
  "preserves I (RefreshAccessToken_execute E S tok ip ua)" "preserves I (Logout_execute E S tok)"
  "preserves I (Login_execute E S email password ip ua)" "preserves I (ChangePassword_execute E S i old new)"
  unfolding RefreshAccessToken_execute_def Logout_execute_def Login_execute_def ChangePassword_execute_def
    revokeFamily_def rotate_def loginFailed_def loginSucceeded_def revokeAllForUser_def Let_def
  by (intro preserves_rules keeps_identity_writes keeps_identity_reads keeps_basic; simp)+

text \<open>A registration opens an account, which is for the predicate to allow.\<close>

lemma keeps_registration:
  assumes "\<And>u. preserves I (OpenAccount_execute E bankCode u AT_WALLET NGN)"
  shows "preserves I (RegisterUser_execute E S bankCode email phone password first name)"
  unfolding RegisterUser_execute_def Let_def
  by (intro preserves_rules keeps_identity_writes keeps_identity_reads keeps_basic assms) simp_all

end

end
