(* ===== verification/Gateway.thy ===== *)
theory Gateway
  imports Frames
begin

text \<open>
  The HTTP surface: the guards in front of the controllers, the controllers of identity, accounts,
  transfers and compliance, the API they make up with its guards, and the exception filter that
  turns what is thrown into a response.
\<close>

section \<open>The services behind the controllers\<close>

text \<open>What dependency injection and configuration give the handlers.\<close>

record services =
  sv_env :: env
  sv_security :: security
  sv_bankCode :: string
  sv_payout :: flutterwaveClient
  sv_callbackUrl :: string
  sv_webhookSecretHash :: "string option"
  sv_verification :: verificationHttp
  sv_hasher :: hasher

record httpRequest =
  rq_bearer :: "string option"
  rq_ip :: "string option"
  rq_userAgent :: "string option"
  rq_idempotencyKey :: "string option"
  rq_verifHash :: "string option"

section \<open>Guards\<close>

text \<open>
  The guard of passport is a parameter: it gives the payload the strategy returned for a token that is
  present, genuine, of the configured issuer and not expired, or nothing.
\<close>

definition JwtStrategy_validate :: "accessTokenPayload \<Rightarrow> accessTokenPayload" where
  "JwtStrategy_validate payload = payload"

definition JwtAuthGuard_canActivate ::
  "(string option \<Rightarrow> accessTokenPayload option) \<Rightarrow> bool \<Rightarrow> string option \<Rightarrow> exn + accessTokenPayload option" where
  "JwtAuthGuard_canActivate passport isPublic bearer =
     (if isPublic then Inr None
      else case passport bearer of
             None \<Rightarrow> Inl (UnauthorizedException ''Unauthorized'')
           | Some payload \<Rightarrow> Inr (Some (JwtStrategy_validate payload)))"

definition RolesGuard_canActivate :: "userRole list \<Rightarrow> accessTokenPayload option \<Rightarrow> exn + bool" where
  "RolesGuard_canActivate requiredRoles caller =
     (if requiredRoles = [] then Inr True
      else
        (let callerRole = map_option payloadRole caller;
             refused = Inl (ForbiddenException (''This action requires one of the following roles: '' @
                              join '', '' (map userRole_str requiredRoles)))
         in case callerRole of
              None \<Rightarrow> refused
            | Some r \<Rightarrow> if r \<notin> set requiredRoles then refused else Inr True))"

section \<open>Authentication\<close>

definition AuthController_register ::
  "services \<Rightarrow> string \<Rightarrow> string \<Rightarrow> string \<Rightarrow> string \<Rightarrow> string \<Rightarrow> userResponseDto action" where
  "AuthController_register V email phoneNumber password firstName lastName =
     RegisterUser_execute (sv_env V) (sv_security V) (sv_bankCode V) email phoneNumber password firstName lastName"

definition AuthController_login :: "services \<Rightarrow> httpRequest \<Rightarrow> string \<Rightarrow> string \<Rightarrow> authResponseDto action" where
  "AuthController_login V req email password =
     Login_execute (sv_env V) (sv_security V) email password (rq_ip req) (rq_userAgent req)"

definition AuthController_refresh :: "services \<Rightarrow> httpRequest \<Rightarrow> string \<Rightarrow> authResponseDto action" where
  "AuthController_refresh V req refreshToken =
     RefreshAccessToken_execute (sv_env V) (sv_security V) refreshToken (rq_ip req) (rq_userAgent req)"

definition AuthController_logout :: "services \<Rightarrow> string \<Rightarrow> unit action" where
  "AuthController_logout V refreshToken = Logout_execute (sv_env V) (sv_security V) refreshToken"

definition AuthController_changePassword :: "services \<Rightarrow> accessTokenPayload \<Rightarrow> string \<Rightarrow> string \<Rightarrow> unit action" where
  "AuthController_changePassword V user currentPassword newPassword =
     ChangePassword_execute (sv_env V) (sv_security V) (sub user) currentPassword newPassword"

section \<open>Accounts\<close>

definition ACCOUNT_FREEZE_ROLES :: "userRole list" where
  "ACCOUNT_FREEZE_ROLES = [UR_ADMIN, UR_SUPER_ADMIN, UR_COMPLIANCE_OFFICER]"

definition orNGN :: "currency option \<Rightarrow> currency" where
  "orNGN c = (case c of None \<Rightarrow> NGN | Some d \<Rightarrow> d)"

definition AccountsController_listMine :: "services \<Rightarrow> accessTokenPayload \<Rightarrow> accountResponse list action" where
  "AccountsController_listMine V user = ListMyAccounts_execute (sv_env V) (sub user)"

definition AccountsController_credit ::
  "services \<Rightarrow> string \<Rightarrow> string \<Rightarrow> currency option \<Rightarrow> string \<Rightarrow> accountResponse action" where
  "AccountsController_credit V accountId amount currency reference =
     CreditAccount_execute (sv_env V) accountId amount (orNGN currency) reference"

definition AccountsController_debit ::
  "services \<Rightarrow> string \<Rightarrow> string \<Rightarrow> currency option \<Rightarrow> string \<Rightarrow> accountResponse action" where
  "AccountsController_debit V accountId amount currency reference =
     DebitAccount_execute (sv_env V) accountId amount (orNGN currency) reference"

definition AccountsController_freeze :: "services \<Rightarrow> string \<Rightarrow> string \<Rightarrow> accountResponse action" where
  "AccountsController_freeze V accountId reason = FreezeAccount_execute (sv_env V) accountId reason"

definition AccountsController_unfreeze :: "services \<Rightarrow> string \<Rightarrow> accountResponse action" where
  "AccountsController_unfreeze V accountId = UnfreezeAccount_execute (sv_env V) accountId"

section \<open>Transfers\<close>

definition TransfersController_initiateInternal ::
  "services \<Rightarrow> httpRequest \<Rightarrow> accessTokenPayload \<Rightarrow> string \<Rightarrow> string \<Rightarrow> string \<Rightarrow> string \<Rightarrow> transferResponseDto action" where
  "TransfersController_initiateInternal V req user sourceAccountId destinationAccountId amount narration =
     InitiateInternalTransfer_execute (sv_env V) (sub user) sourceAccountId destinationAccountId amount narration
       (rq_idempotencyKey req)"

definition TransfersController_initiateExternal ::
  "services \<Rightarrow> httpRequest \<Rightarrow> accessTokenPayload \<Rightarrow> string \<Rightarrow> string \<Rightarrow> string \<Rightarrow> string option \<Rightarrow> string \<Rightarrow> string \<Rightarrow>
   transferResponseDto action" where
  "TransfersController_initiateExternal V req user sourceAccountId bankCode recipientAccountNumber
     recipientAccountName amount narration =
     InitiateExternalTransfer_execute (sv_env V) (sv_payout V) (sv_callbackUrl V) (sub user) sourceAccountId bankCode
       recipientAccountNumber recipientAccountName amount narration (rq_idempotencyKey req)"

definition TransfersController_listMine :: "services \<Rightarrow> accessTokenPayload \<Rightarrow> transferResponseDto list action" where
  "TransfersController_listMine V user = ListMyTransfers_execute (sv_env V) (sub user)"

definition TransfersController_getByReference ::
  "services \<Rightarrow> accessTokenPayload \<Rightarrow> string \<Rightarrow> transferResponseDto action" where
  "TransfersController_getByReference V user reference =
     GetTransferByReference_execute (sv_env V) reference (sub user) (payloadRole user \<in> set ADMIN_ROLES)"

section \<open>Compliance\<close>

definition COMPLIANCE_ROLES :: "userRole list" where
  "COMPLIANCE_ROLES = [UR_COMPLIANCE_OFFICER, UR_ADMIN, UR_SUPER_ADMIN]"

definition KycController_getMyStatus :: "services \<Rightarrow> accessTokenPayload \<Rightarrow> kycStatusResponse action" where
  "KycController_getMyStatus V user = GetMyKycStatus_execute (sv_env V) (sub user)"

text \<open>The two queries run together; they only read, so their order does not matter to the answer.\<close>

definition KycController_getStaffLookup ::
  "services \<Rightarrow> string \<Rightarrow> (kycStatusResponse \<times> auditEntryResponse list) action" where
  "KycController_getStaffLookup V userId =
     bindM (GetMyKycStatus_execute (sv_env V) userId) (\<lambda>status.
     bindM (GetKycAuditHistory_execute (sv_env V) userId) (\<lambda>history.
     returnM (status, history)))"

definition KycController_getFlaggedSanctionsProfiles :: "services \<Rightarrow> flaggedProfileResponse list action" where
  "KycController_getFlaggedSanctionsProfiles V = GetFlaggedSanctionsProfiles_execute (sv_env V)"

definition KycController_clearSanctionsFlag ::
  "services \<Rightarrow> accessTokenPayload \<Rightarrow> string \<Rightarrow> string \<Rightarrow> kycStatusResponse action" where
  "KycController_clearSanctionsFlag V staff userId reason = ClearSanctionsFlag_execute (sv_env V) (sub staff) userId reason"

definition KycController_manuallyVerifyBvn ::
  "services \<Rightarrow> accessTokenPayload \<Rightarrow> string \<Rightarrow> string \<Rightarrow> string \<Rightarrow> kycStatusResponse action" where
  "KycController_manuallyVerifyBvn V staff userId bvnText reason =
     ManuallyVerifyBvn_execute (sv_env V) (sv_verification V) (sv_hasher V) (sub staff) userId bvnText reason"

definition KycController_manuallyVerifyNin ::
  "services \<Rightarrow> accessTokenPayload \<Rightarrow> string \<Rightarrow> string \<Rightarrow> string \<Rightarrow> kycStatusResponse action" where
  "KycController_manuallyVerifyNin V staff userId ninText reason =
     ManuallyVerifyNin_execute (sv_env V) (sv_verification V) (sv_hasher V) (sub staff) userId ninText reason"

definition KycController_freezeAccount :: "services \<Rightarrow> string \<Rightarrow> string \<Rightarrow> accountResponse action" where
  "KycController_freezeAccount V accountId reason = FreezeAccount_execute (sv_env V) accountId reason"

definition KycController_unfreezeAccount :: "services \<Rightarrow> string \<Rightarrow> accountResponse action" where
  "KycController_unfreezeAccount V accountId = UnfreezeAccount_execute (sv_env V) accountId"

definition KycController_verifyBvn :: "services \<Rightarrow> accessTokenPayload \<Rightarrow> string \<Rightarrow> kycStatusResponse action" where
  "KycController_verifyBvn V user bvnText =
     SubmitBvnVerification_execute (sv_env V) (sv_verification V) (sv_hasher V) (sub user) bvnText"

definition KycController_verifyNin :: "services \<Rightarrow> accessTokenPayload \<Rightarrow> string \<Rightarrow> kycStatusResponse action" where
  "KycController_verifyNin V user ninText =
     SubmitNinVerification_execute (sv_env V) (sv_verification V) (sv_hasher V) (sub user) ninText"

section \<open>The API\<close>

text \<open>The routes with the parameters they take from path and body.\<close>

datatype route =
    PostRegister string string string string string
  | PostLogin string string
  | PostRefresh string
  | PostLogout string
  | PostChangePassword string string
  | GetMyProfile
  | GetUser string
  | PostAccount accountType "currency option"
  | GetMyAccounts
  | GetAccount string
  | PostCredit string string "currency option" string
  | PostDebit string string "currency option" string
  | PostFreeze string string
  | PostUnfreeze string
  | PostClose string
  | PostInternal string string string string
  | PostExternal string string string "string option" string string
  | GetMyTransfers
  | GetTransfer string
  | GetMyKyc
  | GetStaffLookup string
  | GetFlagged
  | PostClearFlag string string
  | PostStaffBvn string string string
  | PostStaffNin string string string
  | PostStaffFreeze string string
  | PostStaffUnfreeze string
  | PostVerifyBvn string
  | PostVerifyNin string
  | PostWebhook webhookPayload

text \<open>\<open>@Public()\<close> and \<open>@Roles(...)\<close> of the routes.\<close>

fun is_public :: "route \<Rightarrow> bool" where
  "is_public (PostRegister email phone password first name) = True"
| "is_public (PostLogin email password) = True"
| "is_public (PostRefresh tok) = True"
| "is_public (PostWebhook payload) = True"
| "is_public r = False"

fun required_roles :: "route \<Rightarrow> userRole list" where
  "required_roles (PostCredit i amount c reference) = ADMIN_ROLES"
| "required_roles (PostDebit i amount c reference) = ADMIN_ROLES"
| "required_roles (PostFreeze i reason) = ACCOUNT_FREEZE_ROLES"
| "required_roles (PostUnfreeze i) = ACCOUNT_FREEZE_ROLES"
| "required_roles (GetStaffLookup u) = COMPLIANCE_ROLES"
| "required_roles GetFlagged = COMPLIANCE_ROLES"
| "required_roles (PostClearFlag u reason) = COMPLIANCE_ROLES"
| "required_roles (PostStaffBvn u b reason) = COMPLIANCE_ROLES"
| "required_roles (PostStaffNin u n reason) = COMPLIANCE_ROLES"
| "required_roles (PostStaffFreeze i reason) = COMPLIANCE_ROLES"
| "required_roles (PostStaffUnfreeze i) = COMPLIANCE_ROLES"
| "required_roles r = []"

text \<open>The answer's body is left out.\<close>

definition served :: "'a action \<Rightarrow> unit action" where
  "served m = bindM m (\<lambda>_. returnM ())"

text \<open>The controller method of a route that has a caller.\<close>

fun serve_caller :: "services \<Rightarrow> httpRequest \<Rightarrow> accessTokenPayload \<Rightarrow> route \<Rightarrow> unit action" where
  "serve_caller V req user (PostLogout tok) = AuthController_logout V tok"
| "serve_caller V req user (PostChangePassword old new) = AuthController_changePassword V user old new"
| "serve_caller V req user GetMyProfile = served (UsersController_getMyProfile (sv_env V) user)"
| "serve_caller V req user (GetUser u) = served (UsersController_getUserById (sv_env V) (Some user) u)"
| "serve_caller V req user (PostAccount type c) = served (AccountsController_open (sv_env V) (sv_bankCode V) user type c)"
| "serve_caller V req user GetMyAccounts = served (AccountsController_listMine V user)"
| "serve_caller V req user (GetAccount i) = served (AccountsController_getById (sv_env V) user i)"
| "serve_caller V req user (PostCredit i amount c reference) = served (AccountsController_credit V i amount c reference)"
| "serve_caller V req user (PostDebit i amount c reference) = served (AccountsController_debit V i amount c reference)"
| "serve_caller V req user (PostFreeze i reason) = served (AccountsController_freeze V i reason)"
| "serve_caller V req user (PostUnfreeze i) = served (AccountsController_unfreeze V i)"
| "serve_caller V req user (PostClose i) = served (AccountsController_close (sv_env V) user i)"
| "serve_caller V req user (PostInternal src dst amount narration) =
     served (TransfersController_initiateInternal V req user src dst amount narration)"
| "serve_caller V req user (PostExternal src bank acc name amount narration) =
     served (TransfersController_initiateExternal V req user src bank acc name amount narration)"
| "serve_caller V req user GetMyTransfers = served (TransfersController_listMine V user)"
| "serve_caller V req user (GetTransfer ref) = served (TransfersController_getByReference V user ref)"
| "serve_caller V req user GetMyKyc = served (KycController_getMyStatus V user)"
| "serve_caller V req user (GetStaffLookup u) = served (KycController_getStaffLookup V u)"
| "serve_caller V req user GetFlagged = served (KycController_getFlaggedSanctionsProfiles V)"
| "serve_caller V req user (PostClearFlag u reason) = served (KycController_clearSanctionsFlag V user u reason)"
| "serve_caller V req user (PostStaffBvn u b reason) = served (KycController_manuallyVerifyBvn V user u b reason)"
| "serve_caller V req user (PostStaffNin u n reason) = served (KycController_manuallyVerifyNin V user u n reason)"
| "serve_caller V req user (PostStaffFreeze i reason) = served (KycController_freezeAccount V i reason)"
| "serve_caller V req user (PostStaffUnfreeze i) = served (KycController_unfreezeAccount V i)"
| "serve_caller V req user (PostVerifyBvn b) = served (KycController_verifyBvn V user b)"
| "serve_caller V req user (PostVerifyNin n) = served (KycController_verifyNin V user n)"
| "serve_caller V req user r = returnM ()"

fun serve_public :: "services \<Rightarrow> httpRequest \<Rightarrow> route \<Rightarrow> unit action" where
  "serve_public V req (PostRegister email phone password first name) =
     served (AuthController_register V email phone password first name)"
| "serve_public V req (PostLogin email password) = served (AuthController_login V req email password)"
| "serve_public V req (PostRefresh tok) = served (AuthController_refresh V req tok)"
| "serve_public V req (PostWebhook payload) =
     FlutterwaveWebhook_handle (sv_env V) (sv_webhookSecretHash V) (rq_verifHash req) payload"
| "serve_public V req r = returnM ()"

text \<open>The guards run in this order before the method; each of them can end the request.\<close>

definition serve ::
  "services \<Rightarrow> (string option \<Rightarrow> accessTokenPayload option) \<Rightarrow> httpRequest \<Rightarrow> route \<Rightarrow> unit action" where
  "serve V passport req r =
     bindM (liftE (JwtAuthGuard_canActivate passport (is_public r) (rq_bearer req))) (\<lambda>caller.
     bindM (liftE (RolesGuard_canActivate (required_roles r) caller)) (\<lambda>_.
     case caller of None \<Rightarrow> serve_public V req r | Some user \<Rightarrow> serve_caller V req user r))"

section \<open>The exception filter\<close>

text \<open>
  The message is the exception's own text, the answer Nest has built for its exceptions, or a fixed
  text. The names of Nest's status codes are a parameter. Path and time of the request are left out.
\<close>

datatype envelopeMessage = MessageText string | NestResponse exn

record errorEnvelope =
  en_statusCode :: nat
  en_error :: string
  en_message :: envelopeMessage

fun HttpExceptionFilter_catch :: "(nat \<Rightarrow> string option) \<Rightarrow> exn \<Rightarrow> errorEnvelope" where
  "HttpExceptionFilter_catch names (DomainExn name code message status) =
     \<lparr>en_statusCode = status, en_error = code, en_message = MessageText message\<rparr>"
| "HttpExceptionFilter_catch names (HttpExn status message) =
     \<lparr>en_statusCode = status, en_error = (case names status of Some n \<Rightarrow> n | None \<Rightarrow> ''ERROR''),
      en_message = NestResponse (HttpExn status message)\<rparr>"
| "HttpExceptionFilter_catch names e =
     \<lparr>en_statusCode = 500, en_error = (case names 500 of Some n \<Rightarrow> n | None \<Rightarrow> ''ERROR''),
      en_message = MessageText ''Internal server error''\<rparr>"


section \<open>Requests that are refused\<close>

text \<open>Whether guards let a request through.\<close>

definition admitted :: "(string option \<Rightarrow> accessTokenPayload option) \<Rightarrow> httpRequest \<Rightarrow> route \<Rightarrow> bool" where
  "admitted passport req r \<longleftrightarrow>
     is_public r \<or> (\<exists>user. passport (rq_bearer req) = Some user \<and>
       (required_roles r = [] \<or> payloadRole user \<in> set (required_roles r)))"

lemma public_unrestricted: "is_public r \<Longrightarrow> required_roles r = []"
  by (cases r) simp_all

text \<open>
  C16. A request without a valid token to a route that is not public, or with the token of somebody
  whose role the route does not list, does nothing at all: it is answered 401 or 403 and the state is
  the one before, so no staff operation runs for a customer.
\<close>

theorem refused_request_does_nothing:
  assumes "\<not> admitted passport req r"
  shows "\<exists>e. serve V passport req r w = (Inl e, w) \<and>
    en_statusCode (HttpExceptionFilter_catch names e) = (if passport (rq_bearer req) = None then 401 else 403)"
proof (cases "passport (rq_bearer req)")
  case None
  with assms show ?thesis
    by (simp add: admitted_def serve_def JwtAuthGuard_canActivate_def bindM_def comp_simps UnauthorizedException_def)
next
  case (Some user)
  with assms show ?thesis
    by (simp add: admitted_def serve_def JwtAuthGuard_canActivate_def RolesGuard_canActivate_def Let_def bindM_def comp_simps
        ForbiddenException_def JwtStrategy_validate_def)
qed

section \<open>What leaves the users alone\<close>

text \<open>Predicates of the identity tables only.\<close>

definition on_identity :: "(user_row list \<Rightarrow> refresh_token_row list \<Rightarrow> bool) \<Rightarrow> world \<Rightarrow> bool" where
  "on_identity P w \<longleftrightarrow> P (users w) (refreshTokens w)"

lemma on_identity_frame [simp]:
  "on_identity P (w\<lparr>accounts := a\<rparr>) = on_identity P w" "on_identity P (w\<lparr>transfers := t\<rparr>) = on_identity P w"
  "on_identity P (w\<lparr>ledgerEntries := l\<rparr>) = on_identity P w" "on_identity P (w\<lparr>idempotencyKeys := k\<rparr>) = on_identity P w"
  "on_identity P (w\<lparr>kycProfiles := p\<rparr>) = on_identity P w" "on_identity P (w\<lparr>kycAuditLog := g\<rparr>) = on_identity P w"
  "on_identity P (w\<lparr>published := e\<rparr>) = on_identity P w" "on_identity P (w\<lparr>ticks := n\<rparr>) = on_identity P w"
  by (simp_all add: on_identity_def)

lemma on_identity_tick_free [simp]: "tick_free (on_identity P)"
  by (simp add: tick_free_def)

text \<open>No other module looks at these tables.\<close>

interpretation id_kyc: kyc_frame "on_identity P" for P
  by unfold_locales (simp, simp, simp, simp, (rule preserves_ledger_post; simp), simp, simp)

interpretation id_acc: account_frame "on_identity P" for P
  by unfold_locales simp

lemma served_preserves: "preserves I m \<Longrightarrow> preserves I (served m)"
  unfolding served_def by (intro preserves_rules)

text \<open>Only these routes write the identity tables.\<close>

fun writes_identity :: "route \<Rightarrow> bool" where
  "writes_identity (PostRegister email phone password first name) = True"
| "writes_identity (PostLogin email password) = True"
| "writes_identity (PostRefresh tok) = True"
| "writes_identity (PostLogout tok) = True"
| "writes_identity (PostChangePassword old new) = True"
| "writes_identity r = False"

lemmas controller_defs = UsersController_getMyProfile_def UsersController_getUserById_def AccountsController_open_def
  AccountsController_listMine_def AccountsController_getById_def AccountsController_credit_def
  AccountsController_debit_def AccountsController_freeze_def AccountsController_unfreeze_def
  AccountsController_close_def TransfersController_initiateInternal_def TransfersController_initiateExternal_def
  TransfersController_listMine_def TransfersController_getByReference_def KycController_getMyStatus_def
  KycController_getStaffLookup_def KycController_getFlaggedSanctionsProfiles_def KycController_clearSanctionsFlag_def
  KycController_manuallyVerifyBvn_def KycController_manuallyVerifyNin_def KycController_freezeAccount_def
  KycController_unfreezeAccount_def KycController_verifyBvn_def KycController_verifyNin_def AuthController_register_def
  AuthController_login_def AuthController_refresh_def AuthController_logout_def AuthController_changePassword_def

lemma serve_caller_on_identity:
  "\<not> writes_identity r \<Longrightarrow> preserves (on_identity P) (serve_caller V req user r)"
  by (cases r)
    (auto intro!: served_preserves preserves_rules id_kyc.keeps_queries id_kyc.keeps_compliance id_acc.keeps_internal
      id_acc.keeps_external id_acc.keeps_accounts_module simp: controller_defs)

section \<open>Nobody becomes staff\<close>

text \<open>A stored role is the customer's, or the one the user had before.\<close>

definition role_fine :: "user_row list \<Rightarrow> string \<Rightarrow> userRole \<Rightarrow> bool" where
  "role_fine before i role \<longleftrightarrow> role = UR_CUSTOMER \<or> (\<exists>r \<in> set before. ur_id r = i \<and> ur_role r = role)"

definition roles_fine :: "user_row list \<Rightarrow> world \<Rightarrow> bool" where
  "roles_fine before w \<longleftrightarrow> (\<forall>r \<in> set (users w). role_fine before (ur_id r) (ur_role r))"

lemma roles_fine_on_identity: "roles_fine before = on_identity (\<lambda>us ts. \<forall>r \<in> set us. role_fine before (ur_id r) (ur_role r))"
  by (rule ext) (simp add: roles_fine_def on_identity_def)

lemma roles_fine_tick_free [simp]: "tick_free (roles_fine before)"
  by (simp add: roles_fine_on_identity)

lemma user_save_roles:
  assumes "role_fine before (u_id u) (u_role u)"
  shows "preserves (roles_fine before) (user_save E u)"
  unfolding user_save_def
proof (rule preserves_insert_into)
  fix w t assume ok: "roles_fine before w"
    and up: "upsert_row ur_id user_clash (UserMapper_toPersistence u) (users w) = Inr t"
  show "roles_fine before (w\<lparr>users := t\<rparr>)"
    using upsert_row_Inr [OF up] ok assms
    by (auto simp: roles_fine_def UserMapper_toPersistence_def split: if_splits)
qed simp

lemma found_role_fine:
  assumes "roles_fine before w"
  shows "user_findById E i w = (Inr (Some u), w') \<Longrightarrow> role_fine before (u_id u) (u_role u)"
    and "user_findByEmail E e w = (Inr (Some u), w') \<Longrightarrow> role_fine before (u_id u) (u_role u)"
proof -
  have some: "user_toDomainOrNull y = Inr (Some u) \<Longrightarrow> \<exists>r. y = Some r \<and> ur_id r = u_id u \<and> ur_role r = u_role u" for y
    by (cases y) (auto simp: bindE_eq_Inr dest: UserMapper_toDomain_fields)
  show "user_findById E i w = (Inr (Some u), w') \<Longrightarrow> role_fine before (u_id u) (u_role u)"
    "user_findByEmail E e w = (Inr (Some u), w') \<Longrightarrow> role_fine before (u_id u) (u_role u)"
    using assms
    by (auto simp: user_findById_def user_findByEmail_def bindM_eq_Inr comp_simps roles_fine_def
        dest!: query_eq_Inr some find_Some_set) metis+
qed

lemma reads_roles: "reads m \<Longrightarrow> preserves (roles_fine before) m"
  by (rule reads_preserves) simp_all

lemma other_tables_roles:
  "preserves (roles_fine before) (token_save E k)" "preserves (roles_fine before) (revoke_where E cond)"
  "preserves (roles_fine before) (publishAll evs)" "preserves (roles_fine before) (OpenAccount_execute E bankCode u type c)"
proof -
  show "preserves (roles_fine before) (token_save E k)"
    unfolding token_save_def by (rule preserves_insert_into) (simp_all add: roles_fine_def)
  show "preserves (roles_fine before) (revoke_where E cond)"
    unfolding revoke_where_def by (intro preserves_rules preserves_update_in) (simp_all add: roles_fine_def)
  show "preserves (roles_fine before) (publishAll evs)"
    "preserves (roles_fine before) (OpenAccount_execute E bankCode u type c)"
    unfolding roles_fine_on_identity by (rule id_kyc.keeps_basic id_acc.keeps_accounts_module)+
qed

lemmas role_reads = reads_user_find [THEN reads_roles] reads_auth [THEN reads_roles]
  reads_now_uuid [THEN reads_roles] reads_issue [THEN reads_roles]

lemmas role_steps = other_tables_roles user_save_roles

lemma Refresh_roles: "preserves (roles_fine before) (RefreshAccessToken_execute E S tok ip ua)"
  unfolding RefreshAccessToken_execute_def revokeFamily_def rotate_def
  by (intro preserves_rules role_steps role_reads) simp_all

lemma Logout_roles: "preserves (roles_fine before) (Logout_execute E S tok)"
  unfolding Logout_execute_def revokeFamily_def by (intro preserves_rules role_steps role_reads)

lemma login_steps_roles:
  assumes "role_fine before (u_id u) (u_role u)"
  shows "preserves (roles_fine before) (loginFailed E ip u)" "preserves (roles_fine before) (loginSucceeded E S ip ua u)"
  unfolding loginFailed_def loginSucceeded_def Let_def
  by (intro preserves_rules role_steps role_reads; use assms in \<open>simp add: user_op_defs\<close>)+

lemma Login_roles: "preserves (roles_fine before) (Login_execute E S email password ip ua)"
  unfolding Login_execute_def
proof (intro preserves_bindM_Inr [of "roles_fine before" "user_findByEmail E x" for x]
    preserves_bindM_Inr [of "roles_fine before" "required x e" for x e]
    preserves_bindM_Inr [of "roles_fine before" "liftE (assertCanAttemptLogin t u)" for t u]
    preserves_rules role_reads)
qed (auto dest!: required_loaded found_role_fine(2) assertCanAttemptLogin_same simp: comp_simps
    intro: login_steps_roles)

lemma ChangePassword_roles: "preserves (roles_fine before) (ChangePassword_execute E S i old new)"
  unfolding ChangePassword_execute_def Let_def revokeAllForUser_def
proof (intro preserves_bindM_Inr [of "roles_fine before" "user_findById E x" for x]
    preserves_bindM_Inr [of "roles_fine before" "required x e" for x e]
    preserves_rules role_reads role_steps)
qed (auto dest!: required_loaded found_role_fine(1) simp: changePassword_def user_addDomainEvent_def)

lemma Register_roles: "preserves (roles_fine before) (RegisterUser_execute E S bankCode email phone password first name)"
  unfolding RegisterUser_execute_def Let_def
  by (intro preserves_rules role_steps role_reads)
    (simp_all add: role_fine_def user_register_def user_addDomainEvent_def Let_def)

lemma serve_roles: "preserves (roles_fine before) (serve V passport req r)"
proof -
  have other: "preserves (roles_fine before) (serve_caller V req user r)" if "\<not> writes_identity r" for user
    using serve_caller_on_identity [OF that] by (simp add: roles_fine_on_identity)
  have caller: "preserves (roles_fine before) (serve_caller V req user r)" for user
  proof (cases "writes_identity r")
    case True
    then show ?thesis
      by (cases r) (auto simp: AuthController_logout_def AuthController_changePassword_def
          intro!: Logout_roles ChangePassword_roles preserves_rules)
  qed (rule other)
  have webhook: "preserves (roles_fine before) (FlutterwaveWebhook_handle E secret hash payload)" for E secret hash payload
    by (simp add: roles_fine_on_identity id_acc.keeps_webhook)
  have public: "preserves (roles_fine before) (serve_public V req r)"
    by (cases r) (auto simp: AuthController_register_def AuthController_login_def AuthController_refresh_def
        intro!: served_preserves Register_roles Login_roles Refresh_roles preserves_rules webhook)
  show ?thesis
    unfolding serve_def by (intro preserves_rules caller public)
qed

text \<open>Requests in a row, each with the services it runs on and the verdict on its token.\<close>

definition serve_all ::
  "(services \<times> (string option \<Rightarrow> accessTokenPayload option) \<times> httpRequest \<times> route) list \<Rightarrow> world \<Rightarrow> world" where
  "serve_all requests w = foldl (\<lambda>w (V, passport, req, r). snd (serve V passport req r w)) w requests"

text \<open>
  C17. No sequence of requests, with whatever tokens, makes anybody staff: afterwards every stored
  user is a customer or has the role that the same user had before.
\<close>

theorem no_privilege_escalation:
  "list_all (\<lambda>r. ur_role r = UR_CUSTOMER \<or> list_ex (\<lambda>b. ur_id b = ur_id r \<and> ur_role b = ur_role r) (users w))
     (users (serve_all requests w))"
proof -
  have "roles_fine before (serve_all requests v)" if "roles_fine before v" for before v
    using that
  proof (induction requests arbitrary: v)
    case (Cons q requests)
    obtain V passport req r where q: "q = (V, passport, req, r)" by (metis prod.exhaust)
    from Cons.prems have "roles_fine before (snd (serve V passport req r v))" by (rule preservesD [OF serve_roles])
    from Cons.IH [OF this] show ?case by (simp add: q serve_all_def)
  qed (simp add: serve_all_def)
  moreover have "roles_fine (users w) w" by (auto simp: roles_fine_def role_fine_def)
  ultimately have "roles_fine (users w) (serve_all requests w)" .
  then show ?thesis by (simp add: roles_fine_def role_fine_def list_all_iff list_ex_iff)
qed

section \<open>Examples\<close>

text \<open>A customer asks for a credit on an account.\<close>

theorem refused_request_does_nothing_witness:
  "\<forall>V w. \<exists>e. serve V (\<lambda>t. Some \<lparr>sub = ''u1'', payloadEmail = ''a@b.ng'', payloadRole = UR_CUSTOMER\<rparr>)
      \<lparr>rq_bearer = Some ''t'', rq_ip = None, rq_userAgent = None, rq_idempotencyKey = None, rq_verifHash = None\<rparr>
      (PostCredit ''a1'' ''1000.00'' None ''gift'') w = (Inl e, w) \<and>
    en_statusCode (HttpExceptionFilter_catch (\<lambda>n. None) e) = 403"
proof (intro allI)
  fix V :: services and w :: world
  let ?passport = "\<lambda>t :: string option. Some \<lparr>sub = ''u1'', payloadEmail = ''a@b.ng'', payloadRole = UR_CUSTOMER\<rparr>"
  let ?req = "\<lparr>rq_bearer = Some ''t'', rq_ip = None, rq_userAgent = None, rq_idempotencyKey = None, rq_verifHash = None\<rparr>"
  have "\<not> admitted ?passport ?req (PostCredit ''a1'' ''1000.00'' None ''gift'')"
    by (simp add: admitted_def ADMIN_ROLES_def)
  from refused_request_does_nothing [OF this, of V w "\<lambda>n. None"]
  show "\<exists>e. serve V ?passport ?req (PostCredit ''a1'' ''1000.00'' None ''gift'') w = (Inl e, w) \<and>
      en_statusCode (HttpExceptionFilter_catch (\<lambda>n. None) e) = 403"
    by simp
qed

end
