(* ===== verification/Bank.thy ===== *)
theory Bank
  imports AccountOps
begin

text \<open>
  What the accounts module promises, without rows, versions, identifiers of aggregates or the
  database: a bank is a map from account identifiers to holdings, each command is a step on it. The
  handlers refine these steps.
\<close>

section \<open>The abstract bank\<close>

record holding =
  h_owner :: string
  h_currency :: currency
  h_status :: accountStatus
  h_balance :: int

type_synonym bank = "string \<Rightarrow> holding option"

text \<open>The amount a decimal text stands for, in minor units.\<close>

definition amount_of :: "string \<Rightarrow> int option" where
  "amount_of s = (case fromDecimalString s NGN of Inr m \<Rightarrow> Some (minorUnits m) | Inl e \<Rightarrow> None)"

inductive bank_step :: "bank \<Rightarrow> account_command \<Rightarrow> bank \<Rightarrow> bool" where
  opened: "B i = None \<Longrightarrow>
    bank_step B (CmdOpen u ty c) (B(i \<mapsto> \<lparr>h_owner = u, h_currency = c, h_status = AS_PENDING_VERIFICATION, h_balance = 0\<rparr>))"
| activated: "B i = Some h \<Longrightarrow> bank_step B (CmdActivate i) (B(i \<mapsto> h\<lparr>h_status := AS_ACTIVE\<rparr>))"
| credited: "B i = Some h \<Longrightarrow> h_status h = AS_ACTIVE \<Longrightarrow> h_currency h = c \<Longrightarrow> amount_of s = Some n \<Longrightarrow>
    bank_step B (CmdCredit i s c ref) (B(i \<mapsto> h\<lparr>h_balance := h_balance h + n\<rparr>))"
| debited: "B i = Some h \<Longrightarrow> h_status h = AS_ACTIVE \<Longrightarrow> h_currency h = c \<Longrightarrow> amount_of s = Some n \<Longrightarrow>
    n \<le> h_balance h \<Longrightarrow> bank_step B (CmdDebit i s c ref) (B(i \<mapsto> h\<lparr>h_balance := h_balance h - n\<rparr>))"
| frozen: "B i = Some h \<Longrightarrow> bank_step B (CmdFreeze i reason) (B(i \<mapsto> h\<lparr>h_status := AS_FROZEN\<rparr>))"
| unfrozen: "B i = Some h \<Longrightarrow> bank_step B (CmdUnfreeze i) (B(i \<mapsto> h\<lparr>h_status := AS_ACTIVE\<rparr>))"
| closed: "B i = Some h \<Longrightarrow> h_balance h = 0 \<Longrightarrow> bank_step B (CmdClose i) (B(i \<mapsto> h\<lparr>h_status := AS_CLOSED\<rparr>))"

section \<open>The bank a database stands for\<close>

definition holding_of :: "account_row \<Rightarrow> holding" where
  "holding_of r =
     \<lparr>h_owner = ar_userId r, h_currency = ar_currency r, h_status = ar_status r, h_balance = ar_balance r\<rparr>"

definition bank_of :: "world \<Rightarrow> bank" where
  "bank_of w = (\<lambda>i. map_option holding_of (List.find (\<lambda>r. ar_id r = i) (accounts w)))"

lemma bank_of_cong: "accounts w = accounts v \<Longrightarrow> bank_of w = bank_of v"
  by (simp add: bank_of_def)

lemma bank_of_append:
  "accounts w' = accounts w @ [r] \<Longrightarrow> bank_of w (ar_id r) = None \<Longrightarrow>
    bank_of w' = (bank_of w)(ar_id r \<mapsto> holding_of r)"
  by (auto simp: bank_of_def find_append fun_eq_iff split: option.splits)

lemma bank_of_put:
  assumes "accounts w' = put_account b (accounts w)" and "bank_of w (acc_id b) \<noteq> None"
  shows "bank_of w' = (bank_of w)(acc_id b \<mapsto> holding_of (AccountMapper_toPersistence b))"
proof
  fix i
  have "ar_id (AccountMapper_toPersistence b) = acc_id b" by (simp add: AccountMapper_toPersistence_def)
  then have "List.find (\<lambda>r. ar_id r = i) (put_account b t) =
      (if i = acc_id b then map_option (\<lambda>_. AccountMapper_toPersistence b) (List.find (\<lambda>r. ar_id r = i) t)
       else List.find (\<lambda>r. ar_id r = i) t)" for t
    by (induction t) (auto simp: put_account_def)
  with assms show "bank_of w' i = ((bank_of w)(acc_id b \<mapsto> holding_of (AccountMapper_toPersistence b))) i"
    by (auto simp: bank_of_def)
qed

lemma amount_of_Inr: "fromDecimalString s c = Inr m \<Longrightarrow> amount_of s = Some (minorUnits m) \<and> moneyCurrency m = c"
  by (auto simp: amount_of_def fromDecimalString_def Let_def split: if_splits prod.splits)

text \<open>An operation of the aggregate is the step of its command.\<close>

lemma apply_op_step:
  assumes "command_target cmd = Some i" and "command_op cmd = Some x" and "apply_op t x a = Inr b"
    and "account_ok a" and "B i = Some (holding_of (AccountMapper_toPersistence a))"
  shows "bank_step B cmd (B(i \<mapsto> holding_of (AccountMapper_toPersistence b)))"
proof -
  note fields = holding_of_def AccountMapper_toPersistence_def
  have same: "h\<lparr>h_balance := n\<rparr> = \<lparr>h_owner = h_owner h, h_currency = h_currency h, h_status = h_status h, h_balance = n\<rparr>"
    "h\<lparr>h_status := s\<rparr> = \<lparr>h_owner = h_owner h, h_currency = h_currency h, h_status = s, h_balance = h_balance h\<rparr>"
    for h :: holding and n s by simp_all
  note steps = bank_step.intros(2-7) [where B = B and i = i and h = "holding_of (AccountMapper_toPersistence a)",
      OF assms(5), unfolded same]
  show ?thesis
    using assms steps
    by (cases cmd)
      (auto simp: fields credit_Inr debit_Inr close_account_Inr activate_def freeze_def unfreeze_def account_ok_def
        dest!: amount_of_Inr split: sum.splits)
qed


section \<open>The commands refine the steps\<close>

lemma bank_ticks [simp]: "bank_of (w\<lparr>ticks := n\<rparr>) = bank_of w"
  by (simp add: bank_of_def)

lemma open_step:
  assumes run: "OpenAccount_execute E bankCode u ty c w = (res, w')"
  shows "bank_step (bank_of w) (CmdOpen u ty c) (bank_of w') \<or> isl res \<and> bank_of w' = bank_of w"
proof -
  obtain z w1 where gen: "nuban_generate E bankCode w = (z, w1)" by fastforce
  obtain n where w1: "w1 = w\<lparr>ticks := n\<rparr>" using readsD [OF reads_nuban gen] by blast
  show ?thesis
  proof (cases z)
    case (Inl e)
    with run gen w1 show ?thesis by (auto simp: OpenAccount_execute_def bindM_def)
  next
    case (Inr m)
    let ?b = "acc_open (nowMs E n) (newUuid E (Suc n)) u m ty c" and ?w2 = "w\<lparr>ticks := Suc (Suc n)\<rparr>"
    have run': "saveAndRespond E ?b ?w2 = (res, w')"
      using run gen Inr w1 by (simp add: OpenAccount_execute_def bindM_def now_apply uuid_apply)
    obtain s w3 where save: "account_save E ?b ?w2 = (s, w3)" by fastforce
    have w': "bank_of w' = bank_of w3" using saveAndRespond_accounts [of E ?b ?w2] run' save by (intro bank_of_cong) simp
    have failed: "isl s \<Longrightarrow> isl res" using run' save by (auto simp: saveAndRespond_def bindM_def split: sum.splits)
    show ?thesis
    proof (cases "accounts w3 = accounts w")
      case True
      have "isl s"
      proof (rule ccontr)
        assume "\<not> isl s"
        then obtain v where "s = Inr v" by (cases s) auto
        with saveVersioned_Inr' [OF save [unfolded account_save_def, unfolded \<open>s = Inr v\<close>]] True
        show False by (simp add: saved_row_def acc_open_def AccountMapper_toPersistence_def)
      qed
      with failed w' True bank_of_cong [OF True] show ?thesis by simp
    next
      case False
      with saveVersioned_state' [OF _ _ save [unfolded account_save_def]]
      have clash: "\<not> list_ex (account_clash (AccountMapper_toPersistence ?b)) (accounts w)"
        and w3: "accounts w3 = accounts w @ [AccountMapper_toPersistence ?b]"
        by (auto simp: can_save_def saved_row_def acc_open_def AccountMapper_toPersistence_def)
      have id: "ar_id (AccountMapper_toPersistence ?b) = newUuid E (Suc n)"
        by (simp add: AccountMapper_toPersistence_def acc_open_def)
      have none: "bank_of w (newUuid E (Suc n)) = None"
        using clash id by (auto simp: bank_of_def find_None_iff list_ex_iff account_clash_def)
      have "bank_of w3 = (bank_of w)(newUuid E (Suc n) \<mapsto> holding_of (AccountMapper_toPersistence ?b))"
        using bank_of_append [OF w3] none id by simp
      moreover have "holding_of (AccountMapper_toPersistence ?b) =
          \<lparr>h_owner = u, h_currency = c, h_status = AS_PENDING_VERIFICATION, h_balance = 0\<rparr>"
        by (simp add: holding_of_def AccountMapper_toPersistence_def acc_open_def)
      ultimately show ?thesis using bank_step.opened [of "bank_of w" "newUuid E (Suc n)" u ty c] none w' by simp
    qed
  qed
qed

lemma run_command_step:
  assumes "accounts_ok w" and "run_command E bankCode cmd w = (res, w')"
  shows "bank_step (bank_of w) cmd (bank_of w') \<or> isl res \<and> bank_of w' = bank_of w"
proof (cases "command_target cmd")
  case None
  then obtain u ty c where "cmd = CmdOpen u ty c" by (cases cmd) auto
  with assms(2) open_step show ?thesis by simp
next
  case (Some i)
  show ?thesis
  proof (rule mutateAccount_outcome [OF assms(2) [unfolded run_command_mutate [OF Some]] assms(1)])
    show "reads (command_pre E cmd a)" for a by (rule reads_command_pre)
    show "op_ok y" if "command_pre E cmd a w1 = (Inr y, w2)" for a y w1 w2
      using command_pre_Inr [OF _ that] Some by simp
  next
    fix e n assume "res = Inl e" "w' = w\<lparr>ticks := n\<rparr>"
    then show ?thesis by simp
  next
    fix r y t b w1 w2
    assume r: "List.find (\<lambda>r. ar_id r = i) (accounts w) = Some r" "r \<in> set (accounts w)" "ar_id r = i"
      and pre: "command_pre E cmd (account_of_row r) w1 = (Inr y, w2)"
      and op: "apply_op t y (account_of_row r) = Inr b" and w': "accounts w' = put_account b (accounts w)"
    have a: "account_ok (account_of_row r)" using r assms(1) by (auto simp: accounts_ok_def account_row_ok_def)
    have cmd: "command_op cmd = Some y" "op_ok y" using command_pre_Inr [OF _ pre] Some by simp_all
    have row: "AccountMapper_toPersistence (account_of_row r) = r"
      by (simp add: account_of_row_def AccountMapper_toPersistence_def)
    have B: "bank_of w i = Some (holding_of (AccountMapper_toPersistence (account_of_row r)))"
      using r(1) row by (simp add: bank_of_def)
    have id: "acc_id b = i" using apply_op_event [OF op a cmd(2)] r(3) by simp
    from apply_op_step [where B = "bank_of w" and i = i, OF Some cmd(1) op a B] bank_of_put [OF w'] B id show ?thesis by simp
  qed
qed

text \<open>
  C12. The accounts module implements the abstract bank. Every command, whatever the database does,
  is one step of the bank the database stands for, the step of that very command, or leaves the bank
  as it is; a command that returns has done its step.
\<close>

theorem accounts_refine_bank:
  assumes "accounts_ok w" and "run_command E bankCode cmd w = (res, w')"
  shows "bank_step (bank_of w) cmd (bank_of w') \<or> isl res \<and> bank_of w' = bank_of w"
  using assms by (rule run_command_step)

section \<open>Example\<close>

theorem accounts_refine_bank_witness:
  "\<exists>w'. bank_step (bank_of exampleWorld) (CmdDebit ''a1'' ''0.25'' NGN ''r'') (bank_of w') \<and>
     map_option h_balance (bank_of w' ''a1'') = Some 475"
proof -
  let ?c = "CmdDebit ''a1'' ''0.25'' NGN ''r''"
  have "\<not> isl (fst (run_command exampleEnv ''999'' ?c exampleWorld))" by code_simp
  from ran [of "run_command exampleEnv ''999'' ?c", OF this] obtain z w' where
    run: "run_command exampleEnv ''999'' ?c exampleWorld = (Inr z, w')" by blast
  have "map (\<lambda>r. (ar_id r, ar_balance r)) (accounts (snd (run_command exampleEnv ''999'' ?c exampleWorld))) =
      [(''a1'', 475), (''a2'', 0)]" by code_simp
  with run have "map_option h_balance (bank_of w' ''a1'') = Some 475"
    by (auto simp: bank_of_def holding_of_def)
  with accounts_refine_bank [OF exampleWorld_ok run] show ?thesis by auto
qed

end
