(* ===== verification/Session.thy ===== *)
theory Session
  imports Auth
begin

text \<open>
  The session of the web client (\<^verbatim>\<open>frontend/src/store/authStore.js\<close>, \<^verbatim>\<open>api/client.js\<close> and what
  \<^verbatim>\<open>AppRouter.jsx\<close>, \<^verbatim>\<open>Login.jsx\<close> do with them): the store, the shared promise of a refresh, and how its
  callbacks interleave with requests, logins and logouts.
\<close>

section \<open>The store and the variables of the modules\<close>

text \<open>
  A refresh under way has sent a token, with or without an access token on the request; once its
  answer is worked in, the last callback (\<open>finally\<close>) is still to come. The promise of the start-up
  waits for a refresh, or for its own last callback.
\<close>

datatype refreshPromise = Exchanging string bool | Settling bool

datatype bootstrapPromise = AwaitsRefresh | RefreshOver

record authStore =
  as_user :: "authUserDto option"
  as_isLoggedIn :: bool
  as_isLoading :: bool
  as_error :: "string option"
  as_onboardingDone :: bool
  as_selectedLang :: "string option"
  as_selectedPersona :: "string option"
  as_isRefreshing :: bool
  as_isBootstrapping :: bool
  as_refreshToken :: "string option"

record page = authStore +
  pg_accessToken :: "string option"
  pg_refreshPromise :: "refreshPromise option"
  pg_bootstrapPromise :: "bootstrapPromise option"

definition initialPage :: page where
  "initialPage =
     \<lparr>as_user = None, as_isLoggedIn = False, as_isLoading = False, as_error = None, as_onboardingDone = False,
      as_selectedLang = None, as_selectedPersona = None, as_isRefreshing = False, as_isBootstrapping = False,
      as_refreshToken = None, pg_accessToken = None, pg_refreshPromise = None, pg_bootstrapPromise = None\<rparr>"

text \<open>Null and the empty string are both falsy.\<close>

definition truthy :: "string option \<Rightarrow> string option" where
  "truthy x = (case x of Some s \<Rightarrow> if s = [] then None else Some s | None \<Rightarrow> None)"

section \<open>The API client\<close>

datatype backendMessage = FlatMessage string | NestedMessage "string option" | NoMessage

record 'b httpAnswer =
  ha_status :: nat
  ha_message :: backendMessage
  ha_body :: 'b

definition answer_ok :: "nat \<Rightarrow> bool" where
  "answer_ok status \<longleftrightarrow> 200 \<le> status \<and> status \<le> 299"

definition wasAuthenticated :: "page \<Rightarrow> bool" where
  "wasAuthenticated s \<longleftrightarrow> truthy (pg_accessToken s) \<noteq> None"

text \<open>
  What is done with an answer: the error or the body, whether the event \<open>auth:expired\<close> is sent, and the
  page after it.
\<close>

definition apiClient ::
  "bool \<Rightarrow> 'b httpAnswer \<Rightarrow> page \<Rightarrow> (string + 'b option) \<times> bool \<times> page" where
  "apiClient authenticated response s =
     (let failed = ''Request failed with status '' @ int_str (int (ha_status response))
      in if ha_status response = 401 \<and> authenticated then
           (Inl ''Session expired. Please log in again.'', True, s\<lparr>pg_accessToken := None\<rparr>)
         else if ha_status response = 204 then
           (if \<not> answer_ok (ha_status response) then (Inl failed, False, s) else (Inr None, False, s))
         else if \<not> answer_ok (ha_status response) then
           (let message = (case ha_message response of
                             FlatMessage m \<Rightarrow> truthy (Some m) | NestedMessage m \<Rightarrow> truthy m | NoMessage \<Rightarrow> None)
            in (Inl (case message of Some m \<Rightarrow> m | None \<Rightarrow> failed), False, s))
         else (Inr (Some (ha_body response)), False, s))"

section \<open>The actions of the store\<close>

definition setUser :: "authUserDto \<Rightarrow> page \<Rightarrow> page" where
  "setUser user s = s\<lparr>as_user := Some user, as_isLoggedIn := True\<rparr>"

definition setToken :: "string \<Rightarrow> page \<Rightarrow> page" where
  "setToken token s = s\<lparr>pg_accessToken := Some token\<rparr>"

definition setRefreshToken :: "string \<Rightarrow> page \<Rightarrow> page" where
  "setRefreshToken token s = s\<lparr>as_refreshToken := Some token\<rparr>"

definition logout :: "page \<Rightarrow> page" where
  "logout s = s\<lparr>pg_accessToken := None, as_user := None, as_isLoggedIn := False, as_error := None, as_refreshToken := None\<rparr>"

text \<open>The token that is sent now, if this call starts an exchange.\<close>

definition refreshAccessToken :: "page \<Rightarrow> string option \<times> page" where
  "refreshAccessToken s =
     (case pg_refreshPromise s of
        Some p \<Rightarrow> (None, s)
      | None \<Rightarrow>
          (case truthy (as_refreshToken s) of
             None \<Rightarrow> (None, logout s)
           | Some refreshToken \<Rightarrow>
               (Some refreshToken,
                s\<lparr>as_isRefreshing := True, pg_refreshPromise := Some (Exchanging refreshToken (wasAuthenticated s))\<rparr>)))"

definition refresh_then :: "string \<Rightarrow> string \<Rightarrow> string \<Rightarrow> page \<Rightarrow> page" where
  "refresh_then refreshToken accessToken newToken s =
     s\<lparr>pg_accessToken := Some accessToken, as_refreshToken := Some (if newToken \<noteq> [] then newToken else refreshToken),
       pg_refreshPromise := Some (Settling True)\<rparr>"

definition refresh_catch :: "page \<Rightarrow> page" where
  "refresh_catch s = (logout s)\<lparr>pg_refreshPromise := Some (Settling False)\<rparr>"

text \<open>The end of a refresh lets the start-up go on that waits for it.\<close>

definition refresh_finally :: "page \<Rightarrow> page" where
  "refresh_finally s =
     s\<lparr>as_isRefreshing := False, pg_refreshPromise := None,
       pg_bootstrapPromise := map_option (\<lambda>_. RefreshOver) (pg_bootstrapPromise s)\<rparr>"

definition bootstrap :: "page \<Rightarrow> string option \<times> page" where
  "bootstrap s =
     (if pg_bootstrapPromise s \<noteq> None then (None, s)
      else if truthy (as_refreshToken s) = None then (None, s)
      else (let (sent, s') = refreshAccessToken (s\<lparr>as_isBootstrapping := True\<rparr>)
            in (sent, s'\<lparr>pg_bootstrapPromise := Some AwaitsRefresh\<rparr>)))"

definition bootstrap_finally :: "page \<Rightarrow> page" where
  "bootstrap_finally s = s\<lparr>as_isBootstrapping := False, pg_bootstrapPromise := None\<rparr>"

text \<open>What a login that the backend accepted does before anything else can run (\<^verbatim>\<open>Login.jsx\<close>).\<close>

definition handleSubmit_then :: "authUserDto \<Rightarrow> string \<Rightarrow> string \<Rightarrow> page \<Rightarrow> page" where
  "handleSubmit_then user accessToken refreshToken s =
     setRefreshToken refreshToken (setToken accessToken (setUser user s))"

text \<open>A reload keeps what \<open>partialize\<close> names and starts the rest afresh.\<close>

definition reload :: "page \<Rightarrow> page" where
  "reload s =
     initialPage\<lparr>as_user := as_user s, as_isLoggedIn := as_isLoggedIn s, as_refreshToken := as_refreshToken s,
       as_onboardingDone := as_onboardingDone s, as_selectedLang := as_selectedLang s,
       as_selectedPersona := as_selectedPersona s\<rparr>"

text \<open>The handler of \<open>auth:expired\<close> (\<^verbatim>\<open>AppRouter.jsx\<close>) up to its first suspension.\<close>

definition handleExpired :: "page \<Rightarrow> string option \<times> page" where
  "handleExpired s = refreshAccessToken s"

section \<open>The client at work\<close>

text \<open>
  A page, the tokens it has sent to be exchanged, those the backend has handed out, and for every
  other request under way whether it carried an access token.
\<close>

record client =
  cl_page :: page
  cl_sent :: "string list"
  cl_issued :: "string list"
  cl_requests :: "bool list"

definition sends :: "string option \<times> page \<Rightarrow> client \<Rightarrow> client" where
  "sends r c = c\<lparr>cl_page := snd r, cl_sent := cl_sent c @ (case fst r of None \<Rightarrow> [] | Some t \<Rightarrow> [t])\<rparr>"

text \<open>
  The rest of an answer: the event \<open>auth:expired\<close> reaches its handler when the component that listens is
  mounted.
\<close>

definition after_answer :: "bool \<Rightarrow> bool \<Rightarrow> page \<Rightarrow> client \<Rightarrow> client" where
  "after_answer mounted expired s c =
     (if expired \<and> mounted then sends (handleExpired s) c else c\<lparr>cl_page := s\<rparr>)"

text \<open>
  One turn of the event loop. The backend hands out tokens that are new and not empty. A reload is a
  step only while no exchange is under way.
\<close>

inductive turn :: "client \<Rightarrow> client \<Rightarrow> bool" where
  start: "turn c (sends (bootstrap (cl_page c)) c)"
| started: "pg_bootstrapPromise (cl_page c) = Some RefreshOver \<Longrightarrow>
    turn c (c\<lparr>cl_page := bootstrap_finally (cl_page c)\<rparr>)"
| request: "turn c (c\<lparr>cl_requests := wasAuthenticated (cl_page c) # cl_requests c\<rparr>)"
| answer: "cl_requests c = xs @ authenticated # ys \<Longrightarrow>
    apiClient authenticated (response :: unit httpAnswer) (cl_page c) = (r, expired, s) \<Longrightarrow>
    turn c (after_answer mounted expired s (c\<lparr>cl_requests := xs @ ys\<rparr>))"
| login: "tok \<noteq> [] \<Longrightarrow> tok \<notin> set (cl_issued c) \<Longrightarrow>
    turn c (c\<lparr>cl_page := handleSubmit_then user access tok (cl_page c), cl_issued := tok # cl_issued c\<rparr>)"
| exchanged: "pg_refreshPromise (cl_page c) = Some (Exchanging old authenticated) \<Longrightarrow> tok \<noteq> [] \<Longrightarrow>
    tok \<notin> set (cl_issued c) \<Longrightarrow>
    turn c (c\<lparr>cl_page := refresh_then old access tok (cl_page c), cl_issued := tok # cl_issued c\<rparr>)"
| refused: "pg_refreshPromise (cl_page c) = Some (Exchanging old authenticated) \<Longrightarrow>
    apiClient authenticated (response :: unit httpAnswer) (cl_page c) = (Inl e, expired, s) \<Longrightarrow>
    turn c (let c' = after_answer mounted expired s c in c'\<lparr>cl_page := refresh_catch (cl_page c')\<rparr>)"
| unreachable: "pg_refreshPromise (cl_page c) = Some (Exchanging old authenticated) \<Longrightarrow>
    turn c (c\<lparr>cl_page := refresh_catch (cl_page c)\<rparr>)"
| settled: "pg_refreshPromise (cl_page c) = Some (Settling good) \<Longrightarrow>
    turn c (c\<lparr>cl_page := refresh_finally (cl_page c)\<rparr>)"
| leave: "turn c (c\<lparr>cl_page := logout (cl_page c)\<rparr>)"
| reloaded: "\<not> (\<exists>old authenticated. pg_refreshPromise (cl_page c) = Some (Exchanging old authenticated)) \<Longrightarrow>
    turn c (c\<lparr>cl_page := reload (cl_page c), cl_requests := []\<rparr>)"


section \<open>A token is exchanged once\<close>

definition session_ok :: "client \<Rightarrow> bool" where
  "session_ok c \<longleftrightarrow>
     distinct (cl_sent c) \<and> set (cl_sent c) \<subseteq> set (cl_issued c) \<and>
     (\<forall>t. truthy (as_refreshToken (cl_page c)) = Some t \<longrightarrow>
        t \<in> set (cl_issued c) \<and>
        (t \<in> set (cl_sent c) \<longrightarrow> (\<exists>a. pg_refreshPromise (cl_page c) = Some (Exchanging t a)))) \<and>
     (as_isRefreshing (cl_page c) \<longleftrightarrow> pg_refreshPromise (cl_page c) \<noteq> None) \<and>
     (as_isBootstrapping (cl_page c) \<longleftrightarrow> pg_bootstrapPromise (cl_page c) \<noteq> None) \<and>
     (pg_bootstrapPromise (cl_page c) = Some AwaitsRefresh \<longrightarrow> pg_refreshPromise (cl_page c) \<noteq> None)"

lemma truthy_simps [simp]:
  "truthy None = None" "truthy (Some s) = (if s = [] then None else Some s)"
  "truthy x = Some s \<longleftrightarrow> x = Some s \<and> s \<noteq> []"
  by (auto simp: truthy_def split: option.splits)

lemma apiClient_page:
  assumes "apiClient authenticated response s = (r, expired, s')"
  shows "\<exists>a. s' = s\<lparr>pg_accessToken := a\<rparr>"
proof -
  have "s' = s \<or> s' = s\<lparr>pg_accessToken := None\<rparr>"
    using assms by (auto simp: apiClient_def Let_def split: if_splits)
  moreover have "s = s\<lparr>pg_accessToken := pg_accessToken s\<rparr>" by simp
  ultimately show ?thesis by metis
qed

lemma session_access [simp]:
  "session_ok (c\<lparr>cl_page := s\<lparr>pg_accessToken := a\<rparr>\<rparr>) = session_ok (c\<lparr>cl_page := s\<rparr>)"
  "session_ok (c\<lparr>cl_requests := qs\<rparr>) = session_ok c"
  by (simp_all add: session_ok_def)

text \<open>A call of \<open>refreshAccessToken\<close> sends only a token that was never sent.\<close>

lemma sends_refresh:
  assumes "session_ok (c\<lparr>cl_page := s\<rparr>)"
  shows "session_ok (sends (refreshAccessToken s) c)"
proof (cases "pg_refreshPromise s")
  case (Some p)
  with assms show ?thesis by (simp add: sends_def refreshAccessToken_def)
next
  case None
  show ?thesis
  proof (cases "truthy (as_refreshToken s)")
    case none: None
    with assms None show ?thesis by (auto simp: sends_def refreshAccessToken_def logout_def session_ok_def)
  next
    case (Some t)
    with assms None have "t \<in> set (cl_issued c)" "t \<notin> set (cl_sent c)" by (auto simp: session_ok_def)
    with assms None Some show ?thesis by (auto simp: sends_def refreshAccessToken_def session_ok_def)
  qed
qed

lemma session_page: "session_ok c = session_ok (c\<lparr>cl_page := cl_page c\<rparr>)"
  by simp

lemma sends_bootstrap:
  assumes "session_ok c"
  shows "session_ok (sends (bootstrap (cl_page c)) c)"
proof (cases "pg_bootstrapPromise (cl_page c) \<noteq> None \<or> truthy (as_refreshToken (cl_page c)) = None")
  case True
  with assms show ?thesis by (auto simp: sends_def bootstrap_def)
next
  case False
  then obtain t where b: "pg_bootstrapPromise (cl_page c) = None" and t: "truthy (as_refreshToken (cl_page c)) = Some t" by auto
  show ?thesis
  proof (cases "pg_refreshPromise (cl_page c)")
    case (Some p)
    with assms b t show ?thesis by (auto simp: sends_def bootstrap_def refreshAccessToken_def session_ok_def)
  next
    case None
    with assms t have "t \<in> set (cl_issued c)" "t \<notin> set (cl_sent c)" by (auto simp: session_ok_def)
    with assms None b t show ?thesis
      by (auto simp: sends_def bootstrap_def refreshAccessToken_def session_ok_def wasAuthenticated_def)
  qed
qed

lemma after_answer_ok:
  assumes "session_ok c" and "apiClient authenticated response (cl_page c) = (r, expired, s)"
  shows "session_ok (after_answer mounted expired s c)"
proof -
  from apiClient_page [OF assms(2)] assms(1) have "session_ok (c\<lparr>cl_page := s\<rparr>)" by auto
  then show ?thesis by (simp add: after_answer_def handleExpired_def sends_refresh)
qed

lemma refresh_catch_ok:
  assumes "session_ok c" and "pg_refreshPromise (cl_page c) \<noteq> None"
  shows "session_ok (c\<lparr>cl_page := refresh_catch (cl_page c)\<rparr>)"
  using assms by (auto simp: session_ok_def refresh_catch_def logout_def)

lemma after_answer_promise:
  assumes "pg_refreshPromise (cl_page c) = Some p" and "apiClient authenticated response (cl_page c) = (r, expired, s)"
  shows "pg_refreshPromise (cl_page (after_answer mounted expired s c)) = Some p"
  using assms(1) apiClient_page [OF assms(2)]
  by (auto simp: after_answer_def handleExpired_def refreshAccessToken_def sends_def)

lemma turn_ok: "turn c c' \<Longrightarrow> session_ok c \<Longrightarrow> session_ok c'"
proof (induction rule: turn.induct)
  case (start c)
  then show ?case by (rule sends_bootstrap)
next
  case (answer c xs authenticated ys response r expired s mounted)
  then show ?case by (intro after_answer_ok) auto
next
  case (refused c old authenticated response e expired s mounted)
  have "session_ok (after_answer mounted expired s c)" by (rule after_answer_ok [OF refused(3,2)])
  moreover have "pg_refreshPromise (cl_page (after_answer mounted expired s c)) \<noteq> None"
    using after_answer_promise [OF refused(1,2)] by simp
  ultimately show ?case unfolding Let_def by (rule refresh_catch_ok)
next
  case (unreachable c old authenticated)
  then show ?case by (intro refresh_catch_ok) auto
qed (auto simp: session_ok_def bootstrap_finally_def handleSubmit_then_def setRefreshToken_def setToken_def setUser_def
    refresh_then_def refresh_finally_def logout_def reload_def initialPage_def)

text \<open>The page as a visit finds it: the stored token is one the backend handed out.\<close>

definition opened :: "page \<Rightarrow> client" where
  "opened s = \<lparr>cl_page = reload s, cl_sent = [], cl_issued = (case as_refreshToken s of None \<Rightarrow> [] | Some t \<Rightarrow> [t]), cl_requests = []\<rparr>"

interpretation session: event_loop turn "opened s" session_ok for s
proof
  show "session_ok (opened s)"
    by (auto simp: opened_def session_ok_def reload_def initialPage_def split: option.splits)
qed (rule turn_ok)

text \<open>
  C14. However start-up, requests that find the session expired, logins, logouts, answers and their
  callbacks interleave, the client sends no refresh token twice, so the backend never sees one reused
  and never revokes the family; there is at most one exchange under way, \<open>isRefreshing\<close> tells whether,
  and a start-up that still waits does so for a refresh that is under way. (A reload of the page is
  among the steps while no exchange is under way; for the other case see below.)
\<close>

theorem refresh_token_sent_once:
  assumes "turn\<^sup>*\<^sup>* (opened s) c"
  shows "distinct (cl_sent c) \<and> (as_isRefreshing (cl_page c) \<longleftrightarrow> pg_refreshPromise (cl_page c) \<noteq> None) \<and>
    (pg_bootstrapPromise (cl_page c) = Some AwaitsRefresh \<longrightarrow> pg_refreshPromise (cl_page c) \<noteq> None)"
  using session.always [OF assms] by (simp add: session_ok_def)

section \<open>Examples and the limits of the guarantee\<close>

definition storedPage :: page where
  "storedPage = initialPage\<lparr>as_refreshToken := Some ''r1'', as_isLoggedIn := True\<rparr>"

lemmas session_defs = opened_def storedPage_def reload_def initialPage_def sends_def bootstrap_def refreshAccessToken_def
  wasAuthenticated_def truthy_def logout_def refresh_then_def

text \<open>Two calls of the start-up, as under React's strict mode.\<close>

theorem refresh_token_sent_once_witness:
  "\<exists>c. turn\<^sup>*\<^sup>* (opened storedPage) c \<and> cl_sent c = [''r1''] \<and> as_isRefreshing (cl_page c)"
proof -
  let ?c = "sends (bootstrap (cl_page (opened storedPage))) (opened storedPage)"
  let ?d = "sends (bootstrap (cl_page ?c)) ?c"
  have run: "turn\<^sup>*\<^sup>* (opened storedPage) ?d"
    by (rule rtranclp.rtrancl_into_rtrancl [OF r_into_rtranclp]; rule turn.start)
  have "cl_sent ?d = [''r1'']" "pg_refreshPromise (cl_page ?d) \<noteq> None" by (simp_all add: session_defs)
  with refresh_token_sent_once [OF run] run show ?thesis by blast
qed

text \<open>
  A reload while an exchange is under way starts over with the token that was already sent: the next
  start-up presents it again, and the backend takes the second use for a theft.
\<close>

theorem reload_during_refresh_sends_twice:
  "\<exists>c. turn\<^sup>*\<^sup>* (opened storedPage) c \<and>
     cl_sent (sends (bootstrap (reload (cl_page c))) c) = [''r1'', ''r1'']"
proof -
  let ?c = "sends (bootstrap (cl_page (opened storedPage))) (opened storedPage)"
  have "turn\<^sup>*\<^sup>* (opened storedPage) ?c" by (intro r_into_rtranclp turn.start)
  moreover have "cl_sent (sends (bootstrap (reload (cl_page ?c))) ?c) = [''r1'', ''r1'']" by (simp add: session_defs)
  ultimately show ?thesis by blast
qed

text \<open>
  A logout while an exchange is under way is undone by its answer: nobody is logged in, but the page
  holds a fresh access token, and a fresh refresh token is stored for the next visit.
\<close>

theorem logout_during_refresh_undone:
  "\<exists>c. turn\<^sup>*\<^sup>* (opened storedPage) c \<and> \<not> as_isLoggedIn (cl_page c) \<and> as_user (cl_page c) = None \<and>
     pg_accessToken (cl_page c) = Some ''a2'' \<and> as_refreshToken (cl_page c) = Some ''r2''"
proof -
  let ?c = "sends (bootstrap (cl_page (opened storedPage))) (opened storedPage)"
  let ?d = "?c\<lparr>cl_page := logout (cl_page ?c)\<rparr>"
  let ?e = "?d\<lparr>cl_page := refresh_then ''r1'' ''a2'' ''r2'' (cl_page ?d), cl_issued := ''r2'' # cl_issued ?d\<rparr>"
  have "pg_refreshPromise (cl_page ?d) = Some (Exchanging ''r1'' False)" "''r2'' \<notin> set (cl_issued ?d)"
    by (simp_all add: session_defs)
  then have "turn ?d ?e" by (intro turn.exchanged) simp_all
  moreover have "turn ?c ?d" by (rule turn.leave)
  moreover have "turn (opened storedPage) ?c" by (rule turn.start)
  ultimately have "turn\<^sup>*\<^sup>* (opened storedPage) ?e" by (meson converse_rtranclp_into_rtranclp r_into_rtranclp)
  moreover have "\<not> as_isLoggedIn (cl_page ?e)" "as_user (cl_page ?e) = None" "pg_accessToken (cl_page ?e) = Some ''a2''"
    "as_refreshToken (cl_page ?e) = Some ''r2''"
    by (simp_all add: session_defs)
  ultimately show ?thesis by blast
qed

end
