(* ===== verification/Requests.thy ===== *)
theory Requests
  imports Gateway
begin

text \<open>
  The request bodies the API accepts (\<^verbatim>\<open>application/dto\<close> of the modules): the classes whose
  decorators the global validation pipe checks, and what the checks guarantee to the handlers.
\<close>

section \<open>Bodies\<close>

text \<open>
  A body is what its JSON object has under each name. The pipe runs with \<open>whitelist\<close> and
  \<open>forbidNonWhitelisted\<close>: a name that the class does not declare is an error.
\<close>

datatype json = JString string | JNumber int | JBool bool | JNull | JArray "json list" | JObject "(string \<times> json) list"

type_synonym body = "(string \<times> json) list"

definition BadRequest :: "'a \<Rightarrow> exn + 'b" where
  "BadRequest x = Inl (HttpExn 400 ''Bad Request Exception'')"

definition declared :: "string list \<Rightarrow> body \<Rightarrow> exn + unit" where
  "declared names b = (if list_all (\<lambda>(n, v). n \<in> set names) b then Inr () else BadRequest ())"

text \<open>\<open>@IsString()\<close> together with a condition on the text.\<close>

definition stringField :: "(string \<Rightarrow> bool) \<Rightarrow> string \<Rightarrow> body \<Rightarrow> exn + string" where
  "stringField cond name b =
     (case map_of b name of Some (JString s) \<Rightarrow> if cond s then Inr s else BadRequest () | _ \<Rightarrow> BadRequest ())"

definition anyText :: "string \<Rightarrow> bool" where
  "anyText s \<longleftrightarrow> True"

definition Length :: "nat \<Rightarrow> nat \<Rightarrow> string \<Rightarrow> bool" where
  "Length low high s \<longleftrightarrow> low \<le> length s \<and> length s \<le> high"

definition MinLength :: "nat \<Rightarrow> string \<Rightarrow> bool" where
  "MinLength low s \<longleftrightarrow> low \<le> length s"

text \<open>\<open>@IsEnum\<close>: one of the values of the enumeration.\<close>

definition enumField :: "(string \<Rightarrow> 'e option) \<Rightarrow> string \<Rightarrow> body \<Rightarrow> exn + 'e" where
  "enumField ofText name b =
     (case map_of b name of
        Some (JString s) \<Rightarrow> (case ofText s of Some e \<Rightarrow> Inr e | None \<Rightarrow> BadRequest ())
      | _ \<Rightarrow> BadRequest ())"

definition currencyOfText :: "string \<Rightarrow> currency option" where
  "currencyOfText s = List.find (\<lambda>c. currency_str c = s) [NGN, USD, GBP, EUR]"

definition accountTypeOfText :: "string \<Rightarrow> accountType option" where
  "accountTypeOfText s = List.find (\<lambda>c. accountType_str c = s) [AT_WALLET, AT_SAVINGS, AT_CURRENT]"

text \<open>\<open>currency?: Currency = Currency.NGN\<close> with \<open>@IsOptional()\<close>, which lets null and absence pass: the default stands when the body does not have the name.\<close>

definition currencyField :: "body \<Rightarrow> exn + currency option" where
  "currencyField b =
     (case map_of b ''currency'' of
        None \<Rightarrow> Inr (Some NGN)
      | Some JNull \<Rightarrow> Inr None
      | _ \<Rightarrow> bindE (enumField currencyOfText ''currency'' b) (\<lambda>c. Inr (Some c)))"

text \<open>The tests for e-mail addresses and UUIDs of the validation library are parameters.\<close>

record validator =
  vd_isEmail :: "string \<Rightarrow> bool"
  vd_isUUID :: "string \<Rightarrow> bool"

section \<open>Identity\<close>

record registerUserDto =
  rd_email :: string
  rd_phoneNumber :: string
  rd_password :: string
  rd_firstName :: string
  rd_lastName :: string

definition RegisterUserDto_validate :: "validator \<Rightarrow> body \<Rightarrow> exn + registerUserDto" where
  "RegisterUserDto_validate V b =
     bindE (declared [''email'', ''phoneNumber'', ''password'', ''firstName'', ''lastName''] b) (\<lambda>_.
     bindE (stringField (vd_isEmail V) ''email'' b) (\<lambda>email.
     bindE (stringField is_e164 ''phoneNumber'' b) (\<lambda>phone.
     bindE (stringField (Length 8 128) ''password'' b) (\<lambda>password.
     bindE (stringField (Length 1 100) ''firstName'' b) (\<lambda>first.
     bindE (stringField (Length 1 100) ''lastName'' b) (\<lambda>last.
     Inr \<lparr>rd_email = email, rd_phoneNumber = phone, rd_password = password, rd_firstName = first, rd_lastName = last\<rparr>))))))"

record loginDto =
  ld_email :: string
  ld_password :: string

definition LoginDto_validate :: "validator \<Rightarrow> body \<Rightarrow> exn + loginDto" where
  "LoginDto_validate V b =
     bindE (declared [''email'', ''password''] b) (\<lambda>_.
     bindE (stringField (vd_isEmail V) ''email'' b) (\<lambda>email.
     bindE (stringField anyText ''password'' b) (\<lambda>password.
     Inr \<lparr>ld_email = email, ld_password = password\<rparr>)))"

definition RefreshTokenDto_validate :: "body \<Rightarrow> exn + string" where
  "RefreshTokenDto_validate b =
     bindE (declared [''refreshToken''] b) (\<lambda>_. stringField anyText ''refreshToken'' b)"

record changePasswordDto =
  cp_currentPassword :: string
  cp_newPassword :: string

definition ChangePasswordDto_validate :: "body \<Rightarrow> exn + changePasswordDto" where
  "ChangePasswordDto_validate b =
     bindE (declared [''currentPassword'', ''newPassword''] b) (\<lambda>_.
     bindE (stringField anyText ''currentPassword'' b) (\<lambda>old.
     bindE (stringField (Length 8 128) ''newPassword'' b) (\<lambda>new.
     Inr \<lparr>cp_currentPassword = old, cp_newPassword = new\<rparr>)))"

section \<open>Accounts\<close>

record openAccountDto =
  oa_accountType :: accountType
  oa_currency :: "currency option"

definition OpenAccountDto_validate :: "body \<Rightarrow> exn + openAccountDto" where
  "OpenAccountDto_validate b =
     bindE (declared [''accountType'', ''currency''] b) (\<lambda>_.
     bindE (enumField accountTypeOfText ''accountType'' b) (\<lambda>type.
     bindE (currencyField b) (\<lambda>c.
     Inr \<lparr>oa_accountType = type, oa_currency = c\<rparr>)))"

text \<open>The classes for a credit and a debit have the same fields.\<close>

record amountDto =
  am_amount :: string
  am_currency :: "currency option"
  am_reference :: string

definition CreditAccountDto_validate :: "body \<Rightarrow> exn + amountDto" where
  "CreditAccountDto_validate b =
     bindE (declared [''amount'', ''currency'', ''reference''] b) (\<lambda>_.
     bindE (stringField is_decimal_amount ''amount'' b) (\<lambda>amount.
     bindE (currencyField b) (\<lambda>c.
     bindE (stringField anyText ''reference'' b) (\<lambda>reference.
     Inr \<lparr>am_amount = amount, am_currency = c, am_reference = reference\<rparr>))))"

definition DebitAccountDto_validate :: "body \<Rightarrow> exn + amountDto" where
  "DebitAccountDto_validate b =
     bindE (declared [''amount'', ''currency'', ''reference''] b) (\<lambda>_.
     bindE (stringField is_decimal_amount ''amount'' b) (\<lambda>amount.
     bindE (currencyField b) (\<lambda>c.
     bindE (stringField anyText ''reference'' b) (\<lambda>reference.
     Inr \<lparr>am_amount = amount, am_currency = c, am_reference = reference\<rparr>))))"

definition FreezeAccountDto_validate :: "body \<Rightarrow> exn + string" where
  "FreezeAccountDto_validate b =
     bindE (declared [''reason''] b) (\<lambda>_. stringField (Length 3 500) ''reason'' b)"

section \<open>Transfers\<close>

record internalTransferDto =
  it_sourceAccountId :: string
  it_destinationAccountId :: string
  it_amount :: string
  it_narration :: string

definition InitiateInternalTransferDto_validate :: "validator \<Rightarrow> body \<Rightarrow> exn + internalTransferDto" where
  "InitiateInternalTransferDto_validate V b =
     bindE (declared [''sourceAccountId'', ''destinationAccountId'', ''amount'', ''narration''] b) (\<lambda>_.
     bindE (stringField (vd_isUUID V) ''sourceAccountId'' b) (\<lambda>src.
     bindE (stringField (vd_isUUID V) ''destinationAccountId'' b) (\<lambda>dst.
     bindE (stringField is_decimal_amount ''amount'' b) (\<lambda>amount.
     bindE (stringField (Length 1 200) ''narration'' b) (\<lambda>narration.
     Inr \<lparr>it_sourceAccountId = src, it_destinationAccountId = dst, it_amount = amount, it_narration = narration\<rparr>)))))"

record externalTransferDto =
  et_sourceAccountId :: string
  et_bankCode :: string
  et_recipientAccountNumber :: string
  et_recipientAccountName :: string
  et_amount :: string
  et_narration :: string

definition InitiateExternalTransferDto_validate :: "validator \<Rightarrow> body \<Rightarrow> exn + externalTransferDto" where
  "InitiateExternalTransferDto_validate V b =
     bindE (declared [''sourceAccountId'', ''bankCode'', ''recipientAccountNumber'', ''recipientAccountName'',
              ''amount'', ''narration''] b) (\<lambda>_.
     bindE (stringField (vd_isUUID V) ''sourceAccountId'' b) (\<lambda>src.
     bindE (stringField (matches_digits 3) ''bankCode'' b) (\<lambda>bank.
     bindE (stringField (matches_digits 10) ''recipientAccountNumber'' b) (\<lambda>number.
     bindE (stringField (Length 1 100) ''recipientAccountName'' b) (\<lambda>name.
     bindE (stringField is_decimal_amount ''amount'' b) (\<lambda>amount.
     bindE (stringField (Length 1 200) ''narration'' b) (\<lambda>narration.
     Inr \<lparr>et_sourceAccountId = src, et_bankCode = bank, et_recipientAccountNumber = number,
          et_recipientAccountName = name, et_amount = amount, et_narration = narration\<rparr>)))))))"

section \<open>Compliance\<close>

definition SubmitBvnVerificationDto_validate :: "body \<Rightarrow> exn + string" where
  "SubmitBvnVerificationDto_validate b =
     bindE (declared [''bvn''] b) (\<lambda>_. stringField (matches_digits 11) ''bvn'' b)"

definition SubmitNinVerificationDto_validate :: "body \<Rightarrow> exn + string" where
  "SubmitNinVerificationDto_validate b =
     bindE (declared [''nin''] b) (\<lambda>_. stringField (matches_digits 11) ''nin'' b)"

record overrideDto =
  ov_number :: string
  ov_reason :: string

definition ManualBvnOverrideDto_validate :: "body \<Rightarrow> exn + overrideDto" where
  "ManualBvnOverrideDto_validate b =
     bindE (declared [''bvn'', ''reason''] b) (\<lambda>_.
     bindE (stringField (matches_digits 11) ''bvn'' b) (\<lambda>n.
     bindE (stringField (MinLength 10) ''reason'' b) (\<lambda>reason.
     Inr \<lparr>ov_number = n, ov_reason = reason\<rparr>)))"

definition ManualNinOverrideDto_validate :: "body \<Rightarrow> exn + overrideDto" where
  "ManualNinOverrideDto_validate b =
     bindE (declared [''nin'', ''reason''] b) (\<lambda>_.
     bindE (stringField (matches_digits 11) ''nin'' b) (\<lambda>n.
     bindE (stringField (MinLength 10) ''reason'' b) (\<lambda>reason.
     Inr \<lparr>ov_number = n, ov_reason = reason\<rparr>)))"

definition ClearSanctionsFlagDto_validate :: "body \<Rightarrow> exn + string" where
  "ClearSanctionsFlagDto_validate b =
     bindE (declared [''reason''] b) (\<lambda>_. stringField (MinLength 10) ''reason'' b)"

section \<open>From a body to a route\<close>

text \<open>The routes that take a body, with their path parameters, and the call of the method once it is validated.\<close>

datatype endpoint =
    EpRegister | EpLogin | EpRefresh | EpLogout | EpChangePassword | EpOpen | EpCredit string | EpDebit string
  | EpFreeze string | EpInternal | EpExternal | EpClearFlag string | EpStaffBvn string | EpStaffNin string
  | EpStaffFreeze string | EpVerifyBvn | EpVerifyNin

fun endpoint_route :: "validator \<Rightarrow> endpoint \<Rightarrow> body \<Rightarrow> exn + route" where
  "endpoint_route V EpRegister b = bindE (RegisterUserDto_validate V b) (\<lambda>d.
     Inr (PostRegister (rd_email d) (rd_phoneNumber d) (rd_password d) (rd_firstName d) (rd_lastName d)))"
| "endpoint_route V EpLogin b = bindE (LoginDto_validate V b) (\<lambda>d. Inr (PostLogin (ld_email d) (ld_password d)))"
| "endpoint_route V EpRefresh b = bindE (RefreshTokenDto_validate b) (\<lambda>t. Inr (PostRefresh t))"
| "endpoint_route V EpLogout b = bindE (RefreshTokenDto_validate b) (\<lambda>t. Inr (PostLogout t))"
| "endpoint_route V EpChangePassword b = bindE (ChangePasswordDto_validate b) (\<lambda>d.
     Inr (PostChangePassword (cp_currentPassword d) (cp_newPassword d)))"
| "endpoint_route V EpOpen b = bindE (OpenAccountDto_validate b) (\<lambda>d. Inr (PostAccount (oa_accountType d) (oa_currency d)))"
| "endpoint_route V (EpCredit i) b = bindE (CreditAccountDto_validate b) (\<lambda>d.
     Inr (PostCredit i (am_amount d) (am_currency d) (am_reference d)))"
| "endpoint_route V (EpDebit i) b = bindE (DebitAccountDto_validate b) (\<lambda>d.
     Inr (PostDebit i (am_amount d) (am_currency d) (am_reference d)))"
| "endpoint_route V (EpFreeze i) b = bindE (FreezeAccountDto_validate b) (\<lambda>r. Inr (PostFreeze i r))"
| "endpoint_route V EpInternal b = bindE (InitiateInternalTransferDto_validate V b) (\<lambda>d.
     Inr (PostInternal (it_sourceAccountId d) (it_destinationAccountId d) (it_amount d) (it_narration d)))"
| "endpoint_route V EpExternal b = bindE (InitiateExternalTransferDto_validate V b) (\<lambda>d.
     Inr (PostExternal (et_sourceAccountId d) (et_bankCode d) (et_recipientAccountNumber d)
       (Some (et_recipientAccountName d)) (et_amount d) (et_narration d)))"
| "endpoint_route V (EpClearFlag u) b = bindE (ClearSanctionsFlagDto_validate b) (\<lambda>r. Inr (PostClearFlag u r))"
| "endpoint_route V (EpStaffBvn u) b = bindE (ManualBvnOverrideDto_validate b) (\<lambda>d.
     Inr (PostStaffBvn u (ov_number d) (ov_reason d)))"
| "endpoint_route V (EpStaffNin u) b = bindE (ManualNinOverrideDto_validate b) (\<lambda>d.
     Inr (PostStaffNin u (ov_number d) (ov_reason d)))"
| "endpoint_route V (EpStaffFreeze i) b = bindE (FreezeAccountDto_validate b) (\<lambda>r. Inr (PostStaffFreeze i r))"
| "endpoint_route V EpVerifyBvn b = bindE (SubmitBvnVerificationDto_validate b) (\<lambda>n. Inr (PostVerifyBvn n))"
| "endpoint_route V EpVerifyNin b = bindE (SubmitNinVerificationDto_validate b) (\<lambda>n. Inr (PostVerifyNin n))"

section \<open>What the handlers can rely on\<close>

text \<open>
  What a validated request is, independently of the classes: the body has no other names than the ones
  listed, the texts under them are the fields of the call, each of the length or form stated, and the
  domain's own constructors accept the values that have one and change nothing in them. Nothing is
  asked of a reference of a credit or debit and of a refresh token but that they are texts; they may be
  empty.
\<close>

definition textOf :: "body \<Rightarrow> string \<Rightarrow> string option" where
  "textOf b name = (case map_of b name of Some (JString s) \<Rightarrow> Some s | _ \<Rightarrow> None)"

definition onlyNames :: "string list \<Rightarrow> body \<Rightarrow> bool" where
  "onlyNames names b \<longleftrightarrow> fst ` set b \<subseteq> set names"

definition moneyText :: "string \<Rightarrow> currency \<Rightarrow> bool" where
  "moneyText s c \<longleftrightarrow> (\<exists>m. fromDecimalString s c = Inr m \<and> money_ok m)"

text \<open>A currency is the one named, naira where the body has none, and none where it is null.\<close>

definition currencyOf :: "body \<Rightarrow> currency option \<Rightarrow> bool" where
  "currencyOf b c \<longleftrightarrow> (case map_of b ''currency'' of
     None \<Rightarrow> c = Some NGN | Some JNull \<Rightarrow> c = None | Some (JString s) \<Rightarrow> (\<exists>x. c = Some x \<and> currency_str x = s) | _ \<Rightarrow> False)"

definition amountRequest :: "body \<Rightarrow> string \<Rightarrow> currency option \<Rightarrow> string \<Rightarrow> bool" where
  "amountRequest b amount c reference \<longleftrightarrow> onlyNames [''amount'', ''currency'', ''reference''] b \<and>
     textOf b ''amount'' = Some amount \<and> moneyText amount (orNGN c) \<and> currencyOf b c \<and> textOf b ''reference'' = Some reference"

definition reasonRequest :: "nat \<Rightarrow> nat option \<Rightarrow> body \<Rightarrow> string \<Rightarrow> bool" where
  "reasonRequest low high b reason \<longleftrightarrow> onlyNames [''reason''] b \<and> textOf b ''reason'' = Some reason \<and>
     low \<le> length reason \<and> (case high of None \<Rightarrow> True | Some h \<Rightarrow> length reason \<le> h)"

definition overrideRequest :: "string \<Rightarrow> body \<Rightarrow> string \<Rightarrow> string \<Rightarrow> bool" where
  "overrideRequest name b n reason \<longleftrightarrow> onlyNames [name, ''reason''] b \<and> textOf b name = Some n \<and>
     textOf b ''reason'' = Some reason \<and> 10 \<le> length reason"

fun accepted_request :: "validator \<Rightarrow> endpoint \<Rightarrow> body \<Rightarrow> route \<Rightarrow> bool" where
  "accepted_request V EpRegister b r \<longleftrightarrow> (\<exists>email phone password first name.
     r = PostRegister email phone password first name \<and>
     onlyNames [''email'', ''phoneNumber'', ''password'', ''firstName'', ''lastName''] b \<and>
     textOf b ''email'' = Some email \<and> vd_isEmail V email \<and>
     textOf b ''phoneNumber'' = Some phone \<and> PhoneNumber_create phone = Inr (PhoneNumber phone) \<and>
     textOf b ''password'' = Some password \<and> 8 \<le> length password \<and> length password \<le> 128 \<and>
     textOf b ''firstName'' = Some first \<and> 1 \<le> length first \<and> length first \<le> 100 \<and>
     textOf b ''lastName'' = Some name \<and> 1 \<le> length name \<and> length name \<le> 100)"
| "accepted_request V EpLogin b r \<longleftrightarrow> (\<exists>email password. r = PostLogin email password \<and>
     onlyNames [''email'', ''password''] b \<and> textOf b ''email'' = Some email \<and> vd_isEmail V email \<and>
     textOf b ''password'' = Some password)"
| "accepted_request V EpRefresh b r \<longleftrightarrow> (\<exists>t. r = PostRefresh t \<and> onlyNames [''refreshToken''] b \<and>
     textOf b ''refreshToken'' = Some t)"
| "accepted_request V EpLogout b r \<longleftrightarrow> (\<exists>t. r = PostLogout t \<and> onlyNames [''refreshToken''] b \<and>
     textOf b ''refreshToken'' = Some t)"
| "accepted_request V EpChangePassword b r \<longleftrightarrow> (\<exists>old new. r = PostChangePassword old new \<and>
     onlyNames [''currentPassword'', ''newPassword''] b \<and> textOf b ''currentPassword'' = Some old \<and>
     textOf b ''newPassword'' = Some new \<and> 8 \<le> length new \<and> length new \<le> 128)"
| "accepted_request V EpOpen b r \<longleftrightarrow> (\<exists>type c. r = PostAccount type c \<and> onlyNames [''accountType'', ''currency''] b \<and>
     textOf b ''accountType'' = Some (accountType_str type) \<and> currencyOf b c)"
| "accepted_request V (EpCredit i) b r \<longleftrightarrow> (\<exists>amount c reference. r = PostCredit i amount c reference \<and> amountRequest b amount c reference)"
| "accepted_request V (EpDebit i) b r \<longleftrightarrow> (\<exists>amount c reference. r = PostDebit i amount c reference \<and> amountRequest b amount c reference)"
| "accepted_request V (EpFreeze i) b r \<longleftrightarrow> (\<exists>reason. r = PostFreeze i reason \<and> reasonRequest 3 (Some 500) b reason)"
| "accepted_request V EpInternal b r \<longleftrightarrow> (\<exists>src dst amount narration. r = PostInternal src dst amount narration \<and>
     onlyNames [''sourceAccountId'', ''destinationAccountId'', ''amount'', ''narration''] b \<and>
     textOf b ''sourceAccountId'' = Some src \<and> vd_isUUID V src \<and> textOf b ''destinationAccountId'' = Some dst \<and> vd_isUUID V dst \<and>
     textOf b ''amount'' = Some amount \<and> (\<forall>c. moneyText amount c) \<and>
     textOf b ''narration'' = Some narration \<and> 1 \<le> length narration \<and> length narration \<le> 200)"
| "accepted_request V EpExternal b r \<longleftrightarrow> (\<exists>src bank number name amount narration.
     r = PostExternal src bank number (Some name) amount narration \<and>
     onlyNames [''sourceAccountId'', ''bankCode'', ''recipientAccountNumber'', ''recipientAccountName'', ''amount'', ''narration''] b \<and>
     textOf b ''sourceAccountId'' = Some src \<and> vd_isUUID V src \<and> textOf b ''bankCode'' = Some bank \<and>
     textOf b ''recipientAccountNumber'' = Some number \<and> textOf b ''recipientAccountName'' = Some name \<and>
     1 \<le> length name \<and> length name \<le> 100 \<and>
     ExternalRecipient_create bank number (Some name) =
       Inr \<lparr>er_bankCode = bank, er_accountNumber = number, er_accountName = Some name\<rparr> \<and>
     textOf b ''amount'' = Some amount \<and> (\<forall>c. moneyText amount c) \<and>
     textOf b ''narration'' = Some narration \<and> 1 \<le> length narration \<and> length narration \<le> 200)"
| "accepted_request V (EpClearFlag u) b r \<longleftrightarrow> (\<exists>reason. r = PostClearFlag u reason \<and> reasonRequest 10 None b reason)"
| "accepted_request V (EpStaffBvn u) b r \<longleftrightarrow> (\<exists>n reason. r = PostStaffBvn u n reason \<and> overrideRequest ''bvn'' b n reason \<and>
     Bvn_create n = Inr (Bvn n))"
| "accepted_request V (EpStaffNin u) b r \<longleftrightarrow> (\<exists>n reason. r = PostStaffNin u n reason \<and> overrideRequest ''nin'' b n reason \<and>
     Nin_create n = Inr (Nin n))"
| "accepted_request V (EpStaffFreeze i) b r \<longleftrightarrow> (\<exists>reason. r = PostStaffFreeze i reason \<and> reasonRequest 3 (Some 500) b reason)"
| "accepted_request V EpVerifyBvn b r \<longleftrightarrow> (\<exists>n. r = PostVerifyBvn n \<and> onlyNames [''bvn''] b \<and> textOf b ''bvn'' = Some n \<and>
     Bvn_create n = Inr (Bvn n))"
| "accepted_request V EpVerifyNin b r \<longleftrightarrow> (\<exists>n. r = PostVerifyNin n \<and> onlyNames [''nin''] b \<and> textOf b ''nin'' = Some n \<and>
     Nin_create n = Inr (Nin n))"

lemma stringField_Inr: "stringField cond name b = Inr s \<longleftrightarrow> textOf b name = Some s \<and> cond s"
  by (auto simp: stringField_def textOf_def BadRequest_def split: option.splits json.splits if_splits)

lemma declared_Inr: "declared names b = Inr u \<longleftrightarrow> onlyNames names b"
  by (auto simp: declared_def onlyNames_def list_all_iff BadRequest_def)

lemma enumField_Inr:
  "enumField f name b = Inr e \<longleftrightarrow> (\<exists>s. textOf b name = Some s \<and> f s = Some e)"
  by (auto simp: enumField_def textOf_def BadRequest_def split: option.splits json.splits)

lemma currencyOfText_Some: "currencyOfText s = Some c \<longleftrightarrow> currency_str c = s"
  by (cases c) (auto simp: currencyOfText_def)

lemma currencyOfText_str [simp]: "currencyOfText (currency_str c) = Some c"
  by (simp add: currencyOfText_Some)

lemma accountTypeOfText_Some: "accountTypeOfText s = Some t \<longleftrightarrow> accountType_str t = s"
  by (cases t) (auto simp: accountTypeOfText_def)

lemma currencyField_Inr: "currencyField b = Inr c \<longleftrightarrow> currencyOf b c"
  by (auto simp: currencyField_def currencyOf_def bindE_eq_Inr enumField_def BadRequest_def currencyOfText_Some
      split: option.splits json.splits)

lemma decimal_accepted: "is_decimal_amount s \<Longrightarrow> moneyText s c"
proof -
  assume "is_decimal_amount s"
  then obtain m where "fromDecimalString s c = Inr m" by (cases "split_decimal s") (auto simp: fromDecimalString_def)
  then show ?thesis using fromDecimalString_ok unfolding moneyText_def by blast
qed

lemma e164_accepted: "is_e164 s \<Longrightarrow> PhoneNumber_create s = Inr (PhoneNumber s)"
proof -
  assume s: "is_e164 s"
  then have "trim s = s" "filter (\<lambda>c. \<not> is_space c \<and> c \<noteq> CHR ''-'') s = s"
    using e164_plain by (auto intro!: trim_no_space filter_True)
  moreover have "s \<noteq> []" using s by (auto simp: is_e164_def)
  ultimately show ?thesis using s by (simp add: PhoneNumber_create_def)
qed

lemma digits_accepted:
  "matches_digits 11 s \<Longrightarrow> Bvn_create s = Inr (Bvn s)" "matches_digits 11 s \<Longrightarrow> Nin_create s = Inr (Nin s)"
  "matches_digits 3 bank \<Longrightarrow> matches_digits 10 number \<Longrightarrow> ExternalRecipient_create bank number name =
     Inr \<lparr>er_bankCode = bank, er_accountNumber = number, er_accountName = name\<rparr>"
  by (auto simp: Bvn_create_def Nin_create_def ExternalRecipient_create_def matches_digits_def)

lemmas dto_defs = RegisterUserDto_validate_def LoginDto_validate_def RefreshTokenDto_validate_def
  ChangePasswordDto_validate_def OpenAccountDto_validate_def CreditAccountDto_validate_def DebitAccountDto_validate_def
  FreezeAccountDto_validate_def InitiateInternalTransferDto_validate_def InitiateExternalTransferDto_validate_def
  SubmitBvnVerificationDto_validate_def SubmitNinVerificationDto_validate_def ManualBvnOverrideDto_validate_def
  ManualNinOverrideDto_validate_def ClearSanctionsFlagDto_validate_def

lemmas dto_fields = stringField_Inr declared_Inr enumField_Inr currencyField_Inr currencyOfText_Some accountTypeOfText_Some
  amountRequest_def reasonRequest_def overrideRequest_def Length_def MinLength_def

text \<open>
  C27. What passes validation suits the domain: for every body of every route that takes one, a validated
  call carries exactly the texts of the body, which has no undeclared names; its amounts are amounts of
  money, its phone number, BVN, NIN and recipient are accepted by the domain's own constructors as they
  are, an account type and a currency are the ones named, and passwords, names, narrations and reasons
  have the lengths the classes state. References and refresh tokens are texts of any length.
\<close>

theorem validated_requests_accepted:
  assumes "endpoint_route V ep b = Inr r"
  shows "accepted_request V ep b r"
  using assms
  by (cases ep)
    (auto simp: bindE_eq_Inr dto_defs dto_fields intro: decimal_accepted e164_accepted digits_accepted)

text \<open>
  The length of a password is checked twice, differently: eight characters pass the validation of a
  registration, and the domain refuses them.
\<close>

theorem short_password_passes_validation:
  assumes "vd_isEmail V e" and "is_e164 phone" and "length password = 8"
  shows "endpoint_route V EpRegister [(''email'', JString e), (''phoneNumber'', JString phone), (''password'', JString password),
      (''firstName'', JString ''Ada''), (''lastName'', JString ''Obi'')] = Inr (PostRegister e phone password ''Ada'' ''Obi'') \<and>
    PlainPassword_create password = Inl (DomainException ''Password must be at least 10 characters'' ''WEAK_PASSWORD'')"
  using assms
  by (auto simp: RegisterUserDto_validate_def declared_def stringField_def Length_def PlainPassword_create_def)

section \<open>Examples\<close>

definition exampleValidator :: validator where
  "exampleValidator = \<lparr>vd_isEmail = (\<lambda>s. CHR ''@'' \<in> set s), vd_isUUID = (\<lambda>s. s \<noteq> [])\<rparr>"

definition payBody :: body where
  "payBody =
     [(''sourceAccountId'', JString ''a1''), (''bankCode'', JString ''058''), (''recipientAccountNumber'', JString ''0123456789''),
      (''recipientAccountName'', JString ''Musa''), (''amount'', JString ''1500.5''), (''narration'', JString ''rent'')]"

theorem validated_requests_accepted_witness:
  "accepted_request exampleValidator EpExternal payBody (PostExternal ''a1'' ''058'' ''0123456789'' (Some ''Musa'') ''1500.5'' ''rent'')"
proof (rule validated_requests_accepted)
  show "endpoint_route exampleValidator EpExternal payBody =
    Inr (PostExternal ''a1'' ''058'' ''0123456789'' (Some ''Musa'') ''1500.5'' ''rent'')" by code_simp
qed

theorem short_password_passes_validation_witness:
  "PlainPassword_create ''12345678'' = Inl (DomainException ''Password must be at least 10 characters'' ''WEAK_PASSWORD'')"
proof -
  have "vd_isEmail exampleValidator ''a@b.ng''" "is_e164 ''+2348012345678''" "length ''12345678'' = 8" by code_simp+
  from short_password_passes_validation [OF this] show ?thesis by blast
qed

end
