(* ===== verification/JsNumber.thy ===== *)
theory JsNumber
  imports Money Complex_Main "HOL-Library.Log_Nat"
begin

text \<open>
  The Number arithmetic of the web client's amount fields: \<open>parseFloat\<close> of a text of digits and points,
  multiplication and division with rounding to the nearest binary64 value, \<open>Math.round\<close> and
  \<open>toFixed(2)\<close>, with NaN, the infinities and the exponent notation where JavaScript has them; and
  that none of the roundings shows for amounts below \<open>2 ^ 50\<close> kobo.
\<close>

section \<open>Numbers and rounding\<close>

text \<open>A Number that is finite is its exact value; the sign of zero does not matter to the code.\<close>

datatype js_number = NaN | Infinity | NegInfinity | Fin rat

text \<open>To the nearest integer, ties to the even one.\<close>

definition nearestEven :: "rat \<Rightarrow> int" where
  "nearestEven q =
     (let f = \<lfloor>q\<rfloor>; d = q - of_int f in if d < 1 / 2 \<or> d = 1 / 2 \<and> even f then f else f + 1)"

text \<open>The exponent of the largest power of two up to a positive rational.\<close>

definition binade :: "rat \<Rightarrow> int" where
  "binade x =
     (case quotient_of x of (p, q) \<Rightarrow>
        let e = bitlen p - bitlen q in if 2 powi e \<le> x then e else e - 1)"

text \<open>The Number for a real value: 53 significant bits, subnormals below \<open>2 ^ -1022\<close>, infinity from \<open>2 ^ 1024\<close>.\<close>

definition number :: "rat \<Rightarrow> js_number" where
  "number x =
     (if x = 0 then Fin 0
      else
        (let u = max (binade \<bar>x\<bar> - 52) (- 1074); r = of_int (nearestEven (x / 2 powi u)) * 2 powi u
         in if 2 powi 1024 \<le> r then Infinity else if r \<le> - (2 powi 1024) then NegInfinity else Fin r))"

text \<open>Multiplication by, and division by, a positive constant; comparisons with a constant are false of NaN.\<close>

fun js_times :: "js_number \<Rightarrow> rat \<Rightarrow> js_number" where
  "js_times (Fin x) c = number (x * c)"
| "js_times x c = x"

fun js_over :: "js_number \<Rightarrow> rat \<Rightarrow> js_number" where
  "js_over (Fin x) c = number (x / c)"
| "js_over x c = x"

fun js_atMost :: "js_number \<Rightarrow> rat \<Rightarrow> bool" where
  "js_atMost NaN c = False"
| "js_atMost Infinity c = False"
| "js_atMost NegInfinity c = True"
| "js_atMost (Fin x) c = (x \<le> c)"

fun js_below :: "js_number \<Rightarrow> rat \<Rightarrow> bool" where
  "js_below NaN c = False"
| "js_below Infinity c = False"
| "js_below NegInfinity c = True"
| "js_below (Fin x) c = (x < c)"

text \<open>\<open>Math.round\<close>: to the nearest integer, ties upwards.\<close>

fun Math_round :: "js_number \<Rightarrow> js_number" where
  "Math_round (Fin x) = Fin (of_int \<lfloor>x + 1 / 2\<rfloor>)"
| "Math_round x = x"

section \<open>Reading a number\<close>

text \<open>The value of the longest decimal literal a text of digits and points starts with.\<close>

definition decimal_prefix :: "string \<Rightarrow> rat option" where
  "decimal_prefix s =
     (let whole = takeWhile is_digit s;
          frac = (case dropWhile is_digit s of c # cs \<Rightarrow> if c = CHR ''.'' then takeWhile is_digit cs else [] | [] \<Rightarrow> [])
      in if whole @ frac = [] then None else Some (of_nat (digits_val (whole @ frac)) / 10 ^ length frac))"

text \<open>
  \<open>parseFloat\<close> on such texts, with the value rounded to the nearest Number (the language lets an engine
  ignore the digits after the twentieth).
\<close>

definition parseFloat :: "string \<Rightarrow> js_number" where
  "parseFloat s = (case decimal_prefix s of None \<Rightarrow> NaN | Some v \<Rightarrow> number v)"

section \<open>Writing a number\<close>

text \<open>The significant digits of a number of \<open>n\<close> digits before the point: the shortest that read back as it.\<close>

definition significand :: "rat \<Rightarrow> int \<Rightarrow> nat \<Rightarrow> int option" where
  "significand x n k =
     (let q = x / 10 powi (n - int k)
      in List.find (\<lambda>s. 10 ^ (k - 1) \<le> s \<and> s < 10 ^ k \<and> number (of_int s * 10 powi (n - int k)) = Fin x)
           [\<lfloor>q + 1 / 2\<rfloor>, \<lfloor>q\<rfloor>, \<lceil>q\<rceil>])"

text \<open>\<open>String(x)\<close> from \<open>10 ^ 21\<close> on; seventeen digits always suffice.\<close>

definition exponential :: "rat \<Rightarrow> string" where
  "exponential x =
     (let n = int (length (nat_str (nat \<lfloor>x\<rfloor>)));
          k = (case List.find (\<lambda>k. significand x n k \<noteq> None) [1..<17] of Some k \<Rightarrow> k | None \<Rightarrow> 17);
          ds = nat_str (nat (case significand x n k of Some s \<Rightarrow> s | None \<Rightarrow> \<lfloor>x / 10 powi (n - 17)\<rfloor>))
      in take 1 ds @ (if k = 1 then [] else CHR ''.'' # drop 1 ds) @ ''e+'' @ nat_str (nat (n - 1)))"

definition hundredths :: "nat \<Rightarrow> string" where
  "hundredths n = nat_str (n div 100) @ CHR ''.'' # pad_start 2 (CHR ''0'') (nat_str (n mod 100))"

definition fixed2 :: "rat \<Rightarrow> string" where
  "fixed2 x = (if x < 10 ^ 21 then hundredths (nat \<lfloor>x * 100 + 1 / 2\<rfloor>) else exponential x)"

fun toFixed2 :: "js_number \<Rightarrow> string" where
  "toFixed2 NaN = ''NaN''"
| "toFixed2 Infinity = ''Infinity''"
| "toFixed2 NegInfinity = ''-Infinity''"
| "toFixed2 (Fin x) = (if x < 0 then CHR ''-'' # fixed2 (- x) else fixed2 x)"

section \<open>Only decimals below ten to the twenty-first\<close>

lemma int_quotients: "int n div 100 = int (n div 100)" "int n mod 100 = int (n mod 100)"
  by (simp_all add: zdiv_int zmod_int)

lemma hundredths_major: "hundredths n = toMajorUnitsString \<lparr>minorUnits = int n, moneyCurrency = c\<rparr>"
  by (simp add: hundredths_def toMajorUnitsString_def Let_def int_quotients)

lemma hundredths_decimal: "is_decimal_amount (hundredths n)"
  using minor_field [of "int n"] by (simp add: hundredths_def is_decimal_amount_frac int_quotients)

lemma is_decimal_amount_chars: "is_decimal_amount s \<Longrightarrow> c \<in> set s \<Longrightarrow> is_digit c \<or> c = CHR ''.''"
  by (cases rule: is_decimal_amount_cases, assumption) (auto simp: list_all_iff dest: set_takeWhileD)

lemma exponential_not_decimal: "\<not> is_decimal_amount (exponential x)"
proof
  assume "is_decimal_amount (exponential x)"
  from is_decimal_amount_chars [OF this, of "CHR ''e''"] show False
    by (simp add: exponential_def Let_def is_digit_def)
qed

lemma toFixed2_decimal: "is_decimal_amount (toFixed2 a) \<longleftrightarrow> (\<exists>x. a = Fin x \<and> 0 \<le> x \<and> x < 10 ^ 21)"
proof (cases a)
  case (Fin x)
  have "\<not> is_decimal_amount (CHR ''-'' # s)" for s
    using is_decimal_amount_chars [of "CHR ''-'' # s" "CHR ''-''"] by (auto simp: is_digit_def)
  with Fin show ?thesis by (simp add: fixed2_def hundredths_decimal exponential_not_decimal)
qed (simp_all add: is_decimal_amount_def is_digit_def)

section \<open>How far rounding moves a number\<close>

lemma nearestEven_close: "\<bar>of_int (nearestEven q) - q\<bar> \<le> 1 / 2"
proof -
  have "of_int \<lfloor>q\<rfloor> \<le> q" "q < of_int \<lfloor>q\<rfloor> + 1" by linarith+
  then show ?thesis by (auto simp: nearestEven_def Let_def abs_le_iff)
qed

lemma number_nonneg: "0 \<le> x \<Longrightarrow> number x = Fin r \<Longrightarrow> 0 \<le> r"
proof -
  have "0 \<le> nearestEven q" if "0 \<le> q" for q using that by (simp add: nearestEven_def Let_def)
  then show "0 \<le> x \<Longrightarrow> number x = Fin r \<Longrightarrow> 0 \<le> r" by (auto simp: number_def Let_def split: if_splits)
qed

lemma bitlen_rat:
  assumes "0 < p"
  shows "2 powi (bitlen p - 1) \<le> (of_int p :: rat)" and "of_int p < (2 powi bitlen p :: rat)"
proof -
  have pos: "0 < bitlen p" using assms bitlen_nonneg [of p] bitlen_eq_zero_iff [of p] by linarith
  from bitlen_bounds [OF assms] have "2 ^ nat (bitlen p - 1) \<le> p" "p < 2 ^ nat (bitlen p)" by simp_all
  then have "(2 :: rat) ^ nat (bitlen p - 1) \<le> of_int p" "of_int p < (2 :: rat) ^ nat (bitlen p)"
    by (metis of_int_le_iff of_int_less_iff of_int_power of_int_numeral)+
  with pos show "2 powi (bitlen p - 1) \<le> (of_int p :: rat)" "of_int p < (2 powi bitlen p :: rat)"
    by (simp_all add: power_int_def)
qed

lemma binade_bounds:
  assumes "0 < x"
  shows "2 powi binade x \<le> x" and "x < 2 powi (binade x + 1)"
proof -
  obtain p q where pq: "quotient_of x = (p, q)" by fastforce
  have q: "0 < q" by (rule quotient_of_denom_pos [OF pq])
  have x: "x = of_int p / of_int q" by (rule quotient_of_div [OF pq])
  with assms q have p: "0 < p" by (simp add: zero_less_divide_iff)
  let ?e = "bitlen p - bitlen q"
  have eq: "of_int p = x * of_int q" using x q by simp
  have pow: "2 powi bitlen p = (2 powi (?e + 1) * 2 powi (bitlen q - 1) :: rat)"
    "2 powi (bitlen p - 1) = (2 powi (?e - 1) * 2 powi bitlen q :: rat)"
    by (simp_all flip: power_int_add)
  have "x * 2 powi (bitlen q - 1) \<le> x * of_int q" using bitlen_rat(1) [OF q] assms by simp
  also have "\<dots> < 2 powi (?e + 1) * 2 powi (bitlen q - 1)" using bitlen_rat(2) [OF p] eq pow(1) by simp
  finally have up: "x < 2 powi (?e + 1)" by simp
  have "2 powi (?e - 1) * 2 powi bitlen q \<le> x * of_int q" using bitlen_rat(1) [OF p] eq pow(2) by simp
  also have "\<dots> < x * 2 powi bitlen q" using bitlen_rat(2) [OF q] assms by simp
  finally have lo: "2 powi (?e - 1) < x" by simp
  show "2 powi binade x \<le> x" "x < 2 powi (binade x + 1)"
    using up lo by (auto simp: binade_def pq Let_def)
qed

text \<open>Between \<open>2 ^ -1022\<close> and \<open>2 ^ 1023\<close> the relative error is at most \<open>2 ^ -53\<close>.\<close>

lemma number_close:
  assumes "2 powi (- 1022) \<le> x" and "x < 2 powi 1023"
  shows "\<exists>r. number x = Fin r \<and> \<bar>r - x\<bar> \<le> x / 2 ^ 53"
proof -
  have pos: "0 < x" using assms(1) by (rule less_le_trans [rotated]) simp
  let ?b = "binade x" and ?u = "binade x - 52"
  let ?r = "of_int (nearestEven (x / 2 powi ?u)) * 2 powi ?u :: rat"
  note b = binade_bounds [OF pos]
  have "(2 :: rat) powi (- 1022) < 2 powi (?b + 1)" using assms(1) b(2) by (rule le_less_trans)
  then have "- 1022 < ?b + 1" using power_int_increasing [of "?b + 1" "- 1022" "2 :: rat"] by linarith
  then have norm: "max ?u (- 1074) = ?u" by simp
  have u: "(2 :: rat) powi ?u = 2 powi ?b / 2 ^ 52" by (simp add: power_int_diff)
  have "?r - x = (of_int (nearestEven (x / 2 powi ?u)) - x / 2 powi ?u) * 2 powi ?u" by (simp add: left_diff_distrib)
  then have "\<bar>?r - x\<bar> \<le> 1 / 2 * 2 powi ?u"
    using mult_right_mono [OF nearestEven_close, of "2 powi ?u"] by (simp add: abs_mult)
  also have "\<dots> \<le> x / 2 ^ 53" using b(1) by (simp add: u field_simps)
  finally have close: "\<bar>?r - x\<bar> \<le> x / 2 ^ 53" .
  have "x / 2 ^ 53 < x" using pos by simp
  with close have "?r < 2 * x" "0 < ?r" by linarith+
  moreover have "2 * x < 2 powi 1024" using assms(2) by simp
  ultimately have "?r < 2 powi 1024" "- (2 powi 1024) < ?r" by linarith+
  with pos close norm show ?thesis by (simp add: number_def Let_def)
qed

section \<open>Kobo below two to the fiftieth are exact\<close>

lemma number_near:
  assumes "1 / 128 \<le> x" and "x < 2 ^ 60"
  shows "\<exists>r. number x = Fin r \<and> \<bar>r - x\<bar> \<le> x / 2 ^ 53"
proof (rule number_close)
  have "2 powi (- 1022) \<le> (2 powi (- 7) :: rat)" by (rule power_int_increasing) simp_all
  also have "\<dots> \<le> x" using assms(1) by (simp add: power_int_minus)
  finally show "2 powi (- 1022) \<le> x" .
  have "x < 2 powi 60" using assms(2) by simp
  also have "(2 powi 60 :: rat) \<le> 2 powi 1023" by (rule power_int_increasing) simp_all
  finally show "x < 2 powi 1023" .
qed

lemma nearest_int: "\<bar>x - of_nat n\<bar> < 1 / 2 \<Longrightarrow> \<lfloor>x + 1 / 2 :: rat\<rfloor> = int n"
proof -
  assume "\<bar>x - of_nat n\<bar> < 1 / 2"
  then have "of_nat n \<le> x + 1 / 2" "x + 1 / 2 < of_nat n + 1" by linarith+
  then show ?thesis by (simp add: floor_eq_iff)
qed

lemma kobo_range:
  assumes "n \<noteq> 0" and "n < 2 ^ 50"
  shows "1 \<le> (of_nat n :: rat)" and "of_nat n < (2 ^ 50 :: rat)"
proof -
  have "of_nat 1 \<le> (of_nat n :: rat)" "of_nat n < (of_nat (2 ^ 50) :: rat)"
    using assms by (simp_all only: of_nat_le_iff of_nat_less_iff Suc_le_eq neq0_conv One_nat_def)
  then show "1 \<le> (of_nat n :: rat)" "of_nat n < (2 ^ 50 :: rat)" by (simp_all only: of_nat_1 of_nat_power of_nat_numeral)
qed

lemma near_kobo:
  fixes y m :: rat
  assumes "\<bar>y - m\<bar> \<le> m / 2 ^ 53" and "1 \<le> m" and "m < 2 ^ 50"
  shows "1 / 2 \<le> y" and "y < 2 ^ 51" and "\<bar>y - m\<bar> < 1 / 8"
proof -
  have "m / 2 ^ 53 < 1 / 8" using assms(3) by simp
  with assms(1) show "\<bar>y - m\<bar> < 1 / 8" by (rule le_less_trans)
  then have "m - 1 / 8 < y" "y < m + 1 / 8" by linarith+
  with assms(2,3) show "1 / 2 \<le> y" "y < 2 ^ 51" by simp_all
qed

lemma typed_exact:
  assumes "n < 2 ^ 50"
  shows "Math_round (js_times (number (of_nat n / 100)) 100) = Fin (of_nat n)"
proof (cases "n = 0")
  case False
  let ?n = "of_nat n :: rat"
  note n = kobo_range [OF False assms]
  obtain r where r: "number (?n / 100) = Fin r" "\<bar>r - ?n / 100\<bar> \<le> (?n / 100) / 2 ^ 53"
    using number_near [of "?n / 100"] n by auto
  from r(2) have y: "\<bar>r * 100 - ?n\<bar> \<le> ?n / 2 ^ 53" by (simp add: abs_le_iff field_simps)
  note near = near_kobo [OF y n]
  from near(1,2) have "1 / 128 \<le> r * 100" "r * 100 < 2 ^ 60" by simp_all
  then obtain r' where r': "number (r * 100) = Fin r'" "\<bar>r' - r * 100\<bar> \<le> r * 100 / 2 ^ 53"
    using number_near by blast
  have "r * 100 / 2 ^ 53 < 1 / 4" using near(2) by simp
  with r'(2) have "\<bar>r' - r * 100\<bar> < 1 / 4" by (rule le_less_trans)
  with near(3) have "\<bar>r' - ?n\<bar> < 1 / 2" by linarith
  from nearest_int [OF this] r(1) r'(1) show ?thesis by simp
qed (use nearest_int [of 0 0] in \<open>simp add: number_def\<close>)

lemma sent_exact:
  assumes "n < 2 ^ 50"
  shows "toFixed2 (js_over (Fin (of_nat n)) 100) = hundredths n"
proof (cases "n = 0")
  case False
  let ?n = "of_nat n :: rat"
  note n = kobo_range [OF False assms]
  obtain r where r: "number (?n / 100) = Fin r" "\<bar>r - ?n / 100\<bar> \<le> (?n / 100) / 2 ^ 53"
    using number_near [of "?n / 100"] n by auto
  from r(2) have y: "\<bar>r * 100 - ?n\<bar> \<le> ?n / 2 ^ 53" by (simp add: abs_le_iff field_simps)
  note near = near_kobo [OF y n]
  from near(3) have "\<bar>r * 100 - ?n\<bar> < 1 / 2" by linarith
  moreover from near(1,2) have "0 \<le> r" "r < 10 ^ 21" by simp_all
  ultimately show ?thesis using nearest_int [of "r * 100" n] r(1) by (simp add: fixed2_def)
qed (use nearest_int [of 0 0] in \<open>simp add: number_def fixed2_def\<close>)

text \<open>A text that names a number of kobo below that is read as it.\<close>

lemma parse_exact:
  "decimal_prefix s = Some (of_nat n / 100) \<Longrightarrow> n < 2 ^ 50 \<Longrightarrow> Math_round (js_times (parseFloat s) 100) = Fin (of_nat n)"
  by (simp add: parseFloat_def typed_exact)

end
