(* ===== verification/TransferScreen.thy ===== *)
theory TransferScreen
  imports JsNumber Requests Session "HOL-Library.Code_Target_Nat"
begin

text \<open>
  The transfer screen of the web client (\<^verbatim>\<open>frontend/src/features/transfer\<close>): its steps, the submission
  with its idempotency key, and the polling for the outcome; then what the backend makes of the
  submissions of one visit.
\<close>

section \<open>The steps before the confirmation\<close>

record recipient =
  rc_accountName :: string
  rc_accountNumber :: string
  rc_bankCode :: string
  rc_bankName :: string

record bank_entry =
  bk_code :: string
  bk_name :: string

definition BANKS :: "bank_entry list" where
  "BANKS =
     [\<lparr>bk_code = ''044'', bk_name = ''Access Bank''\<rparr>, \<lparr>bk_code = ''023'', bk_name = ''Citibank''\<rparr>,
      \<lparr>bk_code = ''050'', bk_name = ''EcoBank''\<rparr>, \<lparr>bk_code = ''011'', bk_name = ''First Bank''\<rparr>,
      \<lparr>bk_code = ''214'', bk_name = ''First City Monument Bank''\<rparr>, \<lparr>bk_code = ''058'', bk_name = ''GTBank''\<rparr>,
      \<lparr>bk_code = ''030'', bk_name = ''Heritage Bank''\<rparr>, \<lparr>bk_code = ''301'', bk_name = ''Jaiz Bank''\<rparr>,
      \<lparr>bk_code = ''082'', bk_name = ''Keystone Bank''\<rparr>, \<lparr>bk_code = ''076'', bk_name = ''Polaris Bank''\<rparr>,
      \<lparr>bk_code = ''101'', bk_name = ''Providus Bank''\<rparr>, \<lparr>bk_code = ''221'', bk_name = ''Stanbic IBTC Bank''\<rparr>,
      \<lparr>bk_code = ''068'', bk_name = ''Standard Chartered''\<rparr>, \<lparr>bk_code = ''232'', bk_name = ''Sterling Bank''\<rparr>,
      \<lparr>bk_code = ''100'', bk_name = ''Suntrust Bank''\<rparr>, \<lparr>bk_code = ''032'', bk_name = ''Union Bank''\<rparr>,
      \<lparr>bk_code = ''033'', bk_name = ''United Bank for Africa''\<rparr>, \<lparr>bk_code = ''215'', bk_name = ''Unity Bank''\<rparr>,
      \<lparr>bk_code = ''035'', bk_name = ''Wema Bank''\<rparr>, \<lparr>bk_code = ''057'', bk_name = ''Zenith Bank''\<rparr>]"

text \<open>What the field for the account number lets through.\<close>

definition typedAccountNumber :: "string \<Rightarrow> string" where
  "typedAccountNumber typed = filter is_digit (take 10 typed)"

definition recipientValid :: "string \<Rightarrow> string \<Rightarrow> string \<Rightarrow> bool" where
  "recipientValid accountNumber selectedBank accountName \<longleftrightarrow>
     length accountNumber = 10 \<and> selectedBank \<noteq> [] \<and> length (trim accountName) > 1"

definition confirmRecipient :: "bank_entry list \<Rightarrow> string \<Rightarrow> string \<Rightarrow> string \<Rightarrow> string + recipient" where
  "confirmRecipient banks accountNumber selectedBank accountName =
     (if \<not> recipientValid accountNumber selectedBank accountName
      then Inl ''Fill in bank, account number and recipient name.''
      else Inr \<lparr>rc_accountName = trim accountName, rc_accountNumber = accountNumber, rc_bankCode = selectedBank,
                rc_bankName = (case List.find (\<lambda>b. bk_code b = selectedBank) banks of Some b \<Rightarrow> bk_name b | None \<Rightarrow> [])\<rparr>)"

text \<open>
  What the field for the amount lets through, and the amount in kobo: \<open>NaN\<close> for a text like \<^verbatim>\<open>.\<close>,
  which passes both comparisons. The naira sign of the message is written out.
\<close>

definition typedAmount :: "string \<Rightarrow> string" where
  "typedAmount typed = filter (\<lambda>c. is_digit c \<or> c = CHR ''.'') typed"

definition amountKobo :: "string \<Rightarrow> js_number" where
  "amountKobo rawAmount = Math_round (js_times (parseFloat (if rawAmount = [] then ''0'' else rawAmount)) 100)"

definition handleNext :: "string \<Rightarrow> string \<Rightarrow> string + js_number \<times> string" where
  "handleNext rawAmount note =
     (if rawAmount = [] \<or> js_atMost (amountKobo rawAmount) 0 then Inl ''Enter an amount to send.''
      else if js_below (amountKobo rawAmount) 10000 then Inl ''Minimum transfer amount is NGN 100.''
      else Inr (amountKobo rawAmount, note))"

section \<open>The screen\<close>

datatype screenStep = RecipientStep | AmountStep | ConfirmStep | StatusStep

text \<open>The fields of the answer are spread into the result, status and reason are set over them.\<close>

record txResult =
  tx_fields :: "transferResponseDto option"
  tx_status :: string
  tx_reason :: "string option"

record poll =
  pl_reference :: string
  pl_initial :: transferResponseDto
  pl_polls :: nat
  pl_active :: bool

record screen =
  sc_step :: screenStep
  sc_recipient :: "recipient option"
  sc_amountKobo :: js_number
  sc_note :: string
  sc_txResult :: "txResult option"
  sc_isLoading :: bool
  sc_sourceAccountId :: "string option"
  sc_idempotencyKey :: "string option"
  sc_polls :: "poll list"

definition mountedScreen :: screen where
  "mountedScreen =
     \<lparr>sc_step = RecipientStep, sc_recipient = None, sc_amountKobo = Fin 0, sc_note = [], sc_txResult = None,
      sc_isLoading = False, sc_sourceAccountId = None, sc_idempotencyKey = None, sc_polls = []\<rparr>"

text \<open>The accounts are loaded when the screen is mounted.\<close>

definition accountsLoaded :: "accountResponse list \<Rightarrow> screen \<Rightarrow> screen" where
  "accountsLoaded accts s =
     s\<lparr>sc_sourceAccountId := (case accts of [] \<Rightarrow> None | a # as \<Rightarrow> Some (res_id a))\<rparr>"

definition accountsFailed :: "screen \<Rightarrow> screen" where
  "accountsFailed s = s\<lparr>sc_sourceAccountId := None\<rparr>"

definition handleRecipientSelected :: "recipient \<Rightarrow> screen \<Rightarrow> screen" where
  "handleRecipientSelected r s = s\<lparr>sc_recipient := Some r, sc_step := AmountStep\<rparr>"

definition handleAmountConfirmed :: "js_number \<Rightarrow> string \<Rightarrow> screen \<Rightarrow> screen" where
  "handleAmountConfirmed kobo noteText s = s\<lparr>sc_amountKobo := kobo, sc_note := noteText, sc_step := ConfirmStep\<rparr>"

definition onBack :: "screen \<Rightarrow> screen" where
  "onBack s =
     (case sc_step s of
        AmountStep \<Rightarrow> s\<lparr>sc_step := RecipientStep\<rparr> | ConfirmStep \<Rightarrow> s\<lparr>sc_step := AmountStep\<rparr> | _ \<Rightarrow> s)"

definition onEdit :: "screen \<Rightarrow> screen" where
  "onEdit s = s\<lparr>sc_step := AmountStep\<rparr>"

definition onRetry :: "screen \<Rightarrow> screen" where
  "onRetry s = s\<lparr>sc_txResult := None, sc_step := ConfirmStep\<rparr>"

definition failedWith :: "transferResponseDto option \<Rightarrow> string option \<Rightarrow> screen \<Rightarrow> screen" where
  "failedWith answer reason s =
     s\<lparr>sc_txResult := Some \<lparr>tx_fields = answer, tx_status = ''FAILED'', tx_reason = reason\<rparr>, sc_isLoading := False\<rparr>"

text \<open>\<open>(amountKobo / 100).toFixed(2)\<close>.\<close>

definition naira :: "js_number \<Rightarrow> string" where
  "naira kobo = toFixed2 (js_over kobo 100)"

record submission =
  sb_sourceAccountId :: string
  sb_bankCode :: string
  sb_recipientAccountNumber :: string
  sb_recipientAccountName :: string
  sb_amount :: string
  sb_narration :: string
  sb_idempotencyKey :: string

text \<open>
  The submission up to the request it sends; \<open>newKey\<close> is the random UUID it would draw. Without a
  recipient, which the steps rule out, reading its fields would throw into the same \<open>catch\<close>.
\<close>

definition handleSubmitTransfer :: "string \<Rightarrow> screen \<Rightarrow> submission option \<times> screen" where
  "handleSubmitTransfer newKey s =
     (case truthy (sc_sourceAccountId s) of
        None \<Rightarrow>
          (None, s\<lparr>sc_txResult := Some \<lparr>tx_fields = None, tx_status = ''FAILED'',
                     tx_reason = Some ''No account found. Please try again.''\<rparr>, sc_step := StatusStep\<rparr>)
      | Some src \<Rightarrow>
          (let key = (case truthy (sc_idempotencyKey s) of Some k \<Rightarrow> k | None \<Rightarrow> newKey);
               s1 = s\<lparr>sc_isLoading := True, sc_step := StatusStep, sc_idempotencyKey := Some key\<rparr>
           in case sc_recipient s of
                None \<Rightarrow> (None, failedWith None (Some ''Cannot read properties of null'') s1)
              | Some r \<Rightarrow>
                  (Some \<lparr>sb_sourceAccountId = src, sb_bankCode = rc_bankCode r, sb_recipientAccountNumber = rc_accountNumber r,
                         sb_recipientAccountName = rc_accountName r, sb_amount = naira (sc_amountKobo s),
                         sb_narration = sc_note s, sb_idempotencyKey = key\<rparr>, s1)))"

text \<open>The answer to the request starts the polling, or ends in the \<open>catch\<close>.\<close>

definition submitReturned :: "transferResponseDto \<Rightarrow> screen \<Rightarrow> screen" where
  "submitReturned result s =
     s\<lparr>sc_polls := sc_polls s @ [\<lparr>pl_reference = trs_reference result, pl_initial = result, pl_polls = 0, pl_active = True\<rparr>]\<rparr>"

definition submitFailed :: "string \<Rightarrow> screen \<Rightarrow> screen" where
  "submitFailed message s = failedWith None (Some message) s"

definition maxPolls :: nat where
  "maxPolls = 15"

text \<open>One tick of the interval with number \<open>i\<close>, and the answer to its request.\<close>

definition pollTick :: "nat \<Rightarrow> screen \<Rightarrow> screen" where
  "pollTick i s = s\<lparr>sc_polls := (sc_polls s)[i := (sc_polls s ! i)\<lparr>pl_polls := Suc (pl_polls (sc_polls s ! i))\<rparr>]\<rparr>"

definition clearInterval :: "nat \<Rightarrow> screen \<Rightarrow> screen" where
  "clearInterval i s = s\<lparr>sc_polls := (sc_polls s)[i := (sc_polls s ! i)\<lparr>pl_active := False\<rparr>]\<rparr>"

text \<open>The answer has no field \<open>reason\<close>, so a failed transfer is shown without one.\<close>

definition pollAnswered :: "nat \<Rightarrow> string + transferResponseDto \<Rightarrow> screen \<Rightarrow> screen" where
  "pollAnswered i answer s =
     (let p = sc_polls s ! i
      in case answer of
           Inl e \<Rightarrow> failedWith (Some (pl_initial p)) (Some ''Could not confirm transfer status.'') (clearInterval i s)
         | Inr statusResult \<Rightarrow>
             if trs_status statusResult = ''SUCCESSFUL'' then
               (clearInterval i s)\<lparr>sc_txResult := Some \<lparr>tx_fields = Some statusResult, tx_status = ''SUCCESSFUL'', tx_reason = None\<rparr>,
                 sc_isLoading := False\<rparr>
             else if trs_status statusResult \<in> set [''FAILED'', ''REVERSED'', ''CANCELLED''] then
               failedWith (Some statusResult) None (clearInterval i s)
             else if pl_polls p \<ge> maxPolls then
               failedWith (Some (pl_initial p))
                 (Some ''Transfer is taking longer than expected. Check your transaction history.'') (clearInterval i s)
             else s)"

section \<open>A visit\<close>

text \<open>
  A turn of the event loop on the mounted screen, with the submissions sent so far. The button may be
  pressed again before the next step is shown.
\<close>

inductive visit_turn :: "screen \<times> submission list \<Rightarrow> screen \<times> submission list \<Rightarrow> bool" where
  loaded: "visit_turn (s, subs) (accountsLoaded accts s, subs)"
| not_loaded: "visit_turn (s, subs) (accountsFailed s, subs)"
| recipient: "sc_step s = RecipientStep \<Longrightarrow> visit_turn (s, subs) (handleRecipientSelected r s, subs)"
| amount: "sc_step s = AmountStep \<Longrightarrow> handleNext (typedAmount typed) typedNote = Inr (kobo, note) \<Longrightarrow>
    visit_turn (s, subs) (handleAmountConfirmed kobo note s, subs)"
| back_button: "visit_turn (s, subs) (onBack s, subs)"
| edit: "sc_step s = ConfirmStep \<Longrightarrow> visit_turn (s, subs) (onEdit s, subs)"
| retry: "sc_step s = StatusStep \<Longrightarrow> visit_turn (s, subs) (onRetry s, subs)"
| submit: "newKey \<noteq> [] \<Longrightarrow> handleSubmitTransfer newKey s = (sent, s') \<Longrightarrow>
    visit_turn (s, subs) (s', subs @ (case sent of None \<Rightarrow> [] | Some b \<Rightarrow> [b]))"
| returned: "visit_turn (s, subs) (submitReturned result s, subs)"
| failed: "visit_turn (s, subs) (submitFailed message s, subs)"
| tick: "i < length (sc_polls s) \<Longrightarrow> pl_active (sc_polls s ! i) \<Longrightarrow> visit_turn (s, subs) (pollTick i s, subs)"
| polled: "i < length (sc_polls s) \<Longrightarrow> visit_turn (s, subs) (pollAnswered i answer s, subs)"


section \<open>One key per visit\<close>

definition visit_ok :: "screen \<times> submission list \<Rightarrow> bool" where
  "visit_ok v \<longleftrightarrow>
     sc_idempotencyKey (fst v) \<noteq> Some [] \<and>
     (\<forall>b \<in> set (snd v). sc_idempotencyKey (fst v) = Some (sb_idempotencyKey b))"

lemma handleSubmitTransfer_key:
  assumes "handleSubmitTransfer newKey s = (sent, s')" and "newKey \<noteq> []" and "sc_idempotencyKey s \<noteq> Some []"
  shows "(sc_idempotencyKey s' = sc_idempotencyKey s \<or> sc_idempotencyKey s = None \<and> sc_idempotencyKey s' = Some newKey) \<and>
    (\<forall>b. sent = Some b \<longrightarrow> sc_idempotencyKey s' = Some (sb_idempotencyKey b))"
  using assms
  by (cases "sc_idempotencyKey s")
    (auto simp: handleSubmitTransfer_def Let_def failedWith_def split: option.splits if_splits)

lemma visit_turn_ok: "visit_turn v v' \<Longrightarrow> visit_ok v \<Longrightarrow> visit_ok v'"
proof (induction rule: visit_turn.induct)
  case (submit newKey s sent s' subs)
  have k: "sc_idempotencyKey s \<noteq> Some []" "\<forall>b \<in> set subs. sc_idempotencyKey s = Some (sb_idempotencyKey b)"
    using submit(3) by (simp_all add: visit_ok_def)
  note handleSubmitTransfer_key [OF submit(2,1) k(1)]
  with k submit(1) show ?case by (cases sent) (auto simp: visit_ok_def)
qed (auto simp: visit_ok_def accountsLoaded_def accountsFailed_def handleRecipientSelected_def handleAmountConfirmed_def
    onBack_def onEdit_def onRetry_def submitReturned_def submitFailed_def failedWith_def pollTick_def clearInterval_def
    pollAnswered_def Let_def split: screenStep.splits sum.splits)

section \<open>What the backend makes of a visit\<close>

text \<open>The handler behind \<^verbatim>\<open>POST /transfers/external\<close> on a submission.\<close>

definition process :: "env \<Rightarrow> flutterwaveClient \<Rightarrow> string \<Rightarrow> string \<Rightarrow> submission \<Rightarrow> transferResponseDto action" where
  "process E client callbackUrl userId b =
     InitiateExternalTransfer_execute E client callbackUrl userId (sb_sourceAccountId b) (sb_bankCode b)
       (sb_recipientAccountNumber b) (Some (sb_recipientAccountName b)) (sb_amount b) (sb_narration b)
       (Some (sb_idempotencyKey b))"

text \<open>
  The screen, the backend and the network between them. The screen takes a turn; one of the requests
  it has sent reaches the backend, which may never happen, happen out of order or more than once, and is
  processed whatever database calls fail; or anything else happens to the data that leaves the rows with
  the keys of this screen alone. A delivery is kept with the data before and after it.
\<close>

record delivery =
  dv_before :: world
  dv_answer :: "exn + transferResponseDto"
  dv_after :: world

inductive net_turn ::
  "string \<Rightarrow> string \<Rightarrow> (screen \<times> submission list) \<times> world \<times> delivery list \<Rightarrow>
    (screen \<times> submission list) \<times> world \<times> delivery list \<Rightarrow> bool" for callbackUrl userId where
  on_screen: "visit_turn v v' \<Longrightarrow> net_turn callbackUrl userId (v, w, ds) (v', w, ds)"
| delivered: "b \<in> set (snd v) \<Longrightarrow> process E client callbackUrl userId b w = (answer, w') \<Longrightarrow>
    net_turn callbackUrl userId (v, w, ds) (v, w', ds @ [\<lparr>dv_before = w, dv_answer = answer, dv_after = w'\<rparr>])"
| elsewhere: "\<forall>b \<in> set (snd v). idem_claim w' userId ''transfer.external'' (sb_idempotencyKey b) =
      idem_claim w userId ''transfer.external'' (sb_idempotencyKey b) \<Longrightarrow>
    net_turn callbackUrl userId (v, w, ds) (v, w', ds)"

text \<open>What a delivery is after one that was answered with a transfer: nothing, or that transfer again.\<close>

definition pays_nothing :: "delivery \<Rightarrow> bool" where
  "pays_nothing d \<longleftrightarrow>
     accounts (dv_after d) = accounts (dv_before d) \<and> transfers (dv_after d) = transfers (dv_before d) \<and>
     ledgerEntries (dv_after d) = ledgerEntries (dv_before d) \<and> published (dv_after d) = published (dv_before d)"

definition repeats :: "delivery \<Rightarrow> delivery \<Rightarrow> bool" where
  "repeats d d' \<longleftrightarrow>
     (case dv_answer d of
        Inl e \<Rightarrow> True
      | Inr x \<Rightarrow> pays_nothing d' \<and> (case dv_answer d' of Inl e \<Rightarrow> True | Inr y \<Rightarrow> trs_id y = trs_id x))"

lemma payoutFailed_throws: "payoutFailed E i u debited n evs x w \<noteq> (Inr r, w')"
  by (cases x) (auto simp: payoutFailed_def bindM_eq_Inr throwM_def)

lemma catchM_returned: "catchM m h w = (Inr x, w') \<Longrightarrow> (\<And>e v. h e v \<noteq> (Inr x, w')) \<Longrightarrow> m w = (Inr x, w')"
  by (auto simp: catchM_def split: prod.splits sum.splits)

lemma doExecute_resource:
  assumes "initiateExternal_doExecute E client cb u i bank acc name amount narration w = (Inr (x, d), w')"
  shows "x = trs_id d"
proof -
  have body: "x = trs_id d"
    if "bindM m (\<lambda>t. let (es, t') = tf_pullDomainEvents t in bindM (publishAll (evs @ es)) (\<lambda>_.
          returnM (tf_id t', TransferResponseDto_fromDomain t'))) v = (Inr (x, d), w')" for m evs v
    using that by (auto simp: bindM_eq_Inr Let_def returnM_def TransferResponseDto_fromDomain_def tf_pullDomainEvents_def)
  show ?thesis
    using assms [unfolded initiateExternal_doExecute_def]
    by (elim bindM_InrE, simp only: split_paired_all prod.case)
      (elim bindM_InrE, simp only: split_paired_all prod.case, drule catchM_returned [OF _ payoutFailed_throws], erule body)
qed

lemma idem_core_fields:
  "idem_core w = idem_core v \<Longrightarrow> accounts w = accounts v \<and> transfers w = transfers v \<and>
    ledgerEntries w = ledgerEntries v \<and> published w = published v"
proof -
  assume eq: "idem_core w = idem_core v"
  have "accounts (idem_core x) = accounts x \<and> transfers (idem_core x) = transfers x \<and>
      ledgerEntries (idem_core x) = ledgerEntries x \<and> published (idem_core x) = published x" for x
    by (simp add: idem_core_def)
  with eq show ?thesis by metis
qed

lemma rehydrate_quiet:
  assumes "rehydrateTransfer E (Some i) w = (r, w')"
  shows "idem_core w' = idem_core w \<and> idem_claim w' = idem_claim w \<and> (case r of Inr d \<Rightarrow> trs_id d = i | Inl e \<Rightarrow> True)"
proof -
  have "reads (rehydrateTransfer E (Some i))" unfolding rehydrateTransfer_def option.case by (intro reads_rules)
  from readsD [OF this assms] obtain n where w': "w' = w\<lparr>ticks := n\<rparr>" by blast
  have some: "tf_id x = i" if load: "transfer_toDomainOrNull (List.find (\<lambda>t. tr_id t = i) ts) = Inr (Some x)" for ts x
  proof (cases "List.find (\<lambda>t. tr_id t = i) ts")
    case (Some t)
    with load have "TransferMapper_toDomain t = Inr x" by (simp add: bindE_eq_Inr)
    from TransferMapper_toDomain_fields [OF this] find_Some_set [OF Some] show ?thesis by simp
  qed (use load in simp)
  have "trs_id d = i" if "r = Inr d" for d
    using assms [unfolded that rehydrateTransfer_def option.case]
  proof (elim bindM_InrE)
    fix found x w1 w2
    assume f: "transfer_findById E i w = (Inr found, w1)" "required found (AccountNotFoundException i) w1 = (Inr x, w2)"
      and d: "returnM (TransferResponseDto_fromDomain x) w2 = (Inr d, w')"
    have found: "found = Some x" using step_Inr(1) [OF f(2)] by simp
    from f(1) [unfolded found transfer_findById_def] have "tf_id x = i"
    proof (elim bindM_InrE)
      fix y v assume q: "query E (\<lambda>w. List.find (\<lambda>t. tr_id t = i) (transfers w)) w = (Inr y, v)"
        and l: "liftE (transfer_toDomainOrNull y) v = (Inr (Some x), w1)"
      from query_eq_Inr [OF q] step_Inr(3) [OF l] show "tf_id x = i" by (auto intro: some)
    qed
    with d show "trs_id d = i" by (auto simp: returnM_def TransferResponseDto_fromDomain_def)
  qed
  with w' show ?thesis by (cases r) simp_all
qed

text \<open>An answer with a transfer completes the key with it, whatever fails; a completed key is only replayed.\<close>

lemma accepted_claims:
  assumes k: "sb_idempotencyKey b \<noteq> []" and run: "process E client cb u b w = (Inr d, w')"
  shows "idem_claim w' u ''transfer.external'' (sb_idempotencyKey b) = Some (Done (Some (trs_id d)))"
proof -
  let ?k = "sb_idempotencyKey b"
  let ?ex = "initiateExternal_doExecute E client cb u (sb_sourceAccountId b) (sb_bankCode b)
       (sb_recipientAccountNumber b) (Some (sb_recipientAccountName b)) (sb_amount b) (sb_narration b)"
  have run': "idem.run E u ''transfer.external'' (Some ?k) ?ex (rehydrateTransfer E) w = (Inr d, w')"
    using run by (simp add: process_def InitiateExternalTransfer_execute_def idempotent_run_eq)
  have none: "rehydrateTransfer E None v \<noteq> (Inr y, v')" for v y v'
    by (simp add: rehydrateTransfer_def throwM_def)
  have quiet: "idem_claim v' u ''transfer.external'' ?k = idem_claim v u ''transfer.external'' ?k"
    if "rehydrateTransfer E r v = (y, v')" for r v y v'
  proof (cases r)
    case (Some i)
    with rehydrate_quiet that show ?thesis by metis
  qed (use that in \<open>simp add: rehydrateTransfer_def throwM_def\<close>)
  obtain r where r: "idem_claim w' u ''transfer.external'' ?k = Some (Done r)"
    "(\<exists>v. rehydrateTransfer E r v = (Inr d, w')) \<or> (\<exists>i v v'. r = Some i \<and> ?ex v = (Inr (i, d), v'))"
    by (rule idem_lossy.answered_done [OF k run' quiet])
  from r(2) have "r = Some (trs_id d)"
  proof
    assume "\<exists>v. rehydrateTransfer E r v = (Inr d, w')"
    then obtain v where v: "rehydrateTransfer E r v = (Inr d, w')" ..
    then obtain i where i: "r = Some i" using none by (cases r) auto
    with rehydrate_quiet [of E i v "Inr d" w'] v show ?thesis by simp
  next
    assume "\<exists>i v v'. r = Some i \<and> ?ex v = (Inr (i, d), v')"
    then show ?thesis using doExecute_resource by blast
  qed
  with r(1) show ?thesis by simp
qed

lemma replayed:
  assumes k: "sb_idempotencyKey b \<noteq> []"
    and claimed: "idem_claim w u ''transfer.external'' (sb_idempotencyKey b) = Some (Done (Some i))"
    and run: "process E client cb u b w = (r, w')"
  shows "idem_core w' = idem_core w \<and>
    idem_claim w' u ''transfer.external'' (sb_idempotencyKey b) = Some (Done (Some i)) \<and>
    (case r of Inr d \<Rightarrow> trs_id d = i | Inl e \<Rightarrow> True)"
proof -
  let ?ex = "initiateExternal_doExecute E client cb u (sb_sourceAccountId b) (sb_bankCode b)
       (sb_recipientAccountNumber b) (Some (sb_recipientAccountName b)) (sb_amount b) (sb_narration b)"
  obtain v where v: "idem_core v = idem_core w" "idem_claim v u ''transfer.external'' (sb_idempotencyKey b) = Some (Done (Some i))"
    "process E client cb u b w = rehydrateTransfer E (Some i) v \<or> process E client cb u b w = (Inl connectionLost, v)"
    by (rule idem_lossy.replay_lossy [OF k claimed, of E ?ex "rehydrateTransfer E", unfolded idempotent_run_eq])
      (auto simp: process_def InitiateExternalTransfer_execute_def)
  from v(3) show ?thesis
  proof
    assume "process E client cb u b w = rehydrateTransfer E (Some i) v"
    with rehydrate_quiet [of E i v r w'] run v(1,2) show ?thesis by simp
  qed (use run v(1,2) in simp)
qed

definition net_ok :: "string \<Rightarrow> (screen \<times> submission list) \<times> world \<times> delivery list \<Rightarrow> bool" where
  "net_ok u = (\<lambda>(v, w, ds).
     visit_ok v \<and> sorted_wrt repeats ds \<and>
     (\<forall>d \<in> set ds. \<forall>x. dv_answer d = Inr x \<longrightarrow>
        (\<exists>k. sc_idempotencyKey (fst v) = Some k \<and> idem_claim w u ''transfer.external'' k = Some (Done (Some (trs_id x))) \<and>
             (\<exists>b \<in> set (snd v). sb_idempotencyKey b = k))))"

lemma visit_turn_keeps_sent:
  assumes "visit_turn v v'" and "visit_ok v" and "b \<in> set (snd v)"
  shows "b \<in> set (snd v') \<and> sc_idempotencyKey (fst v') = sc_idempotencyKey (fst v)"
proof -
  have "b \<in> set (snd v')" using assms(1,3) by (cases rule: visit_turn.cases) auto
  with visit_turn_ok [OF assms(1,2)] assms(2,3) show ?thesis by (simp add: visit_ok_def)
qed

lemma net_turn_ok: "net_turn cb u c c' \<Longrightarrow> net_ok u c \<Longrightarrow> net_ok u c'"
proof (induction rule: net_turn.induct)
  case (on_screen v v' w ds)
  then have "visit_ok v" "visit_ok v'" using visit_turn_ok by (auto simp: net_ok_def)
  moreover have "\<exists>b \<in> set (snd v'). sb_idempotencyKey b = k \<and> sc_idempotencyKey (fst v') = sc_idempotencyKey (fst v)"
    if "b \<in> set (snd v)" "sb_idempotencyKey b = k" for b k
    using visit_turn_keeps_sent [OF on_screen(1) \<open>visit_ok v\<close> that(1)] that(2) by auto
  ultimately show ?case using on_screen(2) unfolding net_ok_def by fastforce
next
  case (delivered b v E client w answer w' ds)
  let ?d = "\<lparr>dv_before = w, dv_answer = answer, dv_after = w'\<rparr>" and ?k = "sb_idempotencyKey b"
  from delivered(1,3) have key: "sc_idempotencyKey (fst v) = Some ?k" "?k \<noteq> []" by (auto simp: net_ok_def visit_ok_def)
  have known: "idem_claim w u ''transfer.external'' ?k = Some (Done (Some (trs_id x)))"
    if "d \<in> set ds" "dv_answer d = Inr x" for d x
    using delivered(3) that key(1) by (fastforce simp: net_ok_def)
  have again: "repeats d ?d \<and> idem_claim w' u ''transfer.external'' ?k = Some (Done (Some (trs_id x)))"
    if "d \<in> set ds" "dv_answer d = Inr x" for d x
    using replayed [OF key(2) known [OF that] delivered(2)] idem_core_fields [of w' w] that(2)
    by (auto simp: repeats_def pays_nothing_def split: sum.splits)
  have "repeats d ?d" if "d \<in> set ds" for d
    using again [OF that] by (cases "dv_answer d") (auto simp: repeats_def)
  moreover have "idem_claim w' u ''transfer.external'' ?k = Some (Done (Some (trs_id x)))" if "answer = Inr x" for x
    using accepted_claims [OF key(2)] delivered(2) that by simp
  ultimately show ?case using delivered(1,3) again key(1) by (fastforce simp: net_ok_def sorted_wrt_append)
next
  case (elsewhere v w' w ds)
  then show ?case by (fastforce simp: net_ok_def)
qed

interpretation net: event_loop "net_turn cb u" "((mountedScreen, []), w, [])" "net_ok u" for cb u w
proof
  show "net_ok u ((mountedScreen, []), w, [])" by (simp add: net_ok_def visit_ok_def mountedScreen_def)
qed (rule net_turn_ok)

text \<open>
  C7. A payment the backend has accepted is not repeated by the rest of the visit. Whatever the user does
  on the transfer screen, however its requests and polls are answered, and however the network loses,
  delays, reorders or repeats its requests, all requests of the visit carry one key; and from the first
  of them that the backend answers with a transfer, no later one moves money, writes a transfer or a ledger
  entry or publishes anything, and any later answer is that same transfer, whatever database calls fail.
  This includes requests for another recipient or amount, because the key is never reset, although the comment
  at the key announces a reset for a new transfer. The backend processes one request at a time, and nobody
  else touches the rows with the key of the visit.
\<close>

theorem visit_pays_once:
  assumes "(net_turn cb u)\<^sup>*\<^sup>* ((mountedScreen, []), w, []) ((s, sent), w', ds)"
  shows "(\<exists>k. sb_idempotencyKey ` set sent \<subseteq> {k}) \<and> sorted_wrt repeats ds"
proof
  from net.always [OF assms] have ok: "visit_ok (s, sent)" "sorted_wrt repeats ds" by (simp_all add: net_ok_def)
  from ok(1) have "sb_idempotencyKey b = the (sc_idempotencyKey s)" if "b \<in> set sent" for b
    using that by (simp add: visit_ok_def)
  then show "\<exists>k. sb_idempotencyKey ` set sent \<subseteq> {k}" by blast
  show "sorted_wrt repeats ds" by (rule ok(2))
qed

section \<open>What the screen sends, the API accepts\<close>

text \<open>The body of \<open>transferApi.initiateExternal\<close>.\<close>

definition initiateExternal_body :: "submission \<Rightarrow> body" where
  "initiateExternal_body b =
     [(''sourceAccountId'', JString (sb_sourceAccountId b)), (''bankCode'', JString (sb_bankCode b)),
      (''recipientAccountNumber'', JString (sb_recipientAccountNumber b)),
      (''recipientAccountName'', JString (sb_recipientAccountName b)), (''amount'', JString (sb_amount b)),
      (''narration'', JString (sb_narration b))]"

lemma naira_decimal:
  assumes "handleNext raw typedNote = Inr (kobo, note)"
  shows "is_decimal_amount (naira kobo) \<longleftrightarrow> (\<exists>x. js_over kobo 100 = Fin x \<and> x < 10 ^ 21)"
proof -
  have kobo: "\<not> js_atMost kobo 0" using assms by (auto simp: handleNext_def split: if_splits)
  have "0 \<le> x" if "js_over kobo 100 = Fin x" for x
  proof (cases kobo)
    case (Fin k)
    with kobo that number_nonneg [of "k / 100" x] show ?thesis by simp
  qed (use that in simp_all)
  then show ?thesis by (auto simp: naira_def toFixed2_decimal)
qed

text \<open>A number of kobo below \<open>2 ^ 50\<close> that is typed as such is sent as such.\<close>

lemma naira_exact:
  assumes "decimal_prefix raw = Some (of_nat n / 100)" and "n < 2 ^ 50" and "raw \<noteq> []"
  shows "amountKobo raw = Fin (of_nat n)" and "naira (Fin (of_nat n)) = toMajorUnitsString \<lparr>minorUnits = int n, moneyCurrency = NGN\<rparr>"
  using parse_exact [OF assms(1,2)] assms(3)
  unfolding naira_def sent_exact [OF assms(2)] hundredths_major [of n NGN] by (simp_all add: amountKobo_def)

lemma bank_codes: "b \<in> bk_code ` set BANKS \<Longrightarrow> matches_digits 3 b"
proof -
  have "list_all (\<lambda>b. matches_digits 3 (bk_code b)) BANKS" by code_simp
  then show "b \<in> bk_code ` set BANKS \<Longrightarrow> matches_digits 3 b" by (auto simp: list_all_iff)
qed

lemma external_body_accepted:
  "(\<exists>r. endpoint_route V EpExternal (initiateExternal_body b) = Inr r) \<longleftrightarrow>
     vd_isUUID V (sb_sourceAccountId b) \<and> matches_digits 3 (sb_bankCode b) \<and>
     matches_digits 10 (sb_recipientAccountNumber b) \<and> Length 1 100 (sb_recipientAccountName b) \<and>
     is_decimal_amount (sb_amount b) \<and> Length 1 200 (sb_narration b)"
  by (auto simp: InitiateExternalTransferDto_validate_def initiateExternal_body_def declared_def stringField_def BadRequest_def)

text \<open>
  C28. The screen and the API agree on all but three inputs. A submission whose recipient and amount went
  through the screen's own checks passes the validation of the API exactly when the recipient's name
  has at most a hundred characters, the note, which the screen calls optional, is not empty, and the amount in
  naira is a number below \<open>10 ^ 21\<close>: from there on \<open>toFixed(2)\<close> writes an exponent, and a text without
  a digit, or a number beyond all doubles, passes the screen's checks as \<open>NaN\<close> or \<open>Infinity\<close>. The
  only other condition is the form of the account identifier. And an amount typed as a number of kobo below
  \<open>2 ^ 50\<close> is sent to the kobo, in spite of the roundings of \<open>parseFloat\<close>, the product and the quotient.
\<close>

theorem screen_meets_api:
  assumes "confirmRecipient banks (typedAccountNumber typed) bank name = Inr r" and "bank \<in> bk_code ` set BANKS"
    and "handleNext (typedAmount amount) typedNote = Inr (kobo, note)" and "length typedNote \<le> 100"
    and "sc_recipient s = Some r" and "sc_amountKobo s = kobo" and "sc_note s = note"
    and "handleSubmitTransfer key s = (Some b, s')"
  shows "((\<exists>route. endpoint_route V EpExternal (initiateExternal_body b) = Inr route) \<longleftrightarrow>
      vd_isUUID V (sb_sourceAccountId b) \<and> length (trim name) \<le> 100 \<and> note \<noteq> [] \<and>
      (\<exists>x. js_over kobo 100 = Fin x \<and> x < 10 ^ 21)) \<and>
    (\<forall>n < 2 ^ 50. decimal_prefix (typedAmount amount) = Some (of_nat n / 100) \<longrightarrow>
      sb_amount b = toMajorUnitsString \<lparr>minorUnits = int n, moneyCurrency = NGN\<rparr>)"
proof -
  have r: "rc_bankCode r = bank" "rc_accountName r = trim name" "rc_accountNumber r = typedAccountNumber typed"
    "length (typedAccountNumber typed) = 10" "1 < length (trim name)"
    using assms(1) by (auto simp: confirmRecipient_def recipientValid_def split: if_splits)
  have "list_all is_digit (typedAccountNumber typed)" by (simp add: typedAccountNumber_def list_all_iff)
  with r(4) have number: "matches_digits 10 (typedAccountNumber typed)" by (simp add: matches_digits_def)
  have amount: "kobo = amountKobo (typedAmount amount)" "note = typedNote" "typedAmount amount \<noteq> []"
    using assms(3) by (auto simp: handleNext_def split: if_splits)
  have b: "sb_bankCode b = bank" "sb_recipientAccountNumber b = typedAccountNumber typed"
    "sb_recipientAccountName b = trim name" "sb_amount b = naira kobo" "sb_narration b = note"
    using assms(5-8) r(1-3) by (auto simp: handleSubmitTransfer_def Let_def split: option.splits)
  have "(\<exists>route. endpoint_route V EpExternal (initiateExternal_body b) = Inr route) \<longleftrightarrow>
      vd_isUUID V (sb_sourceAccountId b) \<and> length (trim name) \<le> 100 \<and> note \<noteq> [] \<and>
      (\<exists>x. js_over kobo 100 = Fin x \<and> x < 10 ^ 21)"
    unfolding external_body_accepted b
    using bank_codes [OF assms(2)] number naira_decimal [OF assms(3)] amount(2) r(5) assms(4)
    by (cases "note = []") (auto simp: Length_def Suc_le_eq)
  with naira_exact [OF _ _ amount(3)] amount(1) b(4) show ?thesis by simp
qed

text \<open>A lone point passes the checks of the screen, and the API refuses what is sent for it.\<close>

lemma point_is_sent_as_NaN: "handleNext (typedAmount ''.'') note = Inr (NaN, note)" "naira NaN = ''NaN''"
  by (simp_all add: handleNext_def typedAmount_def amountKobo_def parseFloat_def decimal_prefix_def is_digit_def naira_def)

section \<open>Examples\<close>

definition musa :: recipient where
  "musa = \<lparr>rc_accountName = ''Musa Okafor'', rc_accountNumber = ''0123456789'', rc_bankCode = ''058'', rc_bankName = ''GTBank''\<rparr>"

definition ada :: recipient where
  "ada = \<lparr>rc_accountName = ''Ada Obi'', rc_accountNumber = ''9876543210'', rc_bankCode = ''044'', rc_bankName = ''Access Bank''\<rparr>"

definition firstConfirm :: screen where
  "firstConfirm = handleAmountConfirmed (Fin 10000) ''rent'' (handleRecipientSelected musa
     (accountsLoaded [AccountResponseDto_fromDomain exampleAccount] mountedScreen))"

text \<open>The request seems to fail, and the user starts over with another recipient and amount.\<close>

definition secondConfirm :: screen where
  "secondConfirm = handleAmountConfirmed (Fin 30000) ''gift'' (handleRecipientSelected ada (onBack (onEdit (onRetry
     (submitFailed ''Failed to fetch'' (snd (handleSubmitTransfer ''k1'' firstConfirm)))))))"

definition toMusa :: submission where
  "toMusa = \<lparr>sb_sourceAccountId = ''a1'', sb_bankCode = ''058'', sb_recipientAccountNumber = ''0123456789'',
     sb_recipientAccountName = ''Musa Okafor'', sb_amount = ''100.00'', sb_narration = ''rent'', sb_idempotencyKey = ''k1''\<rparr>"

definition toAda :: submission where
  "toAda = \<lparr>sb_sourceAccountId = ''a1'', sb_bankCode = ''044'', sb_recipientAccountNumber = ''9876543210'',
     sb_recipientAccountName = ''Ada Obi'', sb_amount = ''300.00'', sb_narration = ''gift'', sb_idempotencyKey = ''k1''\<rparr>"

lemmas screen_defs = mountedScreen_def accountsLoaded_def handleRecipientSelected_def handleAmountConfirmed_def onBack_def
  onEdit_def onRetry_def submitFailed_def failedWith_def firstConfirm_def

lemma submit_shows_status: "sc_step (snd (handleSubmitTransfer key s)) = StatusStep"
  by (auto simp: handleSubmitTransfer_def Let_def failedWith_def split: option.splits)

lemma amount_examples:
  "naira (Fin 10000) = ''100.00''" "naira (Fin 30000) = ''300.00''"
  "handleNext (typedAmount ''100'') n = Inr (Fin 10000, n)" "handleNext (typedAmount ''300'') n = Inr (Fin 30000, n)"
proof -
  have "decimal_prefix ''100'' = Some (of_nat 10000 / 100)" "decimal_prefix ''300'' = Some (of_nat 30000 / 100)"
    by (simp_all add: decimal_prefix_def is_digit_def digits_val_def digit_val_def)
  note exact = naira_exact [OF this(1)] naira_exact [OF this(2)]
  have "toMajorUnitsString \<lparr>minorUnits = int 10000, moneyCurrency = NGN\<rparr> = ''100.00''"
    "toMajorUnitsString \<lparr>minorUnits = int 30000, moneyCurrency = NGN\<rparr> = ''300.00''" by code_simp+
  with exact(2,4) show "naira (Fin 10000) = ''100.00''" "naira (Fin 30000) = ''300.00''" by simp_all
  have typed: "typedAmount ''100'' = ''100''" "typedAmount ''300'' = ''300''" by (simp_all add: typedAmount_def is_digit_def)
  from exact(1,3) show "handleNext (typedAmount ''100'') n = Inr (Fin 10000, n)"
    "handleNext (typedAmount ''300'') n = Inr (Fin 30000, n)" by (simp_all add: handleNext_def typed)
qed

lemma submitted:
  "fst (handleSubmitTransfer ''k1'' firstConfirm) = Some toMusa" "fst (handleSubmitTransfer ''k2'' secondConfirm) = Some toAda"
  by (simp_all add: handleSubmitTransfer_def Let_def screen_defs secondConfirm_def toMusa_def toAda_def musa_def ada_def
      amount_examples AccountResponseDto_fromDomain_def exampleAccount_def truthy_def)

lemma exampleVisit: "visit_turn\<^sup>*\<^sup>* (mountedScreen, []) (snd (handleSubmitTransfer ''k2'' secondConfirm), [toMusa, toAda])"
proof -
  let ?s1 = "accountsLoaded [AccountResponseDto_fromDomain exampleAccount] mountedScreen"
  let ?s2 = "handleRecipientSelected musa ?s1" and ?s4 = "snd (handleSubmitTransfer ''k1'' firstConfirm)"
  let ?s5 = "submitFailed ''Failed to fetch'' ?s4"
  let ?s6 = "onRetry ?s5" let ?s7 = "onEdit ?s6" let ?s8 = "onBack ?s7" let ?s9 = "handleRecipientSelected ada ?s8"
  have first: "handleSubmitTransfer ''k1'' firstConfirm = (Some toMusa, ?s4)"
    and second: "handleSubmitTransfer ''k2'' secondConfirm = (Some toAda, snd (handleSubmitTransfer ''k2'' secondConfirm))"
    using submitted by (simp_all add: prod_eq_iff)
  have steps: "sc_step ?s1 = RecipientStep" "sc_step ?s2 = AmountStep" "sc_step ?s5 = StatusStep" "sc_step ?s6 = ConfirmStep"
    "sc_step ?s8 = RecipientStep" "sc_step ?s9 = AmountStep" by (simp_all add: screen_defs submit_shows_status)
  note next_turn = rtranclp.rtrancl_into_rtrancl [of visit_turn "(mountedScreen, [])"]
  have "visit_turn\<^sup>*\<^sup>* (mountedScreen, []) (?s1, [])" by (rule r_into_rtranclp, rule visit_turn.loaded)
  then have "visit_turn\<^sup>*\<^sup>* (mountedScreen, []) (?s2, [])" by (rule next_turn) (rule visit_turn.recipient [OF steps(1)])
  then have "visit_turn\<^sup>*\<^sup>* (mountedScreen, []) (firstConfirm, [])"
    unfolding firstConfirm_def
    by (rule next_turn) (rule visit_turn.amount [OF steps(2) amount_examples(3)])
  moreover have "visit_turn (firstConfirm, []) (?s4, [toMusa])"
    using visit_turn.submit [OF _ first, of "[]"] by simp
  ultimately have "visit_turn\<^sup>*\<^sup>* (mountedScreen, []) (?s4, [toMusa])" by (rule next_turn)
  then have "visit_turn\<^sup>*\<^sup>* (mountedScreen, []) (?s5, [toMusa])" by (rule next_turn) (rule visit_turn.failed)
  then have "visit_turn\<^sup>*\<^sup>* (mountedScreen, []) (?s6, [toMusa])" by (rule next_turn) (rule visit_turn.retry [OF steps(3)])
  then have "visit_turn\<^sup>*\<^sup>* (mountedScreen, []) (?s7, [toMusa])" by (rule next_turn) (rule visit_turn.edit [OF steps(4)])
  then have "visit_turn\<^sup>*\<^sup>* (mountedScreen, []) (?s8, [toMusa])" by (rule next_turn) (rule visit_turn.back_button)
  then have "visit_turn\<^sup>*\<^sup>* (mountedScreen, []) (?s9, [toMusa])" by (rule next_turn) (rule visit_turn.recipient [OF steps(5)])
  then have "visit_turn\<^sup>*\<^sup>* (mountedScreen, []) (secondConfirm, [toMusa])"
    unfolding secondConfirm_def
    by (rule next_turn) (rule visit_turn.amount [OF steps(6) amount_examples(4)])
  moreover have "visit_turn (secondConfirm, [toMusa]) (snd (handleSubmitTransfer ''k2'' secondConfirm), [toMusa, toAda])"
    using visit_turn.submit [OF _ second, of "[toMusa]"] by simp
  ultimately show ?thesis by (rule next_turn)
qed

definition visitWorld :: world where
  "visitWorld = payoutWorld\<lparr>accounts := [AccountMapper_toPersistence (exampleAccount\<lparr>acc_balance := ngn 100000\<rparr>)],
     kycTierLimits := [\<lparr>klr_tier = TIER_1, klr_currency = NGN, klr_perTransactionLimit = Some 50000,
       klr_dailyTransferLimit = Some 50000, klr_maxBalance = None\<rparr>]\<rparr>"

lemma visit_on_net: "visit_turn\<^sup>*\<^sup>* v v' \<Longrightarrow> (net_turn cb u)\<^sup>*\<^sup>* (v, w, ds) (v', w, ds)"
  by (induction rule: rtranclp_induct) (auto intro: rtranclp.rtrancl_into_rtrancl net_turn.on_screen)

text \<open>
  The first request had reached the backend after all. The second, for another recipient and three
  times the amount, is answered with the first transfer, and no money goes to the second recipient.
\<close>

theorem visit_pays_once_witness:
  "\<exists>v w d1 d2 x. (net_turn ''https://kudi/hook'' ''u1'')\<^sup>*\<^sup>* ((mountedScreen, []), visitWorld, []) (v, w, [d1, d2]) \<and>
     dv_answer d1 = Inr x \<and> map ar_balance (accounts (dv_after d1)) = [89000] \<and>
     process exampleEnv acceptingClient ''https://kudi/hook'' ''u1'' toAda (dv_before d2) = (dv_answer d2, dv_after d2) \<and>
     map ar_balance (accounts w) = [89000] \<and> (case dv_answer d2 of Inr y \<Rightarrow> trs_id y = trs_id x | Inl e \<Rightarrow> True)"
proof -
  let ?run = "process exampleEnv acceptingClient ''https://kudi/hook'' ''u1'' toMusa visitWorld"
  let ?net = "net_turn ''https://kudi/hook'' ''u1''"
  let ?s = "snd (handleSubmitTransfer ''k2'' secondConfirm)"
  have "case ?run of (res, w') \<Rightarrow> \<not> isl res \<and> map ar_balance (accounts w') = [89000]" by code_simp
  moreover obtain z w1 where run1: "?run = (z, w1)" by fastforce
  ultimately have z: "\<not> isl z" and bal: "map ar_balance (accounts w1) = [89000]" by (simp_all only: split_conv simp_thms)
  from z obtain x where x: "z = Inr x" by (metis sum.collapse(2))
  obtain r w2 where two: "process exampleEnv acceptingClient ''https://kudi/hook'' ''u1'' toAda w1 = (r, w2)" by fastforce
  let ?d1 = "\<lparr>dv_before = visitWorld, dv_answer = z, dv_after = w1\<rparr>" and ?d2 = "\<lparr>dv_before = w1, dv_answer = r, dv_after = w2\<rparr>"
  note next_turn = rtranclp.rtrancl_into_rtrancl [of ?net "((mountedScreen, []), visitWorld, [])"]
  have "?net\<^sup>*\<^sup>* ((mountedScreen, []), visitWorld, []) ((?s, [toMusa, toAda]), visitWorld, [])"
    by (rule visit_on_net [OF exampleVisit])
  then have "?net\<^sup>*\<^sup>* ((mountedScreen, []), visitWorld, []) ((?s, [toMusa, toAda]), w1, [] @ [?d1])"
    by (rule next_turn) (rule net_turn.delivered [OF _ run1], simp)
  then have run: "?net\<^sup>*\<^sup>* ((mountedScreen, []), visitWorld, []) ((?s, [toMusa, toAda]), w2, ([] @ [?d1]) @ [?d2])"
    by (rule next_turn) (rule net_turn.delivered [OF _ two], simp)
  from visit_pays_once [OF run] have "repeats ?d1 ?d2" by simp
  with x have "accounts w2 = accounts w1" "case r of Inr y \<Rightarrow> trs_id y = trs_id x | Inl e \<Rightarrow> True"
    by (simp_all add: repeats_def pays_nothing_def split: sum.splits)
  with run two bal x show ?thesis by (intro exI [of _ "(?s, [toMusa, toAda])"] exI [of _ w2] exI [of _ ?d1] exI [of _ ?d2] exI [of _ x]) simp
qed

text \<open>The amount of the form is sent to the kobo, and the API refuses it for the missing note only.\<close>

theorem screen_meets_api_witness:
  "\<not> (\<exists>route. endpoint_route exampleValidator EpExternal (initiateExternal_body (toMusa\<lparr>sb_narration := []\<rparr>)) = Inr route) \<and>
   sb_amount toMusa = toMajorUnitsString \<lparr>minorUnits = 10000, moneyCurrency = NGN\<rparr>"
proof -
  let ?s = "firstConfirm\<lparr>sc_note := []\<rparr>" and ?b = "toMusa\<lparr>sb_narration := []\<rparr>"
  have "confirmRecipient BANKS (typedAccountNumber ''0123456789'') ''058'' ''Musa Okafor'' = Inr musa" "''058'' \<in> bk_code ` set BANKS"
    by code_simp+
  moreover have "fst (handleSubmitTransfer ''k1'' ?s) = Some ?b" "sc_recipient ?s = Some musa" "sc_amountKobo ?s = Fin 10000"
    by (simp_all add: handleSubmitTransfer_def Let_def screen_defs toMusa_def musa_def
        amount_examples AccountResponseDto_fromDomain_def exampleAccount_def truthy_def)
  moreover from this(1) have "handleSubmitTransfer ''k1'' ?s = (Some ?b, snd (handleSubmitTransfer ''k1'' ?s))"
    by (simp add: prod_eq_iff)
  moreover have "typedAmount ''100'' = ''100''" "decimal_prefix ''100'' = Some (of_nat 10000 / 100)"
    by (simp_all add: typedAmount_def decimal_prefix_def is_digit_def digits_val_def digit_val_def)
  ultimately show ?thesis
    using screen_meets_api [of BANKS "''0123456789''" "''058''" "''Musa Okafor''" musa "''100''" "[]" "Fin 10000" "[]" ?s "''k1''" ?b
        "snd (handleSubmitTransfer ''k1'' ?s)" exampleValidator] amount_examples(3)
    by simp
qed

end
