(* ===== verification/ClaimRace.thy ===== *)
theory ClaimRace
  imports Idempotency
begin

text \<open>
  Attempts on one key that overlap (\<^verbatim>\<open>shared/idempotency/prisma-idempotency-key.repository.ts\<close>).
  \<open>tryAcquire\<close> awaits up to three statements per round, and between two of them anything can happen to
  the table: other attempts, completions, releases, other requests. Here the attempt is the machine of its
  statements, the sequential \<open>tryAcquire\<close> is its run without interruption, and a race interleaves any
  number of attempts with the rest of the system.
\<close>

section \<open>An attempt, statement by statement\<close>

text \<open>Where an attempt stands: before its insertion, its lookup or its reclaim of the row it found, or at its end.\<close>

datatype acquireAt = Creating | Finding | Reclaiming idempotency_row | Returned acquireResult | Threw exn

fun acquire_code :: "env \<Rightarrow> string \<Rightarrow> string \<Rightarrow> string \<Rightarrow> acquireAt \<Rightarrow> acquireAt action" where
  "acquire_code E userId scope key Creating =
     bindM (createKey E userId scope key) (\<lambda>created. returnM (if created then Returned ACQUIRED else Finding))"
| "acquire_code E userId scope key Finding =
     bindM (query E (\<lambda>w. List.find (same_key userId scope key) (idempotencyKeys w))) (\<lambda>existing.
     case existing of
       None \<Rightarrow> returnM Creating
     | Some r \<Rightarrow>
         if ir_status r = IK_COMPLETED then returnM (Returned (COMPLETED (ir_resourceId r)))
         else
           bindM (now E) (\<lambda>t.
           returnM (if t - ir_createdAt r < STALE_CLAIM_MS then Returned IN_PROGRESS else Reclaiming r)))"
| "acquire_code E userId scope key (Reclaiming r) =
     bindM (now E) (\<lambda>t.
     bindM (update_in E idempotencyKeys putKeys
              (update_rows (\<lambda>x. ir_id x = ir_id r \<and> ir_status x = IK_IN_PROGRESS) (\<lambda>x. x\<lparr>ir_updatedAt := t\<rparr>))) (\<lambda>count.
     returnM (if count = 0 then Creating else Returned ACQUIRED)))"
| "acquire_code E userId scope key at = returnM at"

definition acquire_step :: "env \<Rightarrow> string \<Rightarrow> string \<Rightarrow> string \<Rightarrow> acquireAt \<times> world \<Rightarrow> acquireAt \<times> world" where
  "acquire_step E userId scope key = (\<lambda>(at, w).
     case acquire_code E userId scope key at w of (Inl e, w') \<Rightarrow> (Threw e, w') | (Inr at', w') \<Rightarrow> (at', w'))"

definition finished :: "acquireAt \<Rightarrow> bool" where
  "finished at \<longleftrightarrow> (\<exists>x. at = Returned x) \<or> at = Threw connectionLost"

section \<open>Races\<close>

text \<open>
  The attempts on one key, each at its place, over one database. A turn is a statement of one of them, in
  any surroundings; a completion or a release of the key by whoever holds it; or anything that leaves the
  rows of this key alone, like the operation a holder executes and all requests with other keys.
\<close>

datatype turn = Attempt nat | Ending | Elsewhere

inductive race_turn ::
  "string \<Rightarrow> string \<Rightarrow> string \<Rightarrow> turn \<Rightarrow> acquireAt list \<times> world \<Rightarrow> acquireAt list \<times> world \<Rightarrow> bool" for u s k where
  attempt: "i < length ats \<Longrightarrow> acquire_step E u s k (ats ! i, w) = (at', w') \<Longrightarrow>
    race_turn u s k (Attempt i) (ats, w) (ats[i := at'], w')"
| completed: "markCompleted E u s k resource w = (res, w') \<Longrightarrow> race_turn u s k Ending (ats, w) (ats, w')"
| released: "release E u s k w = (res, w') \<Longrightarrow> race_turn u s k Ending (ats, w) (ats, w')"
| elsewhere: "filter (same_key u s k) (idempotencyKeys w') = filter (same_key u s k) (idempotencyKeys w) \<Longrightarrow>
    race_turn u s k Elsewhere (ats, w) (ats, w')"

inductive race :: "string \<Rightarrow> string \<Rightarrow> string \<Rightarrow> turn list \<Rightarrow> acquireAt list \<times> world \<Rightarrow> acquireAt list \<times> world \<Rightarrow> bool"
  for u s k where
  start: "race u s k [] c c"
| turn: "race u s k turns c d \<Longrightarrow> race_turn u s k t d e \<Longrightarrow> race u s k (turns @ [t]) c e"

section \<open>How many statements an attempt needs\<close>

text \<open>The statements an attempt needs at most if nobody ends the claim meanwhile.\<close>

definition held_rows :: "string \<Rightarrow> string \<Rightarrow> string \<Rightarrow> world \<Rightarrow> idempotency_row list" where
  "held_rows u s k w = filter (same_key u s k) (idempotencyKeys w)"

fun needed :: "idempotency_row list \<Rightarrow> acquireAt \<Rightarrow> nat" where
  "needed rows Creating = 3"
| "needed rows Finding = (if rows = [] then 4 else 2)"
| "needed rows (Reclaiming r) = (if list_ex (\<lambda>x. ir_id x = ir_id r \<and> ir_status x = IK_IN_PROGRESS) rows then 1 else 4)"
| "needed rows (Returned x) = 0"
| "needed rows (Threw e) = 0"

lemma needed_bound: "needed rows at \<le> 4" "needed rows' at \<le> needed rows at + 3"
  by (cases at; simp)+

text \<open>What keeps a claim: a row stays, and a row in progress stays in progress.\<close>

definition claim_kept :: "idempotency_row list \<Rightarrow> idempotency_row list \<Rightarrow> bool" where
  "claim_kept rows rows' \<longleftrightarrow> (rows \<noteq> [] \<longrightarrow> rows' \<noteq> []) \<and>
     (\<forall>i. list_ex (\<lambda>x. ir_id x = i \<and> ir_status x = IK_IN_PROGRESS) rows \<longrightarrow>
          list_ex (\<lambda>x. ir_id x = i \<and> ir_status x = IK_IN_PROGRESS) rows')"

lemma needed_kept: "claim_kept rows rows' \<Longrightarrow> needed rows' at \<le> needed rows at"
  by (cases at) (auto simp: claim_kept_def)

lemma claim_kept_simps [simp]:
  "claim_kept rows rows" "claim_kept rows (rows @ [r])"
  "claim_kept rows (map (\<lambda>x. if c x then x\<lparr>ir_updatedAt := t\<rparr> else x) rows)"
proof -
  have "list_ex P (map (\<lambda>x. if c x then x\<lparr>ir_updatedAt := t\<rparr> else x) rows) = list_ex P rows"
    if "\<And>x. P (x\<lparr>ir_updatedAt := t\<rparr>) = P x" for P
    using that by (induction rows) auto
  then show "claim_kept rows (map (\<lambda>x. if c x then x\<lparr>ir_updatedAt := t\<rparr> else x) rows)" by (simp add: claim_kept_def)
qed (simp_all add: claim_kept_def)

lemma held_rows_simps [simp]: "held_rows u s k (w\<lparr>ticks := n\<rparr>) = held_rows u s k w" "held_rows u s k (putKeys t w) = filter (same_key u s k) t"
  by (simp_all add: held_rows_def)

lemma held_rows_update [simp]:
  "filter (same_key u s k) (map (\<lambda>x. if c x then x\<lparr>ir_updatedAt := t\<rparr> else x) xs) =
     map (\<lambda>x. if c x then x\<lparr>ir_updatedAt := t\<rparr> else x) (filter (same_key u s k) xs)"
  by (induction xs) (auto simp: same_key_def)

lemma createKey_held:
  assumes "createKey E u s k w = (z, w')"
  shows "(held_rows u s k w' = held_rows u s k w \<or> (\<exists>r. held_rows u s k w' = held_rows u s k w @ [r])) \<and>
    (z = Inr False \<longrightarrow> held_rows u s k w' = held_rows u s k w \<and> held_rows u s k w \<noteq> []) \<and>
    (\<forall>e. z = Inl e \<longrightarrow> e = connectionLost)"
proof (cases "list_ex (same_key u s k) (idempotencyKeys w)")
  case True
  with assms show ?thesis
    by (auto simp: createKey_clash held_rows_def filter_empty_conv list_ex_iff split: if_splits)
next
  case False
  have clash: "key_clash \<lparr>ir_id = i, ir_userId = u, ir_scope = s, ir_key = k, ir_status = x, ir_resourceId = y,
      ir_createdAt = t, ir_updatedAt = t'\<rparr> = same_key u s k" for i x y t t'
    by (simp add: key_clash_def fun_eq_iff)
  from False assms show ?thesis
    by (cases "dbFault E (ticks w + 2)")
      (auto simp: createKey_def bindM_def catchM_def now_apply uuid_apply insert_into_def create_row_def db_def
        comp_simps connectionLost_def numeral_3_eq_3 clash same_key_def held_rows_def)
qed

text \<open>A statement of an attempt keeps every claim and brings the attempt nearer to its end.\<close>

lemma acquire_step_held:
  assumes step: "acquire_step E u s k (at, w) = (at', w')" and "\<forall>e. at = Threw e \<longrightarrow> e = connectionLost"
  shows "claim_kept (held_rows u s k w) (held_rows u s k w') \<and> (\<forall>e. at' = Threw e \<longrightarrow> e = connectionLost) \<and>
    (finished at' \<or> needed (held_rows u s k w') at' < needed (held_rows u s k w) at)"
proof (cases at)
  case Creating
  obtain z v where create: "createKey E u s k w = (z, v)" by fastforce
  from createKey_held [OF create] step Creating create show ?thesis
    by (auto simp: acquire_step_def bindM_def returnM_def finished_def split: sum.splits if_splits)
next
  case Finding
  have found: "List.find (same_key u s k) (idempotencyKeys w) = None \<longleftrightarrow> held_rows u s k w = []"
    by (auto simp: held_rows_def find_None_iff filter_empty_conv)
  have progress: "list_ex (\<lambda>x. ir_id x = ir_id r \<and> ir_status x = IK_IN_PROGRESS) (held_rows u s k w)"
    if "List.find (same_key u s k) (idempotencyKeys w) = Some r" "ir_status r \<noteq> IK_COMPLETED" for r
    using find_Some_set [OF that(1)] that(2) by (cases "ir_status r") (auto simp: held_rows_def list_ex_iff)
  from step Finding found show ?thesis
    by (cases "dbFault E (ticks w)"; cases "List.find (same_key u s k) (idempotencyKeys w)")
      (auto simp: acquire_step_def bindM_def returnM_def finished_def query_def db_def Let_def comp_simps progress split: if_splits)
next
  case (Reclaiming r)
  have there: "filter (\<lambda>x. ir_id x = ir_id r \<and> ir_status x = IK_IN_PROGRESS) (idempotencyKeys w) \<noteq> []"
    if "list_ex (\<lambda>x. ir_id x = ir_id r \<and> ir_status x = IK_IN_PROGRESS) (held_rows u s k w)"
    using that by (auto simp: held_rows_def list_ex_iff filter_empty_conv)
  from step Reclaiming show ?thesis
    by (cases "dbFault E (Suc (ticks w))")
      (use there in \<open>auto simp: acquire_step_def bindM_def returnM_def finished_def update_in_def update_rows_def db_def Let_def
        comp_simps held_rows_def split: if_splits\<close>)
qed (use assms in \<open>auto simp: acquire_step_def returnM_def finished_def\<close>)

text \<open>Uninterrupted, three statements are the sequential attempt.\<close>

lemma acquire_uninterrupted:
  "((acquire_step E u s k) ^^ 3) (Creating, w) =
    (case tryAcquire E u s k w of (Inl e, w') \<Rightarrow> (Threw e, w') | (Inr x, w') \<Rightarrow> (Returned x, w'))"
proof -
  have run: "tryAcquire E u s k w = tryAcquireN (Suc 0) E u s k w" by (rule acquire_alone(1) [symmetric])
  obtain z w1 where create: "createKey E u s k w = (z, w1)" by fastforce
  show ?thesis
  proof (cases z)
    case (Inl e)
    then show ?thesis by (simp add: run create acquire_step_def bindM_def returnM_def numeral_3_eq_3)
  next
    case (Inr created)
    show ?thesis
    proof (cases created)
      case True
      then show ?thesis using Inr by (simp add: run create acquire_step_def bindM_def returnM_def numeral_3_eq_3)
    next
      case False
      with createKey_held [OF create] Inr have rows: "held_rows u s k w1 \<noteq> []" by auto
      then obtain r where r: "List.find (same_key u s k) (idempotencyKeys w1) = Some r"
        by (cases "List.find (same_key u s k) (idempotencyKeys w1)") (auto simp: held_rows_def find_None_iff filter_empty_conv)
      have "ir_status r \<noteq> IK_COMPLETED \<Longrightarrow>
          filter (\<lambda>x. ir_id x = ir_id r \<and> ir_status x = IK_IN_PROGRESS) (idempotencyKeys w1) \<noteq> []"
        using find_Some_set [OF r] by (cases "ir_status r") (auto simp: filter_empty_conv)
      with Inr False r show ?thesis
        by (cases "dbFault E (ticks w1)"; cases "dbFault E (Suc (Suc (Suc (ticks w1))))")
          (simp_all add: run create acquire_step_def bindM_def returnM_def numeral_3_eq_3 query_def db_def Let_def comp_simps
            update_in_def update_rows_def)
    qed
  qed
qed

section \<open>Attempts end\<close>

lemma finished_stays:
  assumes "race_turn u s k t (ats, w) (ats', w')" and "i < length ats" and "finished (ats ! i)"
  shows "ats' ! i = ats ! i"
  using assms(1)
proof (cases rule: race_turn.cases)
  case (attempt j E at')
  with assms(2,3) show ?thesis
    by (cases "j = i") (auto simp: finished_def acquire_step_def returnM_def)
qed auto

lemma race_turn_needed:
  assumes "race_turn u s k t (ats, w) (ats', w')" and "i < length ats"
    and "\<forall>j < length ats. \<forall>e. ats ! j = Threw e \<longrightarrow> e = connectionLost"
  shows "length ats' = length ats \<and> (\<forall>j < length ats'. \<forall>e. ats' ! j = Threw e \<longrightarrow> e = connectionLost) \<and>
    needed (held_rows u s k w') (ats' ! i) + (if t = Attempt i \<and> \<not> finished (ats' ! i) then 1 else 0) \<le>
      needed (held_rows u s k w) (ats ! i) + (if t = Ending then 3 else 0)"
  using assms(1)
proof (cases rule: race_turn.cases)
  case (attempt j E at')
  from acquire_step_held [OF attempt(4)] assms(3) attempt(3) have kept: "claim_kept (held_rows u s k w) (held_rows u s k w')"
    and threw: "\<forall>e. at' = Threw e \<longrightarrow> e = connectionLost"
    and nearer: "finished at' \<or> needed (held_rows u s k w') at' < needed (held_rows u s k w) (ats ! j)" by auto
  have ended: "needed (held_rows u s k w') at' = 0" if "finished at'" using that by (auto simp: finished_def)
  have threws: "\<forall>l < length ats'. \<forall>e. ats' ! l = Threw e \<longrightarrow> e = connectionLost"
  proof (intro allI impI)
    fix l e
    assume "l < length ats'" "ats' ! l = Threw e"
    with attempt(2,3) assms(3) threw show "e = connectionLost" by (cases "l = j") auto
  qed
  show ?thesis
  proof (cases "i = j")
    case True
    with attempt(1,2) assms(2) threws nearer ended show ?thesis by (cases "finished at'") simp_all
  next
    case False
    with attempt(1,2) threws needed_kept [OF kept, of "ats ! i"] show ?thesis by simp
  qed
qed (use assms(3) needed_bound(2) needed_kept in \<open>auto simp: held_rows_def\<close>)

text \<open>
  C33. An attempt to claim a key ends under any interleaving. Whatever other attempts on the same key, the
  operations of their holders and the rest of the system do between its statements, and whatever database
  calls fail, an attempt has returned or lost its connection once it has executed three statements, and
  three more for each time the claim was completed or released meanwhile: \<open>tryAcquire\<close> calls itself only
  after such an end. Nothing is assumed of the clocks or of the table.
\<close>

theorem acquire_terminates:
  assumes "race u s k turns (ats, w) (ats', w')" and "\<forall>at \<in> set ats. at = Creating" and "i < length ats"
    and "3 * Suc (count_list turns Ending) \<le> count_list turns (Attempt i)"
  shows "finished (ats' ! i)"
proof -
  have "length ats' = length ats \<and> (\<forall>j < length ats'. \<forall>e. ats' ! j = Threw e \<longrightarrow> e = connectionLost) \<and>
      (finished (ats' ! i) \<or> count_list turns (Attempt i) + needed (held_rows u s k w') (ats' ! i) \<le> 3 + 3 * count_list turns Ending)"
    using assms(1)
  proof (induction turns "(ats, w)" "(ats', w')" arbitrary: ats' w' rule: race.induct)
    case start
    with assms(2,3) show ?case by (auto simp: all_set_conv_all_nth)
  next
    case (turn turns d t ats2 w2)
    obtain ats1 w1 where d: "d = (ats1, w1)" by fastforce
    note IH = turn.hyps(2) [OF d] and step = turn.hyps(3) [unfolded d]
    have len: "i < length ats1" using IH assms(3) by simp
    note needed = race_turn_needed [OF step len conjunct1 [OF conjunct2 [OF IH]]]
    show ?case
    proof (cases "finished (ats1 ! i)")
      case True
      with finished_stays [OF step len] needed IH show ?thesis by simp
    next
      case False
      with needed IH show ?thesis by (cases t) (auto split: if_splits)
    qed
  qed
  with assms(3,4) have "\<forall>e. ats' ! i = Threw e \<longrightarrow> e = connectionLost"
    and "finished (ats' ! i) \<or> needed (held_rows u s k w') (ats' ! i) = 0" by auto
  then show ?thesis by (cases "ats' ! i") (auto simp: finished_def split: if_splits)
qed

section \<open>Example\<close>

text \<open>Another request holds the key, fails and releases it between the two statements of the attempt.\<close>

fun take_turn :: "turn \<Rightarrow> acquireAt list \<times> world \<Rightarrow> acquireAt list \<times> world" where
  "take_turn (Attempt i) (ats, w) =
     (if i < length ats
      then case acquire_step exampleEnv ''u'' ''s'' ''k'' (ats ! i, w) of (at', w') \<Rightarrow> (ats[i := at'], w') else (ats, w))"
| "take_turn Ending (ats, w) = (ats, snd (release exampleEnv ''u'' ''s'' ''k'' w))"
| "take_turn Elsewhere c = c"

lemma take_turns:
  "list_all (\<lambda>t. case t of Attempt i \<Rightarrow> i < length (fst c) | _ \<Rightarrow> True) turns \<Longrightarrow>
    race ''u'' ''s'' ''k'' turns c (fold take_turn turns c)"
proof (induction turns rule: rev_induct)
  case (snoc t turns)
  obtain ats w where d: "fold take_turn turns c = (ats, w)" by fastforce
  have len: "length (fst (take_turn t c)) = length (fst c)" for t c
    by (cases t; cases c) (auto split: prod.split)
  then have "length (fst (fold take_turn turns c)) = length (fst c)" by (induction turns arbitrary: c) auto
  with d snoc.prems have "race_turn ''u'' ''s'' ''k'' t (ats, w) (take_turn t (ats, w))"
    by (cases t) (auto intro: race_turn.attempt race_turn.elsewhere race_turn.released [OF prod.collapse [symmetric]]
      split: prod.split)
  with snoc d show ?case by (auto intro: race.turn)
qed (simp add: race.start)

definition heldWorld :: world where
  "heldWorld = snd (createKey exampleEnv ''u'' ''s'' ''k'' emptyWorld)"

definition raced :: "turn list" where
  "raced = [Attempt 0, Ending, Attempt 0, Attempt 0, Attempt 0, Attempt 0, Attempt 0]"

theorem acquire_terminates_witness:
  "finished (fst (fold take_turn raced ([Creating], heldWorld)) ! 0) \<and>
   fst (fold take_turn raced ([Creating], heldWorld)) = [Returned ACQUIRED]"
proof
  obtain ats w where end_: "fold take_turn raced ([Creating], heldWorld) = (ats, w)" by fastforce
  have "race ''u'' ''s'' ''k'' raced ([Creating], heldWorld) (ats, w)"
    using take_turns [of "([Creating], heldWorld)" raced] end_ by (simp add: raced_def)
  from acquire_terminates [OF this, of 0] end_ show "finished (fst (fold take_turn raced ([Creating], heldWorld)) ! 0)"
    by (simp add: raced_def)
  show "fst (fold take_turn raced ([Creating], heldWorld)) = [Returned ACQUIRED]" by code_simp
qed

end
