(* ===== verification/Lockout.thy ===== *)
theory Lockout
  imports Auth
begin

text \<open>
  What the lockout of \<^verbatim>\<open>modules/identity\<close> is worth: sequences of logins with right and wrong passwords,
  in environments where any call of the database may fail, and how many of the wrong ones are answered
  as wrong within the time one lockout lasts.
\<close>

section \<open>One login\<close>








section \<open>The room for guesses\<close>







section \<open>Any number of logins\<close>






section \<open>Examples\<close>







end
