(* ===== verification/Screens.thy ===== *)
theory Screens
  imports TransferScreen
begin

text \<open>
  The screens of features the backend does not have yet (\<^verbatim>\<open>frontend/src/features/bills\<close>,
  \<^verbatim>\<open>cards\<close>, \<^verbatim>\<open>savings\<close>, \<^verbatim>\<open>loans\<close>, \<^verbatim>\<open>rewards\<close>, and the parts of the dashboard and the
  profile that wait for one), with the API objects they call (\<^verbatim>\<open>frontend/src/api\<close>). What such an object
  answers is known at once, so a handler runs to its end before the user can act again.
\<close>

section \<open>Pending endpoints\<close>

text \<open>\<^verbatim>\<open>api/pending.js\<close>: the error with its module and endpoint, or any other error by its message.\<close>

datatype clientError = RequestError string | FeatureNotAvailableError string string

fun error_message :: "clientError \<Rightarrow> string" where
  "error_message (RequestError message) = message"
| "error_message (FeatureNotAvailableError moduleName endpoint) = ''The '' @ moduleName @ '' module is not available yet.''"

definition pendingEndpoint :: "string \<Rightarrow> string \<Rightarrow> clientError + 'a" where
  "pendingEndpoint moduleName endpoint = Inl (FeatureNotAvailableError moduleName endpoint)"

fun isPendingError :: "clientError \<Rightarrow> bool" where
  "isPendingError (FeatureNotAvailableError moduleName endpoint) \<longleftrightarrow> True"
| "isPendingError (RequestError message) \<longleftrightarrow> False"

text \<open>An API object of which every method is a pending endpoint of one module.\<close>

record pendingApi =
  pa_module :: string
  pa_methods :: "(string \<times> string) list"

definition call :: "pendingApi \<Rightarrow> string \<Rightarrow> clientError + 'a" where
  "call api meth =
     (case map_of (pa_methods api) meth of
        Some endpoint \<Rightarrow> pendingEndpoint (pa_module api) endpoint
      | None \<Rightarrow> Inl (RequestError (meth @ '' is not a function'')))"

definition billsApi :: pendingApi where
  "billsApi = \<lparr>pa_module = ''bills'', pa_methods =
     [(''getBillers'', ''GET /bills/billers''), (''getDataBundles'', ''GET /bills/billers/:billerCode/items''),
      (''validateCustomer'', ''POST /bills/validate-customer''), (''pay'', ''POST /bills/pay''),
      (''getHistory'', ''GET /bills/me''), (''getByReference'', ''GET /bills/:reference''),
      (''refreshStatus'', ''POST /bills/:reference/refresh-status'')]\<rparr>"

definition cardsApi :: pendingApi where
  "cardsApi = \<lparr>pa_module = ''cards'', pa_methods =
     [(''getCards'', ''GET /cards''), (''freeze'', ''POST /cards/:id/freeze''),
      (''requestPhysical'', ''POST /cards/request-physical''), (''topUp'', ''POST /cards/:id/topup'')]\<rparr>"

definition loansApi :: pendingApi where
  "loansApi = \<lparr>pa_module = ''loans'', pa_methods =
     [(''getOffers'', ''GET /loans/offers''), (''getActive'', ''GET /loans/active''),
      (''apply'', ''POST /loans/apply''), (''repay'', ''POST /loans/:id/repay'')]\<rparr>"

definition rewardsApi :: pendingApi where
  "rewardsApi = \<lparr>pa_module = ''rewards'', pa_methods =
     [(''getRewards'', ''GET /rewards''), (''redeem'', ''POST /rewards/redeem'')]\<rparr>"

definition savingsApi :: pendingApi where
  "savingsApi = \<lparr>pa_module = ''savings'', pa_methods =
     [(''getAll'', ''GET /savings''), (''create'', ''POST /savings''), (''topUp'', ''POST /savings/:id/topup''),
      (''remove'', ''DELETE /savings/:id'')]\<rparr>"

definition fundingApi :: pendingApi where
  "fundingApi = \<lparr>pa_module = ''funding'', pa_methods =
     [(''createVirtualAccount'', ''POST /funding/virtual-accounts''),
      (''getMyVirtualAccount'', ''GET /funding/virtual-accounts/me''), (''createCheckout'', ''POST /funding/checkout''),
      (''getMyDeposits'', ''GET /funding/deposits/me''), (''getDeposit'', ''GET /funding/deposits/:reference'')]\<rparr>"

definition beneficiaryApi :: pendingApi where
  "beneficiaryApi = \<lparr>pa_module = ''beneficiaries'', pa_methods =
     [(''getAll'', ''GET /beneficiaries''), (''save'', ''POST /beneficiaries''), (''remove'', ''DELETE /beneficiaries/:id'')]\<rparr>"

definition ledgerApi :: pendingApi where
  "ledgerApi = \<lparr>pa_module = ''ledger'', pa_methods =
     [(''getAccountEntries'', ''GET /ledger/accounts/:accountId/entries''),
      (''getAccountEntriesList'', ''GET /ledger/accounts/:accountId/entries''),
      (''getStatement'', ''GET /ledger/accounts/:accountId/statement''), (''getEntry'', ''GET /ledger/entries/:entryId'')]\<rparr>"

text \<open>The pending part of \<open>profileApi\<close>; the method for the profile itself is live.\<close>

definition notificationsApi :: pendingApi where
  "notificationsApi = \<lparr>pa_module = ''notifications'', pa_methods =
     [(''getNotifications'', ''GET /notifications/me''), (''getUnreadCount'', ''GET /notifications/me/unread-count''),
      (''markRead'', ''POST /notifications/:id/read''), (''markAllRead'', ''POST /notifications/read-all'')]\<rparr>"

definition call_error :: "pendingApi \<Rightarrow> string \<Rightarrow> clientError" where
  "call_error api meth =
     (case map_of (pa_methods api) meth of
        Some endpoint \<Rightarrow> FeatureNotAvailableError (pa_module api) endpoint
      | None \<Rightarrow> RequestError (meth @ '' is not a function''))"

lemma call_fails [simp]: "call api meth = Inl (call_error api meth)"
  by (simp add: call_def pendingEndpoint_def call_error_def split: option.splits)

section \<open>Bill payments\<close>

datatype billCategory = AIRTIME | MOBILE_DATA | ELECTRICITY | CABLE_TV | INTERNET

text \<open>\<open>CATEGORIES\<close>, the categories the screen offers.\<close>

definition billCategories :: "billCategory list" where
  "billCategories = [AIRTIME, MOBILE_DATA, ELECTRICITY, CABLE_TV]"

record biller =
  bi_billerCode :: string
  bi_name :: string

record billBundle =
  bu_itemCode :: string
  bu_name :: string
  bu_priceKobo :: int

record billPayment =
  bp_accountId :: string
  bp_category :: billCategory
  bp_billerCode :: string
  bp_itemCode :: "string option"
  bp_billerName :: string
  bp_customerIdentifier :: string
  bp_amount :: string

record bills =
  bl_accountId :: "string option"
  bl_category :: "billCategory option"
  bl_billers :: "biller list"
  bl_selected :: "biller option"
  bl_phone :: string
  bl_amount :: string
  bl_bundles :: "billBundle list"
  bl_bundle :: "billBundle option"
  bl_isValidating :: bool
  bl_customerName :: string
  bl_isLoading :: bool
  bl_result :: "string option option"
  bl_error :: string
  bl_isPending :: bool

definition bills_failed :: "clientError \<Rightarrow> bills \<Rightarrow> bills" where
  "bills_failed err s = (if isPendingError err then s\<lparr>bl_isPending := True\<rparr> else s\<lparr>bl_error := error_message err\<rparr>)"

text \<open>The mounted screen after its probe of the module; other errors of the probe are ignored.\<close>

definition billsMounted :: bills where
  "billsMounted =
     (let s = \<lparr>bl_accountId = None, bl_category = None, bl_billers = [], bl_selected = None, bl_phone = [], bl_amount = [],
               bl_bundles = [], bl_bundle = None, bl_isValidating = False, bl_customerName = [], bl_isLoading = False,
               bl_result = None, bl_error = [], bl_isPending = False\<rparr>
      in case (call billsApi ''getBillers'' :: clientError + biller list) of
           Inl err \<Rightarrow> if isPendingError err then s\<lparr>bl_isPending := True\<rparr> else s
         | Inr billers \<Rightarrow> s)"

definition handleCategorySelect :: "billCategory \<Rightarrow> bills \<Rightarrow> bills" where
  "handleCategorySelect cat s =
     (let s1 = s\<lparr>bl_category := Some cat, bl_selected := None, bl_result := None, bl_error := [], bl_customerName := []\<rparr>
      in case call billsApi ''getBillers'' of Inl err \<Rightarrow> bills_failed err s1 | Inr billers \<Rightarrow> s1\<lparr>bl_billers := billers\<rparr>)"

definition handleProviderSelect :: "biller \<Rightarrow> bills \<Rightarrow> bills" where
  "handleProviderSelect biller s =
     (let s1 = s\<lparr>bl_selected := Some biller, bl_bundles := [], bl_bundle := None, bl_customerName := []\<rparr>
      in if bl_category s = Some MOBILE_DATA then
           (case call billsApi ''getDataBundles'' of Inl err \<Rightarrow> bills_failed err s1 | Inr bundles \<Rightarrow> s1\<lparr>bl_bundles := bundles\<rparr>)
         else s1)"

text \<open>Without a category or a biller, which the screen does not let happen, reading their fields would throw.\<close>

definition handleValidateCustomer :: "bills \<Rightarrow> bills" where
  "handleValidateCustomer s =
     (if bl_phone s = [] then s
      else
        (let s1 = s\<lparr>bl_isValidating := True, bl_error := []\<rparr>;
             res = (if bl_category s = None \<or> bl_selected s = None
                    then Inl (RequestError ''Cannot read properties of null'')
                    else call billsApi ''validateCustomer'')
         in case res of
              Inl err \<Rightarrow> s1\<lparr>bl_error := error_message err, bl_customerName := [], bl_isValidating := False\<rparr>
            | Inr customerName \<Rightarrow> s1\<lparr>bl_customerName := customerName, bl_isValidating := False\<rparr>))"

text \<open>
  What is paid: the price of the bundle, or the typed amount (\<open>parseFloat\<close> and \<open>toFixed(2)\<close> are the
  argument \<open>fixed\<close>).
\<close>

definition billPayment_of :: "(string \<Rightarrow> string) \<Rightarrow> string \<Rightarrow> billCategory \<Rightarrow> biller \<Rightarrow> bills \<Rightarrow> billPayment" where
  "billPayment_of fixed accountId category selected s =
     \<lparr>bp_accountId = accountId, bp_category = category, bp_billerCode = bi_billerCode selected,
      bp_itemCode = (if category = MOBILE_DATA then map_option bu_itemCode (bl_bundle s) else None),
      bp_billerName = bi_name selected, bp_customerIdentifier = bl_phone s,
      bp_amount =
        (if category = MOBILE_DATA then
           (case bl_bundle s of
              Some b \<Rightarrow> if bu_priceKobo b \<noteq> 0 then naira (Fin (of_int (bu_priceKobo b))) else ''0.00''
            | None \<Rightarrow> ''0.00'')
         else fixed (if bl_amount s = [] then ''0'' else bl_amount s))\<rparr>"

text \<open>The payment that is requested, and the screen after the answer.\<close>

definition bills_handleSubmit :: "(string \<Rightarrow> string) \<Rightarrow> bills \<Rightarrow> billPayment option \<times> bills" where
  "bills_handleSubmit fixed s =
     (case (bl_selected s, truthy (bl_accountId s)) of
        (Some selected, Some accountId) \<Rightarrow>
          (let s1 = s\<lparr>bl_isLoading := True, bl_error := []\<rparr>
           in case bl_category s of
                None \<Rightarrow> (None, s1\<lparr>bl_error := ''Cannot read properties of null'', bl_isLoading := False\<rparr>)
              | Some category \<Rightarrow>
                  (Some (billPayment_of fixed accountId category selected s),
                   case call billsApi ''pay'' of
                     Inl err \<Rightarrow> s1\<lparr>bl_error := error_message err, bl_isLoading := False\<rparr>
                   | Inr res \<Rightarrow> s1\<lparr>bl_result := Some res, bl_isLoading := False\<rparr>))
      | _ \<Rightarrow> (None, s))"

definition needsValidation :: "bills \<Rightarrow> bool" where
  "needsValidation s \<longleftrightarrow> bl_category s = Some ELECTRICITY \<or> bl_category s = Some CABLE_TV"

definition canPay :: "bills \<Rightarrow> bool" where
  "canPay s \<longleftrightarrow>
     (if bl_category s = Some MOBILE_DATA then bl_bundle s \<noteq> None
      else bl_phone s \<noteq> [] \<and> (needsValidation s \<longrightarrow> bl_customerName s \<noteq> []))"

text \<open>
  What the user can do on it, and the accounts that load; a screen that shows a result offers only the
  way back, a pending one nothing but the back button.
\<close>

inductive bills_turn :: "bills \<Rightarrow> bills \<Rightarrow> bool" where
  accounts: "bills_turn s (s\<lparr>bl_accountId := i\<rparr>)"
| category: "\<not> bl_isPending s \<Longrightarrow> bl_result s = None \<Longrightarrow> bl_category s = None \<Longrightarrow> cat \<in> set billCategories \<Longrightarrow>
    bills_turn s (handleCategorySelect cat s)"
| provider: "\<not> bl_isPending s \<Longrightarrow> bl_result s = None \<Longrightarrow> bl_category s \<noteq> None \<Longrightarrow> p \<in> set (bl_billers s) \<Longrightarrow>
    bills_turn s (handleProviderSelect p s)"
| typed_phone: "bl_selected s \<noteq> None \<Longrightarrow> bills_turn s (s\<lparr>bl_phone := filter is_digit typed, bl_customerName := []\<rparr>)"
| typed_amount: "bl_selected s \<noteq> None \<Longrightarrow> bills_turn s (s\<lparr>bl_amount := typed\<rparr>)"
| left_field: "bl_selected s \<noteq> None \<Longrightarrow> needsValidation s \<Longrightarrow> bills_turn s (handleValidateCustomer s)"
| chosen: "bl_selected s \<noteq> None \<Longrightarrow> b \<in> set (bl_bundles s) \<Longrightarrow> bills_turn s (s\<lparr>bl_bundle := Some b\<rparr>)"
| pay: "bl_selected s \<noteq> None \<Longrightarrow> \<not> bl_isLoading s \<Longrightarrow> canPay s \<Longrightarrow> bl_accountId s \<noteq> None \<Longrightarrow>
    bills_turn s (snd (bills_handleSubmit fixed s))"
| up: "bills_turn s (s\<lparr>bl_category := None\<rparr>)"
| again: "bl_result s \<noteq> None \<Longrightarrow> bills_turn s (s\<lparr>bl_result := None, bl_category := None\<rparr>)"

section \<open>Cards\<close>

record card =
  cd_id :: string
  cd_type :: string
  cd_status :: string
  cd_last4 :: string
  cd_balance :: int

record cards =
  cs_cards :: "card list"
  cs_isLoading :: bool
  cs_isPending :: bool

definition cardsMounted :: cards where
  "cardsMounted =
     (let s = \<lparr>cs_cards = [], cs_isLoading = True, cs_isPending = False\<rparr>
      in case call cardsApi ''getCards'' of
           Inl err \<Rightarrow> s\<lparr>cs_isPending := isPendingError err, cs_isLoading := False\<rparr>
         | Inr cards \<Rightarrow> s\<lparr>cs_cards := cards, cs_isLoading := False\<rparr>)"

text \<open>Errors of this handler are not caught: they end it.\<close>

definition handleFreeze :: "string \<Rightarrow> cards \<Rightarrow> cards" where
  "handleFreeze cardId s =
     (case (call cardsApi ''freeze'' :: clientError + unit) of
        Inl err \<Rightarrow> s
      | Inr _ \<Rightarrow> (case call cardsApi ''getCards'' of Inl err \<Rightarrow> s | Inr updated \<Rightarrow> s\<lparr>cs_cards := updated\<rparr>))"

inductive cards_turn :: "cards \<Rightarrow> cards \<Rightarrow> bool" where
  freeze_card: "\<not> cs_isPending s \<Longrightarrow> c \<in> set (cs_cards s) \<Longrightarrow> cd_status c \<noteq> ''pending'' \<Longrightarrow> cards_turn s (handleFreeze (cd_id c) s)"

section \<open>Savings goals\<close>

record goal =
  gl_id :: string
  gl_name :: string
  gl_savedKobo :: int
  gl_targetKobo :: int
  gl_frequency :: string

record newGoal =
  ng_name :: string
  ng_targetKobo :: string
  ng_frequency :: string

record savings =
  sv_goals :: "goal list"
  sv_isLoading :: bool
  sv_isPending :: bool
  sv_showCreate :: bool
  sv_newGoal :: newGoal

definition emptyGoal :: newGoal where
  "emptyGoal = \<lparr>ng_name = [], ng_targetKobo = [], ng_frequency = ''monthly''\<rparr>"

definition savingsMounted :: savings where
  "savingsMounted =
     (let s = \<lparr>sv_goals = [], sv_isLoading = True, sv_isPending = False, sv_showCreate = False, sv_newGoal = emptyGoal\<rparr>
      in case call savingsApi ''getAll'' of
           Inl err \<Rightarrow> s\<lparr>sv_isPending := isPendingError err, sv_isLoading := False\<rparr>
         | Inr goals \<Rightarrow> s\<lparr>sv_goals := goals, sv_isLoading := False\<rparr>)"

definition handleCreate :: "savings \<Rightarrow> savings" where
  "handleCreate s =
     (if ng_name (sv_newGoal s) = [] \<or> ng_targetKobo (sv_newGoal s) = [] then s
      else
        (case call savingsApi ''create'' of
           Inl err \<Rightarrow> s
         | Inr created \<Rightarrow> s\<lparr>sv_goals := created # sv_goals s, sv_showCreate := False, sv_newGoal := emptyGoal\<rparr>))"

definition handleTopUp :: "string \<Rightarrow> savings \<Rightarrow> savings" where
  "handleTopUp goalId s =
     (case (call savingsApi ''topUp'' :: clientError + unit) of
        Inl err \<Rightarrow> s
      | Inr _ \<Rightarrow> (case call savingsApi ''getAll'' of Inl err \<Rightarrow> s | Inr updated \<Rightarrow> s\<lparr>sv_goals := updated\<rparr>))"

inductive savings_turn :: "savings \<Rightarrow> savings \<Rightarrow> bool" where
  open_form: "\<not> sv_isPending s \<Longrightarrow> savings_turn s (s\<lparr>sv_showCreate := True\<rparr>)"
| typed: "sv_showCreate s \<Longrightarrow> savings_turn s (s\<lparr>sv_newGoal := g\<rparr>)"
| cancel: "sv_showCreate s \<Longrightarrow> savings_turn s (s\<lparr>sv_showCreate := False\<rparr>)"
| create: "sv_showCreate s \<Longrightarrow> savings_turn s (handleCreate s)"
| top_up: "\<not> sv_isPending s \<Longrightarrow> g \<in> set (sv_goals s) \<Longrightarrow> savings_turn s (handleTopUp (gl_id g) s)"

section \<open>Loans\<close>

record offer =
  of_id :: string
  of_name :: string
  of_interestRate :: int
  of_maxAmountKobo :: int
  of_tenorDays :: int

record loanResult =
  lr_status :: string
  lr_message :: string

record loans =
  ln_offers :: "offer list"
  ln_active :: "offer list"
  ln_selected :: "offer option"
  ln_amount :: string
  ln_isLoading :: bool
  ln_isPending :: bool
  ln_result :: "loanResult option"

definition loansMounted :: loans where
  "loansMounted =
     (let s = \<lparr>ln_offers = [], ln_active = [], ln_selected = None, ln_amount = [], ln_isLoading = False,
               ln_isPending = False, ln_result = None\<rparr>;
          s1 = (case call loansApi ''getOffers'' of
                  Inl err \<Rightarrow> if isPendingError err then s\<lparr>ln_isPending := True\<rparr> else s
                | Inr offers \<Rightarrow> s\<lparr>ln_offers := offers\<rparr>)
      in case call loansApi ''getActive'' of Inl err \<Rightarrow> s1 | Inr active \<Rightarrow> s1\<lparr>ln_active := active\<rparr>)"

text \<open>A failed application becomes a result too, which the screen presents as one that was submitted.\<close>

definition handleApply :: "loans \<Rightarrow> loans" where
  "handleApply s =
     (if ln_selected s = None \<or> ln_amount s = [] then s
      else
        (case call loansApi ''apply'' of
           Inl err \<Rightarrow> s\<lparr>ln_result := Some \<lparr>lr_status = ''error'', lr_message = error_message err\<rparr>, ln_isLoading := False\<rparr>
         | Inr res \<Rightarrow> s\<lparr>ln_result := Some res, ln_isLoading := False\<rparr>))"

inductive loans_turn :: "loans \<Rightarrow> loans \<Rightarrow> bool" where
  choose_offer: "\<not> ln_isPending s \<Longrightarrow> ln_result s = None \<Longrightarrow> f \<in> set (ln_offers s) \<Longrightarrow> loans_turn s (s\<lparr>ln_selected := Some f\<rparr>)"
| typed: "ln_selected s \<noteq> None \<Longrightarrow> loans_turn s (s\<lparr>ln_amount := a\<rparr>)"
| apply_loan: "ln_selected s \<noteq> None \<Longrightarrow> ln_amount s \<noteq> [] \<Longrightarrow> loans_turn s (handleApply s)"

section \<open>Rewards\<close>

record redemption =
  rd_id :: string
  rd_name :: string
  rd_pointsCost :: int

record rewardsData =
  rw_points :: int
  rw_tier :: string
  rw_redemptions :: "redemption list"

record rewards =
  rs_data :: "rewardsData option"
  rs_isLoading :: bool
  rs_isPending :: bool
  rs_redeeming :: "string option"
  rs_alerts :: "string list"

definition rewardsMounted :: rewards where
  "rewardsMounted =
     (let s = \<lparr>rs_data = None, rs_isLoading = True, rs_isPending = False, rs_redeeming = None, rs_alerts = []\<rparr>
      in case call rewardsApi ''getRewards'' of
           Inl err \<Rightarrow> s\<lparr>rs_isPending := isPendingError err, rs_isLoading := False\<rparr>
         | Inr data \<Rightarrow> s\<lparr>rs_data := Some data, rs_isLoading := False\<rparr>)"

definition handleRedeem :: "string \<Rightarrow> rewards \<Rightarrow> rewards" where
  "handleRedeem redemptionId s =
     (case (call rewardsApi ''redeem'' :: clientError + unit) of
        Inl err \<Rightarrow> s\<lparr>rs_alerts := rs_alerts s @ [error_message err], rs_redeeming := None\<rparr>
      | Inr _ \<Rightarrow>
          (case call rewardsApi ''getRewards'' of
             Inl err \<Rightarrow> s\<lparr>rs_alerts := rs_alerts s @ [error_message err], rs_redeeming := None\<rparr>
           | Inr updated \<Rightarrow> s\<lparr>rs_data := Some updated, rs_redeeming := None\<rparr>))"

inductive rewards_turn :: "rewards \<Rightarrow> rewards \<Rightarrow> bool" where
  redeem: "\<not> rs_isPending s \<Longrightarrow> rs_data s = Some d \<Longrightarrow> x \<in> set (rw_redemptions d) \<Longrightarrow> rw_points d \<ge> rd_pointsCost x \<Longrightarrow>
    rewards_turn s (handleRedeem (rd_id x) s)"

section \<open>Dashboard and profile\<close>

record 'a dashboard =
  db_account :: "accountResponse option"
  db_savings :: "goal list"
  db_transactions :: "'a list"
  db_loading :: "bool \<times> bool \<times> bool"
  db_pending :: "bool \<times> bool"
  db_error :: "string option"

definition dashboardMounted :: "'a dashboard" where
  "dashboardMounted = \<lparr>db_account = None, db_savings = [], db_transactions = [], db_loading = (True, True, True),
     db_pending = (False, False), db_error = None\<rparr>"

text \<open>\<open>loadDashboard\<close> given the answer to the request for the accounts.\<close>

definition loadDashboard :: "accountResponse list option \<Rightarrow> 'a dashboard \<Rightarrow> 'a dashboard" where
  "loadDashboard accountsResult s =
     (let s0 = s\<lparr>db_error := None\<rparr>
      in case accountsResult of
           Some (primaryAccount # rest) \<Rightarrow>
             (let s1 = s0\<lparr>db_account := Some primaryAccount\<rparr>;
                  s2 = (case call savingsApi ''getAll'' of
                          Inr goals \<Rightarrow> s1\<lparr>db_savings := goals\<rparr>
                        | Inl err \<Rightarrow> if isPendingError err then s1\<lparr>db_pending := (True, snd (db_pending s1))\<rparr> else s1);
                  s3 = (case call ledgerApi ''getAccountEntriesList'' of
                          Inr entries \<Rightarrow> s2\<lparr>db_transactions := entries\<rparr>
                        | Inl err \<Rightarrow> if isPendingError err then s2\<lparr>db_pending := (fst (db_pending s2), True)\<rparr> else s2)
              in s3\<lparr>db_loading := (False, False, False)\<rparr>)
         | _ \<Rightarrow> s0\<lparr>db_error := Some ''Could not load your account.'', db_loading := (False, False, False)\<rparr>)"

record notification =
  nt_id :: string
  nt_title :: string
  nt_read :: bool

record profile =
  pf_profile :: "userResponseDto option"
  pf_kyc :: "kycStatusResponse option"
  pf_account :: "accountResponse option"
  pf_notifications :: "notification list"
  pf_notifPending :: bool
  pf_isLoading :: bool
  pf_showNotif :: bool

definition profileMounted :: profile where
  "profileMounted = \<lparr>pf_profile = None, pf_kyc = None, pf_account = None, pf_notifications = [], pf_notifPending = False,
     pf_isLoading = True, pf_showNotif = False\<rparr>"

text \<open>All four requests have settled; a rejected one is None.\<close>

definition profileSettled ::
  "userResponseDto option \<Rightarrow> kycStatusResponse option \<Rightarrow> accountResponse list option \<Rightarrow> profile \<Rightarrow> profile" where
  "profileSettled p k accts s =
     (let s1 = s\<lparr>pf_profile := (case p of Some v \<Rightarrow> Some v | None \<Rightarrow> pf_profile s),
                 pf_kyc := (case k of Some v \<Rightarrow> Some v | None \<Rightarrow> pf_kyc s),
                 pf_account := (case accts of Some (a # as) \<Rightarrow> Some a | Some [] \<Rightarrow> None | None \<Rightarrow> pf_account s)\<rparr>
      in (case call notificationsApi ''getNotifications'' of
            Inr ns \<Rightarrow> s1\<lparr>pf_notifications := ns\<rparr>
          | Inl err \<Rightarrow> if isPendingError err then s1\<lparr>pf_notifPending := True\<rparr> else s1)\<lparr>pf_isLoading := False\<rparr>)"

definition unreadCount :: "profile \<Rightarrow> nat" where
  "unreadCount s = length (filter (\<lambda>n. \<not> nt_read n) (pf_notifications s))"

definition handleMarkAllRead :: "profile \<Rightarrow> profile" where
  "handleMarkAllRead s =
     (case (call notificationsApi ''markAllRead'' :: clientError + unit) of
        Inl err \<Rightarrow> s
      | Inr _ \<Rightarrow> s\<lparr>pf_notifications := map (\<lambda>n. n\<lparr>nt_read := True\<rparr>) (pf_notifications s)\<rparr>)"

section \<open>Nothing is invented and nothing succeeds\<close>

definition bills_blank :: "bills \<Rightarrow> bool" where
  "bills_blank s \<longleftrightarrow>
     bl_isPending s \<and> bl_result s = None \<and> bl_billers s = [] \<and> bl_bundles s = [] \<and> bl_selected s = None"

definition cards_blank :: "cards \<Rightarrow> bool" where
  "cards_blank s \<longleftrightarrow> cs_isPending s \<and> cs_cards s = []"

definition savings_blank :: "savings \<Rightarrow> bool" where
  "savings_blank s \<longleftrightarrow> sv_isPending s \<and> sv_goals s = [] \<and> \<not> sv_showCreate s"

definition loans_blank :: "loans \<Rightarrow> bool" where
  "loans_blank s \<longleftrightarrow>
     ln_isPending s \<and> ln_offers s = [] \<and> ln_active s = [] \<and> ln_selected s = None \<and> ln_result s = None"

definition rewards_blank :: "rewards \<Rightarrow> bool" where
  "rewards_blank s \<longleftrightarrow> rs_isPending s \<and> rs_data s = None \<and> rs_alerts s = []"

lemmas pending_apis = call_error_def billsApi_def cardsApi_def savingsApi_def loansApi_def rewardsApi_def
  ledgerApi_def notificationsApi_def

interpretation bills_screen: event_loop bills_turn billsMounted bills_blank
proof
  show "bills_blank billsMounted" by (simp add: bills_blank_def billsMounted_def pending_apis)
  show "bills_blank s'" if "bills_turn s s'" "bills_blank s" for s s'
    using that by (cases rule: bills_turn.cases) (auto simp: bills_blank_def)
qed

interpretation cards_screen: event_loop cards_turn cardsMounted cards_blank
  by unfold_locales (auto simp: cards_blank_def cardsMounted_def pending_apis elim: cards_turn.cases)

interpretation savings_screen: event_loop savings_turn savingsMounted savings_blank
  by unfold_locales (auto simp: savings_blank_def savingsMounted_def pending_apis elim: savings_turn.cases)

interpretation loans_screen: event_loop loans_turn loansMounted loans_blank
  by unfold_locales (auto simp: loans_blank_def loansMounted_def pending_apis elim: loans_turn.cases)

interpretation rewards_screen: event_loop rewards_turn rewardsMounted rewards_blank
  by unfold_locales (auto simp: rewards_blank_def rewardsMounted_def pending_apis elim: rewards_turn.cases)

text \<open>
  The screens of unbuilt features neither invent data nor report a success. Whatever the user does
  on them, each says that its module is not available; no biller, bundle, card, goal, offer or points
  are shown, nothing can be chosen, and no payment or application is ever reported as done. The
  dashboard and the profile say so of their own unbuilt parts and show the account all the same.
\<close>

theorem unbuilt_features_show_nothing:
  assumes "bills_turn\<^sup>*\<^sup>* billsMounted b" and "cards_turn\<^sup>*\<^sup>* cardsMounted c" and "savings_turn\<^sup>*\<^sup>* savingsMounted g"
    and "loans_turn\<^sup>*\<^sup>* loansMounted l" and "rewards_turn\<^sup>*\<^sup>* rewardsMounted r"
  shows "bl_isPending b \<and> bl_result b = None \<and> bl_billers b = [] \<and> bl_bundles b = [] \<and> bl_selected b = None \<and>
    cs_isPending c \<and> cs_cards c = [] \<and> sv_isPending g \<and> sv_goals g = [] \<and>
    ln_isPending l \<and> ln_offers l = [] \<and> ln_result l = None \<and> rs_isPending r \<and> rs_data r = None \<and> rs_alerts r = [] \<and>
    db_pending (loadDashboard (Some (a # as)) d) = (True, True) \<and> db_account (loadDashboard (Some (a # as)) d) = Some a \<and>
    db_savings (loadDashboard (Some (a # as)) d) = db_savings d \<and>
    pf_notifPending (profileSettled p k (Some (a # as)) f) \<and> pf_account (profileSettled p k (Some (a # as)) f) = Some a \<and>
    pf_notifications (profileSettled p k (Some (a # as)) f) = pf_notifications f"
  using bills_screen.always [OF assms(1)] cards_screen.always [OF assms(2)] savings_screen.always [OF assms(3)]
    loans_screen.always [OF assms(4)] rewards_screen.always [OF assms(5)]
  by (simp add: bills_blank_def cards_blank_def savings_blank_def loans_blank_def rewards_blank_def
      loadDashboard_def profileSettled_def pending_apis)

text \<open>
  The application form is not ready for its module: an application that fails becomes a result, and a
  result of any status is presented under the heading that it was submitted.
\<close>

definition loans_heading :: "loans \<Rightarrow> string" where
  "loans_heading s = (if ln_result s \<noteq> None then ''Application Submitted'' else ''Available Offers'')"

theorem failed_application_shown_as_submitted:
  assumes "ln_selected s \<noteq> None" and "ln_amount s \<noteq> []"
  shows "loans_heading (handleApply s) = ''Application Submitted'' \<and>
    map_option lr_status (ln_result (handleApply s)) = Some ''error''"
  using assms by (auto simp: handleApply_def loans_heading_def)

section \<open>Examples\<close>

text \<open>An account loads, and the user leaves the category.\<close>

theorem unbuilt_features_show_nothing_witness:
  "\<exists>b. bills_turn\<^sup>*\<^sup>* billsMounted b \<and> bl_accountId b = Some ''a1'' \<and> bl_isPending b \<and> bl_result b = None"
proof -
  let ?b = "billsMounted\<lparr>bl_accountId := Some ''a1'', bl_category := None\<rparr>"
  have run: "bills_turn\<^sup>*\<^sup>* billsMounted ?b"
    by (rule rtranclp_trans [OF r_into_rtranclp r_into_rtranclp], rule bills_turn.accounts [where i = "Some ''a1''"])
      (rule bills_turn.up)
  have "bl_isPending ?b \<and> bl_result ?b = None"
    using unbuilt_features_show_nothing [OF run rtranclp.rtrancl_refl rtranclp.rtrancl_refl rtranclp.rtrancl_refl rtranclp.rtrancl_refl]
    by blast
  with run show ?thesis by (intro exI [of _ ?b]) simp
qed

end
