(* ===== verification/AuthScreens.thy ===== *)
theory AuthScreens
  imports Screens
begin

text \<open>
  Registration, login and identity verification in the web client
  (\<^verbatim>\<open>frontend/src/features/auth/Signup.jsx\<close>, \<^verbatim>\<open>Login.jsx\<close>, \<^verbatim>\<open>components/PhoneInput.jsx\<close>,
  \<^verbatim>\<open>features/kyc/Kyc.jsx\<close>): what they check before they call the API, and the tiers customers reach through them.
\<close>

section \<open>Checks of the forms\<close>

text \<open>\<open>/^\S+@\S+\.\S+$/\<close>: an at sign after a first character, and a dot with a character on either side after it.\<close>

definition looksLikeEmail :: "string \<Rightarrow> bool" where
  "looksLikeEmail s \<longleftrightarrow>
     list_all (\<lambda>c. \<not> is_space c) s \<and>
     list_ex (\<lambda>i. s ! i = CHR ''@'' \<and> list_ex (\<lambda>j. s ! j = CHR ''.'') [i + 2 ..< length s - 1]) [1 ..< length s]"

text \<open>\<open>/^.{10,}$/\<close>: the dot does not match the end of a line.\<close>

definition PASSWORD_RULE :: "string \<Rightarrow> bool" where
  "PASSWORD_RULE s \<longleftrightarrow> 10 \<le> length s \<and> list_all (\<lambda>c. code_unit c \<noteq> 10 \<and> code_unit c \<noteq> 13) s"

text \<open>What the field for the phone number lets through of what is typed into it.\<close>

definition typedPhone :: "string \<Rightarrow> string" where
  "typedPhone typed = filter is_digit (take 10 typed)"

type_synonym formErrors = "(string \<times> string) list"

definition Signup_validate :: "string \<Rightarrow> string \<Rightarrow> string \<Rightarrow> string \<Rightarrow> string \<Rightarrow> formErrors" where
  "Signup_validate firstName lastName email phone password =
     (if trim firstName = [] then [(''firstName'', ''Enter your first name'')] else []) @
     (if trim lastName = [] then [(''lastName'', ''Enter your last name'')] else []) @
     (if email = [] \<or> \<not> looksLikeEmail email then [(''email'', ''Enter a valid email address'')] else []) @
     (if phone = [] \<or> length phone < 10 then [(''phone'', ''Enter a valid 10-digit phone number'')] else []) @
     (if \<not> PASSWORD_RULE password then [(''password'', ''Min 10 characters'')] else [])"

definition Signup_handleSubmit :: "string \<Rightarrow> string \<Rightarrow> string \<Rightarrow> string \<Rightarrow> string \<Rightarrow> formErrors + body" where
  "Signup_handleSubmit firstName lastName email phone password =
     (let errors = Signup_validate firstName lastName email phone password
      in if errors \<noteq> [] then Inl errors
         else Inr [(''email'', JString (trim email)), (''password'', JString password), (''firstName'', JString (trim firstName)),
                   (''lastName'', JString (trim lastName)), (''phoneNumber'', JString (''+234'' @ phone))])"

definition Login_validate :: "string \<Rightarrow> string \<Rightarrow> formErrors" where
  "Login_validate email password =
     (if email = [] \<or> \<not> looksLikeEmail email then [(''email'', ''Enter a valid email address'')] else []) @
     (if password = [] then [(''password'', ''Enter your password'')] else [])"

definition Login_body :: "string \<Rightarrow> string \<Rightarrow> formErrors + body" where
  "Login_body email password =
     (let errors = Login_validate email password
      in if errors \<noteq> [] then Inl errors else Inr [(''email'', JString (trim email)), (''password'', JString password)])"

text \<open>
  The rest of a login, given the answers to it and to the request for the accounts: the page, whether
  the first wallet is requested, the error shown, and whether the dashboard is opened.
\<close>

definition Login_handleSubmit ::
  "string + authResponseDto \<Rightarrow> string + accountResponse list \<Rightarrow> page \<Rightarrow> page \<times> bool \<times> string option \<times> bool" where
  "Login_handleSubmit answer accountsAnswer s =
     (case answer of
        Inl message \<Rightarrow> (s, False, Some message, False)
      | Inr response \<Rightarrow>
          (handleSubmit_then (ad_user response) (ad_accessToken response) (ad_refreshToken response) s,
           accountsAnswer = Inr [], None, True))"

section \<open>Identity verification\<close>

record kycScreen =
  kc_status :: "kycStatusResponse option"
  kc_isLoading :: bool
  kc_loadError :: string
  kc_bvn :: string
  kc_bvnError :: string
  kc_bvnSubmitting :: bool
  kc_nin :: string
  kc_ninError :: string
  kc_ninSubmitting :: bool

definition kycMounted :: kycScreen where
  "kycMounted = \<lparr>kc_status = None, kc_isLoading = True, kc_loadError = [], kc_bvn = [], kc_bvnError = [],
     kc_bvnSubmitting = False, kc_nin = [], kc_ninError = [], kc_ninSubmitting = False\<rparr>"

definition orMessage :: "string \<Rightarrow> string \<Rightarrow> string" where
  "orMessage message other = (if message = [] then other else message)"

definition kycStatusSettled :: "string + kycStatusResponse \<Rightarrow> kycScreen \<Rightarrow> kycScreen" where
  "kycStatusSettled answer s =
     (case answer of
        Inr status \<Rightarrow> s\<lparr>kc_status := Some status, kc_isLoading := False\<rparr>
      | Inl message \<Rightarrow> s\<lparr>kc_loadError := orMessage message ''Could not load your KYC status.'', kc_isLoading := False\<rparr>)"

text \<open>The number that is submitted, and the answer.\<close>

definition handleVerifyBvn :: "kycScreen \<Rightarrow> string option \<times> kycScreen" where
  "handleVerifyBvn s =
     (if \<not> matches_digits 11 (kc_bvn s) then (None, s\<lparr>kc_bvnError := ''BVN must be 11 digits.''\<rparr>)
      else (Some (kc_bvn s), s\<lparr>kc_bvnSubmitting := True, kc_bvnError := []\<rparr>))"

definition bvnAnswered :: "string + kycStatusResponse \<Rightarrow> kycScreen \<Rightarrow> kycScreen" where
  "bvnAnswered answer s =
     (case answer of
        Inr updated \<Rightarrow> s\<lparr>kc_status := Some updated, kc_bvn := [], kc_bvnSubmitting := False\<rparr>
      | Inl message \<Rightarrow> s\<lparr>kc_bvnError := orMessage message ''Could not verify BVN.'', kc_bvnSubmitting := False\<rparr>)"

definition handleVerifyNin :: "kycScreen \<Rightarrow> string option \<times> kycScreen" where
  "handleVerifyNin s =
     (if \<not> matches_digits 11 (kc_nin s) then (None, s\<lparr>kc_ninError := ''NIN must be 11 digits.''\<rparr>)
      else (Some (kc_nin s), s\<lparr>kc_ninSubmitting := True, kc_ninError := []\<rparr>))"

definition ninAnswered :: "string + kycStatusResponse \<Rightarrow> kycScreen \<Rightarrow> kycScreen" where
  "ninAnswered answer s =
     (case answer of
        Inr updated \<Rightarrow> s\<lparr>kc_status := Some updated, kc_nin := [], kc_ninSubmitting := False\<rparr>
      | Inl message \<Rightarrow> s\<lparr>kc_ninError := orMessage message ''Could not verify NIN.'', kc_ninSubmitting := False\<rparr>)"

definition bvnVerified :: "kycScreen \<Rightarrow> bool" where
  "bvnVerified s \<longleftrightarrow> (case kc_status s of Some status \<Rightarrow> ks_bvnVerified status | None \<Rightarrow> False)"

definition ninVerified :: "kycScreen \<Rightarrow> bool" where
  "ninVerified s \<longleftrightarrow> (case kc_status s of Some status \<Rightarrow> ks_ninVerified status | None \<Rightarrow> False)"

text \<open>
  A customer at work: any number of such screens, opened and left at any time, the profile on the backend, and the
  submissions and answers under way. The form for the NIN is there only when the status on its screen
  says that the BVN is verified. The backend works in a submission, or refuses it, or does to the
  profile what does not verify anything, at any time.
\<close>

record kycVisit =
  kv_screens :: "kycScreen list"
  kv_profile :: kycProfile
  kv_bvns :: "string list"
  kv_nins :: "string list"
  kv_answers :: "kycStatusResponse list"

definition on_screen :: "nat \<Rightarrow> (kycScreen \<Rightarrow> kycScreen) \<Rightarrow> kycVisit \<Rightarrow> kycVisit" where
  "on_screen i f v = v\<lparr>kv_screens := (kv_screens v)[i := f (kv_screens v ! i)]\<rparr>"

definition profile_answers :: "kycProfile \<Rightarrow> kycVisit \<Rightarrow> kycVisit" where
  "profile_answers p v = v\<lparr>kv_profile := p, kv_answers := KycStatusResponseDto_fromDomain p # kv_answers v\<rparr>"

inductive kyc_turn :: "kycVisit \<Rightarrow> kycVisit \<Rightarrow> bool" where
  opened: "kyc_turn v (v\<lparr>kv_screens := kv_screens v @ [kycMounted]\<rparr>)"
| typed: "i < length (kv_screens v) \<Longrightarrow>
    kyc_turn v (on_screen i (\<lambda>s. s\<lparr>kc_bvn := filter is_digit b, kc_nin := filter is_digit n\<rparr>) v)"
| submit_bvn: "i < length (kv_screens v) \<Longrightarrow> \<not> bvnVerified (kv_screens v ! i) \<Longrightarrow>
    handleVerifyBvn (kv_screens v ! i) = (Some b, s) \<Longrightarrow>
    kyc_turn v (on_screen i (\<lambda>_. s) (v\<lparr>kv_bvns := b # kv_bvns v\<rparr>))"
| submit_nin: "i < length (kv_screens v) \<Longrightarrow> bvnVerified (kv_screens v ! i) \<Longrightarrow> \<not> ninVerified (kv_screens v ! i) \<Longrightarrow>
    handleVerifyNin (kv_screens v ! i) = (Some n, s) \<Longrightarrow>
    kyc_turn v (on_screen i (\<lambda>_. s) (v\<lparr>kv_nins := n # kv_nins v\<rparr>))"
| read_status: "kyc_turn v (profile_answers (kv_profile v) v)"
| bvn_passed: "b \<in> set (kv_bvns v) \<Longrightarrow> recordBvnVerified t h m (kv_profile v) = Inr p \<Longrightarrow> kyc_turn v (profile_answers p v)"
| nin_passed: "n \<in> set (kv_nins v) \<Longrightarrow> recordNinVerified t h m (kv_profile v) = Inr p \<Longrightarrow> kyc_turn v (profile_answers p v)"
| elsewhere: "same_verification (kv_profile v) p \<Longrightarrow> kyc_turn v (v\<lparr>kv_profile := p\<rparr>)"
| status: "i < length (kv_screens v) \<Longrightarrow> answer = Inl e \<or> (\<exists>a \<in> set (kv_answers v). answer = Inr a) \<Longrightarrow>
    f \<in> {kycStatusSettled, bvnAnswered, ninAnswered} \<Longrightarrow> kyc_turn v (on_screen i (f answer) v)"

section \<open>What passes the forms\<close>

lemma typedPhone_digits: "list_all is_digit (typedPhone typed)" "length (typedPhone typed) \<le> 10"
  by (auto simp: typedPhone_def list_all_iff intro: order_trans [OF length_filter_le])

lemma prefixed_e164: "length phone = 10 \<Longrightarrow> list_all is_digit phone \<Longrightarrow> is_e164 (''+234'' @ phone)"
  by (simp add: is_e164_def is_digit_def)

lemma looksLikeEmail_trim: "looksLikeEmail s \<Longrightarrow> trim s = s"
  unfolding looksLikeEmail_def by (intro trim_no_space) (simp add: list_all_iff)

text \<open>
  C29. What the registration form accepts, the API accepts, up to three bounds that the form does not
  know: the names have at most a hundred characters, the password at most 128, and the address is one
  for the validation library too. The phone number and the password then pass the domain's own checks.
\<close>

theorem signup_meets_api:
  assumes "Signup_handleSubmit firstName lastName email (typedPhone typed) password = Inr b"
  shows "((\<exists>r. endpoint_route V EpRegister b = Inr r) \<longleftrightarrow>
      vd_isEmail V email \<and> length (trim firstName) \<le> 100 \<and> length (trim lastName) \<le> 100 \<and> length password \<le> 128) \<and>
    PhoneNumber_create (''+234'' @ typedPhone typed) = Inr (PhoneNumber (''+234'' @ typedPhone typed)) \<and>
    PlainPassword_create password = Inr (PlainPassword password)"
proof -
  have ok: "trim firstName \<noteq> []" "trim lastName \<noteq> []" "looksLikeEmail email" "length (typedPhone typed) = 10" "PASSWORD_RULE password"
    and b: "b = [(''email'', JString (trim email)), (''password'', JString password), (''firstName'', JString (trim firstName)),
      (''lastName'', JString (trim lastName)), (''phoneNumber'', JString (''+234'' @ typedPhone typed))]"
    using assms typedPhone_digits(2) [of typed]
    by (auto simp: Signup_handleSubmit_def Signup_validate_def Let_def split: if_splits)
  have e164: "is_e164 (''+234'' @ typedPhone typed)" using prefixed_e164 [OF ok(4) typedPhone_digits(1)] .
  have pw: "10 \<le> length password" "password \<noteq> []" using ok(5) by (auto simp: PASSWORD_RULE_def)
  have "(\<exists>r. endpoint_route V EpRegister b = Inr r) \<longleftrightarrow>
      vd_isEmail V email \<and> length (trim firstName) \<le> 100 \<and> length (trim lastName) \<le> 100 \<and> length password \<le> 128"
    unfolding b using ok e164 pw
    by (auto simp: RegisterUserDto_validate_def declared_def stringField_def Length_def BadRequest_def looksLikeEmail_trim Suc_le_eq)
  with e164_accepted [OF e164] pw show ?thesis by (simp add: PlainPassword_create_def)
qed

text \<open>
  The field takes ten digits, and a number in the national form has eleven: its last digit is cut off,
  and what is left is accepted.
\<close>

theorem national_number_cut_off:
  "typedPhone ''08031234567'' = ''0803123456'' \<and> Signup_validate ''Ada'' ''Obi'' ''a@b.c'' (typedPhone ''08031234567'') ''0123456789'' = []"
  by code_simp

section \<open>The tiers reached through the screen\<close>

definition kyc_visit_ok :: "kycVisit \<Rightarrow> bool" where
  "kyc_visit_ok v \<longleftrightarrow>
     (list_ex bvnVerified (kv_screens v) \<or> kv_nins v \<noteq> [] \<or> list_ex ks_bvnVerified (kv_answers v) \<or>
        kp_ninVerifiedAt (kv_profile v) \<noteq> None \<longrightarrow> kp_bvnVerifiedAt (kv_profile v) \<noteq> None) \<and>
     kp_tier (kv_profile v) =
       (if kp_bvnVerifiedAt (kv_profile v) = None then TIER_1
        else if kp_ninVerifiedAt (kv_profile v) = None then TIER_2 else TIER_3)"

lemma status_bvn [simp]: "ks_bvnVerified (KycStatusResponseDto_fromDomain p) \<longleftrightarrow> kp_bvnVerifiedAt p \<noteq> None"
  by (simp add: KycStatusResponseDto_fromDomain_def)

lemma handleVerify_status:
  "handleVerifyBvn s = (r, s') \<Longrightarrow> bvnVerified s' = bvnVerified s"
  "handleVerifyNin s = (r', s') \<Longrightarrow> bvnVerified s' = bvnVerified s"
  by (auto simp: handleVerifyBvn_def handleVerifyNin_def bvnVerified_def split: if_splits)

lemma answered_status:
  assumes "f \<in> {kycStatusSettled, bvnAnswered, ninAnswered}" and "bvnVerified (f answer s)"
  shows "bvnVerified s \<or> (\<exists>a. answer = Inr a \<and> ks_bvnVerified a)"
  using assms by (auto simp: kycStatusSettled_def bvnAnswered_def ninAnswered_def bvnVerified_def split: sum.splits)

lemma on_screen_ok:
  assumes "kyc_visit_ok v" and "i < length (kv_screens v)"
    and "bvnVerified (f (kv_screens v ! i)) \<Longrightarrow> kp_bvnVerifiedAt (kv_profile v) \<noteq> None"
  shows "kyc_visit_ok (on_screen i f v)"
proof -
  have "list_ex bvnVerified (kv_screens (on_screen i f v)) \<Longrightarrow>
      list_ex bvnVerified (kv_screens v) \<or> bvnVerified (f (kv_screens v ! i))"
    using set_update_subset_insert [of "kv_screens v" i "f (kv_screens v ! i)"]
    by (auto simp: on_screen_def list_ex_iff)
  with assms show ?thesis by (auto simp: kyc_visit_ok_def on_screen_def)
qed

lemma screen_verified:
  "kyc_visit_ok v \<Longrightarrow> i < length (kv_screens v) \<Longrightarrow> bvnVerified (kv_screens v ! i) \<Longrightarrow> kp_bvnVerifiedAt (kv_profile v) \<noteq> None"
  by (auto simp: kyc_visit_ok_def list_ex_iff)

lemma kyc_turn_ok: "kyc_turn v v' \<Longrightarrow> kyc_visit_ok v \<Longrightarrow> kyc_visit_ok v'"
proof (induction rule: kyc_turn.induct)
  case (typed i v b n)
  then show ?case by (intro on_screen_ok) (auto simp: bvnVerified_def dest: screen_verified)
next
  case (submit_bvn i v b s)
  then show ?case
    by (intro on_screen_ok) (auto simp: kyc_visit_ok_def handleVerify_status(1) [OF submit_bvn(3)])
next
  case (submit_nin i v n s)
  then have "kp_bvnVerifiedAt (kv_profile v) \<noteq> None" using screen_verified by blast
  with submit_nin show ?case by (intro on_screen_ok) (auto simp: kyc_visit_ok_def)
next
  case (bvn_passed b v t h m p)
  with recordBvnVerified_fields [OF bvn_passed(2)] show ?case
    by (auto simp: kyc_visit_ok_def profile_answers_def split: if_splits)
next
  case (nin_passed n v t h m p)
  note fields = recordNinVerified_fields [OF nin_passed(2)]
  have bvn: "kp_bvnVerifiedAt (kv_profile v) \<noteq> None" using nin_passed(1,3) by (auto simp: kyc_visit_ok_def)
  with fields nin_passed(3) have "kp_tier (kv_profile v) = TIER_2" by (simp add: kyc_visit_ok_def)
  with fields bvn show ?case by (simp add: kyc_visit_ok_def profile_answers_def)
next
  case (elsewhere v p)
  then show ?case by (auto simp: kyc_visit_ok_def same_verification_def)
next
  case (status i v answer e f)
  show ?case
  proof (rule on_screen_ok [OF status(4,1)])
    assume "bvnVerified (f answer (kv_screens v ! i))"
    with answered_status [OF status(3)] consider "bvnVerified (kv_screens v ! i)" | a where "answer = Inr a" "ks_bvnVerified a"
      by blast
    then show "kp_bvnVerifiedAt (kv_profile v) \<noteq> None"
    proof cases
      case 1
      with status screen_verified show ?thesis by blast
    next
      case 2
      with status(2) have "list_ex ks_bvnVerified (kv_answers v)" by (auto simp: list_ex_iff)
      with status(4) show ?thesis by (simp add: kyc_visit_ok_def)
    qed
  qed
qed (auto simp: kyc_visit_ok_def profile_answers_def kycMounted_def bvnVerified_def)

definition customer :: "int \<Rightarrow> string \<Rightarrow> string \<Rightarrow> kycVisit" where
  "customer t newId userId =
     \<lparr>kv_screens = [], kv_profile = kyc_createDefault t newId userId, kv_bvns = [], kv_nins = [], kv_answers = []\<rparr>"

interpretation kyc_screens: event_loop kyc_turn "customer t newId userId" kyc_visit_ok for t newId userId
proof
  show "kyc_visit_ok (customer t newId userId)"
    by (simp add: kyc_visit_ok_def customer_def kyc_createDefault_def kyc_addDomainEvent_def)
qed (rule kyc_turn_ok)

text \<open>
  C23. Through the screens the tiers are reached in their order. However many screens a customer opens,
  whatever is typed and submitted on them and however the answers arrive, the NIN is verified only
  after the BVN, and the tier is exactly what is verified: TIER_1 for nothing, TIER_2 for the BVN,
  TIER_3 for both. (A member of staff who verifies the NIN first, by an override, is outside of this; what
  comes of it is in theory Kyc.)
\<close>

theorem kyc_screens_tier:
  assumes "kyc_turn\<^sup>*\<^sup>* (customer t newId u) v"
  shows "(kp_ninVerifiedAt (kv_profile v) \<noteq> None \<longrightarrow> kp_bvnVerifiedAt (kv_profile v) \<noteq> None) \<and>
    kp_tier (kv_profile v) =
      (if kp_bvnVerifiedAt (kv_profile v) = None then TIER_1
       else if kp_ninVerifiedAt (kv_profile v) = None then TIER_2 else TIER_3) \<and>
    list_all (\<lambda>s. bvnVerified s \<longrightarrow> kp_bvnVerifiedAt (kv_profile v) \<noteq> None) (kv_screens v)"
  using kyc_screens.always [OF assms] by (auto simp: kyc_visit_ok_def list_ex_iff list_all_iff)

section \<open>Examples\<close>

theorem signup_meets_api_witness:
  "\<exists>b r. Signup_handleSubmit ''Ada'' ''Obi'' ''ada@kudi.ng'' (typedPhone ''8031234567'') ''long enough'' = Inr b \<and>
     endpoint_route exampleValidator EpRegister b = Inr r"
proof -
  let ?b = "[(''email'', JString ''ada@kudi.ng''), (''password'', JString ''long enough''), (''firstName'', JString ''Ada''),
    (''lastName'', JString ''Obi''), (''phoneNumber'', JString ''+2348031234567'')]"
  have b: "Signup_handleSubmit ''Ada'' ''Obi'' ''ada@kudi.ng'' (typedPhone ''8031234567'') ''long enough'' = Inr ?b"
    by code_simp
  have "trim ''Ada'' = ''Ada''" "trim ''Obi'' = ''Obi''" by code_simp+
  with signup_meets_api [OF b, of exampleValidator] have "\<exists>r. endpoint_route exampleValidator EpRegister ?b = Inr r"
    by (simp add: exampleValidator_def)
  with b show ?thesis by blast
qed

text \<open>A BVN is submitted and verified, the answer arrives, and the NIN follows.\<close>

definition typedNumbers :: kycScreen where
  "typedNumbers = kycMounted\<lparr>kc_bvn := ''12345678901'', kc_nin := ''22345678901''\<rparr>"

definition verifiedBvn :: kycProfile where
  "verifiedBvn = projr (recordBvnVerified 6 ''h'' ''m'' (kyc_createDefault 5 ''k1'' ''u1''))"

definition verifiedNin :: kycProfile where
  "verifiedNin = projr (recordNinVerified 7 ''i'' ''n'' verifiedBvn)"

lemma example_verified:
  "recordBvnVerified 6 ''h'' ''m'' (kyc_createDefault 5 ''k1'' ''u1'') = Inr verifiedBvn"
  "recordNinVerified 7 ''i'' ''n'' verifiedBvn = Inr verifiedNin"
  "kp_bvnVerifiedAt verifiedNin \<noteq> None" "kp_ninVerifiedAt verifiedNin \<noteq> None" "kp_bvnVerifiedAt verifiedBvn \<noteq> None"
    "kp_ninVerifiedAt verifiedBvn = None"
  by (simp_all add: verifiedNin_def verifiedBvn_def kyc_createDefault_def kyc_addDomainEvent_def
      kyc_touch_def recordBvnVerified_def recordNinVerified_def Let_def)

definition bvnWorkedIn :: kycVisit where
  "bvnWorkedIn =
     \<lparr>kv_screens = [snd (handleVerifyBvn typedNumbers)], kv_profile = verifiedBvn, kv_bvns = [''12345678901''], kv_nins = [],
      kv_answers = [KycStatusResponseDto_fromDomain verifiedBvn]\<rparr>"

definition bvnShown :: kycScreen where
  "bvnShown = bvnAnswered (Inr (KycStatusResponseDto_fromDomain verifiedBvn)) (snd (handleVerifyBvn typedNumbers))"

lemma bvn_worked_in: "kyc_turn\<^sup>*\<^sup>* (customer 5 ''k1'' ''u1'') bvnWorkedIn"
proof -
  let ?v = "(customer 5 ''k1'' ''u1'')\<lparr>kv_screens := [kycMounted]\<rparr>" and ?s = "snd (handleVerifyBvn typedNumbers)"
  have "kyc_turn (customer 5 ''k1'' ''u1'') ?v"
    using kyc_turn.opened [of "customer 5 ''k1'' ''u1''"] by (simp add: customer_def)
  moreover have "kyc_turn ?v (?v\<lparr>kv_screens := [typedNumbers]\<rparr>)"
    using kyc_turn.typed [where i = 0 and v = ?v and b = "''12345678901''" and n = "''22345678901''"]
    by (simp add: on_screen_def typedNumbers_def is_digit_def)
  moreover have "kyc_turn (?v\<lparr>kv_screens := [typedNumbers]\<rparr>) (?v\<lparr>kv_screens := [?s], kv_bvns := [''12345678901'']\<rparr>)"
    using kyc_turn.submit_bvn [of 0 "?v\<lparr>kv_screens := [typedNumbers]\<rparr>" "''12345678901''" ?s]
    by (simp add: on_screen_def typedNumbers_def handleVerifyBvn_def matches_digits_def is_digit_def bvnVerified_def
        kycMounted_def customer_def)
  moreover have "kyc_turn (?v\<lparr>kv_screens := [?s], kv_bvns := [''12345678901'']\<rparr>) bvnWorkedIn"
    using kyc_turn.bvn_passed [of "''12345678901''" "?v\<lparr>kv_screens := [?s], kv_bvns := [''12345678901'']\<rparr>" 6 "''h''" "''m''" verifiedBvn]
    by (simp add: profile_answers_def bvnWorkedIn_def customer_def example_verified)
  ultimately show ?thesis by (meson converse_rtranclp_into_rtranclp rtranclp.rtrancl_refl)
qed

theorem kyc_screens_tier_witness:
  "\<exists>v. kyc_turn\<^sup>*\<^sup>* (customer 5 ''k1'' ''u1'') v \<and> kp_tier (kv_profile v) = TIER_3"
proof -
  let ?w = "bvnWorkedIn\<lparr>kv_screens := [bvnShown]\<rparr>" and ?s = "snd (handleVerifyNin bvnShown)"
  let ?x = "?w\<lparr>kv_screens := [?s], kv_nins := [''22345678901'']\<rparr>"
  have "kyc_turn bvnWorkedIn ?w"
    using kyc_turn.status [of 0 bvnWorkedIn "Inr (KycStatusResponseDto_fromDomain verifiedBvn)" undefined bvnAnswered]
    by (simp add: on_screen_def bvnWorkedIn_def bvnShown_def)
  moreover have "kyc_turn ?w ?x"
    using kyc_turn.submit_nin [of 0 ?w "''22345678901''" ?s]
    by (simp add: on_screen_def bvnWorkedIn_def bvnShown_def bvnAnswered_def handleVerifyBvn_def handleVerifyNin_def typedNumbers_def
        matches_digits_def is_digit_def bvnVerified_def ninVerified_def kycMounted_def KycStatusResponseDto_fromDomain_def
        example_verified)
  moreover have "kyc_turn ?x (profile_answers verifiedNin ?x)"
    using kyc_turn.nin_passed [of "''22345678901''" ?x 7 "''i''" "''n''" verifiedNin]
    by (simp add: bvnWorkedIn_def example_verified)
  ultimately have run: "kyc_turn\<^sup>*\<^sup>* (customer 5 ''k1'' ''u1'') (profile_answers verifiedNin ?x)"
    using bvn_worked_in by (meson rtranclp.rtrancl_into_rtrancl)
  then have "kp_tier (kv_profile (profile_answers verifiedNin ?x)) = TIER_3"
    using kyc_screens_tier [OF run] by (simp add: profile_answers_def example_verified)
  with run show ?thesis by blast
qed

end
