(* ===== verification/TierSeed.thy ===== *)
theory TierSeed
  imports TransferServices "HOL-Library.Code_Target_Nat"
begin

text \<open>
  The seeding of the tier limits (\<^verbatim>\<open>infrastructure/prisma/seed.ts\<close>): what it leaves of the limits that
  hold without it.
\<close>

section \<open>The seeding\<close>

definition tierLimitRow :: "kycTier \<Rightarrow> kycTierLimits_t \<Rightarrow> kyc_tier_limit_row" where
  "tierLimitRow tier limits =
     \<lparr>klr_tier = tier, klr_currency = NGN, klr_perTransactionLimit = map_option minorUnits (perTransactionLimit limits),
      klr_dailyTransferLimit = map_option minorUnits (dailyTransferLimit limits),
      klr_maxBalance = map_option minorUnits (maxBalance limits)\<rparr>"

text \<open>An upsert with an empty update: a row for the tier that is there already stays as it is.\<close>

definition upsertTierLimit :: "kyc_tier_limit_row \<Rightarrow> kyc_tier_limit_row list \<Rightarrow> nat \<times> kyc_tier_limit_row list" where
  "upsertTierLimit row t = (1, if list_ex (\<lambda>r. klr_tier r = klr_tier row) t then t else t @ [row])"

definition seedTier :: "env \<Rightarrow> kycTier \<Rightarrow> unit action" where
  "seedTier E tier =
     bindM (liftE (getDefaultKycTierLimits tier NGN)) (\<lambda>limits.
     bindM (update_in E kycTierLimits (\<lambda>t w. w\<lparr>kycTierLimits := t\<rparr>) (upsertTierLimit (tierLimitRow tier limits))) (\<lambda>_.
     returnM ()))"

definition seedKycTierLimits :: "env \<Rightarrow> unit action" where
  "seedKycTierLimits E = bindM (forM (seedTier E) [TIER_1, TIER_2, TIER_3]) (\<lambda>_. returnM ())"

section \<open>What it leaves\<close>

lemma nullable_again:
  assumes "toMoneyOrNull v c = Inr x"
  shows "nullableMinorUnits (map_option minorUnits x) c = Inr x"
proof (cases v)
  case (Some s)
  with assms obtain m where m: "fromDecimalString s c = Inr m" "x = Some m" by (auto simp: bindE_eq_Inr)
  with fromDecimalString_ok [OF m(1)] show ?thesis
    by (cases m) (simp add: nullableMinorUnits_def fromMinorUnits_def money_ok_def)
qed (use assms in \<open>simp add: nullableMinorUnits_def\<close>)

lemma seeded_row:
  "getDefaultKycTierLimits tier NGN = Inr limits \<Longrightarrow> KycTierLimitMapper_toDomain (tierLimitRow tier limits) = Inr limits"
  by (auto simp: getDefaultKycTierLimits_def KycTierLimitMapper_toDomain_def tierLimitRow_def bindE_eq_Inr
      split: prod.splits dest!: nullable_again)

text \<open>The rows a seeding has added, in any order and number.\<close>

definition seeded :: "kyc_tier_limit_row list \<Rightarrow> kyc_tier_limit_row list \<Rightarrow> bool" where
  "seeded t t' \<longleftrightarrow>
     (\<exists>rows. t' = t @ rows \<and>
        list_all (\<lambda>r. (\<exists>limits. getDefaultKycTierLimits (klr_tier r) NGN = Inr limits \<and> r = tierLimitRow (klr_tier r) limits) \<and>
          klr_tier r \<notin> klr_tier ` set t) rows)"

lemma upsert_seeded:
  assumes "seeded t t'" and "getDefaultKycTierLimits tier NGN = Inr limits"
  shows "seeded t (snd (upsertTierLimit (tierLimitRow tier limits) t'))"
  using assms by (fastforce simp: seeded_def upsertTierLimit_def list_ex_iff tierLimitRow_def)

lemma preserves_seeded: "preserves (\<lambda>w. seeded t (kycTierLimits w)) (seedTier E tier)"
proof (cases "getDefaultKycTierLimits tier NGN")
  case (Inr limits)
  have "preserves (\<lambda>w. seeded t (kycTierLimits w))
      (update_in E kycTierLimits (\<lambda>t w. w\<lparr>kycTierLimits := t\<rparr>) (upsertTierLimit (tierLimitRow tier limits)))"
  proof (rule preserves_update_in)
    show "seeded t (kycTierLimits (w\<lparr>kycTierLimits := t'\<rparr>))"
      if "seeded t (kycTierLimits w)" "upsertTierLimit (tierLimitRow tier limits) (kycTierLimits w) = (n, t')" for w n t'
      using upsert_seeded [OF that(1) Inr] that(2) by simp
  qed (simp add: tick_free_def)
  with Inr show ?thesis by (auto simp: seedTier_def comp_simps intro!: preserves_bindM preserves_returnM)
qed (simp add: seedTier_def preserves_def bindM_def comp_simps)

lemma seeding_adds: "seedKycTierLimits E w = (res, w') \<Longrightarrow> seeded (kycTierLimits w) (kycTierLimits w')"
proof -
  have "preserves (\<lambda>v. seeded (kycTierLimits w) (kycTierLimits v)) (seedKycTierLimits E)"
    unfolding seedKycTierLimits_def by (intro preserves_bindM preserves_forM preserves_seeded preserves_returnM)
  moreover have "seeded (kycTierLimits w) (kycTierLimits w)" by (simp add: seeded_def)
  ultimately show "seedKycTierLimits E w = (res, w') \<Longrightarrow> seeded (kycTierLimits w) (kycTierLimits w')"
    by (auto dest: preservesD)
qed

lemma seedTier_Inr:
  assumes "seedTier E tier w = (Inr u, w')"
  shows "tier \<in> klr_tier ` set (kycTierLimits w') \<and> klr_tier ` set (kycTierLimits w) \<subseteq> klr_tier ` set (kycTierLimits w')"
  using assms
  by (auto simp: seedTier_def bindM_eq_Inr comp_simps update_in_def upsertTierLimit_def tierLimitRow_def list_ex_iff
      split: if_splits dest!: db_eq_Inr)

lemma seeding_Inr:
  assumes "seedKycTierLimits E w = (Inr u, w')"
  shows "tier \<in> klr_tier ` set (kycTierLimits w')"
proof -
  from assms obtain w1 w2 where "seedTier E TIER_1 w = (Inr (), w1)" "seedTier E TIER_2 w1 = (Inr (), w2)"
      "seedTier E TIER_3 w2 = (Inr (), w')"
    by (auto simp: seedKycTierLimits_def bindM_eq_Inr comp_simps)
  from this [THEN seedTier_Inr] show ?thesis by (cases tier) (simp_all, blast+)
qed

lemma seeded_limits:
  assumes "seeded (kycTierLimits w) (kycTierLimits w')"
  shows "limitsOf w' tier c =
    (if tier \<in> klr_tier ` set (kycTierLimits w) then limitsOf w tier c
     else if tier \<in> klr_tier ` set (kycTierLimits w') then getDefaultKycTierLimits tier NGN
     else getDefaultKycTierLimits tier c)"
proof -
  from assms obtain rows where t': "kycTierLimits w' = kycTierLimits w @ rows"
    and rows: "\<And>r. r \<in> set rows \<Longrightarrow> \<exists>limits. getDefaultKycTierLimits (klr_tier r) NGN = Inr limits \<and> r = tierLimitRow (klr_tier r) limits"
    by (auto simp: seeded_def list_all_iff)
  have known: "KycTierLimitMapper_toDomain r = getDefaultKycTierLimits (klr_tier r) NGN" if "r \<in> set rows" for r
    using rows [OF that] seeded_row by metis
  show ?thesis
  proof (cases "List.find (\<lambda>r. klr_tier r = tier) (kycTierLimits w)")
    case (Some r)
    then show ?thesis using find_Some_set [OF Some] by (auto simp: limitsOf_def t' find_append)
  next
    case None
    then have old: "tier \<notin> klr_tier ` set (kycTierLimits w)" by (auto simp: find_None_iff)
    show ?thesis
    proof (cases "List.find (\<lambda>r. klr_tier r = tier) rows")
      case (Some r)
      with old None known find_Some_set [OF Some] show ?thesis by (auto simp: limitsOf_def t' find_append)
    next
      case none: None
      then have "tier \<notin> klr_tier ` set rows" by (auto simp: find_None_iff)
      with old None none show ?thesis by (simp add: limitsOf_def t' find_append image_Un)
    qed
  qed
qed

text \<open>
  Seeding the tier limits changes nothing for naira. However it ends, the limits of every tier in
  naira are what they were, whether they stood in the table or were the defaults of the policy; when it
  returns, every tier has its row, and a second seeding changes no row.
\<close>

theorem seeding_keeps_limits:
  assumes "seedKycTierLimits E w = (res, w')"
  shows "limitsOf w' tier NGN = limitsOf w tier NGN \<and>
    (\<forall>r \<in> set (kycTierLimits w). r \<in> set (kycTierLimits w')) \<and>
    (res = Inr () \<longrightarrow> tier \<in> klr_tier ` set (kycTierLimits w') \<and>
      (\<forall>F res2 w2. seedKycTierLimits F w' = (res2, w2) \<longrightarrow> kycTierLimits w2 = kycTierLimits w'))"
proof -
  have default: "tier \<notin> klr_tier ` set (kycTierLimits w) \<Longrightarrow> limitsOf w tier NGN = getDefaultKycTierLimits tier NGN"
    by (auto simp: limitsOf_def find_None_iff split: option.splits dest!: find_Some_set)
  have again: "kycTierLimits w2 = kycTierLimits w'" if ok: "res = Inr ()" and "seedKycTierLimits F w' = (res2, w2)" for F res2 w2
  proof -
    have "klr_tier r \<in> klr_tier ` set (kycTierLimits w')" for r
      by (rule seeding_Inr [OF assms [unfolded ok]])
    moreover obtain rows where "kycTierLimits w2 = kycTierLimits w' @ rows"
        "list_all (\<lambda>r. klr_tier r \<notin> klr_tier ` set (kycTierLimits w')) rows"
      using seeding_adds [OF \<open>seedKycTierLimits F w' = (res2, w2)\<close>] by (auto simp: seeded_def list_all_iff)
    ultimately show ?thesis by (cases rows) auto
  qed
  show ?thesis
    using seeded_limits [OF seeding_adds [OF assms], of tier NGN] default again seeding_Inr [of E w "()" w' tier] assms
      seeding_adds [OF assms]
    by (auto simp: seeded_def)
qed

text \<open>
  For every other currency it is different: the policy takes its figures in the currency of the amount,
  the seeded rows are in naira, and a comparison of two currencies throws. Once the table is seeded no
  transfer in another currency passes the limits.
\<close>

theorem seeding_blocks_other_currencies:
  assumes "seedKycTierLimits E w = (Inr u, w')" and "kycTierLimits w = []" and "moneyCurrency amount \<noteq> NGN"
  shows "assertWithinLimits F user i amount w' \<noteq> (Inr x, w2)"
proof
  assume "assertWithinLimits F user i amount w' = (Inr x, w2)"
  from assertWithinLimits_Inr [OF this] obtain limits where
    l: "limitsOf w' (tierOf w' user) (moneyCurrency amount) = Inr limits"
    and per: "case perTransactionLimit limits of None \<Rightarrow> True | Some l \<Rightarrow> moneyCurrency l = moneyCurrency amount"
    by (auto simp: within_limits_def split: option.splits)
  have "limitsOf w' (tierOf w' user) (moneyCurrency amount) = getDefaultKycTierLimits (tierOf w' user) NGN"
    using seeded_limits [OF seeding_adds [OF assms(1)], of "tierOf w' user" "moneyCurrency amount"]
      seeding_Inr [OF assms(1)] assms(2) by simp
  with l have "getDefaultKycTierLimits (tierOf w' user) NGN = Inr limits" by simp
  then obtain l where "perTransactionLimit limits = Some l" "moneyCurrency l = NGN"
    by (cases "tierOf w' user") (auto simp: getDefaultKycTierLimits_def bindE_eq_Inr dest: fromDecimalString_ok)
  with per assms(3) show False by simp
qed

section \<open>Examples\<close>

theorem seeding_keeps_limits_witness:
  "case seedKycTierLimits exampleEnv emptyWorld of (res, w') \<Rightarrow>
     res = Inr () \<and> length (kycTierLimits w') = 3 \<and> limitsOf w' TIER_2 NGN = limitsOf emptyWorld TIER_2 NGN"
proof -
  obtain w' where run: "seedKycTierLimits exampleEnv emptyWorld = (Inr (), w')" and len: "length (kycTierLimits w') = 3"
  proof -
    have "case seedKycTierLimits exampleEnv emptyWorld of (res, w') \<Rightarrow> res = Inr () \<and> length (kycTierLimits w') = 3"
      by code_simp
    with that show ?thesis by (cases "seedKycTierLimits exampleEnv emptyWorld") auto
  qed
  with seeding_keeps_limits [OF run, of TIER_2] show ?thesis by simp
qed

text \<open>A dollar passes the limits without the seeding.\<close>

theorem seeding_blocks_other_currencies_witness:
  "case seedKycTierLimits exampleEnv emptyWorld of (res, w') \<Rightarrow>
     fst (assertWithinLimits exampleEnv ''u1'' ''a1'' \<lparr>minorUnits = 100, moneyCurrency = USD\<rparr> emptyWorld) = Inr () \<and>
     fst (assertWithinLimits exampleEnv ''u1'' ''a1'' \<lparr>minorUnits = 100, moneyCurrency = USD\<rparr> w') \<noteq> Inr ()"
proof -
  obtain w' where run: "seedKycTierLimits exampleEnv emptyWorld = (Inr (), w')"
  proof -
    have "case seedKycTierLimits exampleEnv emptyWorld of (res, w') \<Rightarrow> res = Inr ()" by code_simp
    with that show ?thesis by (cases "seedKycTierLimits exampleEnv emptyWorld") auto
  qed
  have "fst (assertWithinLimits exampleEnv ''u1'' ''a1'' \<lparr>minorUnits = 100, moneyCurrency = USD\<rparr> emptyWorld) = Inr ()"
    by code_simp
  moreover have "fst (assertWithinLimits exampleEnv ''u1'' ''a1'' \<lparr>minorUnits = 100, moneyCurrency = USD\<rparr> w') \<noteq> Inr ()"
  proof -
    obtain res w2 where "assertWithinLimits exampleEnv ''u1'' ''a1'' \<lparr>minorUnits = 100, moneyCurrency = USD\<rparr> w' = (res, w2)"
      by fastforce
    with seeding_blocks_other_currencies [OF run, of "\<lparr>minorUnits = 100, moneyCurrency = USD\<rparr>" exampleEnv "''u1''" "''a1''"]
    show ?thesis by (auto simp: emptyWorld_def)
  qed
  ultimately show ?thesis by (simp add: run)
qed

end
