(* ===== verification/PayoutAdapter.thy ===== *)
theory PayoutAdapter
  imports ExternalTransfer "HOL-Library.Code_Target_Nat"
begin

text \<open>
  The adapter to the payout provider (\<^verbatim>\<open>flutterwave-transfer.adapter.ts\<close>), the client the payout
  provider service calls, and what its one exception for every error means for the saga above it.
\<close>

section \<open>The adapter\<close>

text \<open>
  The HTTP library is a parameter: for the number of the use, the URL, the authorization header and
  the body, the answer or the message of an error; a request that takes more than 15 seconds is one.
\<close>

record payoutHttp =
  httpPost :: "nat \<Rightarrow> string \<Rightarrow> string \<Rightarrow> transferRequest \<Rightarrow> string + transferResponse"
  httpGetTransfer :: "nat \<Rightarrow> string \<Rightarrow> string \<Rightarrow> string + transferResponse"
  payoutBaseUrl :: string
  payoutSecretKey :: string

definition providerUnavailable :: "string + transferResponse \<Rightarrow> exn + transferResponse" where
  "providerUnavailable answer =
     (case answer of
        Inl error \<Rightarrow> Inl (ServiceUnavailableException ''Payout provider is currently unavailable'')
      | Inr response \<Rightarrow> Inr response)"

definition initiateTransfer :: "payoutHttp \<Rightarrow> flutterwaveClient" where
  "initiateTransfer H n payload =
     providerUnavailable (httpPost H n (payoutBaseUrl H @ ''/transfers'') (''Bearer '' @ payoutSecretKey H) payload)"

definition getTransferStatus :: "payoutHttp \<Rightarrow> nat \<Rightarrow> string \<Rightarrow> exn + transferResponse" where
  "getTransferStatus H n flutterwaveTransferId =
     providerUnavailable
       (httpGetTransfer H n (payoutBaseUrl H @ ''/transfers/'' @ flutterwaveTransferId) (''Bearer '' @ payoutSecretKey H))"

section \<open>An answer that does not arrive\<close>

text \<open>The provider takes the payout but its answer is not there after 15 seconds.\<close>

definition silentHttp :: payoutHttp where
  "silentHttp =
     \<lparr>httpPost = (\<lambda>n url auth payload. Inl ''timeout of 15000ms exceeded''),
      httpGetTransfer = (\<lambda>n url auth. Inl ''timeout of 15000ms exceeded''),
      payoutBaseUrl = ''https://provider'', payoutSecretKey = ''key''\<rparr>"

text \<open>
  A timeout is treated like a refusal: the customer gets the money back and the transfer is REVERSED, although
  nobody knows whether the provider makes the payout. When it does, its webhook finds no transfer with
  its reference, so nothing records that the amount has left the bank while the customer keeps it.
\<close>

theorem timed_out_payout_given_back:
  "case examplePayout exampleEnv (initiateTransfer silentHttp) payoutWorld of
     (res, w') \<Rightarrow> (case res of Inl e \<Rightarrow> exn_message e = ''Payout provider is currently unavailable'' | Inr _ \<Rightarrow> False) \<and>
       map ar_balance (accounts w') = [2000] \<and>
       map (\<lambda>r. (tr_status r, tr_providerReference r)) (transfers w') = [(TS_REVERSED, None)] \<and>
       (case ConfirmExternalTransfer_execute exampleEnv ''7'' True None w' of
          (res2, w2) \<Rightarrow> res2 = Inl (TransferNotFoundException ''7'') \<and> accounts w2 = accounts w' \<and> transfers w2 = transfers w')"
  by code_simp

end
