(* ===== verification/Safety.thy ===== *)
theory Safety
  imports Gateway Bank "HOL-Library.Code_Target_Nat"
begin

text \<open>
  The whole API: what any sequence of requests keeps. Nobody but the owner, or staff with a debit,
  lowers the balance of an account; and the tables of all modules keep their invariants.
\<close>

section \<open>Accounts of one owner\<close>

text \<open>The accounts of an owner are all there, in their currency, with no less money.\<close>

definition keeps_owner :: "string \<Rightarrow> bank \<Rightarrow> bank \<Rightarrow> bool" where
  "keeps_owner u B B' \<longleftrightarrow>
     (\<forall>i h. B i = Some h \<and> h_owner h = u \<longrightarrow>
       (\<exists>h'. B' i = Some h' \<and> h_owner h' = u \<and> h_currency h' = h_currency h \<and> h_balance h \<le> h_balance h'))"

lemma keeps_owner_refl [simp]: "keeps_owner u B B"
  by (auto simp: keeps_owner_def)

lemma keeps_owner_trans: "keeps_owner u A B \<Longrightarrow> keeps_owner u B C \<Longrightarrow> keeps_owner u A C"
  unfolding keeps_owner_def by (fastforce intro: order_trans)

definition spared :: "string \<Rightarrow> bank \<Rightarrow> world \<Rightarrow> bool" where
  "spared u B w \<longleftrightarrow> accounts_ok w \<and> keeps_owner u B (bank_of w)"

lemma spared_cong: "spared u B w \<Longrightarrow> accounts w' = accounts w \<Longrightarrow> spared u B w'"
  by (simp add: spared_def accounts_ok_def bank_of_def)

lemma spared_other [simp]:
  "spared u B (w\<lparr>ticks := n\<rparr>) = spared u B w" "spared u B (w\<lparr>published := e\<rparr>) = spared u B w"
  "spared u B (w\<lparr>idempotencyKeys := k\<rparr>) = spared u B w" "spared u B (w\<lparr>transfers := t\<rparr>) = spared u B w"
  "spared u B (w\<lparr>ledgerEntries := l\<rparr>) = spared u B w" "spared u B (w\<lparr>kycProfiles := p\<rparr>) = spared u B w"
  "spared u B (w\<lparr>kycAuditLog := g\<rparr>) = spared u B w" "spared u B (w\<lparr>users := us\<rparr>) = spared u B w"
  "spared u B (w\<lparr>refreshTokens := ts\<rparr>) = spared u B w"
  by (simp_all add: spared_def accounts_ok_def bank_of_def)

lemma spared_nobody: "spared u Map.empty = accounts_ok"
  by (rule ext) (simp add: spared_def keeps_owner_def)

interpretation sp_kyc: kyc_frame "spared u B" for u B
proof
  show "preserves (spared u B) (ledger_post E posting)" for E posting
    by (rule preserves_ledger_post) (simp_all add: tick_free_def)
qed simp_all

interpretation sp_id: identity_frame "spared u B" for u B
  by unfold_locales simp_all

text \<open>One row replaced, which is another owner's or has gained.\<close>

lemma put_spared:
  assumes w: "spared u B w" and r: "r \<in> set (accounts w)" "ar_id r = acc_id b" and ok: "accounts_ok w'"
    and w': "accounts w' = put_account b (accounts w)"
    and gain: "ar_userId r = u \<Longrightarrow> acc_userId b = u \<and> acc_currency b = ar_currency r \<and> ar_balance r \<le> minorUnits (acc_balance b)"
  shows "spared u B w'"
proof -
  have old: "bank_of w (acc_id b) = Some (holding_of r)"
  proof -
    obtain x where x: "List.find (\<lambda>x. ar_id x = acc_id b) (accounts w) = Some x"
      using r by (cases "List.find (\<lambda>x. ar_id x = acc_id b) (accounts w)") (auto simp: find_None_iff)
    with find_Some_set [OF x] r account_row_unique [of w x r] w have "x = r" by (simp add: spared_def)
    with x show ?thesis by (simp add: bank_of_def)
  qed
  have new: "bank_of w' = (bank_of w)(acc_id b \<mapsto> holding_of (AccountMapper_toPersistence b))"
    using bank_of_put [OF w'] old by simp
  have "keeps_owner u (bank_of w) (bank_of w')"
    unfolding new using old gain
    by (auto simp: keeps_owner_def holding_of_def AccountMapper_toPersistence_def)
  with w ok show ?thesis by (auto simp: spared_def intro: keeps_owner_trans)
qed

lemma changed_spared:
  assumes "balance_changed r b d" and "spared u B w" and "r \<in> set (accounts w)"
    and "accounts w' = put_account b (accounts w)" and "ar_userId r = u \<Longrightarrow> 0 \<le> d"
  shows "spared u B w'"
proof (rule put_spared [OF assms(2,3) _ _ assms(4)])
  show "accounts_ok w'" using balance_changed_put_ok [OF assms(1) _ assms(3,4)] assms(2) by (simp add: spared_def)
qed (use assms(1,5) in \<open>auto simp: balance_changed_def\<close>)

section \<open>The handlers\<close>

text \<open>Every step of the abstract bank but a debit.\<close>

lemma amount_of_nonneg: "amount_of s = Some n \<Longrightarrow> 0 \<le> n"
  by (auto simp: amount_of_def money_ok_def split: sum.splits dest: fromDecimalString_ok)

lemma bank_step_keeps:
  assumes "bank_step B cmd B'" and "\<nexists>i s c ref. cmd = CmdDebit i s c ref"
  shows "keeps_owner u B B'"
  using assms(1)
proof cases
  case (credited i h c s n ref)
  then show ?thesis using amount_of_nonneg [of s n] by (auto simp: keeps_owner_def)
qed (use assms(2) in \<open>auto simp: keeps_owner_def\<close>)

lemma command_spared:
  assumes "\<nexists>i s c ref. cmd = CmdDebit i s c ref"
  shows "preserves (spared u B) (run_command E bankCode cmd)"
  unfolding preserves_def
proof (intro allI impI)
  fix w assume w: "spared u B w"
  obtain res w' where run: "run_command E bankCode cmd w = (res, w')" by fastforce
  have "accounts_ok w'" using preserves_step [OF run_command_ok _ run] w by (simp add: spared_def)
  moreover have "keeps_owner u (bank_of w) (bank_of w')"
    using run_command_step [OF _ run] bank_step_keeps [OF _ assms] w by (auto simp: spared_def)
  ultimately show "spared u B (snd (run_command E bankCode cmd w))"
    using w run by (auto simp: spared_def intro: keeps_owner_trans)
qed

lemma accounts_module_spared:
  "preserves (spared u B) (OpenAccount_execute E bankCode v ty c)" "preserves (spared u B) (CreditAccount_execute E i s c ref)"
  "preserves (spared u B) (FreezeAccount_execute E i reason)" "preserves (spared u B) (UnfreezeAccount_execute E i)"
  "preserves (spared u B) (CloseAccount_execute E i)"
  using command_spared [of "CmdOpen v ty c"] command_spared [of "CmdCredit i s c ref"] command_spared [of "CmdFreeze i reason"]
    command_spared [of "CmdUnfreeze i"] command_spared [of "CmdClose i"] by simp_all

text \<open>A transfer inside the bank, of somebody else's money.\<close>

lemma money_moved_spared:
  assumes "money_moved ref v src dst amount fee w w'" and w: "spared u B w" and "src \<noteq> dst" and "v \<noteq> u" and "money_ok amount"
  shows "spared u B w'"
proof -
  from assms(1) obtain s d s' d' rows n where s: "s \<in> set (accounts w)" "ar_id s = src" "ar_userId s = v"
    and d: "d \<in> set (accounts w)" "ar_id d = dst"
    and s': "balance_changed s s' (- (minorUnits amount + minorUnits fee))" and d': "balance_changed d d' (minorUnits amount)"
    and w': "w' = w\<lparr>accounts := put_account d' (put_account s' (accounts w)), ledgerEntries := ledgerEntries w @ rows, ticks := n\<rparr>"
    unfolding money_moved_def by blast
  let ?w1 = "w\<lparr>accounts := put_account s' (accounts w)\<rparr>"
  have "spared u B ?w1" by (rule changed_spared [OF s' w s(1)]) (use s(3) assms(4) in simp_all)
  moreover have "d \<in> set (accounts ?w1)"
    using put_account_other [OF d(1)] d(2) s(2) s' assms(3) by (auto simp: balance_changed_def)
  moreover have "accounts w' = put_account d' (accounts ?w1)" by (simp add: w')
  moreover have "0 \<le> minorUnits amount" using assms(5) by (simp add: money_ok_def)
  ultimately show ?thesis using changed_spared [OF d'] by blast
qed

lemma callback_spared:
  assumes "fresh_internal v src dst amount fee x" and "money_ok amount" "money_ok fee" and "src \<noteq> dst" and "v \<noteq> u"
  shows "preserves (spared u B) (transaction E lost (internalCallback E x v src dst amount fee narration))"
  unfolding preserves_def
proof (intro allI impI)
  fix w assume w: "spared u B w"
  let ?cb = "internalCallback E x v src dst amount fee narration"
  obtain res w' where run: "transaction E lost ?cb w = (res, w')" by fastforce
  have "spared u B w'"
  proof (rule transaction_outcome [OF run callback_published])
    fix n assume "w' = w\<lparr>ticks := n\<rparr>"
    with w show ?thesis by simp
  next
    fix z w1 assume cb: "?cb w = (Inr z, w1)" and w': "w' = w1\<lparr>ticks := Suc (ticks w1)\<rparr>"
    show ?thesis
    proof (rule callback_cases [OF cb assms(1)])
      fix y s d w2 n
      assume mv: "moveMoney E (ref_value (tf_reference x)) v src dst amount fee narration w = (Inr (s, d), w2)"
        and w1: "w1 = w2\<lparr>transfers := transfers w2 @ [TransferMapper_toPersistence y], ticks := n\<rparr>"
      have "accounts_ok w" using w by (simp add: spared_def)
      from money_moved_spared [OF moveMoney_Inr [OF mv this assms(2-4)] w assms(4,5,2)]
      show ?thesis by (simp add: w' w1)
    qed simp_all
  qed
  with run show "spared u B (snd (transaction E lost ?cb w))" by simp
qed

lemma internal_execute_spared:
  assumes "money_ok amount" "money_ok fee" "src \<noteq> dst" "v \<noteq> u"
  shows "preserves (spared u B) (internal_execute E v src dst amount fee narration)"
proof -
  have init: "preserves (spared u B) (initiateInternal E v src dst amount fee narration)"
    unfolding initiateInternal_def TransferReference_generate_def Let_def
    by (intro preserves_rules preserves_draw) simp_all
  have fresh: "fresh_internal v src dst amount fee x"
    if "initiateInternal E v src dst amount fee narration w = (Inr x :: exn + transfer, w')" for x w w'
  proof -
    obtain y n where "initiateInternal E v src dst amount fee narration w = (Inr y :: exn + transfer, w\<lparr>ticks := n\<rparr>)"
      "fresh_internal v src dst amount fee y" by (rule initiateInternal_run)
    with that show ?thesis by simp
  qed
  show ?thesis
    unfolding internal_execute_def
  proof (rule preserves_bindM_Inr [OF init])
    fix w x w' assume "initiateInternal E v src dst amount fee narration w = (Inr x :: exn + transfer, w')"
    note tx = callback_spared [OF fresh [OF this] assms]
    show "preserves (spared u B) (bindM (catchM (transaction E (\<lambda>(events, transfer'). (connectionLost, transfer'))
            (internalCallback E x v src dst amount fee narration))
         (internalFailed E))
       (\<lambda>(accountEvents, transfer').
     let (transferEvents, transfer'') = tf_pullDomainEvents transfer'
     in returnM (transfer'', transferEvents @ accountEvents)))"
      unfolding Let_def internalFailed_def by (intro preserves_rules tx sp_kyc.keeps_basic) simp_all
  qed
qed

lemma internal_spared:
  assumes "v \<noteq> u"
  shows "preserves (spared u B) (InitiateInternalTransfer_execute E v src dst amount narration key)"
proof -
  have "preserves (spared u B) (initiateInternal_doExecute E v src dst amount narration)"
    unfolding initiateInternal_doExecute_def
  proof (intro preserves_bindM_Inr [of "spared u B" "guardM b e" for b e]
      preserves_bindM_Inr [of "spared u B" "liftE (fromDecimalString s c)" for s c]
      preserves_bindM_Inr [of "spared u B" "liftE (calculate m ty)" for m ty]
      preserves_rules sp_kyc.keeps_basic sp_kyc.keeps_reading [OF reads_assertWithinLimits]
      sp_kyc.keeps_reading [OF reads_account_findById])
  qed (use assms in \<open>auto simp: comp_simps split: if_splits intro!: internal_execute_spared
      dest: fromDecimalString_ok flat.fee_fields\<close>)
  then show ?thesis
    unfolding InitiateInternalTransfer_execute_def by (intro sp_kyc.keeps_idempotent_run sp_kyc.keeps_rehydrate)
qed

text \<open>A payout of somebody else's money.\<close>

lemma external_spared:
  assumes "v \<noteq> u"
  shows "preserves (spared u B) (InitiateExternalTransfer_execute E client cb v i bank acc name amount narration key)"
proof -
  let ?run = "initiateExternal_doExecute E client cb v i bank acc name amount narration"
  have "preserves (spared u B) ?run"
    unfolding preserves_def
  proof (intro allI impI)
    fix w assume w: "spared u B w"
    obtain res w' where run: "?run w = (res, w')" by fastforce
    from w have "accounts_ok w" by (simp add: spared_def)
    from payout_accounts [OF this run] consider "accounts w' = accounts w"
      | r b returned where "accounts_ok w'" "r \<in> set (accounts w)" "payout_source v i amount r b returned"
        "accounts w' = put_account b (accounts w)" by blast
    then have "spared u B w'"
    proof cases
      case 1
      with w show ?thesis by (rule spared_cong)
    next
      case 2
      then show ?thesis using put_spared [OF w 2(2) _ 2(1,4)] assms by (auto simp: payout_source_def)
    qed
    with run show "spared u B (snd (?run w))" by simp
  qed
  then show ?thesis
    unfolding InitiateExternalTransfer_execute_def by (intro sp_kyc.keeps_idempotent_run sp_kyc.keeps_rehydrate)
qed

text \<open>A confirmation gives money back or moves none.\<close>

lemma reverse_spared:
  assumes x: "TransferMapper_toDomain r = Inr x"
  shows "preserves (spared u B) (reverseConfirmed E x reason)"
  unfolding preserves_def
proof (intro allI impI)
  fix w assume w: "spared u B w"
  obtain res w' where run: "reverseConfirmed E x reason w = (res, w')" by fastforce
  have "0 \<le> tr_amountMinorUnits r + tr_feeMinorUnits r"
    using TransferMapper_toDomain_fields [OF x] by (simp add: money_ok_def)
  moreover have "accounts_ok w" using w by (simp add: spared_def)
  ultimately have "spared u B w'"
    using reverseConfirmed_accounts [OF run _ x] w by (auto intro: spared_cong changed_spared [OF _ w])
  with run show "spared u B (snd (reverseConfirmed E x reason w))" by simp
qed

lemma confirm_spared: "preserves (spared u B) (ConfirmExternalTransfer_execute E p good reason)"
proof -
  have settle: "preserves (spared u B) (settleConfirmed E x)" for x
    unfolding settleConfirmed_def by (intro preserves_rules sp_kyc.keeps_basic sp_kyc.keeps_posting) simp_all
  have loaded: "\<exists>r. TransferMapper_toDomain r = Inr x" if "findByProviderReference E p w = (Inr (Some x), w')" for x w w'
    using that by (auto simp: findByProviderReference_def bindM_eq_Inr comp_simps transfer_toDomainOrNull_Some)
  have go: "preserves (spared u B) (bindM (required found e) (\<lambda>x. if tf_status x \<in> set TERMINAL_STATUSES then returnM ()
      else if good then settleConfirmed E x else reverseConfirmed E x reason))"
    if "findByProviderReference E p w = (Inr found, w')" for found e w w'
  proof (cases found)
    case (Some x)
    with that loaded obtain r where "TransferMapper_toDomain r = Inr x" by blast
    then show ?thesis
      using Some by (auto intro!: preserves_rules settle preserves_bindM_Inr reverse_spared simp: comp_simps)
  qed (simp add: preserves_def bindM_def comp_simps)
  show ?thesis
    unfolding ConfirmExternalTransfer_execute_def
    by (rule preserves_bindM_Inr [OF sp_kyc.keeps_reading [OF reads_transfer_find(2)]]) (rule go)
qed

lemma webhook_spared: "preserves (spared u B) (FlutterwaveWebhook_handle E secret hash payload)"
  unfolding FlutterwaveWebhook_handle_def by (intro preserves_rules confirm_spared)

section \<open>The API\<close>

fun debits :: "route \<Rightarrow> bool" where
  "debits (PostDebit i amount c reference) = True"
| "debits r = False"

lemma serve_public_spared: "preserves (spared u B) (serve_public V req r)"
  by (cases r) (auto simp: controller_defs
      intro!: served_preserves preserves_rules sp_id.keeps_sessions sp_id.keeps_registration accounts_module_spared webhook_spared)

lemma serve_caller_spared:
  assumes "sub user \<noteq> u" and "\<not> debits r"
  shows "preserves (spared u B) (serve_caller V req user r)"
  using assms by (cases r) (auto simp: controller_defs
      intro!: served_preserves preserves_rules sp_id.keeps_sessions sp_kyc.keeps_queries sp_kyc.keeps_compliance
        accounts_module_spared internal_spared external_spared)

text \<open>A request that the owner has not sent and that is no debit by the staff.\<close>

definition stranger :: "string \<Rightarrow> (string option \<Rightarrow> accessTokenPayload option) \<Rightarrow> httpRequest \<Rightarrow> route \<Rightarrow> bool" where
  "stranger owner passport req r \<longleftrightarrow>
     is_public r \<or>
     (case passport (rq_bearer req) of
        None \<Rightarrow> True
      | Some user \<Rightarrow> sub user \<noteq> owner \<and> (debits r \<longrightarrow> payloadRole user \<notin> set ADMIN_ROLES))"

lemma refused_preserves: "\<not> admitted passport req r \<Longrightarrow> preserves I (serve V passport req r)"
  by (cases "passport (rq_bearer req)")
    (simp_all add: admitted_def serve_def JwtAuthGuard_canActivate_def RolesGuard_canActivate_def Let_def bindM_def comp_simps
      JwtStrategy_validate_def preserves_def)

lemma serve_spared:
  assumes "stranger u passport req r"
  shows "preserves (spared u B) (serve V passport req r)"
proof (cases "admitted passport req r")
  case False
  then show ?thesis by (rule refused_preserves)
next
  case True
  have public: ?thesis if "is_public r"
    using that unfolding serve_def JwtAuthGuard_canActivate_def
    by (simp add: bindM_left preserves_bindM preserves_liftE serve_public_spared)
  have called: ?thesis if "\<not> is_public r" "passport (rq_bearer req) = Some user" for user
  proof -
    have "\<not> debits r" using True assms that by (cases r) (auto simp: stranger_def admitted_def ADMIN_ROLES_def)
    moreover have "sub user \<noteq> u" using assms that by (simp add: stranger_def)
    ultimately show ?thesis
      using that serve_caller_spared unfolding serve_def JwtAuthGuard_canActivate_def JwtStrategy_validate_def
      by (simp add: bindM_left preserves_bindM preserves_liftE)
  qed
  from public called True show ?thesis by (auto simp: admitted_def)
qed

lemma serve_all_preserves:
  assumes "\<And>V passport req r. (V, passport, req, r) \<in> set requests \<Longrightarrow> preserves I (serve V passport req r)" and "I w"
  shows "I (serve_all requests w)"
  using assms
proof (induction requests arbitrary: w)
  case (Cons q requests)
  obtain V passport req r where q: "q = (V, passport, req, r)" by (metis prod.exhaust)
  have "I (snd (serve V passport req r w))" using Cons.prems(1) [of V passport req r] Cons.prems(2) q by (simp add: preserves_def)
  with Cons.IH Cons.prems(1) show ?case by (simp add: q serve_all_def)
qed (simp add: serve_all_def)

text \<open>
  C3. Nobody but the owner spends from an account. Whatever requests are served, in any order, with any
  tokens, answers of the provider and failures of the database: as long as none of them is the owner's
  own and no administrator debits, every account of the owner is still there, the owner's, in its
  currency and with at least the balance it had.
\<close>

theorem only_owner_spends:
  assumes "accounts_ok w" and "list_all (\<lambda>(V, passport, req, r). stranger owner passport req r) requests"
    and "bank_of w i = Some h" and "h_owner h = owner"
  shows "\<exists>h'. bank_of (serve_all requests w) i = Some h' \<and> h_owner h' = owner \<and> h_currency h' = h_currency h \<and>
    h_balance h \<le> h_balance h'"
proof -
  have "spared owner (bank_of w) w" using assms(1) by (simp add: spared_def)
  then have "spared owner (bank_of w) (serve_all requests w)"
    by (rule serve_all_preserves [rotated]) (use assms(2) in \<open>auto simp: list_all_iff intro: serve_spared\<close>)
  with assms(3,4) show ?thesis by (auto simp: spared_def keeps_owner_def)
qed

section \<open>The invariants of the database\<close>

interpretation tb_kyc: kyc_frame trial_balance
  by unfold_locales (simp_all add: preserves_trial_balance_post trial_balance_def)

interpretation tb_acc: account_frame trial_balance
  by unfold_locales (simp_all add: trial_balance_def)

interpretation tb_id: identity_frame trial_balance
  by unfold_locales (simp_all add: trial_balance_def)

lemma kyc_later_other [simp]:
  "kyc_later w (v\<lparr>ticks := n\<rparr>) = kyc_later w v" "kyc_later w (v\<lparr>published := e\<rparr>) = kyc_later w v"
  "kyc_later w (v\<lparr>idempotencyKeys := k\<rparr>) = kyc_later w v" "kyc_later w (v\<lparr>transfers := t\<rparr>) = kyc_later w v"
  "kyc_later w (v\<lparr>ledgerEntries := l\<rparr>) = kyc_later w v" "kyc_later w (v\<lparr>accounts := a\<rparr>) = kyc_later w v"
  "kyc_later w (v\<lparr>users := us\<rparr>) = kyc_later w v" "kyc_later w (v\<lparr>refreshTokens := ts\<rparr>) = kyc_later w v"
  by (simp_all add: kyc_later_def kyc_ok_def)

interpretation kl_acc: account_frame "kyc_later w" for w
proof
  show "preserves (kyc_later w) (ledger_post E posting)" for E posting
    by (rule preserves_ledger_post) (simp_all add: tick_free_def)
qed simp_all

interpretation kl_id: identity_frame "kyc_later w" for w
  by unfold_locales simp_all

lemma identity_ok_on: "identity_ok = on_identity (\<lambda>us ts. identity_ok (emptyWorld\<lparr>users := us, refreshTokens := ts\<rparr>))"
  by (rule ext) (simp add: identity_ok_def on_identity_def)

lemma accounts_serve: "preserves accounts_ok (serve_caller V req user r)"
proof (cases "debits r")
  case False
  have "sub user \<noteq> CHR ''x'' # sub user" by (metis length_Cons n_not_Suc_n)
  from serve_caller_spared [OF this False, of Map.empty] show ?thesis by (simp add: spared_nobody)
next
  case True
  then show ?thesis
    using run_command_ok [of _ _ "CmdDebit i s c ref" for i s c ref]
    by (cases r) (auto simp: controller_defs intro!: served_preserves)
qed

lemma serve_accounts: "preserves accounts_ok (serve V passport req r)"
proof -
  have "preserves accounts_ok (serve_public V req r)"
    using serve_public_spared [of undefined Map.empty] by (simp add: spared_nobody)
  then show ?thesis unfolding serve_def by (intro preserves_rules accounts_serve)
qed

lemma serve_trial_balance: "preserves trial_balance (serve V passport req r)"
proof -
  have "preserves trial_balance (serve_public V req r)"
    by (cases r) (auto simp: controller_defs intro!: served_preserves preserves_rules tb_id.keeps_sessions
        tb_id.keeps_registration tb_acc.keeps_accounts_module tb_acc.keeps_webhook)
  moreover have "preserves trial_balance (serve_caller V req user r)" for user
    by (cases r) (auto simp: controller_defs intro!: served_preserves preserves_rules tb_id.keeps_sessions
        tb_kyc.keeps_queries tb_kyc.keeps_compliance tb_acc.keeps_accounts_module tb_acc.keeps_internal tb_acc.keeps_external)
  ultimately show ?thesis unfolding serve_def by (intro preserves_rules)
qed

lemma serve_kyc: "preserves (kyc_later w) (serve V passport req r)"
proof -
  have kyc: "preserves (kyc_later w) m" if "triple (kyc_later w) m (\<lambda>_. kyc_later w) (throws_later w)" for m
    using triple_later [OF that] by (simp add: preserves_def)
  note modules = Submit_triple [THEN kyc] Manual_triple [THEN kyc] Clear_triple [THEN kyc]
  have "preserves (kyc_later w) (serve_public V req r)"
    by (cases r) (auto simp: controller_defs intro!: served_preserves preserves_rules kl_id.keeps_sessions
        kl_id.keeps_registration kl_acc.keeps_accounts_module kl_acc.keeps_webhook)
  moreover have "preserves (kyc_later w) (serve_caller V req user r)" for user
    by (cases r) (auto simp: controller_defs intro!: served_preserves preserves_rules kl_id.keeps_sessions
        kl_acc.keeps_queries modules kl_acc.keeps_accounts_module kl_acc.keeps_internal kl_acc.keeps_external)
  ultimately show ?thesis unfolding serve_def by (intro preserves_rules)
qed

lemma serve_identity: "preserves identity_ok (serve V passport req r)"
proof -
  have "preserves identity_ok (FlutterwaveWebhook_handle E secret hash payload)" for E secret hash payload
    by (subst identity_ok_on) (rule id_acc.keeps_webhook)
  then have "preserves identity_ok (serve_public V req r)"
    by (cases r) (auto simp: controller_defs
        intro!: served_preserves preserves_rules Register_identity Login_identity Refresh_identity)
  moreover have "preserves identity_ok (serve_caller V req user r)" for user
  proof (cases "writes_identity r")
    case True
    then show ?thesis
      by (cases r) (auto simp: controller_defs intro!: Logout_identity ChangePassword_identity preserves_rules)
  next
    case False
    then show ?thesis by (subst identity_ok_on) (rule serve_caller_on_identity)
  qed
  ultimately show ?thesis unfolding serve_def by (intro preserves_rules)
qed

text \<open>
  C4. The invariants of all modules hold together under the whole API: whatever requests are served, with
  any tokens and failures, the accounts stay well formed, the ledger's trial balance holds, the users
  and tokens stay unique and loadable, and the identity verifications only advance, their audit log
  only grows.
\<close>

theorem api_keeps_invariants:
  assumes "accounts_ok w" and "trial_balance w" and "identity_ok w" and "kyc_ok w"
  shows "accounts_ok (serve_all requests w) \<and> trial_balance (serve_all requests w) \<and>
    identity_ok (serve_all requests w) \<and> kyc_later w (serve_all requests w)"
  using serve_all_preserves [OF serve_accounts assms(1)] serve_all_preserves [OF serve_trial_balance assms(2)]
    serve_all_preserves [OF serve_identity assms(3)] serve_all_preserves [OF serve_kyc kyc_later_refl [OF assms(4)]]
  by blast

section \<open>Examples\<close>

definition exampleServices :: services where
  "exampleServices =
     \<lparr>sv_env = exampleEnv, sv_security = exampleSecurity, sv_bankCode = ''035'', sv_payout = acceptingClient,
      sv_callbackUrl = ''https://kudi/hook'', sv_webhookSecretHash = Some ''hook'',
      sv_verification = exampleHttp ''Ada'' ''Obi'', sv_hasher = exampleHasher\<rparr>"

definition examplePassport :: "string option \<Rightarrow> accessTokenPayload option" where
  "examplePassport t =
     (if t = Some ''ada'' then Some \<lparr>sub = ''u1'', payloadEmail = ''ada@kudi.ng'', payloadRole = UR_CUSTOMER\<rparr>
      else if t = Some ''musa'' then Some \<lparr>sub = ''u2'', payloadEmail = ''musa@kudi.ng'', payloadRole = UR_CUSTOMER\<rparr>
      else None)"

definition bearing :: "string option \<Rightarrow> route \<Rightarrow> services \<times> (string option \<Rightarrow> accessTokenPayload option) \<times> httpRequest \<times> route" where
  "bearing t r =
     (exampleServices, examplePassport,
      \<lparr>rq_bearer = t, rq_ip = None, rq_userAgent = None, rq_idempotencyKey = None, rq_verifHash = None\<rparr>, r)"

text \<open>
  Musa tries everything on Ada's account and gets nothing; one transfer of her own, and he has money of
  hers.
\<close>

theorem only_owner_spends_witness:
  "(case bank_of (serve_all
        [bearing (Some ''musa'') (PostInternal ''a1'' ''a2'' ''1.00'' ''gift''), bearing None (PostClose ''a1''),
         bearing (Some ''musa'') (PostDebit ''a1'' ''1.00'' None ''fee''),
         bearing (Some ''musa'') (PostExternal ''a1'' ''044'' ''0123456789'' None ''1.00'' ''rent'')] payWorld) ''a1'' of
      Some h \<Rightarrow> h_owner h = ''u1'' \<and> 500 \<le> h_balance h | None \<Rightarrow> False) \<and>
   map ar_balance (accounts (serve_all [bearing (Some ''ada'') (PostInternal ''a1'' ''a2'' ''1.00'' ''gift'')] payWorld)) = [400, 100]"
proof -
  have "list_all (\<lambda>(V, passport, req, r). stranger ''u1'' passport req r)
      [bearing (Some ''musa'') (PostInternal ''a1'' ''a2'' ''1.00'' ''gift''), bearing None (PostClose ''a1''),
       bearing (Some ''musa'') (PostDebit ''a1'' ''1.00'' None ''fee''),
       bearing (Some ''musa'') (PostExternal ''a1'' ''044'' ''0123456789'' None ''1.00'' ''rent'')]"
    by (simp add: bearing_def stranger_def examplePassport_def ADMIN_ROLES_def)
  moreover have "bank_of payWorld ''a1'' = Some \<lparr>h_owner = ''u1'', h_currency = NGN, h_status = AS_ACTIVE, h_balance = 500\<rparr>"
    by code_simp
  moreover have "map ar_balance (accounts (serve_all [bearing (Some ''ada'') (PostInternal ''a1'' ''a2'' ''1.00'' ''gift'')] payWorld)) = [400, 100]"
    by code_simp
  ultimately show ?thesis
    using only_owner_spends [OF payWorld_ok(1)] by fastforce
qed

theorem api_keeps_invariants_witness:
  "accounts_ok (serve_all [bearing (Some ''ada'') (PostInternal ''a1'' ''a2'' ''1.00'' ''gift''),
      bearing None (PostRegister ''musa@kudi.ng'' ''+2348031234567'' ''battery staple'' ''Musa'' ''Obi''),
      bearing (Some ''ada'') (PostVerifyBvn ''12345678901'')] payWorld)"
proof -
  have "identity_ok payWorld" "kyc_ok payWorld"
    by (simp_all add: payWorld_def exampleWorld_def emptyWorld_def identity_ok_def kyc_ok_def)
  from api_keeps_invariants [OF payWorld_ok(1,2) this] show ?thesis by blast
qed

end
