(* ===== verification/Navigation.thy ===== *)
theory Navigation
  imports Session
begin

text \<open>
  Navigation in the web client (\<^verbatim>\<open>frontend/src/routes/AppRouter.jsx\<close>, \<^verbatim>\<open>features/onboarding\<close>): the table of
  routes with its two gates, the splash screen, the slides and the choices of a first visit.
\<close>

section \<open>Routes\<close>

datatype screen =
    SplashScreen | OnboardingFlow | LanguageSelect | PersonaSelect | LoginScreen | SignupScreen | AppShell
  | DashboardScreen | CardsScreen | LoansScreen | RewardsScreen | ProfileScreen | TransferRoute | BillsScreen
  | SavingsScreen | KycRoute

text \<open>What an element comes to: a screen, or a redirect that replaces the path.\<close>

datatype element = Screen screen | Navigate string

definition ProtectedRoute :: "page \<Rightarrow> element \<Rightarrow> element" where
  "ProtectedRoute s children = (if \<not> as_isLoggedIn s then Navigate ''/login'' else children)"

definition PublicRoute :: "page \<Rightarrow> element \<Rightarrow> element" where
  "PublicRoute s children = (if as_isLoggedIn s then Navigate ''/dashboard'' else children)"

text \<open>In the order of the code; the shell's own path comes after the splash screen's, which is the same.\<close>

definition appRoutes :: "page \<Rightarrow> (string \<times> element) list" where
  "appRoutes s =
     [(''/'', Screen SplashScreen), (''/onboarding'', Screen OnboardingFlow),
      (''/select-language'', Screen LanguageSelect), (''/select-persona'', Screen PersonaSelect),
      (''/login'', PublicRoute s (Screen LoginScreen)), (''/signup'', PublicRoute s (Screen SignupScreen)),
      (''/'', ProtectedRoute s (Screen AppShell)),
      (''/dashboard'', ProtectedRoute s (Screen DashboardScreen)), (''/cards'', ProtectedRoute s (Screen CardsScreen)),
      (''/loans'', ProtectedRoute s (Screen LoansScreen)), (''/rewards'', ProtectedRoute s (Screen RewardsScreen)),
      (''/profile'', ProtectedRoute s (Screen ProfileScreen)), (''/transfer'', ProtectedRoute s (Screen TransferRoute)),
      (''/bills'', ProtectedRoute s (Screen BillsScreen)), (''/bills/airtime'', ProtectedRoute s (Screen BillsScreen)),
      (''/savings'', ProtectedRoute s (Screen SavingsScreen)), (''/kyc'', ProtectedRoute s (Screen KycRoute))]"

text \<open>
  Matching is the router's: for the patterns of the table and a path, the pattern that matches best, if
  one does. The documentation says that a pattern without parameters matches the path it spells.
\<close>

definition router_ok :: "(string list \<Rightarrow> string \<Rightarrow> string option) \<Rightarrow> bool" where
  "router_ok pick \<longleftrightarrow>
     (\<forall>ps p. p \<in> set ps \<longrightarrow> pick ps p = Some p) \<and> (\<forall>ps p q. pick ps p = Some q \<longrightarrow> q \<in> set ps)"

definition AppRoutes :: "(string list \<Rightarrow> string \<Rightarrow> string option) \<Rightarrow> page \<Rightarrow> string \<Rightarrow> element" where
  "AppRoutes pick s path =
     (case pick (map fst (appRoutes s)) path of
        None \<Rightarrow> Navigate ''/''
      | Some pattern \<Rightarrow> (case map_of (appRoutes s) pattern of None \<Rightarrow> Navigate ''/'' | Some e \<Rightarrow> e))"

text \<open>Nothing is rendered before the session is restored; a visit without a refresh token is ready at once.\<close>

definition useAuthBootstrap :: "page \<Rightarrow> bool" where
  "useAuthBootstrap s \<longleftrightarrow> truthy (as_refreshToken s) = None"

text \<open>Redirects are followed until a screen is shown.\<close>

primrec follow :: "(string list \<Rightarrow> string \<Rightarrow> string option) \<Rightarrow> page \<Rightarrow> nat \<Rightarrow> string \<Rightarrow> (string \<times> screen) option" where
  "follow pick s 0 path = None"
| "follow pick s (Suc n) path =
     (case AppRoutes pick s path of Screen x \<Rightarrow> Some (path, x) | Navigate p \<Rightarrow> follow pick s n p)"

text \<open>After \<open>auth:expired\<close>: a refresh that fails ends on the path of the login.\<close>

definition expiredSettled :: "bool \<Rightarrow> string \<Rightarrow> string" where
  "expiredSettled refreshed path = (if \<not> refreshed then ''/login'' else path)"

section \<open>The first visit\<close>

definition SplashScreen_target :: "page \<Rightarrow> string" where
  "SplashScreen_target s =
     (if as_isLoggedIn s then ''/dashboard'' else if as_onboardingDone s then ''/login'' else ''/onboarding'')"

definition SLIDES :: nat where
  "SLIDES = 3"

text \<open>The path to go to, or the slide that is shown then.\<close>

definition OnboardingFlow_handleNext :: "nat \<Rightarrow> string + nat" where
  "OnboardingFlow_handleNext current = (if current = SLIDES - 1 then Inl ''/select-language'' else Inr (current + 1))"

definition handleSkip :: string where
  "handleSkip = ''/select-language''"

definition LANGUAGES :: "string list" where
  "LANGUAGES = [''yo'', ''ha'', ''ig'', ''pc'', ''en'']"

definition LanguageSelect_handleContinue :: "string \<Rightarrow> page \<Rightarrow> string \<times> page" where
  "LanguageSelect_handleContinue selected s = (''/select-persona'', s\<lparr>as_selectedLang := Some selected\<rparr>)"

definition PERSONAS :: "string list" where
  "PERSONAS = [''market_woman'', ''artisan'', ''small_trader'', ''personal'', ''student'', ''elder'', ''business'']"

definition PersonaSelect_handleContinue :: "string \<Rightarrow> page \<Rightarrow> string \<times> page" where
  "PersonaSelect_handleContinue selected s =
     (''/login'', s\<lparr>as_selectedPersona := Some selected, as_onboardingDone := True\<rparr>)"

text \<open>The links of the bar at the bottom and of the dashboard.\<close>

definition NAV_ITEMS :: "string list" where
  "NAV_ITEMS = [''/dashboard'', ''/cards'', ''/loans'', ''/rewards'', ''/profile'']"

definition ACTIONS :: "string list" where
  "ACTIONS = [''/transfer'', ''/bills/airtime'', ''/bills'', ''/savings'']"

text \<open>A tab of the browser: the session, the path and the state of the screens of a first visit.\<close>

record tab =
  tb_page :: page
  tb_path :: string
  tb_slide :: nat
  tb_lang :: string
  tb_persona :: string

definition mountedTab :: "page \<Rightarrow> string \<Rightarrow> tab" where
  "mountedTab s path = \<lparr>tb_page = s, tb_path = path, tb_slide = 0, tb_lang = ''en'', tb_persona = ''personal''\<rparr>"

text \<open>What the user can do on the screens before the login; the redirects are followed at once.\<close>

datatype press = PressNext | PressSkip | PressDot nat | PressLanguage string | PressPersona string | PressContinue

definition pressed :: "screen \<Rightarrow> press \<Rightarrow> tab \<Rightarrow> tab" where
  "pressed x e t =
     (case x of
        OnboardingFlow \<Rightarrow>
          (case e of
             PressNext \<Rightarrow>
               (case OnboardingFlow_handleNext (tb_slide t) of Inl p \<Rightarrow> t\<lparr>tb_path := p\<rparr> | Inr n \<Rightarrow> t\<lparr>tb_slide := n\<rparr>)
           | PressSkip \<Rightarrow> if tb_slide t \<noteq> SLIDES - 1 then t\<lparr>tb_path := handleSkip\<rparr> else t
           | PressDot i \<Rightarrow> if i < SLIDES then t\<lparr>tb_slide := i\<rparr> else t
           | _ \<Rightarrow> t)
      | LanguageSelect \<Rightarrow>
          (case e of
             PressLanguage l \<Rightarrow> if l \<in> set LANGUAGES then t\<lparr>tb_lang := l\<rparr> else t
           | PressContinue \<Rightarrow>
               (let (p, s) = LanguageSelect_handleContinue (tb_lang t) (tb_page t) in t\<lparr>tb_page := s, tb_path := p\<rparr>)
           | _ \<Rightarrow> t)
      | PersonaSelect \<Rightarrow>
          (case e of
             PressPersona q \<Rightarrow> if q \<in> set PERSONAS then t\<lparr>tb_persona := q\<rparr> else t
           | PressContinue \<Rightarrow>
               (let (p, s) = PersonaSelect_handleContinue (tb_persona t) (tb_page t) in t\<lparr>tb_page := s, tb_path := p\<rparr>)
           | _ \<Rightarrow> t)
      | _ \<Rightarrow> t)"

text \<open>
  A turn of the tab: a press on the screen that is shown, the end of the splash screen's timer, an
  address typed in, or a change of the session by everything else the client does.
\<close>

inductive tab_turn :: "(string list \<Rightarrow> string \<Rightarrow> string option) \<Rightarrow> tab \<Rightarrow> tab \<Rightarrow> bool" for pick where
  press: "follow pick (tb_page t) 2 (tb_path t) = Some (p, x) \<Longrightarrow> tab_turn pick t (pressed x e (t\<lparr>tb_path := p\<rparr>))"
| splash: "follow pick (tb_page t) 2 (tb_path t) = Some (p, SplashScreen) \<Longrightarrow>
    tab_turn pick t (t\<lparr>tb_path := SplashScreen_target (tb_page t)\<rparr>)"
| address: "tab_turn pick t (mountedTab (reload (tb_page t)) p)"
| session: "as_onboardingDone s = as_onboardingDone (tb_page t) \<Longrightarrow> as_selectedLang s = as_selectedLang (tb_page t) \<Longrightarrow>
    as_selectedPersona s = as_selectedPersona (tb_page t) \<Longrightarrow> tab_turn pick t (t\<lparr>tb_page := s\<rparr>)"

section \<open>Every path ends at a screen\<close>

definition needs_login :: "screen \<Rightarrow> bool" where
  "needs_login x \<longleftrightarrow> x \<notin> {SplashScreen, OnboardingFlow, LanguageSelect, PersonaSelect, LoginScreen, SignupScreen}"

definition patterns :: "string list" where
  "patterns = map fst (appRoutes initialPage)"

lemma patterns_same: "map fst (appRoutes s) = patterns"
  by (simp add: patterns_def appRoutes_def)

lemma routed:
  assumes "router_ok pick" and "p \<in> set patterns"
  shows "AppRoutes pick s p = (case map_of (appRoutes s) p of None \<Rightarrow> Navigate ''/'' | Some e \<Rightarrow> e)"
  using assms by (simp add: AppRoutes_def patterns_same router_ok_def)

lemma route_elements:
  assumes "p \<in> set patterns"
  obtains (shown) x where "map_of (appRoutes s) p = Some (Screen x)"
      "needs_login x \<longrightarrow> as_isLoggedIn s" "x = LoginScreen \<or> x = SignupScreen \<longrightarrow> \<not> as_isLoggedIn s"
  | (login) "map_of (appRoutes s) p = Some (Navigate ''/login'')" "\<not> as_isLoggedIn s"
  | (home) "map_of (appRoutes s) p = Some (Navigate ''/dashboard'')" "as_isLoggedIn s"
  using assms
  by (cases "as_isLoggedIn s") (auto simp: patterns_def appRoutes_def ProtectedRoute_def PublicRoute_def needs_login_def)

lemma fixed_paths:
  assumes "router_ok pick"
  shows "AppRoutes pick s ''/'' = Screen SplashScreen"
    "AppRoutes pick s ''/onboarding'' = Screen OnboardingFlow"
    "AppRoutes pick s ''/select-language'' = Screen LanguageSelect"
    "AppRoutes pick s ''/select-persona'' = Screen PersonaSelect"
    "AppRoutes pick s ''/login'' = (if as_isLoggedIn s then Navigate ''/dashboard'' else Screen LoginScreen)"
    "AppRoutes pick s ''/dashboard'' = (if as_isLoggedIn s then Screen DashboardScreen else Navigate ''/login'')"
  by (simp_all add: routed [OF assms] patterns_def appRoutes_def PublicRoute_def ProtectedRoute_def)

text \<open>
  C26. Whatever is typed into the address bar and whatever the session, at most one redirect leads to a
  screen: no redirect goes round in a circle. A screen of a customer is only ever shown to a session
  that is logged in, the forms for login and registration only to one that is not.
\<close>

theorem every_path_ends:
  assumes "router_ok pick"
  shows "\<exists>p x. follow pick s 2 path = Some (p, x) \<and> (p = path \<or> p \<in> {''/'', ''/login'', ''/dashboard''}) \<and>
    (needs_login x \<longrightarrow> as_isLoggedIn s) \<and> (x = LoginScreen \<or> x = SignupScreen \<longrightarrow> \<not> as_isLoggedIn s)"
proof -
  note fixed = fixed_paths [OF assms] numeral_2_eq_2 needs_login_def
  show ?thesis
  proof (cases "pick patterns path")
    case None
    then have "AppRoutes pick s path = Navigate ''/''" by (simp add: AppRoutes_def patterns_same)
    then show ?thesis by (simp add: fixed)
  next
    case (Some q)
    with assms have q: "q \<in> set patterns" by (auto simp: router_ok_def)
    have at: "AppRoutes pick s path = (case map_of (appRoutes s) q of None \<Rightarrow> Navigate ''/'' | Some e \<Rightarrow> e)"
      using Some by (simp add: AppRoutes_def patterns_same)
    from q show ?thesis
    proof (cases rule: route_elements [of q s])
      case (shown x)
      then show ?thesis by (simp add: at numeral_2_eq_2)
    qed (simp_all add: at fixed)
  qed
qed

text \<open>The start shows the routes at once exactly when it has no token to exchange.\<close>

lemma ready_without_exchange: "useAuthBootstrap (reload s) \<longleftrightarrow> fst (bootstrap (reload s)) = None"
  by (auto simp: useAuthBootstrap_def bootstrap_def refreshAccessToken_def reload_def initialPage_def truthy_def
      split: option.splits)

text \<open>A session that could not be refreshed ends at the login, wherever it was.\<close>

lemma expired_shows_login:
  "router_ok pick \<Longrightarrow> follow pick (refresh_catch s) 2 (expiredSettled False path) = Some (''/login'', LoginScreen)"
  by (simp add: fixed_paths expiredSettled_def refresh_catch_def logout_def numeral_2_eq_2)

text \<open>No link of the client leads to the splash screen again.\<close>

lemma links_known: "set (NAV_ITEMS @ ACTIONS) \<subseteq> set patterns"
  by (simp add: NAV_ITEMS_def ACTIONS_def patterns_def appRoutes_def)

section \<open>The choices of a first visit\<close>

text \<open>The slide that is shown exists, and only what was offered has been chosen.\<close>

definition tab_inv :: "tab \<Rightarrow> bool" where
  "tab_inv t \<longleftrightarrow> tb_slide t < SLIDES \<and> tb_lang t \<in> set LANGUAGES \<and> tb_persona t \<in> set PERSONAS \<and>
     set_option (as_selectedLang (tb_page t)) \<subseteq> set LANGUAGES \<and>
     set_option (as_selectedPersona (tb_page t)) \<subseteq> set PERSONAS \<and>
     (as_onboardingDone (tb_page t) \<longrightarrow> as_selectedPersona (tb_page t) \<noteq> None)"

lemma pressed_inv: "tab_inv t \<Longrightarrow> tab_inv (pressed x e t)"
  by (auto simp: pressed_def tab_inv_def OnboardingFlow_handleNext_def LanguageSelect_handleContinue_def
      PersonaSelect_handleContinue_def SLIDES_def split: screen.split press.split)

interpretation browsing: event_loop "tab_turn pick" "mountedTab initialPage path" tab_inv for pick path
proof
  show "tab_inv (mountedTab initialPage path)"
    by (simp add: tab_inv_def mountedTab_def initialPage_def SLIDES_def LANGUAGES_def PERSONAS_def)
next
  fix t t' assume "tab_turn pick t t'" "tab_inv t"
  then show "tab_inv t'"
  proof (induction rule: tab_turn.induct)
    case (press t p x e)
    then have "tab_inv (t\<lparr>tb_path := p\<rparr>)" by (simp add: tab_inv_def)
    then show ?case by (rule pressed_inv)
  qed (auto simp: tab_inv_def mountedTab_def reload_def initialPage_def SLIDES_def LANGUAGES_def PERSONAS_def)
qed

text \<open>
  However somebody browses, the slide that is shown exists, and a session has only a language and a
  persona that were offered; one that is past the first visit has a persona.
\<close>

theorem choices_offered:
  assumes "(tab_turn pick)\<^sup>*\<^sup>* (mountedTab initialPage path) t"
  shows "tb_slide t < SLIDES \<and>
    set_option (as_selectedLang (tb_page t)) \<subseteq> set LANGUAGES \<and>
    set_option (as_selectedPersona (tb_page t)) \<subseteq> set PERSONAS \<and>
    (as_onboardingDone (tb_page t) \<longrightarrow> as_selectedPersona (tb_page t) \<noteq> None)"
  using browsing.always [OF assms] by (simp add: tab_inv_def)

text \<open>Presses one after the other, on the screen that is shown then.\<close>

primrec presses :: "(string list \<Rightarrow> string \<Rightarrow> string option) \<Rightarrow> press list \<Rightarrow> tab \<Rightarrow> tab" where
  "presses pick [] t = t"
| "presses pick (e # es) t =
     presses pick es
       (case follow pick (tb_page t) 2 (tb_path t) of None \<Rightarrow> t | Some (p, x) \<Rightarrow> pressed x e (t\<lparr>tb_path := p\<rparr>))"

lemma presses_append: "presses pick (es @ fs) t = presses pick fs (presses pick es t)"
  by (induction es arbitrary: t) simp_all

lemma slides_end:
  assumes "router_ok pick" and "tb_path t = ''/onboarding''" and "tb_slide t + n = SLIDES - 1"
  shows "presses pick (replicate (Suc n) PressNext) t = t\<lparr>tb_slide := SLIDES - 1, tb_path := ''/select-language''\<rparr>"
  using assms(2,3)
proof (induction n arbitrary: t)
  case 0
  then show ?case by (simp add: fixed_paths [OF assms(1)] numeral_2_eq_2 pressed_def OnboardingFlow_handleNext_def)
next
  case (Suc n)
  let ?t = "t\<lparr>tb_slide := tb_slide t + 1\<rparr>"
  have "presses pick (replicate (Suc (Suc n)) PressNext) t = presses pick (replicate (Suc n) PressNext) ?t"
    using Suc.prems by (simp add: fixed_paths [OF assms(1)] numeral_2_eq_2 pressed_def OnboardingFlow_handleNext_def SLIDES_def)
  also have "\<dots> = ?t\<lparr>tb_slide := SLIDES - 1, tb_path := ''/select-language''\<rparr>"
    by (rule Suc.IH) (use Suc.prems in simp_all)
  finally show ?case by simp
qed

text \<open>
  The first visit comes to its end from every slide: once for every slide left, the button leads on to
  the languages; with a language and a persona chosen the session has both, the visit is over, and the
  login is shown. A reload keeps the choices and comes to the login at once.
\<close>

theorem first_visit_completes:
  assumes "router_ok pick" and "tb_path t = ''/onboarding''" and "tb_slide t < SLIDES" and "\<not> as_isLoggedIn (tb_page t)"
    and "l \<in> set LANGUAGES" and "q \<in> set PERSONAS"
  shows "\<exists>t'. presses pick (replicate (SLIDES - tb_slide t) PressNext @
        [PressLanguage l, PressContinue, PressPersona q, PressContinue]) t = t' \<and>
    follow pick (tb_page t') 2 (tb_path t') = Some (''/login'', LoginScreen) \<and>
    as_selectedLang (reload (tb_page t')) = Some l \<and> as_selectedPersona (reload (tb_page t')) = Some q \<and>
    SplashScreen_target (reload (tb_page t')) = ''/login''"
proof -
  define n where "n = SLIDES - 1 - tb_slide t"
  have n: "SLIDES - tb_slide t = Suc n" "tb_slide t + n = SLIDES - 1" using assms(3) by (simp_all add: n_def SLIDES_def)
  show ?thesis
    unfolding presses_append n(1) slides_end [OF assms(1,2) n(2)] using assms(4-6)
    by (simp add: fixed_paths [OF assms(1)] numeral_2_eq_2 pressed_def LanguageSelect_handleContinue_def PersonaSelect_handleContinue_def
        reload_def initialPage_def SplashScreen_target_def)
qed

section \<open>Examples\<close>

definition literally :: "string list \<Rightarrow> string \<Rightarrow> string option" where
  "literally ps p = (if p \<in> set ps then Some p else None)"

lemma literally_ok: "router_ok literally"
  by (simp add: router_ok_def literally_def)

theorem every_path_ends_witness:
  "(\<exists>p x. follow literally initialPage 2 ''/transfer'' = Some (p, x) \<and> \<not> needs_login x) \<and>
   follow literally initialPage 2 ''/transfer'' = Some (''/login'', LoginScreen) \<and>
   follow literally initialPage 2 ''/setup-pin'' = Some (''/'', SplashScreen)"
proof -
  have "follow literally initialPage 2 ''/transfer'' = Some (''/login'', LoginScreen)"
    "follow literally initialPage 2 ''/setup-pin'' = Some (''/'', SplashScreen)" by code_simp+
  moreover have "\<not> as_isLoggedIn initialPage" by (simp add: initialPage_def)
  ultimately show ?thesis using every_path_ends [OF literally_ok, of initialPage "''/transfer''"] by auto
qed

theorem choices_offered_witness:
  "tb_slide (mountedTab initialPage ''/'') < SLIDES"
  using choices_offered [OF rtranclp.rtrancl_refl] by blast

theorem first_visit_completes_witness:
  "\<exists>t' :: tab. follow literally (tb_page t') 2 (tb_path t') = Some (''/login'', LoginScreen) \<and>
     as_selectedLang (reload (tb_page t')) = Some ''ig''"
proof -
  let ?t = "mountedTab initialPage ''/onboarding''"
  have "tb_path ?t = ''/onboarding''" "tb_slide ?t < SLIDES" "\<not> as_isLoggedIn (tb_page ?t)"
    "''ig'' \<in> set LANGUAGES" "''student'' \<in> set PERSONAS"
    by (simp_all add: mountedTab_def initialPage_def SLIDES_def LANGUAGES_def PERSONAS_def)
  from first_visit_completes [OF literally_ok this] show ?thesis by blast
qed

end
