(* ===== verification/PinScreens.thy ===== *)
theory PinScreens
  imports AuthScreens
begin

text \<open>
  The screens for one-time codes and PINs of the web client (\<^verbatim>\<open>frontend/src/features/auth/VerifyOtp.jsx\<close>,
  \<^verbatim>\<open>SetupPin.jsx\<close>, \<^verbatim>\<open>components/OtpInput.jsx\<close>, \<^verbatim>\<open>components/PinPad.jsx\<close>), which are kept for later and which no
  route reaches.
\<close>

section \<open>Input of digits\<close>

definition OTP_LENGTH :: nat where
  "OTP_LENGTH = 6"

text \<open>
  What the boxes give to their owner, and the box that gets the focus, if it changes. A box behind the
  end of the value makes holes in the array, which \<open>join\<close> closes.
\<close>

definition OtpInput_handleChange :: "string \<Rightarrow> string \<Rightarrow> nat \<Rightarrow> string \<times> nat option" where
  "OtpInput_handleChange val typed index =
     (let digit = (case rev (filter is_digit typed) of [] \<Rightarrow> [] | d # ds \<Rightarrow> [d]);
          joined = (if index < length val then take index val @ digit @ drop (Suc index) val else val @ digit)
      in (joined, if digit \<noteq> [] \<and> index < OTP_LENGTH - 1 then Some (index + 1) else None))"

definition handleKeyDown :: "string \<Rightarrow> bool \<Rightarrow> nat \<Rightarrow> nat option" where
  "handleKeyDown val backspace index =
     (if backspace \<and> \<not> index < length val \<and> index > 0 then Some (index - 1) else None)"

definition handlePaste :: "string \<Rightarrow> string \<times> nat" where
  "handlePaste text = (let pasted = take OTP_LENGTH (filter is_digit text) in (pasted, min (length pasted) (OTP_LENGTH - 1)))"

text \<open>The keys of the pad, and what a key gives to its owner, if anything.\<close>

datatype pinKey = DigitKey char | EmptyKey | BackspaceKey

definition KEYS :: "pinKey list" where
  "KEYS = map DigitKey ''123456789'' @ [EmptyKey, DigitKey (CHR ''0''), BackspaceKey]"

definition PinPad_handleKey :: "nat \<Rightarrow> bool \<Rightarrow> string \<Rightarrow> pinKey \<Rightarrow> string option" where
  "PinPad_handleKey maxLength disabled val key =
     (if disabled then None
      else case key of
             BackspaceKey \<Rightarrow> Some (butlast val)
           | EmptyKey \<Rightarrow> None
           | DigitKey d \<Rightarrow> if maxLength \<le> length val then None else Some (val @ [d]))"

section \<open>The PIN\<close>

datatype pinStep = EnterPin | ConfirmPin

record setupPin =
  sp_step :: pinStep
  sp_pin :: string
  sp_confirmPin :: string
  sp_isLoading :: bool
  sp_error :: string

definition setupPinMounted :: setupPin where
  "setupPinMounted = \<lparr>sp_step = EnterPin, sp_pin = [], sp_confirmPin = [], sp_isLoading = False, sp_error = []\<rparr>"

definition currentPin :: "setupPin \<Rightarrow> string" where
  "currentPin s = (if sp_step s = ConfirmPin then sp_confirmPin s else sp_pin s)"

text \<open>The PIN that is sent, if one is, and the screen after it.\<close>

definition handleConfirmComplete :: "string \<Rightarrow> setupPin \<Rightarrow> string option \<times> setupPin" where
  "handleConfirmComplete confirmedPin s =
     (if confirmedPin \<noteq> sp_pin s then
        (None, s\<lparr>sp_error := ''PINs do not match. Please try again.'', sp_confirmPin := [], sp_step := EnterPin, sp_pin := []\<rparr>)
      else (Some confirmedPin, s\<lparr>sp_isLoading := True, sp_error := []\<rparr>))"

definition handlePinChange :: "string \<Rightarrow> setupPin \<Rightarrow> string option \<times> setupPin" where
  "handlePinChange val s0 =
     (let s = s0\<lparr>sp_error := []\<rparr>
      in if sp_step s = ConfirmPin then
           (let s' = s\<lparr>sp_confirmPin := val\<rparr>
            in if length val = 6 then handleConfirmComplete val s' else (None, s'))
         else
           (let s' = s\<lparr>sp_pin := val\<rparr>
            in (None, if length val = 6 then s'\<lparr>sp_step := ConfirmPin\<rparr> else s')))"

definition pinRefused :: "string \<Rightarrow> setupPin \<Rightarrow> setupPin" where
  "pinRefused message s =
     s\<lparr>sp_error := orMessage message ''Could not set PIN. Please try again.'', sp_confirmPin := [], sp_pin := [],
       sp_step := EnterPin, sp_isLoading := False\<rparr>"

definition pinAccepted :: "authUserDto \<Rightarrow> string \<Rightarrow> page \<Rightarrow> page" where
  "pinAccepted user accessToken s = setToken accessToken (setUser user s)"

text \<open>
  The screen at work, with the PINs it has sent, those that were complete in the first step, and the
  number of answers. An accepted PIN leaves the screen.
\<close>

record pinRun =
  pn_screen :: setupPin
  pn_sent :: "string list"
  pn_entered :: "string list"
  pn_answers :: nat

definition pinChanged :: "string \<Rightarrow> pinRun \<Rightarrow> pinRun" where
  "pinChanged val r =
     (let (sent, s) = handlePinChange val (pn_screen r)
      in r\<lparr>pn_screen := s, pn_sent := pn_sent r @ (case sent of None \<Rightarrow> [] | Some p \<Rightarrow> [p]),
           pn_entered := pn_entered r @ (if sp_step (pn_screen r) = EnterPin \<and> length val = 6 then [val] else [])\<rparr>)"

inductive pin_turn :: "pinRun \<Rightarrow> pinRun \<Rightarrow> bool" where
  key: "key \<in> set KEYS \<Longrightarrow> PinPad_handleKey 6 (sp_isLoading (pn_screen r)) (currentPin (pn_screen r)) key = Some val \<Longrightarrow>
    pin_turn r (pinChanged val r)"
| refused: "sp_isLoading (pn_screen r) \<Longrightarrow>
    pin_turn r (r\<lparr>pn_screen := pinRefused message (pn_screen r), pn_answers := Suc (pn_answers r)\<rparr>)"

definition pinStart :: pinRun where
  "pinStart = \<lparr>pn_screen = setupPinMounted, pn_sent = [], pn_entered = [], pn_answers = 0\<rparr>"

definition pin_inv :: "pinRun \<Rightarrow> bool" where
  "pin_inv r \<longleftrightarrow>
     (let s = pn_screen r
      in list_all is_digit (sp_pin s) \<and> list_all is_digit (sp_confirmPin s) \<and>
         (if sp_step s = ConfirmPin
          then length (sp_pin s) = 6 \<and> sp_pin s \<in> set (pn_entered r) \<and>
            (if sp_isLoading s then sp_confirmPin s = sp_pin s else length (sp_confirmPin s) < 6)
          else length (sp_pin s) < 6 \<and> sp_confirmPin s = [] \<and> \<not> sp_isLoading s) \<and>
         list_all (\<lambda>p. length p = 6 \<and> list_all is_digit p \<and> p \<in> set (pn_entered r)) (pn_sent r) \<and>
         length (pn_sent r) = pn_answers r + (if sp_isLoading s then 1 else 0))"

lemma key_digits:
  assumes "PinPad_handleKey 6 disabled v key = Some val" and "key \<in> set KEYS" and "list_all is_digit v" and "length v \<le> 6"
  shows "\<not> disabled" "list_all is_digit val" "length val \<le> 6"
  using assms
  by (auto simp: PinPad_handleKey_def KEYS_def is_digit_def list_all_iff dest: in_set_butlastD split: if_splits pinKey.splits)

lemma pinChanged_inv:
  assumes "pin_inv r" and "\<not> sp_isLoading (pn_screen r)" and "list_all is_digit val" and "length val \<le> 6"
  shows "pin_inv (pinChanged val r)"
  using assms
  by (cases "sp_step (pn_screen r)")
    (auto simp: pin_inv_def pinChanged_def handlePinChange_def handleConfirmComplete_def Let_def list_all_iff)

interpretation pins: event_loop pin_turn pinStart pin_inv
proof
  show "pin_inv pinStart" by (simp add: pin_inv_def pinStart_def setupPinMounted_def)
next
  fix r r' assume "pin_turn r r'" "pin_inv r"
  then show "pin_inv r'"
  proof (induction rule: pin_turn.induct)
    case (key k r val)
    have "list_all is_digit (currentPin (pn_screen r))" "length (currentPin (pn_screen r)) \<le> 6"
      using key(3) by (auto simp: pin_inv_def currentPin_def Let_def split: if_splits)
    from key_digits [OF key(2,1) this] key(3) show ?case by (intro pinChanged_inv)
  qed (auto simp: pin_inv_def pinRefused_def Let_def split: if_splits)
qed

text \<open>
  However the pad is used and whatever the answers: every PIN that is sent has six digits, was
  complete in the first step and typed the same again in the second, and no PIN is sent while the
  answer to another is awaited.
\<close>

theorem pin_typed_twice:
  assumes "pin_turn\<^sup>*\<^sup>* pinStart r" and "pin_turn r r'" and "pn_sent r' = pn_sent r @ [p]"
  shows "length p = 6 \<and> list_all is_digit p \<and> p = sp_pin (pn_screen r) \<and> p = sp_confirmPin (pn_screen r') \<and>
    p \<in> set (pn_entered r) \<and> sp_step (pn_screen r) = ConfirmPin \<and> length (pn_sent r) = pn_answers r"
proof -
  from pins.always [OF assms(1)] have inv: "pin_inv r" .
  from pins.always [OF rtranclp.rtrancl_into_rtrancl [OF assms(1,2)]] have inv': "pin_inv r'" .
  from assms(2,3) show ?thesis
  proof cases
    case (key k val)
    have "list_all is_digit (currentPin (pn_screen r))" "length (currentPin (pn_screen r)) \<le> 6"
      using inv by (auto simp: pin_inv_def currentPin_def Let_def split: if_splits)
    from key_digits [OF key(3,2) this] have "\<not> sp_isLoading (pn_screen r)" by simp
    with key(1) assms(3) inv inv' show ?thesis
      by (cases "sp_step (pn_screen r)")
        (auto simp: pinChanged_def handlePinChange_def handleConfirmComplete_def pin_inv_def Let_def split: if_splits)
  qed simp
qed

section \<open>The code\<close>

definition RESEND_SECONDS :: nat where
  "RESEND_SECONDS = 60"

record verifyOtp =
  vo_otp :: string
  vo_isLoading :: bool
  vo_error :: string
  vo_countdown :: nat
  vo_isResending :: bool

definition verifyOtpMounted :: verifyOtp where
  "verifyOtpMounted =
     \<lparr>vo_otp = [], vo_isLoading = False, vo_error = [], vo_countdown = RESEND_SECONDS, vo_isResending = False\<rparr>"

text \<open>The code that is sent, if one is, and the screen after it.\<close>

definition handleVerify :: "verifyOtp \<Rightarrow> string option \<times> verifyOtp" where
  "handleVerify s =
     (if length (vo_otp s) < 6 then (None, s) else (Some (vo_otp s), s\<lparr>vo_isLoading := True, vo_error := []\<rparr>))"

text \<open>The effect on \<open>otp\<close> runs when its value has changed.\<close>

definition setOtp :: "string \<Rightarrow> verifyOtp \<Rightarrow> string option \<times> verifyOtp" where
  "setOtp otp s =
     (let s' = s\<lparr>vo_otp := otp\<rparr> in if otp \<noteq> vo_otp s \<and> length otp = 6 then handleVerify s' else (None, s'))"

definition verifyRefused :: "string \<Rightarrow> verifyOtp \<Rightarrow> verifyOtp" where
  "verifyRefused message s =
     s\<lparr>vo_error := orMessage message ''Invalid OTP. Please try again.'', vo_otp := [], vo_isLoading := False\<rparr>"

definition handleResend :: "verifyOtp \<Rightarrow> verifyOtp" where
  "handleResend s = s\<lparr>vo_isResending := True, vo_error := []\<rparr>"

definition resendSettled :: "string option \<Rightarrow> verifyOtp \<Rightarrow> verifyOtp" where
  "resendSettled failure s =
     (case failure of
        None \<Rightarrow> s\<lparr>vo_countdown := RESEND_SECONDS, vo_otp := [], vo_isResending := False\<rparr>
      | Some message \<Rightarrow> s\<lparr>vo_error := orMessage message ''Could not resend OTP.'', vo_isResending := False\<rparr>)"

definition tickCountdown :: "verifyOtp \<Rightarrow> verifyOtp" where
  "tickCountdown s = (if vo_countdown s = 0 then s else s\<lparr>vo_countdown := vo_countdown s - 1\<rparr>)"

text \<open>
  The screen at work, with the codes sent, the answers, the codes sent again and the seconds counted
  down. The boxes are disabled while a code is verified, the buttons as the code says.
\<close>

record otpRun =
  ot_screen :: verifyOtp
  ot_sent :: "string list"
  ot_answers :: nat
  ot_resent :: nat
  ot_seconds :: nat

definition otpSends :: "string option \<times> verifyOtp \<Rightarrow> otpRun \<Rightarrow> otpRun" where
  "otpSends e r = r\<lparr>ot_screen := snd e, ot_sent := ot_sent r @ (case fst e of None \<Rightarrow> [] | Some c \<Rightarrow> [c])\<rparr>"

inductive otp_turn :: "otpRun \<Rightarrow> otpRun \<Rightarrow> bool" where
  typed: "\<not> vo_isLoading (ot_screen r) \<Longrightarrow> index < OTP_LENGTH \<Longrightarrow>
    otp_turn r (otpSends (setOtp (fst (OtpInput_handleChange (vo_otp (ot_screen r)) typed index)) (ot_screen r)) r)"
| pasted: "\<not> vo_isLoading (ot_screen r) \<Longrightarrow> otp_turn r (otpSends (setOtp (fst (handlePaste text)) (ot_screen r)) r)"
| clicked: "\<not> (length (vo_otp (ot_screen r)) < 6 \<or> vo_isLoading (ot_screen r)) \<Longrightarrow>
    otp_turn r (otpSends (handleVerify (ot_screen r)) r)"
| refused: "vo_isLoading (ot_screen r) \<Longrightarrow>
    otp_turn r (r\<lparr>ot_screen := verifyRefused message (ot_screen r), ot_answers := Suc (ot_answers r)\<rparr>)"
| resend: "vo_countdown (ot_screen r) = 0 \<Longrightarrow> \<not> vo_isResending (ot_screen r) \<Longrightarrow>
    otp_turn r (r\<lparr>ot_screen := handleResend (ot_screen r)\<rparr>)"
| resent: "vo_isResending (ot_screen r) \<Longrightarrow>
    otp_turn r (r\<lparr>ot_screen := resendSettled failure (ot_screen r), ot_resent := ot_resent r + (if failure = None then 1 else 0)\<rparr>)"
| tick: "vo_countdown (ot_screen r) \<noteq> 0 \<Longrightarrow>
    otp_turn r (r\<lparr>ot_screen := tickCountdown (ot_screen r), ot_seconds := Suc (ot_seconds r)\<rparr>)"

definition otpStart :: otpRun where
  "otpStart = \<lparr>ot_screen = verifyOtpMounted, ot_sent = [], ot_answers = 0, ot_resent = 0, ot_seconds = 0\<rparr>"

definition otp_inv :: "otpRun \<Rightarrow> bool" where
  "otp_inv r \<longleftrightarrow>
     (let s = ot_screen r
      in list_all is_digit (vo_otp s) \<and> length (vo_otp s) \<le> 6 \<and>
         list_all (\<lambda>c. length c = 6 \<and> list_all is_digit c) (ot_sent r) \<and>
         length (ot_sent r) = ot_answers r + (if vo_isLoading s then 1 else 0) \<and>
         vo_countdown s \<le> RESEND_SECONDS \<and> (vo_isResending s \<longrightarrow> vo_countdown s = 0) \<and>
         ot_seconds r = RESEND_SECONDS * ot_resent r + (RESEND_SECONDS - vo_countdown s))"

lemma boxes_digits:
  assumes v: "list_all is_digit v" "length v \<le> 6" and "index < OTP_LENGTH"
  shows "list_all is_digit (fst (OtpInput_handleChange v typed index)) \<and> length (fst (OtpInput_handleChange v typed index)) \<le> 6"
proof -
  define d where "d = (case rev (filter is_digit typed) of [] \<Rightarrow> [] | x # xs \<Rightarrow> [x])"
  have "list_all is_digit d \<and> length d \<le> 1"
  proof (cases "rev (filter is_digit typed)")
    case (Cons x xs)
    then have "x \<in> set (filter is_digit typed)" by (metis list.set_intros(1) set_rev)
    then have "is_digit x" by simp
    then show ?thesis unfolding d_def Cons by simp
  qed (simp add: d_def)
  moreover have "list_all is_digit (take n v) \<and> list_all is_digit (drop n v)" for n
    using v(1) by (metis append_take_drop_id list_all_append)
  moreover have "fst (OtpInput_handleChange v typed index) =
      (if index < length v then take index v @ d @ drop (Suc index) v else v @ d)"
    by (simp add: OtpInput_handleChange_def Let_def d_def)
  ultimately show ?thesis using v assms(3) by (auto simp: OTP_LENGTH_def)
qed

lemma pasted_digits: "list_all is_digit (fst (handlePaste text)) \<and> length (fst (handlePaste text)) \<le> 6"
  by (auto simp: handlePaste_def Let_def OTP_LENGTH_def list_all_iff dest: in_set_takeD)

lemma setOtp_inv:
  assumes "otp_inv r" and "\<not> vo_isLoading (ot_screen r)" and "list_all is_digit otp \<and> length otp \<le> 6"
  shows "otp_inv (otpSends (setOtp otp (ot_screen r)) r)"
  using assms by (auto simp: otp_inv_def otpSends_def setOtp_def handleVerify_def Let_def)

interpretation otps: event_loop otp_turn otpStart otp_inv
proof
  show "otp_inv otpStart" by (simp add: otp_inv_def otpStart_def verifyOtpMounted_def)
next
  fix r r' assume "otp_turn r r'" "otp_inv r"
  then show "otp_inv r'"
  proof (induction rule: otp_turn.induct)
    case (typed r index s)
    have "list_all is_digit (vo_otp (ot_screen r))" "length (vo_otp (ot_screen r)) \<le> 6"
      using typed(3) by (simp_all add: otp_inv_def Let_def)
    from setOtp_inv [OF typed(3,1) boxes_digits [OF this typed(2)]] show ?case .
  next
    case (pasted r t)
    from setOtp_inv [OF pasted(2,1) pasted_digits] show ?case .
  next
    case (clicked r)
    then show ?case by (auto simp: otp_inv_def otpSends_def handleVerify_def Let_def)
  next
    case (resent r failure)
    then show ?case by (cases failure) (auto simp: otp_inv_def resendSettled_def Let_def)
  next
    case (tick r)
    then show ?case by (auto simp: otp_inv_def tickCountdown_def Let_def)
  qed (auto simp: otp_inv_def verifyRefused_def handleResend_def Let_def)
qed

text \<open>
  However the boxes and buttons are used: every code that is sent has six digits, at most one waits for
  its answer, and between two codes that are sent again a minute is counted down.
\<close>

theorem otp_screen_sends:
  assumes "otp_turn\<^sup>*\<^sup>* otpStart r"
  shows "list_all (\<lambda>c. length c = 6 \<and> list_all is_digit c) (ot_sent r) \<and>
    length (ot_sent r) \<le> Suc (ot_answers r) \<and> 60 * ot_resent r \<le> ot_seconds r"
  using otps.always [OF assms] by (auto simp: otp_inv_def Let_def RESEND_SECONDS_def split: if_splits)

text \<open>
  A digit typed into a box behind the next free one lands in the next free one, and clearing a box
  moves all digits behind it: the boxes show another code than was typed.
\<close>

theorem boxes_shift:
  "fst (OtpInput_handleChange ''12'' ''9'' 4) = ''129'' \<and> fst (OtpInput_handleChange ''123456'' [] 2) = ''12456''"
  by (simp add: OtpInput_handleChange_def is_digit_def)

section \<open>Examples\<close>

definition pressDigit :: "char \<Rightarrow> pinRun \<Rightarrow> pinRun" where
  "pressDigit d r = pinChanged (currentPin (pn_screen r) @ [d]) r"

lemma pressDigit_turn:
  assumes "DigitKey d \<in> set KEYS" and "\<not> sp_isLoading (pn_screen r) \<and> length (currentPin (pn_screen r)) < 6"
  shows "pin_turn r (pressDigit d r)"
  unfolding pressDigit_def by (rule pin_turn.key [OF assms(1)]) (use assms(2) in \<open>simp add: PinPad_handleKey_def\<close>)

definition firstEntry :: "nat \<Rightarrow> pinRun" where
  "firstEntry n = pinStart\<lparr>pn_screen := setupPinMounted\<lparr>sp_pin := replicate n (CHR ''1'')\<rparr>\<rparr>"

definition secondEntry :: "nat \<Rightarrow> pinRun" where
  "secondEntry n = pinStart\<lparr>pn_entered := [replicate 6 (CHR ''1'')], pn_screen := setupPinMounted
     \<lparr>sp_step := ConfirmPin, sp_pin := replicate 6 (CHR ''1''), sp_confirmPin := replicate n (CHR ''1'')\<rparr>\<rparr>"

lemma entries:
  "n < 5 \<Longrightarrow> pressDigit (CHR ''1'') (firstEntry n) = firstEntry (Suc n)"
  "pressDigit (CHR ''1'') (firstEntry 5) = secondEntry 0"
  "n < 5 \<Longrightarrow> pressDigit (CHR ''1'') (secondEntry n) = secondEntry (Suc n)"
  "pn_sent (pressDigit (CHR ''1'') (secondEntry 5)) = [replicate 6 (CHR ''1'')]"
  by (simp_all add: firstEntry_def secondEntry_def pressDigit_def pinChanged_def currentPin_def handlePinChange_def
      handleConfirmComplete_def pinStart_def setupPinMounted_def Let_def replicate_append_same numeral_eq_Suc)

lemma entry_turn:
  "n < 6 \<Longrightarrow> pin_turn (firstEntry n) (pressDigit (CHR ''1'') (firstEntry n))"
  "n < 6 \<Longrightarrow> pin_turn (secondEntry n) (pressDigit (CHR ''1'') (secondEntry n))"
  by (rule pressDigit_turn; simp add: KEYS_def firstEntry_def secondEntry_def currentPin_def pinStart_def setupPinMounted_def)+

theorem pin_typed_twice_witness:
  "\<exists>r r'. pin_turn\<^sup>*\<^sup>* pinStart r \<and> pin_turn r r' \<and> pn_sent r' = [''111111''] \<and> ''111111'' \<in> set (pn_entered r)"
proof -
  have first: "pin_turn\<^sup>*\<^sup>* pinStart (firstEntry n)" if "n \<le> 5" for n
    using that
  proof (induction n)
    case (Suc n)
    with entry_turn(1) [of n] entries(1) [of n] show ?case by (auto intro: rtranclp.rtrancl_into_rtrancl)
  qed (simp add: firstEntry_def pinStart_def setupPinMounted_def)
  have second: "pin_turn\<^sup>*\<^sup>* pinStart (secondEntry n)" if "n \<le> 5" for n
    using that
  proof (induction n)
    case 0
    show ?case using first [of 5] entry_turn(1) [of 5] entries(2) by (auto intro: rtranclp.rtrancl_into_rtrancl)
  next
    case (Suc n)
    with entry_turn(2) [of n] entries(3) [of n] show ?case by (auto intro: rtranclp.rtrancl_into_rtrancl)
  qed
  let ?r = "secondEntry 5"
  have turn: "pin_turn ?r (pressDigit (CHR ''1'') ?r)" by (rule entry_turn) simp
  have sent: "pn_sent (pressDigit (CHR ''1'') ?r) = [''111111'']" using entries(4) by (simp add: numeral_eq_Suc)
  moreover have "pn_sent ?r = []" by (simp add: secondEntry_def pinStart_def)
  ultimately have "pn_sent (pressDigit (CHR ''1'') ?r) = pn_sent ?r @ [''111111'']" by (simp only: append_Nil)
  from pin_typed_twice [OF second [OF order_refl] turn this] have "''111111'' \<in> set (pn_entered ?r)" by blast
  with sent turn second [OF order_refl] show ?thesis by blast
qed

theorem otp_screen_sends_witness: "60 * ot_resent otpStart \<le> ot_seconds otpStart"
  using otp_screen_sends [OF rtranclp.rtrancl_refl] by blast

end
