(* ===== verification/Spec2Isabelle.thy ===== *)
theory Spec2Isabelle
  imports ExternalTransfer Idempotency Auth KycServices SanctionsSeed Gateway Bank Session Requests TransferScreen
    ClaimRace Lockout Screens AuthScreens TierSeed PayoutAdapter Safety
    Navigation PinScreens
begin

text \<open>
  A verification library of the Kudi AI Bank: the backend (TypeScript, NestJS, Prisma; \<^verbatim>\<open>modules\<close>,
  \<^verbatim>\<open>shared\<close>, \<^verbatim>\<open>gateway\<close>, \<^verbatim>\<open>infrastructure\<close>, \<^verbatim>\<open>apps/web-api\<close>) and the web client
  (\<^verbatim>\<open>frontend/src\<close>). All paths are those of the repository.

  The program. A request passes the guards of \<^verbatim>\<open>gateway\<close> and the validation of its body, and reaches a
  controller of a module; the controller calls a command or query handler; the handler loads aggregates
  through repositories, changes them in memory, saves them and publishes the events they have
  collected. Four modules share the database: identity (users, refresh tokens), accounts, compliance
  (KYC profiles, audit log, sanctions list) and transfers (internal ones in one database transaction,
  external ones as a saga around the payout provider, confirmed by its webhook). Money that moves is
  also posted to a double-entry ledger, and commands that a client may retry are guarded by
  idempotency keys.

  How code becomes definitions. An asynchronous method is a computation (theory Comp): a function of
  the world that gives an exception or a value, and the world after it. The world (theory World) holds
  one list of rows per table of \<^verbatim>\<open>infrastructure/prisma/schema.prisma\<close>, the published events and a counter
  of the steps taken; an environment says, for each step, what the clock shows, which random values
  are drawn and whether the database fails there, before or after the statement took effect.
  Statements about a run hold for every environment, so for every placement of failures; an
  environment without failures is called faultless where a property needs the database to answer.
  Aggregates and value objects are records and datatypes, their operations functions that return
  \<open>Inl\<close> an exception or \<open>Inr\<close> the new value. \<open>bigint\<close> is int, with the range of the database column
  checked where a row is written. A timestamp is int, in milliseconds.

  The theories.
  \<^item> Prelude, Comp, Strings: JavaScript strings and digits, the results and computations all components
    are written in, with the rules (stepping, Hoare triples, preservation) the proofs use.
  \<^item> Enums, Exceptions, Money: \<^verbatim>\<open>shared/enums\<close>, \<^verbatim>\<open>shared/exceptions\<close>, \<^verbatim>\<open>shared/value-objects\<close>. Decimal
    amounts are read exactly and written back the same.
  \<^item> World, Store: the database, events, clock; optimistic locking, with the contract \<open>versioned_store\<close>
    that the account and the KYC repository are interpretations of.
  \<^item> Accounts, AccountOps, Bank: \<^verbatim>\<open>modules/accounts\<close>. The aggregate and the history it replays to; its
    repository, number generator, balance guard and handlers, with the invariant of the table and the
    effect of every command; the abstract bank the commands refine.
  \<^item> Kyc, KycServices, SanctionsSeed, TierSeed: \<^verbatim>\<open>modules/compliance\<close> and the seeding scripts of
    \<^verbatim>\<open>infrastructure/prisma\<close>. The profile and what backs its tier; verification, overrides, screening and
    audit; the sanctions file; what seeding the tier limits leaves of the limits in force.
  \<^item> Ledger: \<^verbatim>\<open>shared/ledger\<close>. Balanced postings, running balances.
  \<^item> Idempotency: \<^verbatim>\<open>shared/idempotency\<close>. The store of keys, whose contract is \<open>idempotency_store\<close>
    (\<open>lossy_store\<close> where the database may fail), and the guard.
  \<^item> ClaimRace: the same store statement by statement. Attempts on one key that interleave with each other, with
    the ends of the claim and with the rest of the system, and how many statements they need.
  \<^item> Transfers, TransferServices, InternalTransfer, ExternalTransfer: \<^verbatim>\<open>modules/transfers\<close>. The state
    machine; fees (contract \<open>fee_calculator\<close>), limits, provider and queries; the executor, all or
    nothing and conserving money; the saga, the confirmation and the webhook.
  \<^item> PayoutAdapter: \<^verbatim>\<open>integrations/payment-gateway/flutterwave/transfers\<close>, the adapter to the payout
    provider over an HTTP library, and what the saga makes of an answer that does not arrive.
  \<^item> Users, Auth: \<^verbatim>\<open>modules/identity\<close>. Users with their lockout, refresh tokens and their rotation,
    registration, login, refresh, logout, change of password.
  \<^item> Lockout: how many wrong passwords sequences of logins can have answered.
  \<^item> Gateway, Requests: \<^verbatim>\<open>gateway\<close>, the controllers, the classes of \<^verbatim>\<open>application/dto\<close>. Which requests are
    served, what the whole API can do to roles, and what validated bodies guarantee.
  \<^item> Frames, Safety: the composition. What each module leaves alone, as a hierarchy of locales over
    predicates of the world (\<open>frame\<close>, \<open>kyc_frame\<close>, \<open>account_frame\<close>, \<open>identity_frame\<close>), and with it what every
    sequence of requests keeps: the balance of everybody who has sent none, and the invariants of all
    modules together.
  \<^item> JsNumber: the Number arithmetic of the amount field (parsing, rounding, printing), with NaN and
    Infinity.
  \<^item> Session, Navigation, TransferScreen, Screens, AuthScreens, PinScreens: \<^verbatim>\<open>frontend/src\<close>. The session with
    its shared refresh, the routes with their gates and the first visit, the transfer screen with its key
    and polling (and what the backend makes of a visit), the screens of unbuilt features, registration,
    login, identity verification, and the screens for one-time codes and PINs that no route reaches. A
    screen is the record of its state, a handler a function on it up to the next answer, and a turn of the
    event loop a step of an inductive relation, so that properties hold for every order of clicks and
    answers.

  Bounds and fuel. The generator of account numbers makes ten attempts, as the code does. The
  self-call of \<open>tryAcquire\<close> has fuel 3; \<open>Idempotency.acquire_alone\<close> shows that the deeper call is
  never reached where requests run one at a time, whatever the database does, and \<open>ClaimRace\<close>, where it can be
  reached, needs no fuel: the attempt is a machine there. Nothing else is bounded.

  Parameters. Code outside of the repository is an argument: the HTTP library under the payout adapter
  and the client of the verification provider, bcrypt, jsonwebtoken, SHA-256 and HMAC, passport, the
  tests for e-mail addresses and UUIDs of class-validator, the bills screen's \<open>parseFloat\<close> with \<open>toFixed\<close>, the router's
  matching of paths. Hypotheses on them are named in the theorems: identifiers drawn at random are new, signing works, a password hash is recognised.

  Not modelled. Requests on the server that interleave statement by statement (optimistic locking and
  the idempotency keys are shown to withstand interleaved saves and claims, the rest runs one request
  at a time); the random identifier of events and their delivery after publication; the interceptors,
  the request-id middleware and the pipe of the gateway, which no application installs; throttling, which
  is a library's; configuration, dependency injection and start-up; foreign keys of the schema;
  rendering and styles of the client and its formatting of numbers and dates with the browser's \<open>Intl\<close>.
\<close>

end
